(* ===== verification/Prelude.thy ===== *)
theory Prelude
  imports Main "HOL-Library.Word"
begin

text \<open>
  Shared vocabulary of the development: the C integer types of the nRF52840 target (a 32-bit
  little-endian Cortex-M4), the result type for code that can run into undefined behaviour, the
  little-endian byte layout of words, and the word lemmas that the component theories use.

  A C expression whose evaluation is undefined (an access outside an object, a division by zero, a
  shift by the width or more, a null dereference, a signed overflow, an access through a pointer
  that is not aligned for its type) has the value \<open>Inl\<close> of the
  reason; a defined one has the value \<open>Inr\<close> of its result.
\<close>

unbundle bit_operations_syntax

section \<open>C integer types\<close>

type_synonym u8 = "8 word"
type_synonym u16 = "16 word"
type_synonym u32 = "32 word"
type_synonym u64 = "64 word"

text \<open>The signed types have the same representation; \<open>sint\<close> reads their value.\<close>

type_synonym s8 = "8 word"
type_synonym s16 = "16 word"
type_synonym s32 = "32 word"
type_synonym s64 = "64 word"

section \<open>Undefined behaviour as a value\<close>

text \<open>A failed assertion, which resets the device, is a value of the same type.\<close>

datatype ub =
    Oob_read
  | Oob_write
  | Oob_fetch
  | Div_zero
  | Shift_range
  | Null_deref
  | Signed_overflow
  | Uninit_read
  | Wrong_object
  | Use_after_free
  | Misaligned
  | Invalid_free
  | Assert_failed

type_synonym 'a cres = "ub + 'a"

definition c_bind :: "'a cres \<Rightarrow> ('a \<Rightarrow> 'b cres) \<Rightarrow> 'b cres" where
  "c_bind m f = (case m of Inl e \<Rightarrow> Inl e | Inr x \<Rightarrow> f x)"

lemma c_bind_simps [simp]:
  "c_bind (Inl e) f = Inl e"
  "c_bind (Inr x) f = f x"
  by (simp_all add: c_bind_def)

lemma c_bind_Inr_iff: "c_bind m f = Inr y \<longleftrightarrow> (\<exists>x. m = Inr x \<and> f x = Inr y)"
  by (cases m) auto

lemma c_bind_Inl_iff: "c_bind m f = Inl e \<longleftrightarrow> m = Inl e \<or> (\<exists>x. m = Inr x \<and> f x = Inl e)"
  by (cases m) auto

lemma c_bind_cong [fundef_cong]:
  "m = m' \<Longrightarrow> (\<And>x. m' = Inr x \<Longrightarrow> f x = g x) \<Longrightarrow> c_bind m f = c_bind m' g"
  by (cases m') simp_all

lemma c_bind_weak: "x = y \<Longrightarrow> c_bind x f = c_bind y f"
  by simp

lemma map_sum_Inr_iff: "map_sum f g x = Inr y \<longleftrightarrow> (\<exists>z. x = Inr z \<and> g z = y)"
  by (cases x) auto

lemma replicate8: "replicate 8 x = [x, x, x, x, x, x, x, x]"
  by (simp add: eval_nat_numeral)

lemma c_bind_assoc: "c_bind (c_bind m f) g = c_bind m (\<lambda>x. c_bind (f x) g)"
  by (cases m) auto

text \<open>A store into a C array held as a list: writing past its end is undefined.\<close>

definition c_array_set :: "'a list \<Rightarrow> nat \<Rightarrow> 'a \<Rightarrow> 'a list cres" where
  "c_array_set xs i x = (if i < length xs then Inr (xs[i := x]) else Inl Oob_write)"

definition c_array_get :: "'a list \<Rightarrow> nat \<Rightarrow> 'a cres" where
  "c_array_get xs i = (if i < length xs then Inr (xs ! i) else Inl Oob_read)"

lemma c_array_set_ok [simp]: "i < length xs \<Longrightarrow> c_array_set xs i x = Inr (xs[i := x])"
  by (simp add: c_array_set_def)

lemma c_array_get_ok [simp]: "i < length xs \<Longrightarrow> c_array_get xs i = Inr (xs ! i)"
  by (simp add: c_array_get_def)

lemma c_array_set_length: "c_array_set xs i x = Inr ys \<Longrightarrow> length ys = length xs"
  by (auto simp: c_array_set_def split: if_splits)

section \<open>Little-endian layout\<close>

definition le_bytes :: "nat \<Rightarrow> 'a::len word \<Rightarrow> u8 list" where
  "le_bytes n w = map (\<lambda>i. ucast (drop_bit (8 * i) w)) [0..<n]"

fun le_join :: "u8 list \<Rightarrow> u64" where
  "le_join [] = 0"
| "le_join (b # bs) = ucast b OR push_bit 8 (le_join bs)"

lemma length_le_bytes [simp]: "length (le_bytes n w) = n"
  by (simp add: le_bytes_def)

lemma nth_le_bytes [simp]: "i < n \<Longrightarrow> le_bytes n w ! i = ucast (drop_bit (8 * i) w)"
  by (simp add: le_bytes_def)

lemma bit_le_join:
  "bit (le_join bs) k \<longleftrightarrow> k < 64 \<and> k div 8 < length bs \<and> bit (bs ! (k div 8)) (k mod 8)"
proof (induction bs arbitrary: k)
  case Nil
  then show ?case by simp
next
  case (Cons b bs)
  show ?case
  proof (cases "k < 8")
    case True
    then show ?thesis
      by (auto simp: bit_or_iff bit_push_bit_iff bit_ucast_iff)
  next
    case False
    then have k: "k div 8 = Suc ((k - 8) div 8)" "k mod 8 = (k - 8) mod 8"
      by (auto simp: le_div_geq le_mod_geq)
    with False show ?thesis
      by (auto simp: bit_or_iff bit_push_bit_iff bit_ucast_iff Cons.IH dest: bit_imp_le_length)
  qed
qed

lemma le_join_le_bytes:
  fixes w :: "'a::len word"
  assumes "LENGTH('a) \<le> 64" "LENGTH('a) = 8 * n"
  shows "le_join (le_bytes n w) = ucast w"
proof (rule bit_word_eqI)
  fix k assume "k < LENGTH(64)"
  have split: "8 * (k div 8) + k mod 8 = k" by simp
  show "bit (le_join (le_bytes n w)) k \<longleftrightarrow> bit (ucast w :: u64) k"
  proof (cases "k < 8 * n")
    case True
    then have "k div 8 < n" by (simp add: less_mult_imp_div_less mult.commute)
    with True split show ?thesis
      using assms by (simp add: bit_le_join bit_ucast_iff bit_drop_bit_eq)
  next
    case False
    then have "\<not> k div 8 < n" by (simp add: not_less le_div_geq div_le_mono)
    with False show ?thesis
      using assms by (auto simp: bit_le_join bit_ucast_iff dest: bit_imp_le_length)
  qed
qed

lemma le_join_le_bytes_u32 [simp]: "le_join (le_bytes 4 (w :: u32)) = ucast w"
  by (rule le_join_le_bytes) simp_all

section \<open>Word lemmas\<close>

lemma ucast_up_down:
  fixes x :: "'a::len word"
  assumes "LENGTH('a) \<le> LENGTH('b::len)"
  shows "ucast (ucast x :: 'b word) = x"
  using assms by (auto intro!: bit_word_eqI simp: bit_ucast_iff)

lemma ucast_up_down_simps [simp]:
  "ucast (ucast (x :: u16) :: u64) = x"
  "ucast (ucast (y :: u32) :: u64) = y"
  "ucast (ucast (z :: u8) :: u64) = z"
  "ucast (ucast (z :: u8) :: u32) = z"
  "ucast (ucast (x :: u16) :: u32) = x"
  by (simp_all add: ucast_up_down)

lemma shift_pair_sext [simp]:
  "signed_drop_bit 32 (push_bit 32 (ucast (w :: u32)) :: u64) = scast w"
  by (rule bit_word_eqI) (auto simp: bit_signed_drop_bit_iff bit_push_bit_iff bit_ucast_iff bit_signed_iff
      dest: bit_imp_le_length)

lemma shift_pair_zext [simp]:
  "drop_bit 32 (push_bit 32 (x :: u64)) = ucast (ucast x :: u32)"
  by (rule bit_word_eqI) (auto simp: bit_drop_bit_eq bit_push_bit_iff bit_ucast_iff)

lemma sint_scast_u32 [simp]: "sint (scast (w :: u32) :: u64) = sint w"
  by (simp add: sint_up_scast is_up)

lemma take_bit_add_narrow:
  assumes "m \<le> n"
  shows "take_bit m (take_bit n x + take_bit n y) = take_bit m (x + y :: int)"
proof -
  have "take_bit m (take_bit n x + take_bit n y) =
    take_bit m (take_bit m (take_bit n x) + take_bit m (take_bit n y))"
    by (simp only: take_bit_add)
  also have "\<dots> = take_bit m (x + y)"
    using assms by (simp add: take_bit_add min_absorb1)
  finally show ?thesis .
qed

lemma ucast_add_down: "(ucast (x + y :: u64) :: u32) = ucast x + ucast y"
  by transfer (simp add: take_bit_add_narrow)

lemma ucast_eq_numeral_u32:
  "(ucast (w :: u32) :: u64) = 0 \<longleftrightarrow> w = 0"
  "(ucast (w :: u32) :: u64) = 1 \<longleftrightarrow> w = 1"
  using ucast_up_down_simps(2) [of w] by (auto simp del: ucast_up_down_simps)

lemma ucast_sub_down: "(ucast (x - y :: u64) :: u32) = ucast x - ucast y"
proof -
  have "(ucast x :: u32) = ucast ((x - y) + y)" by simp
  then show ?thesis unfolding ucast_add_down by simp
qed

lemma sint_small: "uint (I :: s32) < 2 ^ 31 \<Longrightarrow> sint I = uint I"
  unfolding sint_uint by (rule signed_take_bit_int_eq_self) (simp_all add: order_trans [OF _ uint_ge_0])

lemma scast_small: "uint (I :: s32) < 2 ^ 31 \<Longrightarrow> (scast I :: u64) = ucast I"
  by (metis scast_eq sint_small ucast_eq)

lemma ucast_scast_off: "(ucast (scast (w :: s16) :: u64) :: u32) = word_of_int (sint w)"
  by (rule bit_word_eqI) (auto simp: bit_ucast_iff bit_signed_iff bit_word_of_int_iff bit_sint_iff)

lemma unat_of_int_u32: "0 \<le> k \<Longrightarrow> k < 2 ^ 32 \<Longrightarrow> unat (word_of_int k :: u32) = nat k"
  by (simp add: unat_eq_nat_uint uint_word_of_int)

section \<open>Sequencing\<close>

text \<open>Steps that may not return (\<open>None\<close>) or have undefined behaviour (\<open>Inl\<close>).\<close>

definition m_bind :: "'a cres option \<Rightarrow> ('a \<Rightarrow> 'b cres option) \<Rightarrow> 'b cres option" where
  "m_bind m f = (case m of None \<Rightarrow> None | Some (Inl e) \<Rightarrow> Some (Inl e) | Some (Inr x) \<Rightarrow> f x)"

lemma m_bind_simps [simp]:
  "m_bind None f = None" "m_bind (Some (Inl e)) f = Some (Inl e)" "m_bind (Some (Inr x)) f = f x"
  by (simp_all add: m_bind_def)

text \<open>A computation that returns, without undefined behaviour, a value with a property.\<close>

definition returns :: "'a cres option \<Rightarrow> ('a \<Rightarrow> bool) \<Rightarrow> bool" where
  "returns m P \<longleftrightarrow> (\<exists>x. m = Some (Inr x) \<and> P x)"

named_theorems returns_rules

lemma returns_Inr [simp]: "returns (Some (Inr x)) P = P x"
  by (simp add: returns_def)

lemma returns_if [returns_rules]:
  "(b \<Longrightarrow> returns m P) \<Longrightarrow> (\<not> b \<Longrightarrow> returns n P) \<Longrightarrow> returns (if b then m else n) P"
  by simp

lemma returns_read [returns_rules]: "m = Inr x \<Longrightarrow> returns (f x) P \<Longrightarrow> returns (m_bind (Some m) f) P"
  by simp

lemma returns_bind: "returns m Q \<Longrightarrow> (\<And>x. Q x \<Longrightarrow> returns (f x) P) \<Longrightarrow> returns (m_bind m f) P"
  by (auto simp: returns_def)

section \<open>Reading buffers\<close>

text \<open>Reads of a buffer at an offset; past its end they are undefined behaviour.\<close>

definition read8 :: "u8 list \<Rightarrow> nat \<Rightarrow> u8 cres" where
  "read8 bs i = (if i < length bs then Inr (bs ! i) else Inl Oob_read)"

definition read_le16 :: "u8 list \<Rightarrow> nat \<Rightarrow> u16 cres" where
  "read_le16 bs i = (if i + 1 < length bs then Inr (ucast (le_join (take 2 (drop i bs)))) else Inl Oob_read)"

definition read_mem :: "u8 list \<Rightarrow> nat \<Rightarrow> nat \<Rightarrow> u8 list cres" where
  "read_mem bs i n = (if i + n \<le> length bs then Inr (take n (drop i bs)) else Inl Oob_read)"

definition le16_at :: "u8 list \<Rightarrow> nat \<Rightarrow> nat" where
  "le16_at bs i = unat (bs ! i) + 256 * unat (bs ! (i + 1))"

lemma take2_drop: "Suc i < length bs \<Longrightarrow> take 2 (drop i bs) = [bs ! i, bs ! Suc i]"
  by (simp add: numeral_2_eq_2 take_Suc_conv_app_nth drop_Suc [symmetric])

lemma le_join_u16: "(ucast (le_join [a, b]) :: u16) = ucast a + 256 * ucast b"
proof -
  have "(ucast (le_join [a, b]) :: u16) = ucast a OR push_bit 8 (ucast b)"
    by (auto intro!: bit_word_eqI simp: bit_ucast_iff bit_or_iff bit_push_bit_iff)
  also have "\<dots> = ucast a + push_bit 8 (ucast b)"
    by (rule disjunctive_add [symmetric]) (auto simp: bit_ucast_iff bit_push_bit_iff dest: bit_imp_le_length)
  finally show ?thesis by (simp add: push_bit_eq_mult mult.commute)
qed

lemma unat_le_join_u16: "unat (ucast (le_join [a, b]) :: u16) = unat a + 256 * unat b"
proof -
  have "unat a < 256" "unat b < 256" using unsigned_less [of a] unsigned_less [of b] by simp_all
  then show ?thesis
    by (simp add: le_join_u16 unat_word_ariths unsigned_ucast_eq take_bit_eq_mod del: le_join.simps)
qed

lemma read_le16_ok:
  assumes "i + 1 < length bs"
  shows "\<exists>w. read_le16 bs i = Inr w \<and> unat w = le16_at bs i"
  using assms by (simp add: read_le16_def take2_drop unat_le_join_u16 le16_at_def del: le_join.simps)

lemma sint_u16 [simp]: "sint (ucast (v :: u16) :: s32) = uint v"
proof -
  have "uint v < 2 ^ 16" using unsigned_less [of v] by simp
  then show ?thesis by (subst sint_small) (simp_all add: unsigned_ucast_eq take_bit_eq_mod)
qed

lemma ucast_u16_eq:
  "(ucast (v :: u16) :: s32) = 0 \<longleftrightarrow> unat v = 0" "(ucast (v :: u16) :: s32) = 1 \<longleftrightarrow> v = 1"
proof -
  have "unat v < 65536" using unsigned_less [of v, where 'a = nat] by simp
  then show "(ucast v :: s32) = 0 \<longleftrightarrow> unat v = 0" "(ucast v :: s32) = 1 \<longleftrightarrow> v = 1"
    using word_unat_eq_iff [of "ucast v :: s32" 0] word_unat_eq_iff [of "ucast v :: s32" 1] word_unat_eq_iff [of v 1]
    by (simp_all add: unsigned_ucast_eq take_bit_eq_mod)
qed

lemma u16_compare:
  "uint (v :: u16) < numeral k \<longleftrightarrow> unat v < numeral k" "numeral k < uint v \<longleftrightarrow> numeral k < unat v"
  "1 < uint v \<longleftrightarrow> Suc 0 < unat v"
proof -
  have v: "uint v = int (unat v)" by simp
  have n: "int n < numeral k \<longleftrightarrow> n < numeral k" "numeral k < int n \<longleftrightarrow> numeral k < n" "1 < int n \<longleftrightarrow> Suc 0 < n" for n
    by simp_all
  show "uint v < numeral k \<longleftrightarrow> unat v < numeral k" "numeral k < uint v \<longleftrightarrow> numeral k < unat v"
      "1 < uint v \<longleftrightarrow> Suc 0 < unat v"
    unfolding v by (rule n)+
qed

section \<open>Alignment\<close>

text \<open>The address \<open>a\<close> is suitable for an object whose alignment is \<open>n\<close>.\<close>

definition aligned :: "'a::len word \<Rightarrow> nat \<Rightarrow> bool" where
  "aligned a n \<longleftrightarrow> unat a mod n = 0"

lemma aligned_dvd: "aligned a n \<longleftrightarrow> n dvd unat a"
  by (simp add: aligned_def mod_eq_0_iff_dvd)

lemma aligned_weaken: "aligned a n \<Longrightarrow> m dvd n \<Longrightarrow> aligned a m"
  by (auto simp: aligned_dvd)

lemma aligned_add:
  fixes a b :: "'a::len word"
  assumes "aligned a n" "n dvd 2 ^ LENGTH('a)"
  shows "aligned (a + b) n \<longleftrightarrow> aligned b n"
  using assms by (simp add: aligned_dvd unat_word_ariths dvd_mod_iff dvd_add_right_iff)

lemma aligned_down:
  assumes "n dvd 2 ^ 32"
  shows "aligned (ucast (x :: u64) :: u32) n \<longleftrightarrow> aligned x n"
  using assms by (simp add: aligned_dvd unsigned_ucast_eq take_bit_eq_mod dvd_mod_iff)

lemma aligned_base:
  assumes "aligned (mp :: u32) n" "n dvd 2 ^ 32"
  shows "aligned (ucast ((ucast mp :: u64) + x) :: u32) n \<longleftrightarrow> aligned x n"
proof -
  have "(ucast ((ucast mp :: u64) + x) :: u32) = mp + ucast x"
    by (simp add: ucast_add_down)
  then show ?thesis using assms by (simp add: aligned_add aligned_down)
qed

end
