(* ===== verification/Fsm_State.thy ===== *)
theory Fsm_State
  imports Prelude
begin

text \<open>
  The protocol state of \<^verbatim>\<open>firewall/include/fsm_core.h\<close>: its enumerations with their numbering,
  \<open>struct FsmState\<close>, and the byte layout of that structure, which the eBPF policies read through
  word loads. An \<open>int\<close> array element is a 32-bit word; \<open>sint\<close> reads its value.
\<close>

section \<open>Enumerations\<close>

datatype IFW_FSM_LL_STATE =
    IFW_BLE_LL_CONNECTION_STATE | IFW_BLE_LL_STANDBY_STATE | IFW_BLE_LL_ADVERTISING_STATE
  | IFW_BLE_LL_SCANNING_STATE | IFW_BLE_LL_INITIATING_STATE | IFW_BLE_LL_SYNCHRONIZATION_STATE
  | IFW_BLE_LL_ISOCHRONOUS_BROADCASTING_STATE | IFW_BLE_LL_STATE_NUM

fun ll_state_code :: "IFW_FSM_LL_STATE \<Rightarrow> u16" where
  "ll_state_code IFW_BLE_LL_CONNECTION_STATE = 0"
| "ll_state_code IFW_BLE_LL_STANDBY_STATE = 1"
| "ll_state_code IFW_BLE_LL_ADVERTISING_STATE = 2"
| "ll_state_code IFW_BLE_LL_SCANNING_STATE = 3"
| "ll_state_code IFW_BLE_LL_INITIATING_STATE = 4"
| "ll_state_code IFW_BLE_LL_SYNCHRONIZATION_STATE = 5"
| "ll_state_code IFW_BLE_LL_ISOCHRONOUS_BROADCASTING_STATE = 6"
| "ll_state_code IFW_BLE_LL_STATE_NUM = 7"

datatype IFW_FSM_PAIRING_MODE = IFW_BLE_SSP | IFW_BLE_SC | IFW_BLE_PAIRING_MODE_NUM

fun pairing_mode_code :: "IFW_FSM_PAIRING_MODE \<Rightarrow> u16" where
  "pairing_mode_code IFW_BLE_SSP = 0"
| "pairing_mode_code IFW_BLE_SC = 1"
| "pairing_mode_code IFW_BLE_PAIRING_MODE_NUM = 2"

datatype IFW_FSM_PAIRING_METHOD =
    IFW_BLE_JUST_WORKS | IFW_BLE_OOB | IFW_BLE_NUMERIC_COMPAIRISON | IFW_BLE_PASSKEY_ENTRY
  | IFW_BLE_PAIRING_METHOD_NUM

fun pairing_method_code :: "IFW_FSM_PAIRING_METHOD \<Rightarrow> u16" where
  "pairing_method_code IFW_BLE_JUST_WORKS = 0"
| "pairing_method_code IFW_BLE_OOB = 1"
| "pairing_method_code IFW_BLE_NUMERIC_COMPAIRISON = 2"
| "pairing_method_code IFW_BLE_PASSKEY_ENTRY = 3"
| "pairing_method_code IFW_BLE_PAIRING_METHOD_NUM = 4"

datatype IFW_FSM_BLE_ROLE =
    IFW_BLE_ROLE_OBSERVER | IFW_BLE_ROLE_BROADCASTER | IFW_BLE_ROLE_CENTRAL
  | IFW_BLE_ROLE_PERIPHERAL | IFW_BLE_ROLE_INITIATOR | IFW_BLE_ROLE_SCANNER
  | IFW_BLE_ROLE_ADVERTISER | IFW_BLE_ROLE_NUM

fun ble_role_code :: "IFW_FSM_BLE_ROLE \<Rightarrow> u16" where
  "ble_role_code IFW_BLE_ROLE_OBSERVER = 0"
| "ble_role_code IFW_BLE_ROLE_BROADCASTER = 1"
| "ble_role_code IFW_BLE_ROLE_CENTRAL = 2"
| "ble_role_code IFW_BLE_ROLE_PERIPHERAL = 3"
| "ble_role_code IFW_BLE_ROLE_INITIATOR = 4"
| "ble_role_code IFW_BLE_ROLE_SCANNER = 5"
| "ble_role_code IFW_BLE_ROLE_ADVERTISER = 6"
| "ble_role_code IFW_BLE_ROLE_NUM = 7"

datatype IFW_IO_CAPACITY =
    DISPLAY_ONLY | DISPLAY_YESNO | KEYBOARD_ONLY | NOINPUT_NOOUTPUT | KEYBOARD_DISPLAY | RESERVED
  | IFW_IO_CAPACITY_NUM

fun io_capacity_code :: "IFW_IO_CAPACITY \<Rightarrow> u16" where
  "io_capacity_code DISPLAY_ONLY = 0"
| "io_capacity_code DISPLAY_YESNO = 1"
| "io_capacity_code KEYBOARD_ONLY = 2"
| "io_capacity_code NOINPUT_NOOUTPUT = 3"
| "io_capacity_code KEYBOARD_DISPLAY = 4"
| "io_capacity_code RESERVED = 5"
| "io_capacity_code IFW_IO_CAPACITY_NUM = 6"

text \<open>The index enumerations; the last enumerator of each is the length of its array.\<close>

datatype ifw_core_state_type =
    LL_STATE | PAIRING_MODE | PAIRING_METHOD | BLE_ROLE | IO_CAPACITY | IFW_CORE_STATE_NUM

fun core_type :: "ifw_core_state_type \<Rightarrow> u16" where
  "core_type LL_STATE = 0"
| "core_type PAIRING_MODE = 1"
| "core_type PAIRING_METHOD = 2"
| "core_type BLE_ROLE = 3"
| "core_type IO_CAPACITY = 4"
| "core_type IFW_CORE_STATE_NUM = 5"

datatype IFW_SHARED_STATE = BD_ADDR | BONDING | SC | IFW_SHARED_STATE_NUM

fun shared_type :: "IFW_SHARED_STATE \<Rightarrow> u16" where
  "shared_type BD_ADDR = 0"
| "shared_type BONDING = 1"
| "shared_type SC = 2"
| "shared_type IFW_SHARED_STATE_NUM = 3"

datatype IFW_CONN_PARAM =
    CHANNEL_MAP | CHANNEL_HOP | SCAN_RSP_LEN | LLL_INTERVAL | IFW_CONN_PARAM_NUM

fun conn_type :: "IFW_CONN_PARAM \<Rightarrow> u16" where
  "conn_type CHANNEL_MAP = 0"
| "conn_type CHANNEL_HOP = 1"
| "conn_type SCAN_RSP_LEN = 2"
| "conn_type LLL_INTERVAL = 3"
| "conn_type IFW_CONN_PARAM_NUM = 4"

datatype IFW_DC_PARAM =
    SN | NESN | LLCP_LEN_REQ | LLCP_LEN_ACK | LLCP_LEN_RSP_TX | LLCP_LEN_STATE
  | LLCP_CONN_PARAM_REQ | LLCP_CONN_PARAM_ACK | LLCP_CONN_PARAM_STATE
  | SMP_ENC_SIZE_PREV | SMP_METHOD_PREV | SMP_KEYS | SMP_ENC_SIZE | SMP_KEYS_FLAGS
  | DC_ANCHOR_STATE | IFW_DC_PARAM_NUM

fun dc_type :: "IFW_DC_PARAM \<Rightarrow> u16" where
  "dc_type SN = 0"
| "dc_type NESN = 1"
| "dc_type LLCP_LEN_REQ = 2"
| "dc_type LLCP_LEN_ACK = 3"
| "dc_type LLCP_LEN_RSP_TX = 4"
| "dc_type LLCP_LEN_STATE = 5"
| "dc_type LLCP_CONN_PARAM_REQ = 6"
| "dc_type LLCP_CONN_PARAM_ACK = 7"
| "dc_type LLCP_CONN_PARAM_STATE = 8"
| "dc_type SMP_ENC_SIZE_PREV = 9"
| "dc_type SMP_METHOD_PREV = 10"
| "dc_type SMP_KEYS = 11"
| "dc_type SMP_ENC_SIZE = 12"
| "dc_type SMP_KEYS_FLAGS = 13"
| "dc_type DC_ANCHOR_STATE = 14"
| "dc_type IFW_DC_PARAM_NUM = 15"

datatype IFW_SPI_PARAM = HCI_EVT_LEN | HCI_ACL_LEN | IFW_SPI_PARAM_NUM

fun spi_type :: "IFW_SPI_PARAM \<Rightarrow> u16" where
  "spi_type HCI_EVT_LEN = 0"
| "spi_type HCI_ACL_LEN = 1"
| "spi_type IFW_SPI_PARAM_NUM = 2"

datatype IFW_HCI_PARAM = HCI_CMD_BUF | IFW_HCI_PARAM_NUM

fun hci_type :: "IFW_HCI_PARAM \<Rightarrow> u16" where
  "hci_type HCI_CMD_BUF = 0"
| "hci_type IFW_HCI_PARAM_NUM = 1"

datatype ifw_state_class = SHARED | CORE | CONN | DC | SPI | HCI | IFW_STATE_CLASS_NUM

fun class_code :: "ifw_state_class \<Rightarrow> u16" where
  "class_code SHARED = 0"
| "class_code CORE = 1"
| "class_code CONN = 2"
| "class_code DC = 3"
| "class_code SPI = 4"
| "class_code HCI = 5"
| "class_code IFW_STATE_CLASS_NUM = 6"

lemma class_code_inj: "class_code c = class_code d \<longleftrightarrow> c = d"
  by (cases c; cases d; simp)

definition IFW_OPERATION_PASS :: u64 where "IFW_OPERATION_PASS = 0"
definition IFW_OPERATION_REJECT :: u64 where "IFW_OPERATION_REJECT = 1"
abbreviation (input) IFW_UPDATE_SUCCESS :: u64 where "IFW_UPDATE_SUCCESS \<equiv> 0"
abbreviation (input) IFW_UPDATE_ERROR :: u64 where "IFW_UPDATE_ERROR \<equiv> 1"

lemmas ifw_codes = IFW_OPERATION_PASS_def IFW_OPERATION_REJECT_def

section \<open>The structure and its layout\<close>

record FsmState =
  core_state :: "s32 list"
  shared_state :: "s32 list"
  conn_param :: "s32 list"
  dc_param :: "s32 list"
  spi_param :: "s32 list"
  hci_param :: "s32 list"

text \<open>The array lengths of the declaration.\<close>

definition wf_fsm :: "FsmState \<Rightarrow> bool" where
  "wf_fsm st \<longleftrightarrow>
     length (core_state st) = unat (core_type IFW_CORE_STATE_NUM) \<and>
     length (shared_state st) = unat (shared_type IFW_SHARED_STATE_NUM) \<and>
     length (conn_param st) = unat (conn_type IFW_CONN_PARAM_NUM) \<and>
     length (dc_param st) = unat (dc_type IFW_DC_PARAM_NUM) \<and>
     length (spi_param st) = unat (spi_type IFW_SPI_PARAM_NUM) \<and>
     length (hci_param st) = unat (hci_type IFW_HCI_PARAM_NUM)"

text \<open>A zeroed structure (\<open>memset\<close>, or static storage).\<close>

definition fsm_zero :: FsmState where
  "fsm_zero =
     \<lparr>core_state = replicate (unat (core_type IFW_CORE_STATE_NUM)) 0,
      shared_state = replicate (unat (shared_type IFW_SHARED_STATE_NUM)) 0,
      conn_param = replicate (unat (conn_type IFW_CONN_PARAM_NUM)) 0,
      dc_param = replicate (unat (dc_type IFW_DC_PARAM_NUM)) 0,
      spi_param = replicate (unat (spi_type IFW_SPI_PARAM_NUM)) 0,
      hci_param = replicate (unat (hci_type IFW_HCI_PARAM_NUM)) 0\<rparr>"

lemma wf_fsm_zero [simp]: "wf_fsm fsm_zero"
  by (simp add: wf_fsm_def fsm_zero_def)

definition fsm_words :: "FsmState \<Rightarrow> s32 list" where
  "fsm_words st = core_state st @ shared_state st @ conn_param st @ dc_param st @ spi_param st @
     hci_param st"

definition fsm_bytes :: "FsmState \<Rightarrow> u8 list" where
  "fsm_bytes st = concat (map (le_bytes 4) (fsm_words st))"

definition sizeof_FsmState :: nat where
  "sizeof_FsmState = 120"

lemma length_concat_le_bytes: "length (concat (map (le_bytes n) ws)) = n * length ws"
  by (induction ws) simp_all

lemma length_fsm_bytes: "wf_fsm st \<Longrightarrow> length (fsm_bytes st) = sizeof_FsmState"
  by (simp add: fsm_bytes_def fsm_words_def length_concat_le_bytes wf_fsm_def sizeof_FsmState_def)

lemma take_drop_concat_le_bytes:
  "i < length ws \<Longrightarrow> take n (drop (n * i) (concat (map (le_bytes n) ws))) = le_bytes n (ws ! i)"
proof (induction ws arbitrary: i)
  case Nil
  then show ?case by simp
next
  case (Cons w ws)
  then show ?case
    by (cases i) (simp_all add: drop_append)
qed

text \<open>A word load at a multiple of four inside the structure reads the array element there.\<close>

lemma fsm_bytes_word:
  "wf_fsm st \<Longrightarrow> i < 30 \<Longrightarrow> take 4 (drop (4 * i) (fsm_bytes st)) = le_bytes 4 (fsm_words st ! i)"
  unfolding fsm_bytes_def
  by (rule take_drop_concat_le_bytes) (simp add: fsm_words_def wf_fsm_def)

lemma fsm_words_conn: "wf_fsm st \<Longrightarrow> j < 4 \<Longrightarrow> fsm_words st ! (8 + j) = conn_param st ! j"
  by (simp add: fsm_words_def wf_fsm_def nth_append)

lemma fsm_words_dc: "wf_fsm st \<Longrightarrow> j < 15 \<Longrightarrow> fsm_words st ! (12 + j) = dc_param st ! j"
  by (simp add: fsm_words_def wf_fsm_def nth_append)

lemma fsm_words_spi: "wf_fsm st \<Longrightarrow> j < 2 \<Longrightarrow> fsm_words st ! (27 + j) = spi_param st ! j"
  by (simp add: fsm_words_def wf_fsm_def nth_append)

end
