(* ===== verification/Ebpf_Inst.thy ===== *)
theory Ebpf_Inst
  imports Prelude
begin

text \<open>
  The eBPF instruction set of \<^verbatim>\<open>libebpf/ebpf-src/ebpf_inst.h\<close>: the 64-bit instruction format
  (\<open>struct ebpf_inst\<close>), the opcode macros, and the byte-swap helpers of \<^verbatim>\<open>ebpf_types.h\<close>.
  An opcode macro is a value of \<open>ebpf_op\<close>, whose constructors follow the composition of the macros
  (class, operation, operand source or size); \<open>ebpf_op_code\<close> is the byte a macro expands to and
  \<open>ebpf_op_of\<close> is the selection of a \<open>case\<close> label by a \<open>switch\<close> over an opcode byte.
\<close>

section \<open>Opcodes\<close>

datatype alu_op =
    EBPF_ALU_ADD | EBPF_ALU_SUB | EBPF_ALU_MUL | EBPF_ALU_DIV | EBPF_ALU_OR | EBPF_ALU_AND
  | EBPF_ALU_LSH | EBPF_ALU_RSH | EBPF_ALU_MOD | EBPF_ALU_XOR | EBPF_ALU_MOV | EBPF_ALU_ARSH

datatype ebpf_src = EBPF_SRC_IMM | EBPF_SRC_REG

datatype ebpf_size = EBPF_SIZE_W | EBPF_SIZE_H | EBPF_SIZE_B | EBPF_SIZE_DW

datatype jmp_op =
    EBPF_JEQ | EBPF_JGT | EBPF_JGE | EBPF_JSET | EBPF_JNE | EBPF_JSGT | EBPF_JSGE
  | EBPF_JLT | EBPF_JLE | EBPF_JSLT | EBPF_JSLE

datatype ebpf_op =
    OP_ALU alu_op ebpf_src
  | OP_NEG
  | OP_LE
  | OP_BE
  | OP_ALU64 alu_op ebpf_src
  | OP_NEG64
  | OP_LDX ebpf_size
  | OP_ST ebpf_size
  | OP_STX ebpf_size
  | OP_LDDW
  | OP_JA
  | OP_JMP jmp_op ebpf_src
  | OP_CALL
  | OP_EXIT

abbreviation (input) EBPF_CLS_MASK :: u8 where "EBPF_CLS_MASK \<equiv> 0x07"
abbreviation (input) EBPF_CLS_LD :: u8 where "EBPF_CLS_LD \<equiv> 0x00"
abbreviation (input) EBPF_CLS_LDX :: u8 where "EBPF_CLS_LDX \<equiv> 0x01"
abbreviation (input) EBPF_CLS_ST :: u8 where "EBPF_CLS_ST \<equiv> 0x02"
abbreviation (input) EBPF_CLS_STX :: u8 where "EBPF_CLS_STX \<equiv> 0x03"
abbreviation (input) EBPF_CLS_ALU :: u8 where "EBPF_CLS_ALU \<equiv> 0x04"
abbreviation (input) EBPF_CLS_JMP :: u8 where "EBPF_CLS_JMP \<equiv> 0x05"
abbreviation (input) EBPF_CLS_ALU64 :: u8 where "EBPF_CLS_ALU64 \<equiv> 0x07"
abbreviation (input) EBPF_MODE_IMM :: u8 where "EBPF_MODE_IMM \<equiv> 0x00"
abbreviation (input) EBPF_MODE_MEM :: u8 where "EBPF_MODE_MEM \<equiv> 0x60"

fun ebpf_src_code :: "ebpf_src \<Rightarrow> u8" where
  "ebpf_src_code EBPF_SRC_IMM = 0x00"
| "ebpf_src_code EBPF_SRC_REG = 0x08"

fun ebpf_size_code :: "ebpf_size \<Rightarrow> u8" where
  "ebpf_size_code EBPF_SIZE_W = 0x00"
| "ebpf_size_code EBPF_SIZE_H = 0x08"
| "ebpf_size_code EBPF_SIZE_B = 0x10"
| "ebpf_size_code EBPF_SIZE_DW = 0x18"

text \<open>The operation bits as the \<open>EBPF_OP_*\<close> macros spell them.\<close>

fun alu_code :: "alu_op \<Rightarrow> u8" where
  "alu_code EBPF_ALU_ADD = 0x00"
| "alu_code EBPF_ALU_SUB = 0x10"
| "alu_code EBPF_ALU_MUL = 0x20"
| "alu_code EBPF_ALU_DIV = 0x30"
| "alu_code EBPF_ALU_OR = 0x40"
| "alu_code EBPF_ALU_AND = 0x50"
| "alu_code EBPF_ALU_LSH = 0x60"
| "alu_code EBPF_ALU_RSH = 0x70"
| "alu_code EBPF_ALU_MOD = 0x90"
| "alu_code EBPF_ALU_XOR = 0xa0"
| "alu_code EBPF_ALU_MOV = 0xb0"
| "alu_code EBPF_ALU_ARSH = 0xc0"

fun jmp_code :: "jmp_op \<Rightarrow> u8" where
  "jmp_code EBPF_JEQ = 0x10"
| "jmp_code EBPF_JGT = 0x20"
| "jmp_code EBPF_JGE = 0x30"
| "jmp_code EBPF_JSET = 0x40"
| "jmp_code EBPF_JNE = 0x50"
| "jmp_code EBPF_JSGT = 0x60"
| "jmp_code EBPF_JSGE = 0x70"
| "jmp_code EBPF_JLT = 0xa0"
| "jmp_code EBPF_JLE = 0xb0"
| "jmp_code EBPF_JSLT = 0xc0"
| "jmp_code EBPF_JSLE = 0xd0"

fun ebpf_op_code :: "ebpf_op \<Rightarrow> u8" where
  "ebpf_op_code (OP_ALU a s) = EBPF_CLS_ALU OR ebpf_src_code s OR alu_code a"
| "ebpf_op_code OP_NEG = EBPF_CLS_ALU OR 0x80"
| "ebpf_op_code OP_LE = EBPF_CLS_ALU OR ebpf_src_code EBPF_SRC_IMM OR 0xd0"
| "ebpf_op_code OP_BE = EBPF_CLS_ALU OR ebpf_src_code EBPF_SRC_REG OR 0xd0"
| "ebpf_op_code (OP_ALU64 a s) = EBPF_CLS_ALU64 OR ebpf_src_code s OR alu_code a"
| "ebpf_op_code OP_NEG64 = EBPF_CLS_ALU64 OR 0x80"
| "ebpf_op_code (OP_LDX z) = EBPF_CLS_LDX OR EBPF_MODE_MEM OR ebpf_size_code z"
| "ebpf_op_code (OP_ST z) = EBPF_CLS_ST OR EBPF_MODE_MEM OR ebpf_size_code z"
| "ebpf_op_code (OP_STX z) = EBPF_CLS_STX OR EBPF_MODE_MEM OR ebpf_size_code z"
| "ebpf_op_code OP_LDDW = EBPF_CLS_LD OR EBPF_MODE_IMM OR ebpf_size_code EBPF_SIZE_DW"
| "ebpf_op_code OP_JA = EBPF_CLS_JMP OR 0x00"
| "ebpf_op_code (OP_JMP j s) = EBPF_CLS_JMP OR ebpf_src_code s OR jmp_code j"
| "ebpf_op_code OP_CALL = EBPF_CLS_JMP OR 0x80"
| "ebpf_op_code OP_EXIT = EBPF_CLS_JMP OR 0x90"

definition all_alu_ops :: "alu_op list" where
  "all_alu_ops = [EBPF_ALU_ADD, EBPF_ALU_SUB, EBPF_ALU_MUL, EBPF_ALU_DIV, EBPF_ALU_OR, EBPF_ALU_AND,
     EBPF_ALU_LSH, EBPF_ALU_RSH, EBPF_ALU_MOD, EBPF_ALU_XOR, EBPF_ALU_MOV, EBPF_ALU_ARSH]"

definition all_jmp_ops :: "jmp_op list" where
  "all_jmp_ops = [EBPF_JEQ, EBPF_JGT, EBPF_JGE, EBPF_JSET, EBPF_JNE, EBPF_JSGT, EBPF_JSGE,
     EBPF_JLT, EBPF_JLE, EBPF_JSLT, EBPF_JSLE]"

definition all_srcs :: "ebpf_src list" where
  "all_srcs = [EBPF_SRC_IMM, EBPF_SRC_REG]"

definition all_sizes :: "ebpf_size list" where
  "all_sizes = [EBPF_SIZE_W, EBPF_SIZE_H, EBPF_SIZE_B, EBPF_SIZE_DW]"

definition all_ebpf_ops :: "ebpf_op list" where
  "all_ebpf_ops =
     [OP_ALU a s. a \<leftarrow> all_alu_ops, s \<leftarrow> all_srcs] @ [OP_NEG, OP_LE, OP_BE] @
     [OP_ALU64 a s. a \<leftarrow> all_alu_ops, s \<leftarrow> all_srcs] @ [OP_NEG64] @
     map OP_LDX all_sizes @ map OP_ST all_sizes @ map OP_STX all_sizes @ [OP_LDDW, OP_JA] @
     [OP_JMP j s. j \<leftarrow> all_jmp_ops, s \<leftarrow> all_srcs] @ [OP_CALL, OP_EXIT]"

definition ebpf_op_of :: "u8 \<Rightarrow> ebpf_op option" where
  "ebpf_op_of c = find (\<lambda>op. ebpf_op_code op = c) all_ebpf_ops"

lemma set_all_alu_ops [simp]: "set all_alu_ops = UNIV"
  by (auto simp: all_alu_ops_def intro: alu_op.exhaust)

lemma set_all_jmp_ops [simp]: "set all_jmp_ops = UNIV"
  by (auto simp: all_jmp_ops_def intro: jmp_op.exhaust)

lemma set_all_srcs [simp]: "set all_srcs = UNIV"
  by (auto simp: all_srcs_def intro: ebpf_src.exhaust)

lemma set_all_sizes [simp]: "set all_sizes = UNIV"
  by (auto simp: all_sizes_def intro: ebpf_size.exhaust)

lemma all_ebpf_ops_complete: "op \<in> set all_ebpf_ops"
  by (cases op) (simp_all add: all_ebpf_ops_def image_iff)

lemma distinct_ebpf_op_codes: "distinct (map ebpf_op_code all_ebpf_ops)"
  by (simp add: all_ebpf_ops_def all_alu_ops_def all_jmp_ops_def all_srcs_def all_sizes_def)

lemma ebpf_op_code_inj: "ebpf_op_code a = ebpf_op_code b \<longleftrightarrow> a = b"
  using distinct_ebpf_op_codes all_ebpf_ops_complete
  by (auto simp: distinct_map inj_on_def)

lemma ebpf_op_of_iff: "ebpf_op_of c = Some op \<longleftrightarrow> ebpf_op_code op = c"
proof
  show "ebpf_op_of c = Some op \<Longrightarrow> ebpf_op_code op = c"
    by (auto simp: ebpf_op_of_def find_Some_iff)
next
  assume *: "ebpf_op_code op = c"
  then have "ebpf_op_of c \<noteq> None"
    using all_ebpf_ops_complete by (auto simp: ebpf_op_of_def find_None_iff)
  then obtain op' where "ebpf_op_of c = Some op'" by blast
  moreover from this have "ebpf_op_code op' = c"
    by (auto simp: ebpf_op_of_def find_Some_iff)
  ultimately show "ebpf_op_of c = Some op"
    using * ebpf_op_code_inj by metis
qed

lemma ebpf_op_of_code [simp]: "ebpf_op_of (ebpf_op_code op) = Some op"
  by (simp add: ebpf_op_of_iff)

text \<open>The \<open>case\<close> label each opcode byte selects.\<close>

lemma ebpf_op_labels [simp]:
  "ebpf_op_of 0x04 = Some (OP_ALU EBPF_ALU_ADD EBPF_SRC_IMM)"
  "ebpf_op_of 0x0c = Some (OP_ALU EBPF_ALU_ADD EBPF_SRC_REG)"
  "ebpf_op_of 0x14 = Some (OP_ALU EBPF_ALU_SUB EBPF_SRC_IMM)"
  "ebpf_op_of 0x1c = Some (OP_ALU EBPF_ALU_SUB EBPF_SRC_REG)"
  "ebpf_op_of 0x24 = Some (OP_ALU EBPF_ALU_MUL EBPF_SRC_IMM)"
  "ebpf_op_of 0x2c = Some (OP_ALU EBPF_ALU_MUL EBPF_SRC_REG)"
  "ebpf_op_of 0x34 = Some (OP_ALU EBPF_ALU_DIV EBPF_SRC_IMM)"
  "ebpf_op_of 0x3c = Some (OP_ALU EBPF_ALU_DIV EBPF_SRC_REG)"
  "ebpf_op_of 0x44 = Some (OP_ALU EBPF_ALU_OR EBPF_SRC_IMM)"
  "ebpf_op_of 0x4c = Some (OP_ALU EBPF_ALU_OR EBPF_SRC_REG)"
  "ebpf_op_of 0x54 = Some (OP_ALU EBPF_ALU_AND EBPF_SRC_IMM)"
  "ebpf_op_of 0x5c = Some (OP_ALU EBPF_ALU_AND EBPF_SRC_REG)"
  "ebpf_op_of 0x64 = Some (OP_ALU EBPF_ALU_LSH EBPF_SRC_IMM)"
  "ebpf_op_of 0x6c = Some (OP_ALU EBPF_ALU_LSH EBPF_SRC_REG)"
  "ebpf_op_of 0x74 = Some (OP_ALU EBPF_ALU_RSH EBPF_SRC_IMM)"
  "ebpf_op_of 0x7c = Some (OP_ALU EBPF_ALU_RSH EBPF_SRC_REG)"
  "ebpf_op_of 0x94 = Some (OP_ALU EBPF_ALU_MOD EBPF_SRC_IMM)"
  "ebpf_op_of 0x9c = Some (OP_ALU EBPF_ALU_MOD EBPF_SRC_REG)"
  "ebpf_op_of 0xa4 = Some (OP_ALU EBPF_ALU_XOR EBPF_SRC_IMM)"
  "ebpf_op_of 0xac = Some (OP_ALU EBPF_ALU_XOR EBPF_SRC_REG)"
  "ebpf_op_of 0xb4 = Some (OP_ALU EBPF_ALU_MOV EBPF_SRC_IMM)"
  "ebpf_op_of 0xbc = Some (OP_ALU EBPF_ALU_MOV EBPF_SRC_REG)"
  "ebpf_op_of 0xc4 = Some (OP_ALU EBPF_ALU_ARSH EBPF_SRC_IMM)"
  "ebpf_op_of 0xcc = Some (OP_ALU EBPF_ALU_ARSH EBPF_SRC_REG)"
  "ebpf_op_of 0x84 = Some (OP_NEG)"
  "ebpf_op_of 0xd4 = Some (OP_LE)"
  "ebpf_op_of 0xdc = Some (OP_BE)"
  "ebpf_op_of 0x07 = Some (OP_ALU64 EBPF_ALU_ADD EBPF_SRC_IMM)"
  "ebpf_op_of 0x0f = Some (OP_ALU64 EBPF_ALU_ADD EBPF_SRC_REG)"
  "ebpf_op_of 0x17 = Some (OP_ALU64 EBPF_ALU_SUB EBPF_SRC_IMM)"
  "ebpf_op_of 0x1f = Some (OP_ALU64 EBPF_ALU_SUB EBPF_SRC_REG)"
  "ebpf_op_of 0x27 = Some (OP_ALU64 EBPF_ALU_MUL EBPF_SRC_IMM)"
  "ebpf_op_of 0x2f = Some (OP_ALU64 EBPF_ALU_MUL EBPF_SRC_REG)"
  "ebpf_op_of 0x37 = Some (OP_ALU64 EBPF_ALU_DIV EBPF_SRC_IMM)"
  "ebpf_op_of 0x3f = Some (OP_ALU64 EBPF_ALU_DIV EBPF_SRC_REG)"
  "ebpf_op_of 0x47 = Some (OP_ALU64 EBPF_ALU_OR EBPF_SRC_IMM)"
  "ebpf_op_of 0x4f = Some (OP_ALU64 EBPF_ALU_OR EBPF_SRC_REG)"
  "ebpf_op_of 0x57 = Some (OP_ALU64 EBPF_ALU_AND EBPF_SRC_IMM)"
  "ebpf_op_of 0x5f = Some (OP_ALU64 EBPF_ALU_AND EBPF_SRC_REG)"
  "ebpf_op_of 0x67 = Some (OP_ALU64 EBPF_ALU_LSH EBPF_SRC_IMM)"
  "ebpf_op_of 0x6f = Some (OP_ALU64 EBPF_ALU_LSH EBPF_SRC_REG)"
  "ebpf_op_of 0x77 = Some (OP_ALU64 EBPF_ALU_RSH EBPF_SRC_IMM)"
  "ebpf_op_of 0x7f = Some (OP_ALU64 EBPF_ALU_RSH EBPF_SRC_REG)"
  "ebpf_op_of 0x97 = Some (OP_ALU64 EBPF_ALU_MOD EBPF_SRC_IMM)"
  "ebpf_op_of 0x9f = Some (OP_ALU64 EBPF_ALU_MOD EBPF_SRC_REG)"
  "ebpf_op_of 0xa7 = Some (OP_ALU64 EBPF_ALU_XOR EBPF_SRC_IMM)"
  "ebpf_op_of 0xaf = Some (OP_ALU64 EBPF_ALU_XOR EBPF_SRC_REG)"
  "ebpf_op_of 0xb7 = Some (OP_ALU64 EBPF_ALU_MOV EBPF_SRC_IMM)"
  "ebpf_op_of 0xbf = Some (OP_ALU64 EBPF_ALU_MOV EBPF_SRC_REG)"
  "ebpf_op_of 0xc7 = Some (OP_ALU64 EBPF_ALU_ARSH EBPF_SRC_IMM)"
  "ebpf_op_of 0xcf = Some (OP_ALU64 EBPF_ALU_ARSH EBPF_SRC_REG)"
  "ebpf_op_of 0x87 = Some (OP_NEG64)"
  "ebpf_op_of 0x61 = Some (OP_LDX EBPF_SIZE_W)"
  "ebpf_op_of 0x69 = Some (OP_LDX EBPF_SIZE_H)"
  "ebpf_op_of 0x71 = Some (OP_LDX EBPF_SIZE_B)"
  "ebpf_op_of 0x79 = Some (OP_LDX EBPF_SIZE_DW)"
  "ebpf_op_of 0x62 = Some (OP_ST EBPF_SIZE_W)"
  "ebpf_op_of 0x6a = Some (OP_ST EBPF_SIZE_H)"
  "ebpf_op_of 0x72 = Some (OP_ST EBPF_SIZE_B)"
  "ebpf_op_of 0x7a = Some (OP_ST EBPF_SIZE_DW)"
  "ebpf_op_of 0x63 = Some (OP_STX EBPF_SIZE_W)"
  "ebpf_op_of 0x6b = Some (OP_STX EBPF_SIZE_H)"
  "ebpf_op_of 0x73 = Some (OP_STX EBPF_SIZE_B)"
  "ebpf_op_of 0x7b = Some (OP_STX EBPF_SIZE_DW)"
  "ebpf_op_of 0x18 = Some (OP_LDDW)"
  "ebpf_op_of 0x05 = Some (OP_JA)"
  "ebpf_op_of 0x15 = Some (OP_JMP EBPF_JEQ EBPF_SRC_IMM)"
  "ebpf_op_of 0x1d = Some (OP_JMP EBPF_JEQ EBPF_SRC_REG)"
  "ebpf_op_of 0x25 = Some (OP_JMP EBPF_JGT EBPF_SRC_IMM)"
  "ebpf_op_of 0x2d = Some (OP_JMP EBPF_JGT EBPF_SRC_REG)"
  "ebpf_op_of 0x35 = Some (OP_JMP EBPF_JGE EBPF_SRC_IMM)"
  "ebpf_op_of 0x3d = Some (OP_JMP EBPF_JGE EBPF_SRC_REG)"
  "ebpf_op_of 0x45 = Some (OP_JMP EBPF_JSET EBPF_SRC_IMM)"
  "ebpf_op_of 0x4d = Some (OP_JMP EBPF_JSET EBPF_SRC_REG)"
  "ebpf_op_of 0x55 = Some (OP_JMP EBPF_JNE EBPF_SRC_IMM)"
  "ebpf_op_of 0x5d = Some (OP_JMP EBPF_JNE EBPF_SRC_REG)"
  "ebpf_op_of 0x65 = Some (OP_JMP EBPF_JSGT EBPF_SRC_IMM)"
  "ebpf_op_of 0x6d = Some (OP_JMP EBPF_JSGT EBPF_SRC_REG)"
  "ebpf_op_of 0x75 = Some (OP_JMP EBPF_JSGE EBPF_SRC_IMM)"
  "ebpf_op_of 0x7d = Some (OP_JMP EBPF_JSGE EBPF_SRC_REG)"
  "ebpf_op_of 0xa5 = Some (OP_JMP EBPF_JLT EBPF_SRC_IMM)"
  "ebpf_op_of 0xad = Some (OP_JMP EBPF_JLT EBPF_SRC_REG)"
  "ebpf_op_of 0xb5 = Some (OP_JMP EBPF_JLE EBPF_SRC_IMM)"
  "ebpf_op_of 0xbd = Some (OP_JMP EBPF_JLE EBPF_SRC_REG)"
  "ebpf_op_of 0xc5 = Some (OP_JMP EBPF_JSLT EBPF_SRC_IMM)"
  "ebpf_op_of 0xcd = Some (OP_JMP EBPF_JSLT EBPF_SRC_REG)"
  "ebpf_op_of 0xd5 = Some (OP_JMP EBPF_JSLE EBPF_SRC_IMM)"
  "ebpf_op_of 0xdd = Some (OP_JMP EBPF_JSLE EBPF_SRC_REG)"
  "ebpf_op_of 0x85 = Some (OP_CALL)"
  "ebpf_op_of 0x95 = Some (OP_EXIT)"
  by (simp_all add: ebpf_op_of_iff)

section \<open>The instruction format\<close>

text \<open>
  \<open>struct ebpf_inst\<close>: eight bytes, the two register numbers in one byte (the low nibble is the
  first bit-field), offset and immediate little-endian.
\<close>

record ebpf_inst =
  i_opcode :: u8
  i_dst :: "4 word"
  i_src :: "4 word"
  i_offset :: s16
  i_imm :: s32

definition inst_of_bytes :: "u8 list \<Rightarrow> ebpf_inst" where
  "inst_of_bytes bs =
     \<lparr>i_opcode = bs ! 0,
      i_dst = ucast (bs ! 1),
      i_src = ucast (drop_bit 4 (bs ! 1)),
      i_offset = ucast (le_join (take 2 (drop 2 bs))),
      i_imm = ucast (le_join (take 4 (drop 4 bs)))\<rparr>"

definition bytes_of_inst :: "ebpf_inst \<Rightarrow> u8 list" where
  "bytes_of_inst i =
     [i_opcode i, ucast (i_dst i) OR push_bit 4 (ucast (i_src i))] @
     le_bytes 2 (i_offset i) @ le_bytes 4 (i_imm i)"

text \<open>
  The instructions of a code array: the pointer cast \<open>(struct ebpf_inst *)code\<close> over an array of
  bytes; a trailing incomplete instruction (the string terminator of the generated headers) is not
  part of it.
\<close>

fun insts_of_code :: "u8 list \<Rightarrow> ebpf_inst list" where
  "insts_of_code (b0 # b1 # b2 # b3 # b4 # b5 # b6 # b7 # bs) =
     inst_of_bytes [b0, b1, b2, b3, b4, b5, b6, b7] # insts_of_code bs"
| "insts_of_code _ = []"

lemma length_insts_of_code: "length (insts_of_code bs) = length bs div 8"
  by (induction bs rule: insts_of_code.induct) auto

lemma length_bytes_of_inst [simp]: "length (bytes_of_inst i) = 8"
  by (simp add: bytes_of_inst_def)

lemma inst_of_bytes_of_inst: "inst_of_bytes (bytes_of_inst i) = i"
proof -
  have high: "\<not> bit d (4 + n)" for d :: "4 word" and n
    using bit_imp_le_length [of d "4 + n"] by auto
  have nibbles: "ucast (ucast d OR push_bit 4 (ucast s) :: u8) = (d :: 4 word)"
    "ucast (drop_bit 4 (ucast d :: u8) OR drop_bit 4 (push_bit 4 (ucast s))) = (s :: 4 word)" for d s :: "4 word"
    by (auto intro!: bit_word_eqI simp: bit_ucast_iff bit_or_iff bit_push_bit_iff bit_drop_bit_eq high)
  have "le_join (le_bytes 2 (i_offset i)) = ucast (i_offset i)"
    by (rule le_join_le_bytes) simp_all
  then show ?thesis
    by (simp add: inst_of_bytes_def bytes_of_inst_def nibbles)
qed

lemma list8_decompose:
  assumes "length bs = 8"
  obtains b0 b1 b2 b3 b4 b5 b6 b7 where "bs = [b0, b1, b2, b3, b4, b5, b6, b7]"
  using assms by (auto simp: length_Suc_conv numeral_eq_Suc)

lemma insts_of_code_append:
  assumes "length bs = 8"
  shows "insts_of_code (bs @ cs) = inst_of_bytes bs # insts_of_code cs"
  using assms by (elim list8_decompose) simp

lemma insts_of_code_concat: "insts_of_code (concat (map bytes_of_inst is) @ [0]) = is"
  by (induction "is") (simp_all add: insts_of_code_append inst_of_bytes_of_inst)

lemma nth_insts_of_code:
  "8 * k + 8 \<le> length bs \<Longrightarrow> insts_of_code bs ! k = inst_of_bytes (take 8 (drop (8 * k) bs))"
proof (induction k arbitrary: bs)
  case 0
  then have "bs = take 8 bs @ drop 8 bs" "length (take 8 bs) = 8" by simp_all
  then have "insts_of_code bs = inst_of_bytes (take 8 bs) # insts_of_code (drop 8 bs)"
    using insts_of_code_append by metis
  then show ?case by simp
next
  case (Suc k)
  then have "bs = take 8 bs @ drop 8 bs" "length (take 8 bs) = 8" by simp_all
  then have "insts_of_code bs = inst_of_bytes (take 8 bs) # insts_of_code (drop 8 bs)"
    using insts_of_code_append by metis
  with Suc show ?case by (simp add: add.commute)
qed

section \<open>Byte swaps\<close>

definition swap16 :: "u16 \<Rightarrow> u16" where
  "swap16 x = push_bit 8 (x AND 0x00ff) OR drop_bit 8 (x AND 0xff00)"

definition swap32 :: "u32 \<Rightarrow> u32" where
  "swap32 x = push_bit 24 (x AND 0x000000ff) OR push_bit 8 (x AND 0x0000ff00) OR
     drop_bit 8 (x AND 0x00ff0000) OR drop_bit 24 (x AND 0xff000000)"

definition swap64 :: "u64 \<Rightarrow> u64" where
  "swap64 x = push_bit 56 (x AND 0x00000000000000ff) OR push_bit 40 (x AND 0x000000000000ff00) OR
     push_bit 24 (x AND 0x0000000000ff0000) OR push_bit 8 (x AND 0x00000000ff000000) OR
     drop_bit 8 (x AND 0x000000ff00000000) OR drop_bit 24 (x AND 0x0000ff0000000000) OR
     drop_bit 40 (x AND 0x00ff000000000000) OR drop_bit 56 (x AND 0xff00000000000000)"

end
