(* ===== verification/Ebpf_Vm.thy ===== *)
theory Ebpf_Vm
  imports Ebpf_Inst
begin

text \<open>
  The interpreter of \<^verbatim>\<open>libebpf/ebpf-src/ebpf_vm.c\<close>. \<open>ebpf_vm_exec\<close> is a loop over
  \<open>ebpf_step\<close>, one iteration of the \<open>while (true)\<close> of the C function; the \<open>switch\<close> over the
  opcode is split by instruction class. The machine state holds the sixteen registers, the program
  counter (a \<open>u16\<close>, as in C), the bytes of the argument object and of the interpreter's stack.
  An access outside these two objects, a fetch outside the code, a division by zero and an
  out-of-range shift are undefined behaviour in C and have the value \<open>Inl\<close>. The loop does not
  check the program counter and follows backward jumps, so it may not return: it is a partial
  function whose value \<open>None\<close> means divergence.
\<close>

section \<open>State\<close>

text \<open>External helper functions are parameters: pure functions of their five arguments.\<close>

type_synonym ext_func = "u32 \<Rightarrow> u32 \<Rightarrow> u32 \<Rightarrow> u32 \<Rightarrow> u32 \<Rightarrow> u32"

abbreviation (input) MAX_EXT_FUNCS :: nat where "MAX_EXT_FUNCS \<equiv> 12"
definition STACK_SIZE :: nat where "STACK_SIZE = 128"

record jit_mem =
  jit_code :: "u8 list"
  code_size :: int
  jmp_offsets :: "u8 list"

text \<open>\<open>jit_func\<close> points to generated code: the bytes there.\<close>

record ebpf_vm =
  insts :: "ebpf_inst list option"
  num_insts :: u16
  bounds_check_enabled :: bool
  helper_func :: "nat option"
  jit_func :: "u8 list option"
  jmem :: "jit_mem option"
  use_jit :: bool

record vm_state =
  pc :: u16
  reg :: "4 word \<Rightarrow> u64"
  mem_base :: u32
  mem_bytes :: "u8 list"
  stack_base :: u32
  stack_bytes :: "u8 list"

text \<open>Outcome of one iteration: go on, or return a value.\<close>

datatype 'a flow = Go 'a | Ret u64

section \<open>Memory access\<close>

definition in_object :: "u32 \<Rightarrow> nat \<Rightarrow> u32 \<Rightarrow> u8 list \<Rightarrow> bool" where
  "in_object a n base bs \<longleftrightarrow> unat (a - base) + n \<le> length bs"

text \<open>
  The interpreter accesses memory through pointers to \<open>u8\<close>, \<open>u16\<close>, \<open>u32\<close> and \<open>u64\<close>, each of which
  must be a multiple of the size of the type on this target.
\<close>

definition vm_load :: "vm_state \<Rightarrow> u32 \<Rightarrow> nat \<Rightarrow> u64 cres" where
  "vm_load s a n =
     (if \<not> aligned a n then Inl Misaligned
      else if in_object a n (mem_base s) (mem_bytes s)
      then Inr (le_join (take n (drop (unat (a - mem_base s)) (mem_bytes s))))
      else if in_object a n (stack_base s) (stack_bytes s)
      then Inr (le_join (take n (drop (unat (a - stack_base s)) (stack_bytes s))))
      else Inl Oob_read)"

definition splice :: "u8 list \<Rightarrow> nat \<Rightarrow> u8 list \<Rightarrow> u8 list" where
  "splice bs i xs = take i bs @ xs @ drop (i + length xs) bs"

definition vm_store :: "vm_state \<Rightarrow> u32 \<Rightarrow> nat \<Rightarrow> u64 \<Rightarrow> vm_state cres" where
  "vm_store s a n v =
     (if \<not> aligned a n then Inl Misaligned
      else if in_object a n (mem_base s) (mem_bytes s)
      then Inr (s\<lparr>mem_bytes := splice (mem_bytes s) (unat (a - mem_base s)) (le_bytes n v)\<rparr>)
      else if in_object a n (stack_base s) (stack_bytes s)
      then Inr (s\<lparr>stack_bytes := splice (stack_bytes s) (unat (a - stack_base s)) (le_bytes n v)\<rparr>)
      else Inl Oob_write)"

text \<open>
  \<open>bounds_check\<close>: the pointers are compared after adding \<open>size\<close> and \<open>mem_len\<close> to pointers to
  \<open>u64\<close>, so both are scaled by eight. The \<open>mem\<close> pointer is null exactly at address 0.
\<close>

definition bounds_check :: "ebpf_vm \<Rightarrow> u32 \<Rightarrow> nat \<Rightarrow> u32 \<Rightarrow> nat \<Rightarrow> u32 \<Rightarrow> bool" where
  "bounds_check vm addr sz mem mem_len stack =
     (if \<not> bounds_check_enabled vm then True
      else if mem \<noteq> 0 \<and> addr \<ge> mem \<and> unat addr + 8 * sz \<le> unat mem + 8 * mem_len then True
      else if addr \<ge> stack \<and> unat addr + 8 * sz \<le> unat stack + 8 * STACK_SIZE then True
      else False)"

section \<open>Arithmetic\<close>

definition shl32 :: "u32 \<Rightarrow> u64 \<Rightarrow> u32 cres" where
  "shl32 x n = (if n < 32 then Inr (push_bit (unat n) x) else Inl Shift_range)"
definition shr32 :: "u32 \<Rightarrow> u64 \<Rightarrow> u32 cres" where
  "shr32 x n = (if n < 32 then Inr (drop_bit (unat n) x) else Inl Shift_range)"
definition sar32 :: "s32 \<Rightarrow> u64 \<Rightarrow> s32 cres" where
  "sar32 x n = (if n < 32 then Inr (signed_drop_bit (unat n) x) else Inl Shift_range)"
definition shl64 :: "u64 \<Rightarrow> u64 \<Rightarrow> u64 cres" where
  "shl64 x n = (if n < 64 then Inr (push_bit (unat n) x) else Inl Shift_range)"
definition shr64 :: "u64 \<Rightarrow> u64 \<Rightarrow> u64 cres" where
  "shr64 x n = (if n < 64 then Inr (drop_bit (unat n) x) else Inl Shift_range)"
definition sar64 :: "s64 \<Rightarrow> u64 \<Rightarrow> s64 cres" where
  "sar64 x n = (if n < 64 then Inr (signed_drop_bit (unat n) x) else Inl Shift_range)"

definition c_div :: "'a::len word \<Rightarrow> 'a word \<Rightarrow> 'a word cres" where
  "c_div x y = (if y = 0 then Inl Div_zero else Inr (x div y))"
definition c_mod :: "'a::len word \<Rightarrow> 'a word \<Rightarrow> 'a word cres" where
  "c_mod x y = (if y = 0 then Inl Div_zero else Inr (x mod y))"

text \<open>A result of type \<open>u32\<close> assigned to the 64-bit destination.\<close>

definition go32 :: "u32 cres \<Rightarrow> u64 flow cres" where
  "go32 r = map_sum id (\<lambda>x. Go (ucast x)) r"
definition go64 :: "u64 cres \<Rightarrow> u64 flow cres" where
  "go64 r = map_sum id Go r"

text \<open>Lines 136--218 of the \<open>switch\<close>: \<open>D\<close> is \<open>DST\<close>, \<open>S\<close> is \<open>SRC\<close>, \<open>I\<close> is \<open>IMM\<close>.\<close>

fun exec_alu32 :: "alu_op \<Rightarrow> ebpf_src \<Rightarrow> u64 \<Rightarrow> u64 \<Rightarrow> s32 \<Rightarrow> u64 flow cres" where
  "exec_alu32 EBPF_ALU_ADD EBPF_SRC_IMM D S I = go32 (Inr (ucast D + I))"
| "exec_alu32 EBPF_ALU_ADD EBPF_SRC_REG D S I = go32 (Inr (ucast D + ucast S))"
| "exec_alu32 EBPF_ALU_SUB EBPF_SRC_IMM D S I = go32 (Inr (ucast D - I))"
| "exec_alu32 EBPF_ALU_SUB EBPF_SRC_REG D S I = go32 (Inr (ucast D - ucast S))"
| "exec_alu32 EBPF_ALU_MUL EBPF_SRC_IMM D S I = go32 (Inr (ucast D * I))"
| "exec_alu32 EBPF_ALU_MUL EBPF_SRC_REG D S I = go32 (Inr (ucast D * ucast S))"
| "exec_alu32 EBPF_ALU_DIV EBPF_SRC_IMM D S I = go32 (c_div (ucast D) I)"
| "exec_alu32 EBPF_ALU_DIV EBPF_SRC_REG D S I =
     (if S = 0 then Inr (Ret (-1)) else go32 (c_div (ucast D) (ucast S)))"
| "exec_alu32 EBPF_ALU_OR EBPF_SRC_IMM D S I = go32 (Inr (ucast D OR I))"
| "exec_alu32 EBPF_ALU_OR EBPF_SRC_REG D S I = go32 (Inr (ucast D OR ucast S))"
| "exec_alu32 EBPF_ALU_AND EBPF_SRC_IMM D S I =
     Inr (Go (if (ucast D :: u32) \<noteq> 0 \<and> I \<noteq> 0 then 1 else 0))"
| "exec_alu32 EBPF_ALU_AND EBPF_SRC_REG D S I =
     Inr (Go (if (ucast D :: u32) \<noteq> 0 \<and> (ucast S :: u32) \<noteq> 0 then 1 else 0))"
| "exec_alu32 EBPF_ALU_LSH EBPF_SRC_IMM D S I = go32 (shl32 (ucast D) (ucast I))"
| "exec_alu32 EBPF_ALU_LSH EBPF_SRC_REG D S I = go32 (shl32 (ucast D) (ucast (ucast S :: u32)))"
| "exec_alu32 EBPF_ALU_RSH EBPF_SRC_IMM D S I = go32 (shr32 (ucast D) (ucast I))"
| "exec_alu32 EBPF_ALU_RSH EBPF_SRC_REG D S I = go32 (shr32 (ucast D) (ucast (ucast S :: u32)))"
| "exec_alu32 EBPF_ALU_MOD EBPF_SRC_IMM D S I = go32 (c_mod (ucast D) I)"
| "exec_alu32 EBPF_ALU_MOD EBPF_SRC_REG D S I =
     (if S = 0 then Inr (Ret (-1)) else go32 (c_mod (ucast D) (ucast S)))"
| "exec_alu32 EBPF_ALU_XOR EBPF_SRC_IMM D S I = go32 (Inr (ucast D XOR I))"
| "exec_alu32 EBPF_ALU_XOR EBPF_SRC_REG D S I = go32 (Inr (ucast D XOR ucast S))"
| "exec_alu32 EBPF_ALU_MOV EBPF_SRC_IMM D S I = go32 (Inr I)"
| "exec_alu32 EBPF_ALU_MOV EBPF_SRC_REG D S I = go32 (Inr (ucast S))"
| "exec_alu32 EBPF_ALU_ARSH EBPF_SRC_IMM D S I = go32 (sar32 (ucast D) (scast I))"
| "exec_alu32 EBPF_ALU_ARSH EBPF_SRC_REG D S I = go32 (sar32 (ucast D) S)"

text \<open>Lines 246--329. \<open>IMM\<close> is an \<open>s32\<close> and is sign-extended when it meets a \<open>u64\<close>.\<close>

fun exec_alu64 :: "alu_op \<Rightarrow> ebpf_src \<Rightarrow> u64 \<Rightarrow> u64 \<Rightarrow> s32 \<Rightarrow> u64 flow cres" where
  "exec_alu64 EBPF_ALU_ADD EBPF_SRC_IMM D S I = go64 (Inr (D + scast I))"
| "exec_alu64 EBPF_ALU_ADD EBPF_SRC_REG D S I = go64 (Inr (D + S))"
| "exec_alu64 EBPF_ALU_SUB EBPF_SRC_IMM D S I = go64 (Inr (D - scast I))"
| "exec_alu64 EBPF_ALU_SUB EBPF_SRC_REG D S I = go64 (Inr (D - S))"
| "exec_alu64 EBPF_ALU_MUL EBPF_SRC_IMM D S I = go64 (Inr (D * scast I))"
| "exec_alu64 EBPF_ALU_MUL EBPF_SRC_REG D S I = go64 (Inr (D * S))"
| "exec_alu64 EBPF_ALU_DIV EBPF_SRC_IMM D S I = go64 (c_div D (scast I))"
| "exec_alu64 EBPF_ALU_DIV EBPF_SRC_REG D S I =
     (if S = 0 then Inr (Ret (-1)) else go64 (c_div D (scast I)))"
| "exec_alu64 EBPF_ALU_OR EBPF_SRC_IMM D S I = go64 (Inr (D OR scast I))"
| "exec_alu64 EBPF_ALU_OR EBPF_SRC_REG D S I = go64 (Inr (D OR S))"
| "exec_alu64 EBPF_ALU_AND EBPF_SRC_IMM D S I = go64 (Inr (D AND scast I))"
| "exec_alu64 EBPF_ALU_AND EBPF_SRC_REG D S I = go64 (Inr (D AND S))"
| "exec_alu64 EBPF_ALU_LSH EBPF_SRC_IMM D S I = go64 (shl64 D (scast I))"
| "exec_alu64 EBPF_ALU_LSH EBPF_SRC_REG D S I = go64 (shl64 D S)"
| "exec_alu64 EBPF_ALU_RSH EBPF_SRC_IMM D S I = go64 (shr64 D (scast I))"
| "exec_alu64 EBPF_ALU_RSH EBPF_SRC_REG D S I = go64 (shr64 D S)"
| "exec_alu64 EBPF_ALU_MOD EBPF_SRC_IMM D S I = go64 (c_mod D (scast I))"
| "exec_alu64 EBPF_ALU_MOD EBPF_SRC_REG D S I =
     (if S = 0 then Inr (Ret (-1)) else go64 (c_mod D S))"
| "exec_alu64 EBPF_ALU_XOR EBPF_SRC_IMM D S I = go64 (Inr (D XOR scast I))"
| "exec_alu64 EBPF_ALU_XOR EBPF_SRC_REG D S I = go64 (Inr (D XOR S))"
| "exec_alu64 EBPF_ALU_MOV EBPF_SRC_IMM D S I = go64 (Inr (scast I))"
| "exec_alu64 EBPF_ALU_MOV EBPF_SRC_REG D S I = go64 (Inr S)"
| "exec_alu64 EBPF_ALU_ARSH EBPF_SRC_IMM D S I = go64 (sar64 D (scast I))"
| "exec_alu64 EBPF_ALU_ARSH EBPF_SRC_REG D S I = go64 (sar64 D S)"

text \<open>
  Lines 219--244. The target is little-endian, so \<open>my_htole16\<close> to \<open>my_htole64\<close> are the identity
  on the whole register and \<open>my_htobe16\<close> to \<open>my_htobe64\<close> are the swaps.
\<close>

definition exec_le :: "s32 \<Rightarrow> u64 \<Rightarrow> u64" where
  "exec_le I D = (if I = 16 then D else if I = 32 then D else if I = 64 then D else D)"

definition exec_be :: "s32 \<Rightarrow> u64 \<Rightarrow> u64" where
  "exec_be I D =
     (if I = 16 then ucast (swap16 (ucast D))
      else if I = 32 then ucast (swap32 (ucast D))
      else if I = 64 then swap64 D else D)"

text \<open>Lines 392--503: the condition under which \<open>pc += inst->offset\<close> is done.\<close>

fun jump_cond :: "jmp_op \<Rightarrow> ebpf_src \<Rightarrow> u64 \<Rightarrow> u64 \<Rightarrow> s32 \<Rightarrow> bool" where
  "jump_cond EBPF_JEQ EBPF_SRC_REG D S I = (D = S)"
| "jump_cond EBPF_JEQ EBPF_SRC_IMM D S I = (D = scast I)"
| "jump_cond EBPF_JGT EBPF_SRC_IMM D S I = (D > ucast I)"
| "jump_cond EBPF_JGT EBPF_SRC_REG D S I = (D > S)"
| "jump_cond EBPF_JGE EBPF_SRC_IMM D S I = (D \<ge> ucast I)"
| "jump_cond EBPF_JGE EBPF_SRC_REG D S I = (D \<ge> S)"
| "jump_cond EBPF_JLT EBPF_SRC_IMM D S I = (D < ucast I)"
| "jump_cond EBPF_JLT EBPF_SRC_REG D S I = (D < S)"
| "jump_cond EBPF_JLE EBPF_SRC_IMM D S I = (D \<le> ucast I)"
| "jump_cond EBPF_JLE EBPF_SRC_REG D S I = (D \<le> S)"
| "jump_cond EBPF_JSET EBPF_SRC_IMM D S I = (D AND scast I \<noteq> 0)"
| "jump_cond EBPF_JSET EBPF_SRC_REG D S I = (D AND S \<noteq> 0)"
| "jump_cond EBPF_JNE EBPF_SRC_IMM D S I = (D \<noteq> scast I)"
| "jump_cond EBPF_JNE EBPF_SRC_REG D S I = (D \<noteq> S)"
| "jump_cond EBPF_JSGT EBPF_SRC_IMM D S I = (sint D > sint I)"
| "jump_cond EBPF_JSGT EBPF_SRC_REG D S I = (sint D > sint S)"
| "jump_cond EBPF_JSGE EBPF_SRC_IMM D S I = (sint D \<ge> sint I)"
| "jump_cond EBPF_JSGE EBPF_SRC_REG D S I = (sint D \<ge> sint S)"
| "jump_cond EBPF_JSLT EBPF_SRC_IMM D S I = (sint D < sint I)"
| "jump_cond EBPF_JSLT EBPF_SRC_REG D S I = (sint D < sint S)"
| "jump_cond EBPF_JSLE EBPF_SRC_IMM D S I = (sint D \<le> sint I)"
| "jump_cond EBPF_JSLE EBPF_SRC_REG D S I = (sint D \<le> sint S)"

section \<open>One iteration of the loop\<close>

fun size_bytes :: "ebpf_size \<Rightarrow> nat" where
  "size_bytes EBPF_SIZE_W = 4"
| "size_bytes EBPF_SIZE_H = 2"
| "size_bytes EBPF_SIZE_B = 1"
| "size_bytes EBPF_SIZE_DW = 8"

definition set_dst :: "ebpf_inst \<Rightarrow> vm_state \<Rightarrow> u64 \<Rightarrow> vm_state" where
  "set_dst i s v = s\<lparr>reg := (reg s)(i_dst i := v)\<rparr>"

definition alu_result :: "ebpf_inst \<Rightarrow> vm_state \<Rightarrow> u64 flow cres \<Rightarrow> vm_state flow cres" where
  "alu_result i s r =
     c_bind r (\<lambda>f. Inr (case f of Go v \<Rightarrow> Go (set_dst i s v) | Ret v \<Rightarrow> Ret v))"

text \<open>Lines 330--347: loads, after \<open>BOUNDS_CHECK_LOAD\<close>.\<close>

definition exec_ldx :: "ebpf_vm \<Rightarrow> nat \<Rightarrow> ebpf_size \<Rightarrow> ebpf_inst \<Rightarrow> vm_state \<Rightarrow> vm_state flow cres" where
  "exec_ldx vm mem_len z i s =
     (let a = ucast (reg s (i_src i) + scast (i_offset i)) in
      if \<not> bounds_check vm a (size_bytes z) (mem_base s) mem_len (stack_base s)
      then Inr (Ret (-1))
      else c_bind (vm_load s a (size_bytes z)) (\<lambda>v. Inr (Go (set_dst i s v))))"

text \<open>
  Lines 349--381: stores. \<open>BOUNDS_CHECK_STORE\<close> tests the address formed from the source register;
  the store goes to the address formed from the destination register.
\<close>

definition exec_store :: "ebpf_vm \<Rightarrow> nat \<Rightarrow> ebpf_size \<Rightarrow> ebpf_inst \<Rightarrow> u64 \<Rightarrow> vm_state \<Rightarrow> vm_state flow cres" where
  "exec_store vm mem_len z i v s =
     (if \<not> bounds_check vm (ucast (reg s (i_src i) + scast (i_offset i))) (size_bytes z)
             (mem_base s) mem_len (stack_base s)
      then Inr (Ret (-1))
      else c_bind (vm_store s (ucast (reg s (i_dst i) + scast (i_offset i))) (size_bytes z) v)
             (\<lambda>s'. Inr (Go s')))"

definition fetch :: "ebpf_inst list \<Rightarrow> u16 \<Rightarrow> ebpf_inst cres" where
  "fetch is p = (if unat p < length is then Inr (is ! unat p) else Inl Oob_fetch)"

text \<open>Lines 383--385: \<open>pc\<close> is already past the first slot.\<close>

definition exec_lddw :: "ebpf_inst list \<Rightarrow> ebpf_inst \<Rightarrow> vm_state \<Rightarrow> vm_state flow cres" where
  "exec_lddw is i s =
     c_bind (fetch is (pc s)) (\<lambda>i2.
       Inr (Go (set_dst i (s\<lparr>pc := pc s + 1\<rparr>) (ucast (i_imm i) OR push_bit 32 (ucast (i_imm i2))))))"

definition jump :: "ebpf_inst \<Rightarrow> bool \<Rightarrow> vm_state \<Rightarrow> vm_state flow cres" where
  "jump i c s = Inr (Go (if c then s\<lparr>pc := pc s + i_offset i\<rparr> else s))"

text \<open>Lines 504--509: a call through the helper table.\<close>

definition exec_call :: "ext_func option list option \<Rightarrow> ebpf_inst \<Rightarrow> vm_state \<Rightarrow> vm_state flow cres" where
  "exec_call helpers i s =
     (case helpers of
        None \<Rightarrow> Inl Null_deref
      | Some fs \<Rightarrow>
          if sint (i_imm i) < 0 \<or> nat (sint (i_imm i)) \<ge> length fs then Inl Oob_read
          else (case fs ! nat (sint (i_imm i)) of
                  None \<Rightarrow> Inl Null_deref
                | Some f \<Rightarrow>
                    Inr (Go (s\<lparr>reg := (reg s)(0 := ucast (f (ucast (reg s 1)) (ucast (reg s 2))
                       (ucast (reg s 3)) (ucast (reg s 4)) (ucast (reg s 5))))\<rparr>))))"

text \<open>The \<open>switch\<close>; an opcode without a \<open>case\<close> label does nothing.\<close>

definition exec_inst ::
  "ebpf_vm \<Rightarrow> ext_func option list option \<Rightarrow> nat \<Rightarrow> ebpf_inst list \<Rightarrow> ebpf_inst \<Rightarrow> vm_state \<Rightarrow>
   vm_state flow cres" where
  "exec_inst vm helpers mem_len is i s =
     (let D = reg s (i_dst i); S = reg s (i_src i); I = i_imm i in
      case ebpf_op_of (i_opcode i) of
        None \<Rightarrow> Inr (Go s)
      | Some op \<Rightarrow>
          (case op of
             OP_ALU a r \<Rightarrow> alu_result i s (exec_alu32 a r D S I)
           | OP_NEG \<Rightarrow> alu_result i s (go32 (Inr (ucast (- D))))
           | OP_LE \<Rightarrow> alu_result i s (go64 (Inr (exec_le I D)))
           | OP_BE \<Rightarrow> alu_result i s (go64 (Inr (exec_be I D)))
           | OP_ALU64 a r \<Rightarrow> alu_result i s (exec_alu64 a r D S I)
           | OP_NEG64 \<Rightarrow> alu_result i s (go64 (Inr (- D)))
           | OP_LDX z \<Rightarrow> exec_ldx vm mem_len z i s
           | OP_ST z \<Rightarrow> exec_store vm mem_len z i (scast I) s
           | OP_STX z \<Rightarrow> exec_store vm mem_len z i S s
           | OP_LDDW \<Rightarrow> exec_lddw is i s
           | OP_JA \<Rightarrow> jump i True s
           | OP_JMP j r \<Rightarrow> jump i (jump_cond j r D S I) s
           | OP_CALL \<Rightarrow> exec_call helpers i s
           | OP_EXIT \<Rightarrow> Inr (Ret (reg s 0))))"

definition ebpf_step ::
  "ebpf_vm \<Rightarrow> ext_func option list option \<Rightarrow> nat \<Rightarrow> ebpf_inst list \<Rightarrow> vm_state \<Rightarrow> vm_state flow cres" where
  "ebpf_step vm helpers mem_len is s =
     c_bind (fetch is (pc s)) (\<lambda>i. exec_inst vm helpers mem_len is i (s\<lparr>pc := pc s + 1\<rparr>))"

section \<open>The loop\<close>

text \<open>The value returned, with the bytes the argument object then holds.\<close>

partial_function (option) ebpf_vm_loop ::
  "ebpf_vm \<Rightarrow> ext_func option list option \<Rightarrow> nat \<Rightarrow> ebpf_inst list \<Rightarrow> vm_state \<Rightarrow>
   (u64 \<times> u8 list) cres option" where
  "ebpf_vm_loop vm helpers mem_len is s =
     (case ebpf_step vm helpers mem_len is s of
        Inl e \<Rightarrow> Some (Inl e)
      | Inr (Ret v) \<Rightarrow> Some (Inr (v, mem_bytes s))
      | Inr (Go s') \<Rightarrow> ebpf_vm_loop vm helpers mem_len is s')"

definition vm_init :: "u32 \<Rightarrow> u8 list \<Rightarrow> u32 \<Rightarrow> vm_state" where
  "vm_init mem bs stack =
     \<lparr>pc = 0,
      reg = (\<lambda>_. 0)(1 := ucast mem, 10 := ucast (stack + word_of_nat STACK_SIZE)),
      mem_base = mem, mem_bytes = bs,
      stack_base = stack, stack_bytes = replicate STACK_SIZE 0\<rparr>"

definition ebpf_vm_exec ::
  "ebpf_vm \<Rightarrow> ext_func option list option \<Rightarrow> u32 \<Rightarrow> u8 list \<Rightarrow> nat \<Rightarrow> u32 \<Rightarrow>
   (u64 \<times> u8 list) cres option" where
  "ebpf_vm_exec vm helpers mem bs mem_len stack =
     (case insts vm of
        None \<Rightarrow> Some (Inl Null_deref)
      | Some is \<Rightarrow> ebpf_vm_loop vm helpers mem_len is (vm_init mem bs stack))"

section \<open>Addresses\<close>

text \<open>The offset of a register-relative address from the base of its object.\<close>

lemma addr_sub_base: "ucast ((ucast (mp :: u32) :: u64) + x) - mp = ucast x"
  by (simp add: ucast_add_down)

section \<open>Symbolic execution\<close>

text \<open>Alignment of a constant offset.\<close>

lemma aligned_numeral: "aligned (numeral k :: u64) n \<longleftrightarrow> unat (numeral k :: u64) mod n = 0"
  by (simp add: aligned_def)

lemma ebpf_vm_loop_if:
  "ebpf_vm_loop vm h ml is (if c then s else t) =
     (if c then ebpf_vm_loop vm h ml is s else ebpf_vm_loop vm h ml is t)"
  by simp

lemmas vm_exec_simps = ebpf_vm_loop.simps ebpf_step_def exec_inst_def fetch_def Let_def
  exec_ldx_def bounds_check_def alu_result_def set_dst_def jump_def go32_def go64_def
  shl64_def shr64_def sar64_def ebpf_vm_loop_if vm_load_def in_object_def addr_sub_base
  aligned_base aligned_numeral vm_init_def inst_of_bytes_def

section \<open>The virtual machine objects\<close>

text \<open>
  The helper tables live in their own store: \<open>g_helepr_func\<close> is the table all machines share, a
  freed table is absent from \<open>helper_objs\<close>. An argument \<open>ok\<close> says whether the allocations of a
  call succeed.
\<close>

record ebpf_helper_func =
  ext_funcs :: "ext_func option list"
  refcnt :: int

record helper_store =
  g_helepr_func :: "nat option"
  helper_objs :: "nat \<rightharpoonup> ebpf_helper_func"
  helper_next :: nat

definition ebpf_vm_zero :: ebpf_vm where
  "ebpf_vm_zero =
     \<lparr>insts = None, num_insts = 0, bounds_check_enabled = False, helper_func = None,
      jit_func = None, jmem = None, use_jit = False\<rparr>"

text \<open>\<open>(u16)code_len / sizeof(vm->insts[0])\<close>: the cast binds to \<open>code_len\<close>.\<close>

definition num_insts_of :: "u32 \<Rightarrow> u16" where
  "num_insts_of code_len = ucast code_len div 8"

text \<open>Memory from \<open>malloc\<close> holds arbitrary fields: those of \<open>garbage\<close>.\<close>

definition init_ebpf_vm :: "bool \<Rightarrow> ebpf_vm \<Rightarrow> u8 list \<Rightarrow> u32 \<Rightarrow> ebpf_vm option" where
  "init_ebpf_vm ok garbage code code_len =
     (if \<not> ok then None
      else Some (garbage\<lparr>helper_func := None, insts := Some (insts_of_code code),
        num_insts := num_insts_of code_len\<rparr>))"

definition ebpf_create :: "bool \<Rightarrow> ebpf_vm option" where
  "ebpf_create ok = (if ok then Some ebpf_vm_zero else None)"

definition ebpf_vm_set_inst :: "ebpf_vm \<Rightarrow> u8 list option \<Rightarrow> u32 \<Rightarrow> ebpf_vm" where
  "ebpf_vm_set_inst vm code code_len =
     vm\<lparr>insts := map_option insts_of_code code, num_insts := num_insts_of code_len\<rparr>"

definition ebpf_vm_load :: "bool \<Rightarrow> ebpf_vm \<Rightarrow> u8 list \<Rightarrow> u32 \<Rightarrow> (ebpf_vm \<times> int) cres" where
  "ebpf_vm_load ok vm code code_len =
     (if insts vm \<noteq> None then Inr (vm, - 1)
      else if \<not> ok then Inr (vm, - 1)
      else if length code < unat code_len then Inl Oob_read
      else Inr (vm\<lparr>insts := Some (insts_of_code (take (unat code_len) code)),
                  num_insts := num_insts_of code_len\<rparr>, 0))"

text \<open>The table a machine's first registration attaches it to.\<close>

definition attach_helpers :: "bool \<Rightarrow> helper_store \<Rightarrow> (helper_store \<times> nat) cres" where
  "attach_helpers ok h =
     c_bind
       (case g_helepr_func h of
          Some a \<Rightarrow> Inr (h, a)
        | None \<Rightarrow>
            if \<not> ok then Inl Null_deref
            else Inr (h\<lparr>g_helepr_func := Some (helper_next h),
                        helper_objs := (helper_objs h)(helper_next h \<mapsto>
                          \<lparr>ext_funcs = replicate MAX_EXT_FUNCS None, refcnt = 0\<rparr>),
                        helper_next := helper_next h + 1\<rparr>, helper_next h))
       (\<lambda>(h, a).
          case helper_objs h a of
            None \<Rightarrow> Inl Oob_write
          | Some obj \<Rightarrow>
              Inr (h\<lparr>helper_objs := (helper_objs h)(a \<mapsto> obj\<lparr>refcnt := refcnt obj + 1\<rparr>)\<rparr>, a))"

definition ebpf_register ::
  "bool \<Rightarrow> helper_store \<Rightarrow> ebpf_vm \<Rightarrow> u32 \<Rightarrow> ext_func \<Rightarrow> (helper_store \<times> ebpf_vm \<times> int) cres" where
  "ebpf_register ok h vm idx fn =
     c_bind
       (case helper_func vm of
          Some a \<Rightarrow> Inr (h, a)
        | None \<Rightarrow> attach_helpers ok h)
       (\<lambda>(h, a).
          let vm = vm\<lparr>helper_func := Some a\<rparr> in
          if unat idx \<ge> MAX_EXT_FUNCS then Inr (h, vm, - 1)
          else (case helper_objs h a of
                  None \<Rightarrow> Inl Oob_write
                | Some obj \<Rightarrow>
                    Inr (h\<lparr>helper_objs := (helper_objs h)(a \<mapsto>
                             obj\<lparr>ext_funcs := (ext_funcs obj)[unat idx := Some fn]\<rparr>)\<rparr>, vm, 0)))"

text \<open>The reference count of the shared table drops whether or not this machine is attached to it.\<close>

definition ebpf_vm_destroy :: "helper_store \<Rightarrow> ebpf_vm \<Rightarrow> helper_store cres" where
  "ebpf_vm_destroy h vm =
     (case g_helepr_func h of
        None \<Rightarrow> Inr h
      | Some a \<Rightarrow>
          (case helper_objs h a of
             None \<Rightarrow> Inl Oob_write
           | Some obj \<Rightarrow>
               if refcnt obj - 1 = 0
               then Inr (h\<lparr>g_helepr_func := None, helper_objs := (helper_objs h)(a := None)\<rparr>)
               else Inr (h\<lparr>helper_objs := (helper_objs h)(a \<mapsto> obj\<lparr>refcnt := refcnt obj - 1\<rparr>)\<rparr>)))"

text \<open>The helper table an execution sees: none if the pointer is null or dangling.\<close>

definition vm_helpers :: "helper_store \<Rightarrow> ebpf_vm \<Rightarrow> ext_func option list option" where
  "vm_helpers h vm = Option.bind (helper_func vm) (\<lambda>a. map_option ext_funcs (helper_objs h a))"

section \<open>Shapes\<close>

text \<open>Whatever the program does, the argument object keeps its size while the loop runs.\<close>

lemma vm_store_shape:
  "vm_store s a n v = Inr s' \<Longrightarrow> length (mem_bytes s') = length (mem_bytes s)"
  by (auto simp: vm_store_def in_object_def splice_def split: if_splits)

lemma alu_result_shape: "alu_result i s r = Inr (Go s') \<Longrightarrow> length (mem_bytes s') = length (mem_bytes s)"
proof (cases r)
  case (Inr f)
  then show "alu_result i s r = Inr (Go s') \<Longrightarrow> length (mem_bytes s') = length (mem_bytes s)"
    by (cases f) (auto simp: alu_result_def set_dst_def)
qed (simp add: alu_result_def)

lemma exec_inst_shape:
  assumes "exec_inst vm helpers mem_len is i s = Inr (Go s')"
  shows "length (mem_bytes s') = length (mem_bytes s)"
proof (cases "ebpf_op_of (i_opcode i)")
  case None
  then show ?thesis using assms by (simp add: exec_inst_def)
next
  case (Some op)
  then show ?thesis
    using assms
    by (cases op)
      (auto simp: exec_inst_def set_dst_def exec_ldx_def exec_store_def exec_lddw_def jump_def exec_call_def
        c_bind_Inr_iff Let_def vm_store_shape alu_result_shape split: if_splits option.splits)
qed

lemma ebpf_vm_loop_shape:
  assumes "ebpf_vm_loop vm helpers mem_len is s = Some (Inr (v, bs))"
  shows "length bs = length (mem_bytes s)"
proof -
  have "r = Inr (v, bs) \<longrightarrow> length bs = length (mem_bytes s)"
    if "ebpf_vm_loop vm helpers mem_len is s = Some r" for vm helpers mem_len "is" s r
    using _ that
  proof (rule ebpf_vm_loop.raw_induct)
    fix loop :: "ebpf_vm \<Rightarrow> ext_func option list option \<Rightarrow> nat \<Rightarrow> ebpf_inst list \<Rightarrow> vm_state \<Rightarrow> (u64 \<times> u8 list) cres option"
    fix vm helpers mem_len "is" s r
    assume IH: "\<And>vm helpers mem_len is s r. loop vm helpers mem_len is s = Some r \<Longrightarrow>
        r = Inr (v, bs) \<longrightarrow> length bs = length (mem_bytes s)"
      and r: "(case ebpf_step vm helpers mem_len is s of
        Inl e \<Rightarrow> Some (Inl e)
      | Inr (Ret v) \<Rightarrow> Some (Inr (v, mem_bytes s))
      | Inr (Go s') \<Rightarrow> loop vm helpers mem_len is s') = Some r"
    show "r = Inr (v, bs) \<longrightarrow> length bs = length (mem_bytes s)"
      using r by (fastforce simp: ebpf_step_def c_bind_Inr_iff split: sum.splits flow.splits dest: IH exec_inst_shape)
  qed
  then show ?thesis using assms by blast
qed

end
