(* ===== verification/Policy_Code.thy ===== *)
theory Policy_Code
  imports Fsm_State Ebpf_Vm
begin

text \<open>
  The shipped policies, twice: the eBPF bytecode arrays of \<^verbatim>\<open>policy/ebpf_bytecode/*.h\<close> (with the
  terminating zero byte that the string literals carry) and the C sources
  \<^verbatim>\<open>policy/ebpf_C_code/*.ebpf.c\<close> they were compiled from, as functions of the protocol state.
  The main result is that running a bytecode array in the interpreter returns, without undefined
  behaviour, the verdict of its C source for every protocol state, and leaves the state unchanged.
\<close>

section \<open>Bytecode\<close>

definition conn_chan_map :: "u8 list" where
  "conn_chan_map =
    [0x61, 0x11, 0x20, 0x00, 0x00, 0x00, 0x00, 0x00,
     0x67, 0x01, 0x00, 0x00, 0x20, 0x00, 0x00, 0x00,
     0xc7, 0x01, 0x00, 0x00, 0x20, 0x00, 0x00, 0x00,
     0xb7, 0x00, 0x00, 0x00, 0x01, 0x00, 0x00, 0x00,
     0xb7, 0x02, 0x00, 0x00, 0x02, 0x00, 0x00, 0x00,
     0x6d, 0x12, 0x01, 0x00, 0x00, 0x00, 0x00, 0x00,
     0xb7, 0x00, 0x00, 0x00, 0x00, 0x00, 0x00, 0x00,
     0x95, 0x00, 0x00, 0x00, 0x00, 0x00, 0x00, 0x00,
     0x00]"

definition conn_chan_hop :: "u8 list" where
  "conn_chan_hop =
    [0x61, 0x11, 0x24, 0x00, 0x00, 0x00, 0x00, 0x00,
     0x07, 0x01, 0x00, 0x00, 0xfb, 0xff, 0xff, 0xff,
     0x67, 0x01, 0x00, 0x00, 0x20, 0x00, 0x00, 0x00,
     0x77, 0x01, 0x00, 0x00, 0x20, 0x00, 0x00, 0x00,
     0xb7, 0x00, 0x00, 0x00, 0x01, 0x00, 0x00, 0x00,
     0x25, 0x01, 0x01, 0x00, 0x0b, 0x00, 0x00, 0x00,
     0xb7, 0x00, 0x00, 0x00, 0x00, 0x00, 0x00, 0x00,
     0x95, 0x00, 0x00, 0x00, 0x00, 0x00, 0x00, 0x00,
     0x00]"

definition lll_interval :: "u8 list" where
  "lll_interval =
    [0x61, 0x11, 0x2c, 0x00, 0x00, 0x00, 0x00, 0x00,
     0xb7, 0x00, 0x00, 0x00, 0x01, 0x00, 0x00, 0x00,
     0x15, 0x01, 0x01, 0x00, 0x00, 0x00, 0x00, 0x00,
     0xb7, 0x00, 0x00, 0x00, 0x00, 0x00, 0x00, 0x00,
     0x95, 0x00, 0x00, 0x00, 0x00, 0x00, 0x00, 0x00,
     0x00]"

definition dc_nesn :: "u8 list" where
  "dc_nesn =
    [0x61, 0x12, 0x68, 0x00, 0x00, 0x00, 0x00, 0x00,
     0x55, 0x02, 0x05, 0x00, 0x01, 0x00, 0x00, 0x00,
     0x61, 0x12, 0x34, 0x00, 0x00, 0x00, 0x00, 0x00,
     0x55, 0x02, 0x03, 0x00, 0x01, 0x00, 0x00, 0x00,
     0xb7, 0x00, 0x00, 0x00, 0x01, 0x00, 0x00, 0x00,
     0x61, 0x11, 0x30, 0x00, 0x00, 0x00, 0x00, 0x00,
     0x15, 0x01, 0x01, 0x00, 0x01, 0x00, 0x00, 0x00,
     0xb7, 0x00, 0x00, 0x00, 0x00, 0x00, 0x00, 0x00,
     0x95, 0x00, 0x00, 0x00, 0x00, 0x00, 0x00, 0x00,
     0x00]"

definition llcp_len_req :: "u8 list" where
  "llcp_len_req =
    [0x61, 0x11, 0x38, 0x00, 0x00, 0x00, 0x00, 0x00,
     0x67, 0x01, 0x00, 0x00, 0x20, 0x00, 0x00, 0x00,
     0xc7, 0x01, 0x00, 0x00, 0x20, 0x00, 0x00, 0x00,
     0xb7, 0x00, 0x00, 0x00, 0x01, 0x00, 0x00, 0x00,
     0x65, 0x01, 0x01, 0x00, 0x01, 0x00, 0x00, 0x00,
     0xb7, 0x00, 0x00, 0x00, 0x00, 0x00, 0x00, 0x00,
     0x95, 0x00, 0x00, 0x00, 0x00, 0x00, 0x00, 0x00,
     0x00]"

definition llcp_conn_param_req :: "u8 list" where
  "llcp_conn_param_req =
    [0x61, 0x11, 0x48, 0x00, 0x00, 0x00, 0x00, 0x00,
     0x67, 0x01, 0x00, 0x00, 0x20, 0x00, 0x00, 0x00,
     0xc7, 0x01, 0x00, 0x00, 0x20, 0x00, 0x00, 0x00,
     0xb7, 0x00, 0x00, 0x00, 0x01, 0x00, 0x00, 0x00,
     0x65, 0x01, 0x01, 0x00, 0x01, 0x00, 0x00, 0x00,
     0xb7, 0x00, 0x00, 0x00, 0x00, 0x00, 0x00, 0x00,
     0x95, 0x00, 0x00, 0x00, 0x00, 0x00, 0x00, 0x00,
     0x00]"

definition scan_rsp_len :: "u8 list" where
  "scan_rsp_len =
    [0x61, 0x11, 0x28, 0x00, 0x00, 0x00, 0x00, 0x00,
     0x67, 0x01, 0x00, 0x00, 0x20, 0x00, 0x00, 0x00,
     0xc7, 0x01, 0x00, 0x00, 0x20, 0x00, 0x00, 0x00,
     0xb7, 0x00, 0x00, 0x00, 0x01, 0x00, 0x00, 0x00,
     0x65, 0x01, 0x01, 0x00, 0x50, 0x00, 0x00, 0x00,
     0xb7, 0x00, 0x00, 0x00, 0x00, 0x00, 0x00, 0x00,
     0x95, 0x00, 0x00, 0x00, 0x00, 0x00, 0x00, 0x00,
     0x00]"

definition smp_ident_check :: "u8 list" where
  "smp_ident_check =
    [0xb7, 0x00, 0x00, 0x00, 0x00, 0x00, 0x00, 0x00,
     0x61, 0x12, 0x5c, 0x00, 0x00, 0x00, 0x00, 0x00,
     0x57, 0x02, 0x00, 0x00, 0x24, 0x00, 0x00, 0x00,
     0x15, 0x02, 0x0e, 0x00, 0x00, 0x00, 0x00, 0x00,
     0xb7, 0x00, 0x00, 0x00, 0x01, 0x00, 0x00, 0x00,
     0x61, 0x12, 0x54, 0x00, 0x00, 0x00, 0x00, 0x00,
     0x67, 0x02, 0x00, 0x00, 0x20, 0x00, 0x00, 0x00,
     0xc7, 0x02, 0x00, 0x00, 0x20, 0x00, 0x00, 0x00,
     0x61, 0x13, 0x60, 0x00, 0x00, 0x00, 0x00, 0x00,
     0x67, 0x03, 0x00, 0x00, 0x20, 0x00, 0x00, 0x00,
     0xc7, 0x03, 0x00, 0x00, 0x20, 0x00, 0x00, 0x00,
     0x6d, 0x23, 0x06, 0x00, 0x00, 0x00, 0x00, 0x00,
     0x61, 0x12, 0x64, 0x00, 0x00, 0x00, 0x00, 0x00,
     0x57, 0x02, 0x00, 0x00, 0x01, 0x00, 0x00, 0x00,
     0x15, 0x02, 0x02, 0x00, 0x00, 0x00, 0x00, 0x00,
     0x61, 0x11, 0x58, 0x00, 0x00, 0x00, 0x00, 0x00,
     0x15, 0x01, 0x01, 0x00, 0x00, 0x00, 0x00, 0x00,
     0xb7, 0x00, 0x00, 0x00, 0x00, 0x00, 0x00, 0x00,
     0x95, 0x00, 0x00, 0x00, 0x00, 0x00, 0x00, 0x00,
     0x00]"

definition spi_acl_len :: "u8 list" where
  "spi_acl_len =
    [0x61, 0x11, 0x70, 0x00, 0x00, 0x00, 0x00, 0x00,
     0x67, 0x01, 0x00, 0x00, 0x20, 0x00, 0x00, 0x00,
     0xc7, 0x01, 0x00, 0x00, 0x20, 0x00, 0x00, 0x00,
     0xb7, 0x00, 0x00, 0x00, 0x01, 0x00, 0x00, 0x00,
     0x65, 0x01, 0x01, 0x00, 0x4c, 0x00, 0x00, 0x00,
     0xb7, 0x00, 0x00, 0x00, 0x00, 0x00, 0x00, 0x00,
     0x95, 0x00, 0x00, 0x00, 0x00, 0x00, 0x00, 0x00,
     0x00]"

definition spi_evt_len :: "u8 list" where
  "spi_evt_len =
    [0x61, 0x11, 0x6c, 0x00, 0x00, 0x00, 0x00, 0x00,
     0x67, 0x01, 0x00, 0x00, 0x20, 0x00, 0x00, 0x00,
     0xc7, 0x01, 0x00, 0x00, 0x20, 0x00, 0x00, 0x00,
     0xb7, 0x00, 0x00, 0x00, 0x01, 0x00, 0x00, 0x00,
     0x65, 0x01, 0x01, 0x00, 0x4c, 0x00, 0x00, 0x00,
     0xb7, 0x00, 0x00, 0x00, 0x00, 0x00, 0x00, 0x00,
     0x95, 0x00, 0x00, 0x00, 0x00, 0x00, 0x00, 0x00,
     0x00]"

lemmas policy_code_defs =
  conn_chan_map_def conn_chan_hop_def lll_interval_def dc_nesn_def llcp_len_req_def llcp_conn_param_req_def scan_rsp_len_def smp_ident_check_def spi_acl_len_def spi_evt_len_def

section \<open>C sources\<close>

definition conn_chan_map_filter :: "FsmState \<Rightarrow> u64" where
  "conn_chan_map_filter fsm =
     (if sint (conn_param fsm ! unat (conn_type CHANNEL_MAP)) < 2
      then IFW_OPERATION_REJECT else IFW_OPERATION_PASS)"

definition conn_chan_hop_filter :: "FsmState \<Rightarrow> u64" where
  "conn_chan_hop_filter fsm =
     (if sint (conn_param fsm ! unat (conn_type CHANNEL_HOP)) < 5 \<or>
         sint (conn_param fsm ! unat (conn_type CHANNEL_HOP)) > 16
      then IFW_OPERATION_REJECT else IFW_OPERATION_PASS)"

definition lll_interval_filter :: "FsmState \<Rightarrow> u64" where
  "lll_interval_filter fsm =
     (if conn_param fsm ! unat (conn_type LLL_INTERVAL) = 0
      then IFW_OPERATION_REJECT else IFW_OPERATION_PASS)"

definition dc_nesn_filter :: "FsmState \<Rightarrow> u64" where
  "dc_nesn_filter fsm =
     (if dc_param fsm ! unat (dc_type DC_ANCHOR_STATE) = 1 \<and>
         dc_param fsm ! unat (dc_type NESN) = 1 \<and>
         dc_param fsm ! unat (dc_type SN) = 1
      then IFW_OPERATION_REJECT else IFW_OPERATION_PASS)"

definition llcp_len_req_filter :: "FsmState \<Rightarrow> u64" where
  "llcp_len_req_filter fsm =
     (if sint (dc_param fsm ! unat (dc_type LLCP_LEN_REQ)) > 1
      then IFW_OPERATION_REJECT else IFW_OPERATION_PASS)"

definition llcp_conn_param_req_filter :: "FsmState \<Rightarrow> u64" where
  "llcp_conn_param_req_filter fsm =
     (if sint (dc_param fsm ! unat (dc_type LLCP_CONN_PARAM_REQ)) > 1
      then IFW_OPERATION_REJECT else IFW_OPERATION_PASS)"

abbreviation (input) PDU_AC_SIZE_MAX :: int where "PDU_AC_SIZE_MAX \<equiv> 80"

definition scan_rsp_len_filter :: "FsmState \<Rightarrow> u64" where
  "scan_rsp_len_filter fsm =
     (if sint (conn_param fsm ! unat (conn_type SCAN_RSP_LEN)) > PDU_AC_SIZE_MAX
      then IFW_OPERATION_REJECT else IFW_OPERATION_PASS)"

abbreviation (input) BT_KEYS_LTK_P256 :: s32 where "BT_KEYS_LTK_P256 \<equiv> 32"
abbreviation (input) BT_KEYS_LTK :: s32 where "BT_KEYS_LTK \<equiv> 4"
abbreviation (input) BT_KEYS_AUTHENTICATED :: s32 where "BT_KEYS_AUTHENTICATED \<equiv> 1"
definition JUST_WORKS :: s32 where "JUST_WORKS = 0"

definition smp_ident_check_filter :: "FsmState \<Rightarrow> u64" where
  "smp_ident_check_filter fsm =
     (if dc_param fsm ! unat (dc_type SMP_KEYS) AND (BT_KEYS_LTK_P256 OR BT_KEYS_LTK) = 0
      then IFW_OPERATION_PASS
      else if sint (dc_param fsm ! unat (dc_type SMP_ENC_SIZE)) >
              sint (dc_param fsm ! unat (dc_type SMP_ENC_SIZE_PREV))
      then IFW_OPERATION_REJECT
      else if dc_param fsm ! unat (dc_type SMP_KEYS_FLAGS) AND BT_KEYS_AUTHENTICATED \<noteq> 0 \<and>
              dc_param fsm ! unat (dc_type SMP_METHOD_PREV) = JUST_WORKS
      then IFW_OPERATION_REJECT
      else IFW_OPERATION_PASS)"

abbreviation (input) BT_BUF_RX_SIZE :: int where "BT_BUF_RX_SIZE \<equiv> 76"

definition spi_acl_len_filter :: "FsmState \<Rightarrow> u64" where
  "spi_acl_len_filter fsm =
     (if sint (spi_param fsm ! unat (spi_type HCI_ACL_LEN)) > BT_BUF_RX_SIZE
      then IFW_OPERATION_REJECT else IFW_OPERATION_PASS)"

definition spi_evt_len_filter :: "FsmState \<Rightarrow> u64" where
  "spi_evt_len_filter fsm =
     (if sint (spi_param fsm ! unat (spi_type HCI_EVT_LEN)) > BT_BUF_RX_SIZE
      then IFW_OPERATION_REJECT else IFW_OPERATION_PASS)"

lemmas policy_filter_defs = conn_chan_map_filter_def conn_chan_hop_filter_def lll_interval_filter_def dc_nesn_filter_def llcp_len_req_filter_def llcp_conn_param_req_filter_def scan_rsp_len_filter_def smp_ident_check_filter_def spi_acl_len_filter_def spi_evt_len_filter_def
  JUST_WORKS_def ifw_codes

section \<open>Symbolic execution\<close>

text \<open>The word loads of the policies, by offset into the structure.\<close>

lemma fsm_loads:
  assumes "wf_fsm st"
  shows
    "take 4 (drop 32 (fsm_bytes st)) = le_bytes 4 (conn_param st ! 0)"
    "take 4 (drop 36 (fsm_bytes st)) = le_bytes 4 (conn_param st ! 1)"
    "take 4 (drop 40 (fsm_bytes st)) = le_bytes 4 (conn_param st ! 2)"
    "take 4 (drop 44 (fsm_bytes st)) = le_bytes 4 (conn_param st ! 3)"
    "take 4 (drop 48 (fsm_bytes st)) = le_bytes 4 (dc_param st ! 0)"
    "take 4 (drop 52 (fsm_bytes st)) = le_bytes 4 (dc_param st ! 1)"
    "take 4 (drop 56 (fsm_bytes st)) = le_bytes 4 (dc_param st ! 2)"
    "take 4 (drop 60 (fsm_bytes st)) = le_bytes 4 (dc_param st ! 3)"
    "take 4 (drop 64 (fsm_bytes st)) = le_bytes 4 (dc_param st ! 4)"
    "take 4 (drop 68 (fsm_bytes st)) = le_bytes 4 (dc_param st ! 5)"
    "take 4 (drop 72 (fsm_bytes st)) = le_bytes 4 (dc_param st ! 6)"
    "take 4 (drop 76 (fsm_bytes st)) = le_bytes 4 (dc_param st ! 7)"
    "take 4 (drop 80 (fsm_bytes st)) = le_bytes 4 (dc_param st ! 8)"
    "take 4 (drop 84 (fsm_bytes st)) = le_bytes 4 (dc_param st ! 9)"
    "take 4 (drop 88 (fsm_bytes st)) = le_bytes 4 (dc_param st ! 10)"
    "take 4 (drop 92 (fsm_bytes st)) = le_bytes 4 (dc_param st ! 11)"
    "take 4 (drop 96 (fsm_bytes st)) = le_bytes 4 (dc_param st ! 12)"
    "take 4 (drop 100 (fsm_bytes st)) = le_bytes 4 (dc_param st ! 13)"
    "take 4 (drop 104 (fsm_bytes st)) = le_bytes 4 (dc_param st ! 14)"
    "take 4 (drop 108 (fsm_bytes st)) = le_bytes 4 (spi_param st ! 0)"
    "take 4 (drop 112 (fsm_bytes st)) = le_bytes 4 (spi_param st ! 1)"
proof -
  have conn: "take 4 (drop (32 + 4 * k) (fsm_bytes st)) = le_bytes 4 (conn_param st ! k)" if "k < 4" for k
    using that fsm_bytes_word [OF assms, of "8 + k"] fsm_words_conn [OF assms, of k] by simp
  have dc: "take 4 (drop (48 + 4 * k) (fsm_bytes st)) = le_bytes 4 (dc_param st ! k)" if "k < 15" for k
    using that fsm_bytes_word [OF assms, of "12 + k"] fsm_words_dc [OF assms, of k] by simp
  have spi: "take 4 (drop (108 + 4 * k) (fsm_bytes st)) = le_bytes 4 (spi_param st ! k)" if "k < 2" for k
    using that fsm_bytes_word [OF assms, of "27 + k"] fsm_words_spi [OF assms, of k] by simp
  from conn [of 0] conn [of 1] conn [of 2] conn [of 3]
    dc [of 0] dc [of 1] dc [of 2] dc [of 3] dc [of 4] dc [of 5] dc [of 6] dc [of 7]
    dc [of 8] dc [of 9] dc [of 10] dc [of 11] dc [of 12] dc [of 13] dc [of 14] spi [of 0] spi [of 1]
  show "take 4 (drop 32 (fsm_bytes st)) = le_bytes 4 (conn_param st ! 0)"
    "take 4 (drop 36 (fsm_bytes st)) = le_bytes 4 (conn_param st ! 1)"
    "take 4 (drop 40 (fsm_bytes st)) = le_bytes 4 (conn_param st ! 2)"
    "take 4 (drop 44 (fsm_bytes st)) = le_bytes 4 (conn_param st ! 3)"
    "take 4 (drop 48 (fsm_bytes st)) = le_bytes 4 (dc_param st ! 0)"
    "take 4 (drop 52 (fsm_bytes st)) = le_bytes 4 (dc_param st ! 1)"
    "take 4 (drop 56 (fsm_bytes st)) = le_bytes 4 (dc_param st ! 2)"
    "take 4 (drop 60 (fsm_bytes st)) = le_bytes 4 (dc_param st ! 3)"
    "take 4 (drop 64 (fsm_bytes st)) = le_bytes 4 (dc_param st ! 4)"
    "take 4 (drop 68 (fsm_bytes st)) = le_bytes 4 (dc_param st ! 5)"
    "take 4 (drop 72 (fsm_bytes st)) = le_bytes 4 (dc_param st ! 6)"
    "take 4 (drop 76 (fsm_bytes st)) = le_bytes 4 (dc_param st ! 7)"
    "take 4 (drop 80 (fsm_bytes st)) = le_bytes 4 (dc_param st ! 8)"
    "take 4 (drop 84 (fsm_bytes st)) = le_bytes 4 (dc_param st ! 9)"
    "take 4 (drop 88 (fsm_bytes st)) = le_bytes 4 (dc_param st ! 10)"
    "take 4 (drop 92 (fsm_bytes st)) = le_bytes 4 (dc_param st ! 11)"
    "take 4 (drop 96 (fsm_bytes st)) = le_bytes 4 (dc_param st ! 12)"
    "take 4 (drop 100 (fsm_bytes st)) = le_bytes 4 (dc_param st ! 13)"
    "take 4 (drop 104 (fsm_bytes st)) = le_bytes 4 (dc_param st ! 14)"
    "take 4 (drop 108 (fsm_bytes st)) = le_bytes 4 (spi_param st ! 0)"
    "take 4 (drop 112 (fsm_bytes st)) = le_bytes 4 (spi_param st ! 1)"
    by simp_all
qed

lemmas policy_exec_simps = vm_exec_simps fsm_loads length_fsm_bytes sizeof_FsmState_def
  ucast_eq_numeral_u32

text \<open>The hop check: one unsigned comparison of \<open>hop - 5\<close> replaces two signed ones.\<close>

lemma hop_range:
  fixes w :: u32
  shows "11 < (ucast (w - 5) :: u64) \<longleftrightarrow> sint w < 5 \<or> 16 < sint w"
proof -
  have *: "11 < (x - 5) mod 2 ^ 32 \<longleftrightarrow> x < 5 \<or> 16 < x"
    if "- (2 ^ 31) \<le> x" "x < 2 ^ 31" for x :: int
  proof (cases "x < 5")
    case True
    then have "(x - 5) mod 2 ^ 32 = (x - 5 + 2 ^ 32) mod 2 ^ 32"
      by (simp only: mod_add_self2)
    also have "\<dots> = x - 5 + 2 ^ 32" using True that by (intro mod_pos_pos_trivial) auto
    finally show ?thesis using True that by simp
  next
    case False
    then have "(x - 5) mod 2 ^ 32 = x - 5" using that by (intro mod_pos_pos_trivial) auto
    with False show ?thesis by auto
  qed
  have "11 < (ucast (w - 5) :: u64) \<longleftrightarrow> 11 < uint (w - 5)"
    by (simp add: word_less_def uint_up_ucast is_up)
  also have "uint (w - 5) = (sint w - 5) mod 2 ^ 32"
    using uint_sint [of w] by (simp add: uint_word_ariths(2) take_bit_eq_mod mod_diff_left_eq)
  finally show ?thesis
    using * [of "sint w"] sint_ge [of w] sint_lt [of w] by simp
qed

text \<open>The SMP policy tests key bits on the zero-extended word.\<close>

lemma ucast_mask_zero:
  fixes w :: u32
  shows "(ucast w AND 36 :: u64) = 0 \<longleftrightarrow> w AND 36 = 0"
    "(ucast w AND 1 :: u64) = 0 \<longleftrightarrow> w AND 1 = 0"
  using unsigned_and_eq [of w 36, where ?'a = "64 word"] unsigned_and_eq [of w 1, where ?'a = "64 word"]
    ucast_eq_numeral_u32(1) [of "w AND 36"] ucast_eq_numeral_u32(1) [of "w AND 1"]
  by (simp_all del: and_one_eq)

section \<open>Bytecode and source agree\<close>

definition shipped_policies :: "(u8 list \<times> (FsmState \<Rightarrow> u64)) list" where
  "shipped_policies =
     [(conn_chan_map, conn_chan_map_filter), (conn_chan_hop, conn_chan_hop_filter),
      (lll_interval, lll_interval_filter), (dc_nesn, dc_nesn_filter),
      (llcp_len_req, llcp_len_req_filter), (llcp_conn_param_req, llcp_conn_param_req_filter),
      (scan_rsp_len, scan_rsp_len_filter), (smp_ident_check, smp_ident_check_filter),
      (spi_acl_len, spi_acl_len_filter), (spi_evt_len, spi_evt_len_filter)]"

lemma conn_chan_map_exec:
  assumes "wf_fsm st" "aligned mp 4" "\<not> bounds_check_enabled vm"
  shows "ebpf_vm_loop vm h ml (insts_of_code conn_chan_map) (vm_init mp (fsm_bytes st) sp) =
     Some (Inr (conn_chan_map_filter st, fsm_bytes st))"
  using assms by (simp add: conn_chan_map_def policy_exec_simps policy_filter_defs)

lemma conn_chan_hop_exec:
  assumes "wf_fsm st" "aligned mp 4" "\<not> bounds_check_enabled vm"
  shows "ebpf_vm_loop vm h ml (insts_of_code conn_chan_hop) (vm_init mp (fsm_bytes st) sp) =
     Some (Inr (conn_chan_hop_filter st, fsm_bytes st))"
  using assms
  by (simp add: conn_chan_hop_def policy_exec_simps policy_filter_defs
    ucast_sub_down hop_range)

lemma lll_interval_exec:
  assumes "wf_fsm st" "aligned mp 4" "\<not> bounds_check_enabled vm"
  shows "ebpf_vm_loop vm h ml (insts_of_code lll_interval) (vm_init mp (fsm_bytes st) sp) =
     Some (Inr (lll_interval_filter st, fsm_bytes st))"
  using assms by (simp add: lll_interval_def policy_exec_simps policy_filter_defs)

lemma dc_nesn_exec:
  assumes "wf_fsm st" "aligned mp 4" "\<not> bounds_check_enabled vm"
  shows "ebpf_vm_loop vm h ml (insts_of_code dc_nesn) (vm_init mp (fsm_bytes st) sp) =
     Some (Inr (dc_nesn_filter st, fsm_bytes st))"
  using assms by (simp add: dc_nesn_def policy_exec_simps policy_filter_defs)

lemma llcp_len_req_exec:
  assumes "wf_fsm st" "aligned mp 4" "\<not> bounds_check_enabled vm"
  shows "ebpf_vm_loop vm h ml (insts_of_code llcp_len_req) (vm_init mp (fsm_bytes st) sp) =
     Some (Inr (llcp_len_req_filter st, fsm_bytes st))"
  using assms by (simp add: llcp_len_req_def policy_exec_simps policy_filter_defs)

lemma llcp_conn_param_req_exec:
  assumes "wf_fsm st" "aligned mp 4" "\<not> bounds_check_enabled vm"
  shows "ebpf_vm_loop vm h ml (insts_of_code llcp_conn_param_req) (vm_init mp (fsm_bytes st) sp) =
     Some (Inr (llcp_conn_param_req_filter st, fsm_bytes st))"
  using assms by (simp add: llcp_conn_param_req_def policy_exec_simps policy_filter_defs)

lemma scan_rsp_len_exec:
  assumes "wf_fsm st" "aligned mp 4" "\<not> bounds_check_enabled vm"
  shows "ebpf_vm_loop vm h ml (insts_of_code scan_rsp_len) (vm_init mp (fsm_bytes st) sp) =
     Some (Inr (scan_rsp_len_filter st, fsm_bytes st))"
  using assms by (simp add: scan_rsp_len_def policy_exec_simps policy_filter_defs)

lemma smp_ident_check_exec:
  assumes "wf_fsm st" "aligned mp 4" "\<not> bounds_check_enabled vm"
  shows "ebpf_vm_loop vm h ml (insts_of_code smp_ident_check) (vm_init mp (fsm_bytes st) sp) =
     Some (Inr (smp_ident_check_filter st, fsm_bytes st))"
  using assms by (simp add: smp_ident_check_def policy_exec_simps policy_filter_defs ucast_mask_zero)

lemma spi_acl_len_exec:
  assumes "wf_fsm st" "aligned mp 4" "\<not> bounds_check_enabled vm"
  shows "ebpf_vm_loop vm h ml (insts_of_code spi_acl_len) (vm_init mp (fsm_bytes st) sp) =
     Some (Inr (spi_acl_len_filter st, fsm_bytes st))"
  using assms by (simp add: spi_acl_len_def policy_exec_simps policy_filter_defs)

lemma spi_evt_len_exec:
  assumes "wf_fsm st" "aligned mp 4" "\<not> bounds_check_enabled vm"
  shows "ebpf_vm_loop vm h ml (insts_of_code spi_evt_len) (vm_init mp (fsm_bytes st) sp) =
     Some (Inr (spi_evt_len_filter st, fsm_bytes st))"
  using assms by (simp add: spi_evt_len_def policy_exec_simps policy_filter_defs)

lemmas policy_execs = conn_chan_map_exec conn_chan_hop_exec lll_interval_exec dc_nesn_exec
  llcp_len_req_exec llcp_conn_param_req_exec scan_rsp_len_exec smp_ident_check_exec
  spi_acl_len_exec spi_evt_len_exec

lemma shipped_policy_loop:
  assumes "(code, src) \<in> set shipped_policies" "wf_fsm st" "aligned mp 4" "\<not> bounds_check_enabled vm"
  shows "ebpf_vm_loop vm h ml (insts_of_code code) (vm_init mp (fsm_bytes st) sp) =
     Some (Inr (src st, fsm_bytes st))"
  using assms unfolding shipped_policies_def by (auto simp: policy_execs)

text \<open>
  C5: a virtual machine loaded with any of the shipped bytecode arrays, at any address of the
  protocol state (a multiple of four, the alignment of the structure) and of the stack, returns exactly the verdict of the C source the array was
  compiled from, for every protocol state, without undefined behaviour, and leaves the protocol
  state unchanged.
\<close>

theorem shipped_policies_match_source:
  assumes "(code, src) \<in> set shipped_policies" "wf_fsm st" "aligned mem 4"
  shows "ebpf_vm_exec (ebpf_vm_set_inst ebpf_vm_zero (Some code) code_len) helpers mem (fsm_bytes st) mem_len stack =
    Some (Inr (src st, fsm_bytes st))"
  using assms
  by (simp add: ebpf_vm_exec_def ebpf_vm_set_inst_def ebpf_vm_zero_def shipped_policy_loop)

theorem shipped_policies_match_source_witness:
  "ebpf_vm_exec (ebpf_vm_set_inst ebpf_vm_zero (Some conn_chan_hop) 65) None 0x20000000 (fsm_bytes fsm_zero) 64
     0x20001000 = Some (Inr (1, fsm_bytes fsm_zero))"
proof -
  have "conn_chan_hop_filter fsm_zero = 1" by (simp add: policy_filter_defs fsm_zero_def)
  then show ?thesis
    using shipped_policies_match_source [of conn_chan_hop conn_chan_hop_filter fsm_zero "0x20000000"]
    by (simp add: shipped_policies_def aligned_def)
qed

end
