(* ===== verification/Policy_Verifier.thy ===== *)
theory Policy_Verifier
  imports Policy_Code
begin

text \<open>
  The structural verifier \<open>ifw_verify_policy\<close> of \<^verbatim>\<open>policy/src/fsm_policy_cache.c\<close>, run on every
  policy that is installed at run time, and what its acceptance says about a run of the
  interpreter: which programs return, which of them leave the protocol state alone, and which
  further conditions on the code exclude undefined behaviour. A pointer with its length is the list
  of the bytes it points to; \<open>None\<close> is the null pointer. Instruction counts are at most 64 after the
  second check, so indices are natural numbers.
\<close>

section \<open>The verifier\<close>

definition IFW_RUNTIME_MAX_INSTS :: nat where "IFW_RUNTIME_MAX_INSTS = 64"
definition MAX_BPF_REG :: "4 word" where "MAX_BPF_REG = 11"

text \<open>What the loop body does with one instruction: fail, or go on to one of the next slots.\<close>

datatype verify_outcome = V_fail int | V_exit | V_next | V_skip

text \<open>The size of a load, 0 for every other instruction.\<close>

definition verify_load_sz :: "u8 \<Rightarrow> nat" where
  "verify_load_sz op = (case ebpf_op_of op of Some (OP_LDX z) \<Rightarrow> size_bytes z | _ \<Rightarrow> 0)"

definition verify_is_store :: "u8 \<Rightarrow> bool" where
  "verify_is_store op =
     (case ebpf_op_of op of Some (OP_ST z) \<Rightarrow> True | Some (OP_STX z) \<Rightarrow> True | _ \<Rightarrow> False)"

text \<open>The range checks of a load; \<open>None\<close> when they pass.\<close>

definition verify_load :: "nat \<Rightarrow> ebpf_inst \<Rightarrow> int option" where
  "verify_load mem_size inst =
     (let load_sz = verify_load_sz (i_opcode inst); off = sint (i_offset inst) in
      if load_sz = 0 then None
      else if i_src inst = 1
        then (if off < 0 \<or> nat off + load_sz > mem_size then Some (- 15) else None)
      else if i_src inst = 10
        then (if off \<ge> 0 \<or> int load_sz + off > 0 \<or> nat (- off) > STACK_SIZE
              then Some (- 16) else None)
      else Some (- 17))"

definition verify_inst :: "nat \<Rightarrow> nat \<Rightarrow> nat \<Rightarrow> ebpf_inst \<Rightarrow> verify_outcome" where
  "verify_inst mem_size num p inst =
     (let op = i_opcode inst in
      if i_dst inst \<ge> MAX_BPF_REG \<or> i_src inst \<ge> MAX_BPF_REG then V_fail (- 12)
      else if ebpf_op_of op = Some OP_CALL then V_fail (- 13)
      else if ebpf_op_of op = Some OP_EXIT then V_exit
      else if verify_is_store op then V_fail (- 14)
      else (case verify_load mem_size inst of
              Some e \<Rightarrow> V_fail e
            | None \<Rightarrow>
                if ebpf_op_of op = Some OP_LDDW
                then (if p + 1 \<ge> num then V_fail (- 18) else V_skip)
                else if op AND EBPF_CLS_MASK = EBPF_CLS_JMP
                then (if sint (i_offset inst) < 0 then V_fail (- 19)
                      else if p + 1 + nat (sint (i_offset inst)) \<ge> num then V_fail (- 20)
                      else V_next)
                else V_next))"

function verify_loop :: "ebpf_inst list \<Rightarrow> nat \<Rightarrow> nat \<Rightarrow> bool \<Rightarrow> int" where
  "verify_loop is mem_size p seen_exit =
     (if p < length is
      then (case verify_inst mem_size (length is) p (is ! p) of
              V_fail e \<Rightarrow> e
            | V_exit \<Rightarrow> verify_loop is mem_size (p + 1) True
            | V_next \<Rightarrow> verify_loop is mem_size (p + 1) seen_exit
            | V_skip \<Rightarrow> verify_loop is mem_size (p + 2) seen_exit)
      else if seen_exit then 0 else - 21)"
  by pat_completeness auto
termination
  by (relation "measure (\<lambda>(is, _, p, _). length is - p)") auto

definition ifw_verify_policy :: "u8 list option \<Rightarrow> nat \<Rightarrow> int" where
  "ifw_verify_policy code mem_size =
     (case code of
        None \<Rightarrow> - 10
      | Some bs \<Rightarrow>
          if length bs = 0 \<or> length bs mod 8 \<noteq> 0 then - 10
          else if length bs div 8 > IFW_RUNTIME_MAX_INSTS then - 11
          else verify_loop (insts_of_code bs) mem_size 0 False)"

section \<open>A declarative reading\<close>

text \<open>The slots the loop looks at: every one but the second halves of \<open>LDDW\<close>.\<close>

function scanned :: "ebpf_inst list \<Rightarrow> nat \<Rightarrow> nat list" where
  "scanned is p =
     (if p < length is
      then p # scanned is (if ebpf_op_of (i_opcode (is ! p)) = Some OP_LDDW then p + 2 else p + 1)
      else [])"
  by pat_completeness auto
termination
  by (relation "measure (\<lambda>(is, p). length is - p)") auto

declare verify_loop.simps [simp del] scanned.simps [simp del]

definition inst_accepted :: "nat \<Rightarrow> nat \<Rightarrow> nat \<Rightarrow> ebpf_inst \<Rightarrow> bool" where
  "inst_accepted mem_size num p inst = (\<forall>e. verify_inst mem_size num p inst \<noteq> V_fail e)"

lemma verify_load_neg: "verify_load m i = Some e \<Longrightarrow> e < 0"
  by (auto simp: verify_load_def Let_def split: if_splits)

lemma verify_inst_fail_neg: "verify_inst m n p i = V_fail e \<Longrightarrow> e < 0"
  by (auto simp: verify_inst_def Let_def split: if_splits option.splits dest: verify_load_neg)

lemma verify_inst_exit_iff:
  "inst_accepted m n p i \<Longrightarrow> verify_inst m n p i = V_exit \<longleftrightarrow> ebpf_op_of (i_opcode i) = Some OP_EXIT"
  by (auto simp: inst_accepted_def verify_inst_def Let_def split: if_splits option.splits)

lemma verify_inst_skip_iff:
  "inst_accepted m n p i \<Longrightarrow> verify_inst m n p i = V_skip \<longleftrightarrow> ebpf_op_of (i_opcode i) = Some OP_LDDW"
  by (auto simp: inst_accepted_def verify_inst_def Let_def split: if_splits option.splits)

lemma verify_loop_le: "verify_loop is m p seen \<le> 0"
proof (induction "is" m p seen rule: verify_loop.induct)
  case (1 "is" m p seen)
  then show ?case
    by (subst verify_loop.simps)
      (auto split: verify_outcome.splits dest: verify_inst_fail_neg intro: order.strict_implies_order)
qed

lemma verify_result_le: "ifw_verify_policy c m \<le> 0"
  by (simp add: ifw_verify_policy_def verify_loop_le split: option.split)

lemma verify_loop_iff:
  "verify_loop is m p seen = 0 \<longleftrightarrow>
     (\<forall>k \<in> set (scanned is p). inst_accepted m (length is) k (is ! k)) \<and>
     (seen \<or> (\<exists>k \<in> set (scanned is p). ebpf_op_of (i_opcode (is ! k)) = Some OP_EXIT))"
proof (induction "is" m p seen rule: verify_loop.induct)
  case (1 "is" m p seen)
  show ?case
  proof (cases "p < length is")
    case False
    then show ?thesis by (simp add: verify_loop.simps [of "is" m p] scanned.simps [of "is" p])
  next
    case True
    let ?v = "verify_inst m (length is) p (is ! p)"
    note unf = verify_loop.simps [of "is" m p] scanned.simps [of "is" p]
    show ?thesis
    proof (cases ?v)
      case (V_fail e)
      then show ?thesis
        using True verify_inst_fail_neg [OF V_fail] by (auto simp: unf inst_accepted_def)
    next
      case V_exit
      then have a: "inst_accepted m (length is) p (is ! p)" by (simp add: inst_accepted_def)
      with V_exit show ?thesis
        using True 1(1) [OF True V_exit] verify_inst_exit_iff [OF a] by (auto simp: unf)
    next
      case V_next
      then have a: "inst_accepted m (length is) p (is ! p)" by (simp add: inst_accepted_def)
      with V_next show ?thesis
        using True 1(2) [OF True V_next] verify_inst_exit_iff [OF a] verify_inst_skip_iff [OF a]
        by (auto simp: unf)
    next
      case V_skip
      then have a: "inst_accepted m (length is) p (is ! p)" by (simp add: inst_accepted_def)
      with V_skip show ?thesis
        using True 1(3) [OF True V_skip] verify_inst_exit_iff [OF a] verify_inst_skip_iff [OF a]
        by (auto simp: unf)
    qed
  qed
qed

section \<open>What acceptance gives for one instruction\<close>

text \<open>The control-flow and store conditions of an accepted slot.\<close>

definition inst_benign :: "nat \<Rightarrow> nat \<Rightarrow> ebpf_inst \<Rightarrow> bool" where
  "inst_benign num p i =
     (case ebpf_op_of (i_opcode i) of
        Some OP_CALL \<Rightarrow> False
      | Some (OP_ST z) \<Rightarrow> False
      | Some (OP_STX z) \<Rightarrow> False
      | Some OP_JA \<Rightarrow> 0 \<le> sint (i_offset i) \<and> p + 1 + nat (sint (i_offset i)) < num
      | Some (OP_JMP j r) \<Rightarrow> 0 \<le> sint (i_offset i) \<and> p + 1 + nat (sint (i_offset i)) < num
      | _ \<Rightarrow> True)"

lemma jmp_class:
  "ebpf_op_of c = Some OP_JA \<Longrightarrow> c AND EBPF_CLS_MASK = EBPF_CLS_JMP"
  "ebpf_op_of c = Some (OP_JMP j r) \<Longrightarrow> c AND EBPF_CLS_MASK = EBPF_CLS_JMP"
  unfolding ebpf_op_of_iff
  by auto (cases j; cases r; simp)

lemma inst_accepted_benign: "inst_accepted m n p i \<Longrightarrow> inst_benign n p i"
  unfolding inst_accepted_def inst_benign_def verify_inst_def Let_def
  by (auto split: option.splits ebpf_op.splits if_splits
      simp: verify_is_store_def jmp_class)

lemma alu_result_go:
  "alu_result i s r = Inr (Go s') \<Longrightarrow> \<exists>v. s' = set_dst i s v"
  by (cases r; cases "projr r") (auto simp: alu_result_def)

lemma set_dst_simps [simp]:
  "pc (set_dst i s v) = pc s" "mem_bytes (set_dst i s v) = mem_bytes s"
  "mem_base (set_dst i s v) = mem_base s" "stack_base (set_dst i s v) = stack_base s"
  "stack_bytes (set_dst i s v) = stack_bytes s" "r \<noteq> i_dst i \<Longrightarrow> reg (set_dst i s v) r = reg s r"
  by (simp_all add: set_dst_def)

text \<open>The registers an instruction writes and the base register of a load.\<close>

definition writes_reg :: "ebpf_inst \<Rightarrow> 4 word \<Rightarrow> bool" where
  "writes_reg i r =
     (i_dst i = r \<and>
      (case ebpf_op_of (i_opcode i) of
         None \<Rightarrow> False
       | Some (OP_JMP j q) \<Rightarrow> False
       | Some OP_JA \<Rightarrow> False
       | Some OP_EXIT \<Rightarrow> False
       | _ \<Rightarrow> True))"

definition loads_from :: "ebpf_inst \<Rightarrow> 4 word \<Rightarrow> bool" where
  "loads_from i r =
     (i_src i = r \<and> (case ebpf_op_of (i_opcode i) of Some (OP_LDX z) \<Rightarrow> True | _ \<Rightarrow> False))"

text \<open>The parts of the state an accepted instruction cannot change.\<close>

definition same_memory :: "vm_state \<Rightarrow> vm_state \<Rightarrow> bool" where
  "same_memory s s' \<longleftrightarrow>
     mem_base s' = mem_base s \<and> mem_bytes s' = mem_bytes s \<and>
     stack_base s' = stack_base s \<and> stack_bytes s' = stack_bytes s"

lemma exec_inst_effect:
  assumes "exec_inst vm h ml is i s = Inr (Go s')" "inst_benign n p i"
  shows "same_memory s s'"
    and "\<not> writes_reg i r \<Longrightarrow> reg s' r = reg s r"
    and "pc s' = pc s \<or> pc s' = pc s + 1 \<and> unat (pc s) < length is \<or>
      pc s' = pc s + i_offset i \<and> 0 \<le> sint (i_offset i) \<and> p + 1 + nat (sint (i_offset i)) < n"
  using assms
  by (auto simp: exec_inst_def inst_benign_def same_memory_def writes_reg_def exec_ldx_def exec_lddw_def jump_def
      Let_def c_bind_Inr_iff fetch_def split: option.splits ebpf_op.splits if_splits
      dest!: alu_result_go)

section \<open>Runs of accepted programs\<close>

lemma nat_sint_nonneg: "0 \<le> sint (w :: s16) \<Longrightarrow> nat (sint w) = unat w"
  using uint_sint [of w] sint_lt [of w] by (simp add: take_bit_eq_mod flip: nat_uint_eq)

lemma unat_add_small: "unat (x :: u16) + unat y < 2 ^ 16 \<Longrightarrow> unat (x + y) = unat x + unat y"
  by (simp add: unat_word_ariths)

definition all_benign :: "ebpf_inst list \<Rightarrow> bool" where
  "all_benign is \<longleftrightarrow>
     length is \<le> IFW_RUNTIME_MAX_INSTS \<and> (\<forall>k < length is. inst_benign (length is) k (is ! k))"

lemma ebpf_step_go:
  assumes "ebpf_step vm h ml is s = Inr (Go s')"
  shows "unat (pc s) < length is"
    and "exec_inst vm h ml is (is ! unat (pc s)) (s\<lparr>pc := pc s + 1\<rparr>) = Inr (Go s')"
  using assms by (auto simp: ebpf_step_def c_bind_Inr_iff fetch_def split: if_splits)

lemma benign_step:
  assumes "all_benign is" "ebpf_step vm h ml is s = Inr (Go s')"
  shows "unat (pc s) < unat (pc s')" "same_memory s s'"
    and "\<not> writes_reg (is ! unat (pc s)) r \<Longrightarrow> reg s' r = reg s r"
proof -
  let ?k = "unat (pc s)" and ?s = "s\<lparr>pc := pc s + 1\<rparr>"
  note k = ebpf_step_go [OF assms(2)]
  have b: "inst_benign (length is) ?k (is ! ?k)" and n: "length is \<le> 64"
    using assms(1) k(1) by (auto simp: all_benign_def IFW_RUNTIME_MAX_INSTS_def)
  note e = exec_inst_effect [OF k(2) b]
  show "same_memory s s'" using e(1) by (simp add: same_memory_def)
  show "\<not> writes_reg (is ! ?k) r \<Longrightarrow> reg s' r = reg s r" using e(2) by simp
  have p1: "unat (pc s + 1) = ?k + 1" using k(1) n by (simp add: unat_add_small)
  then have p2: "unat (pc s + 1 + 1) = ?k + 2" using k(1) n by (subst unat_add_small) simp_all
  show "unat (pc s) < unat (pc s')"
    using e(3)
  proof (elim disjE conjE)
    assume "pc s' = pc ?s + i_offset (is ! ?k)" "0 \<le> sint (i_offset (is ! ?k))"
      "?k + 1 + nat (sint (i_offset (is ! ?k))) < length is"
    then show ?thesis using p1 n by (simp add: nat_sint_nonneg unat_add_small)
  qed (use p1 p2 in simp_all)
qed

text \<open>Such a program stops after at most one visit of each slot, and its run keeps the memory.\<close>

lemma benign_returns:
  assumes "all_benign is"
  shows "\<exists>r. ebpf_vm_loop vm h ml is s = Some r \<and> (\<forall>v bs. r = Inr (v, bs) \<longrightarrow> bs = mem_bytes s)"
proof (induction "length is - unat (pc s)" arbitrary: s rule: less_induct)
  case less
  show ?case
  proof (cases "\<exists>s'. ebpf_step vm h ml is s = Inr (Go s')")
    case True
    then obtain s' where s': "ebpf_step vm h ml is s = Inr (Go s')" ..
    have "length is - unat (pc s') < length is - unat (pc s)"
      using benign_step(1) [OF assms s'] ebpf_step_go(1) [OF s'] by simp
    from less [OF this] show ?thesis
      using s' benign_step(2) [OF assms s'] by (simp add: ebpf_vm_loop.simps [of vm h ml "is" s] same_memory_def)
  next
    case False
    then show ?thesis
      by (subst ebpf_vm_loop.simps) (auto split: sum.split flow.split)
  qed
qed

section \<open>Absence of undefined behaviour\<close>

text \<open>
  Conditions on an instruction that the verifier does not check: constant divisors are not zero,
  constant shift amounts are in range, no division of 32-bit registers and no shift by a register,
  and loads are at a multiple of their size: the protocol state is aligned as an \<open>int\<close>, the stack
  as a \<open>u64\<close>. The 64-bit division by a register divides by the immediate operand.
\<close>

definition is_shift :: "alu_op \<Rightarrow> bool" where
  "is_shift a \<longleftrightarrow> a = EBPF_ALU_LSH \<or> a = EBPF_ALU_RSH \<or> a = EBPF_ALU_ARSH"

definition is_divide :: "alu_op \<Rightarrow> bool" where
  "is_divide a \<longleftrightarrow> a = EBPF_ALU_DIV \<or> a = EBPF_ALU_MOD"

fun alu_total :: "s32 \<Rightarrow> alu_op \<Rightarrow> ebpf_src \<Rightarrow> s32 \<Rightarrow> bool" where
  "alu_total w a EBPF_SRC_IMM I \<longleftrightarrow> (is_divide a \<longrightarrow> I \<noteq> 0) \<and> (is_shift a \<longrightarrow> I < w)"
| "alu_total w a EBPF_SRC_REG I \<longleftrightarrow> \<not> is_shift a \<and> (is_divide a \<longrightarrow> w = 64 \<and> I \<noteq> 0)"

definition load_total :: "ebpf_size \<Rightarrow> ebpf_inst \<Rightarrow> bool" where
  "load_total z i \<longleftrightarrow>
     sint (i_offset i) mod int (size_bytes z) = 0 \<and> (i_src i = 1 \<longrightarrow> size_bytes z \<le> 4)"

definition inst_total :: "ebpf_inst \<Rightarrow> bool" where
  "inst_total i =
     (case ebpf_op_of (i_opcode i) of
        Some (OP_ALU a r) \<Rightarrow> alu_total 32 a r (i_imm i)
      | Some (OP_ALU64 a r) \<Rightarrow> alu_total 64 a r (i_imm i)
      | Some (OP_LDX z) \<Rightarrow> load_total z i
      | _ \<Rightarrow> True)"

text \<open>No load through the argument pointer \<open>r1\<close> or the frame pointer \<open>r10\<close> after a write to it.\<close>

definition bases_kept :: "ebpf_inst list \<Rightarrow> bool" where
  "bases_kept is \<longleftrightarrow>
     list_all (\<lambda>k. list_all (\<lambda>j. list_all (\<lambda>r. loads_from (is ! k) r \<longrightarrow> \<not> writes_reg (is ! j) r) [1, 10])
       [0..<k]) [0..<length is]"

lemma scast_imm: "(I :: s32) \<noteq> 0 \<Longrightarrow> (scast I :: u64) \<noteq> 0"
  by (metis sint_scast_u32 sint_0 signed_eq_0_iff)

lemma scast_less:
  "(I :: s32) < 64 \<Longrightarrow> (scast I :: u64) < 64"
  "(I :: s32) < 32 \<Longrightarrow> (scast I :: u64) < 32"
  "(I :: s32) < 32 \<Longrightarrow> (ucast I :: u64) < 32"
  by (simp_all add: word_less_def scast_small uint_up_ucast is_up)

lemma alu32_total: "alu_total 32 a r I \<Longrightarrow> \<exists>f. exec_alu32 a r D S I = Inr f"
  by (cases a; cases r) (auto simp: go32_def shl32_def shr32_def sar32_def c_div_def c_mod_def
    is_divide_def is_shift_def scast_less)

lemma alu64_total: "alu_total 64 a r I \<Longrightarrow> \<exists>f. exec_alu64 a r D S I = Inr f"
  by (cases a; cases r) (auto simp: go64_def shl64_def shr64_def sar64_def c_div_def c_mod_def
    is_divide_def is_shift_def scast_less scast_imm)

lemma aligned_scast:
  assumes "sint (w :: s16) mod int n = 0" "n dvd 2 ^ 64"
  shows "aligned (scast w :: u64) n"
proof -
  have "int n dvd 2 ^ 64" using assms(2) int_dvd_int_iff [of n "2 ^ 64"] by simp
  moreover have "int (unat (scast w :: u64)) = sint w mod 2 ^ 64"
    unfolding scast_eq by (simp add: uint_word_of_int del: of_int_sint)
  ultimately have "int n dvd int (unat (scast w :: u64))"
    using assms(1) by (simp only: dvd_mod_iff mod_eq_0_iff_dvd)
  then show ?thesis by (simp only: aligned_dvd int_dvd_int_iff)
qed

lemma size_bytes_dvd:
  "size_bytes z dvd 8" "size_bytes z \<le> 4 \<Longrightarrow> size_bytes z dvd 4"
  "size_bytes z dvd 2 ^ 32" "size_bytes z dvd 2 ^ 64"
  by (cases z; simp)+

lemma load_aligned:
  assumes "load_total z i"
  shows "aligned mp 4 \<Longrightarrow> i_src i = 1 \<Longrightarrow>
      aligned (ucast ((ucast (mp :: u32) :: u64) + scast (i_offset i)) :: u32) (size_bytes z)"
    and "aligned sp 8 \<Longrightarrow>
      aligned (ucast ((ucast (sp + 128 :: u32) :: u64) + scast (i_offset i)) :: u32) (size_bytes z)"
proof -
  have o: "aligned (scast (i_offset i) :: u64) (size_bytes z)"
    using assms by (intro aligned_scast size_bytes_dvd) (simp add: load_total_def)
  show "aligned (ucast ((ucast (mp :: u32) :: u64) + scast (i_offset i)) :: u32) (size_bytes z)"
    if "aligned mp 4" "i_src i = 1"
    using o aligned_base [OF aligned_weaken [OF that(1) size_bytes_dvd(2)] size_bytes_dvd(3)] assms that(2)
    by (simp add: load_total_def)
  show "aligned (ucast ((ucast (sp + 128 :: u32) :: u64) + scast (i_offset i)) :: u32) (size_bytes z)"
    if "aligned sp 8"
  proof -
    have "aligned (sp + 128) 8" using that by (simp add: aligned_add aligned_def [of 128])
    then show ?thesis
      using o aligned_base [OF aligned_weaken [OF _ size_bytes_dvd(1)] size_bytes_dvd(3)] by simp
  qed
qed

lemma load_in_object:
  assumes r: "loads_from i 1 \<Longrightarrow> reg s 1 = ucast (mem_base s)"
      "loads_from i 10 \<Longrightarrow> reg s 10 = ucast (stack_base s + 128)"
    and m: "length (mem_bytes s) = m" and st: "length (stack_bytes s) = STACK_SIZE"
    and v: "verify_load m i = None" and op: "ebpf_op_of (i_opcode i) = Some (OP_LDX z)"
    and al: "load_total z i" "aligned (mem_base s) 4" "aligned (stack_base s) 8"
  shows "\<exists>v. vm_load s (ucast (reg s (i_src i) + scast (i_offset i))) (size_bytes z) = Inr v"
proof -
  let ?o = "sint (i_offset i)" and ?a = "ucast (reg s (i_src i) + scast (i_offset i)) :: u32"
  have o: "?o < 2 ^ 15" "- (2 ^ 15) \<le> ?o" using sint_lt [of "i_offset i"] sint_ge [of "i_offset i"] by simp_all
  have z: "size_bytes z > 0" by (cases z) simp_all
  consider "i_src i = 1" "0 \<le> ?o" "nat ?o + size_bytes z \<le> m"
    | "i_src i = 10" "?o < 0" "int (size_bytes z) + ?o \<le> 0" "nat (- ?o) \<le> STACK_SIZE"
    using v op z by (auto simp: verify_load_def verify_load_sz_def Let_def split: if_splits)
  then show ?thesis
  proof cases
    case 1
    have "?a - mem_base s = word_of_int ?o"
      using 1 r op by (simp add: loads_from_def addr_sub_base ucast_scast_off)
    then have "in_object ?a (size_bytes z) (mem_base s) (mem_bytes s)"
      using 1 m o by (simp add: in_object_def unat_of_int_u32 del: of_int_sint)
    moreover have "aligned ?a (size_bytes z)"
      using 1 r op load_aligned(1) [OF al(1,2)] by (auto simp: loads_from_def)
    ultimately show ?thesis by (simp add: vm_load_def)
  next
    case 2
    have "?a - stack_base s = 128 + word_of_int ?o"
      using 2 r op addr_sub_base [of "stack_base s + 128" "scast (i_offset i)"]
      by (simp add: loads_from_def ucast_scast_off algebra_simps)
    also have "\<dots> = word_of_int (128 + ?o)" by simp
    finally have "in_object ?a (size_bytes z) (stack_base s) (stack_bytes s)"
      using 2 st o by (simp add: in_object_def unat_of_int_u32 STACK_SIZE_def nat_add_distrib del: of_int_add)
    moreover have "aligned ?a (size_bytes z)"
      using 2 r op load_aligned(2) [OF al(1,3)] by (auto simp: loads_from_def)
    ultimately show ?thesis by (auto simp: vm_load_def)
  qed
qed


lemma alu_result_total: "\<exists>f. r = Inr f \<Longrightarrow> \<exists>f. alu_result i s r = Inr f"
  by (auto simp: alu_result_def)

lemma exec_total:
  assumes "inst_total i" "inst_benign n p i" "verify_load m i = None" "\<not> bounds_check_enabled vm"
    "ebpf_op_of (i_opcode i) = Some OP_LDDW \<Longrightarrow> unat (pc s) < length is"
    "loads_from i 1 \<Longrightarrow> reg s 1 = ucast (mem_base s)"
    "loads_from i 10 \<Longrightarrow> reg s 10 = ucast (stack_base s + 128)"
    "length (mem_bytes s) = m" "length (stack_bytes s) = STACK_SIZE"
    "aligned (mem_base s) 4" "aligned (stack_base s) 8"
  shows "\<exists>f. exec_inst vm h ml is i s = Inr f"
proof (cases "ebpf_op_of (i_opcode i)")
  case None
  then show ?thesis by (simp add: exec_inst_def Let_def)
next
  case (Some op)
  show ?thesis
  proof (cases op)
    case (OP_LDX z)
    then show ?thesis
      using Some load_in_object [OF assms(6-9,3), of z] assms(1,4,10,11)
      by (auto simp: exec_inst_def inst_total_def exec_ldx_def bounds_check_def Let_def)
  qed (use assms(1,2,5) Some in \<open>auto simp: exec_inst_def inst_total_def inst_benign_def exec_lddw_def
      jump_def fetch_def Let_def go32_def go64_def
      intro!: alu_result_total alu32_total alu64_total\<close>)
qed

text \<open>
  The registers and objects as the interpreter sets them up: the base registers are intact until
  an instruction before the program counter writes them.
\<close>

definition base_addr :: "vm_state \<Rightarrow> 4 word \<Rightarrow> u64" where
  "base_addr s r = (if r = 1 then ucast (mem_base s) else ucast (stack_base s + 128))"

definition machine_ok :: "nat \<Rightarrow> ebpf_inst list \<Rightarrow> vm_state \<Rightarrow> bool" where
  "machine_ok m is s \<longleftrightarrow>
     (\<forall>r \<in> {1, 10}. (\<forall>j < unat (pc s). \<not> writes_reg (is ! j) r) \<longrightarrow> reg s r = base_addr s r) \<and>
     length (mem_bytes s) = m \<and> length (stack_bytes s) = STACK_SIZE \<and>
     aligned (mem_base s) 4 \<and> aligned (stack_base s) 8"

lemma machine_ok_step:
  assumes "all_benign is" "ebpf_step vm h ml is s = Inr (Go s')" "machine_ok m is s"
  shows "machine_ok m is s'"
proof -
  note b = benign_step [OF assms(1,2)]
  have "reg s' r = base_addr s' r" if "r \<in> {1, 10}" "\<forall>j < unat (pc s'). \<not> writes_reg (is ! j) r" for r
  proof -
    have "\<not> writes_reg (is ! unat (pc s)) r" "\<forall>j < unat (pc s). \<not> writes_reg (is ! j) r"
      using that(2) b(1) by auto
    then show ?thesis
      using that(1) b(2,3) assms(3) unfolding machine_ok_def same_memory_def base_addr_def by metis
  qed
  then show ?thesis using assms(3) b(2) by (simp add: machine_ok_def same_memory_def)
qed

section \<open>Accepted programs\<close>

text \<open>
  The second half of an \<open>LDDW\<close> is never looked at by the verifier, but a jump may reach it. Here
  it carries opcode 0, which the interpreter ignores.
\<close>

definition lddw_tails_inert :: "ebpf_inst list \<Rightarrow> bool" where
  "lddw_tails_inert is \<longleftrightarrow>
     list_all (\<lambda>k. ebpf_op_of (i_opcode (is ! k)) = Some OP_LDDW \<longrightarrow> i_opcode (is ! (k + 1)) = 0)
       (scanned is 0)"

definition ends_in_exit :: "ebpf_inst list \<Rightarrow> bool" where
  "ends_in_exit is \<longleftrightarrow> is \<noteq> [] \<and> ebpf_op_of (i_opcode (last is)) = Some OP_EXIT"

lemma ebpf_op_of_0 [simp]: "ebpf_op_of 0 = None"
  by (simp add: ebpf_op_of_def all_ebpf_ops_def all_alu_ops_def all_jmp_ops_def all_srcs_def
      all_sizes_def)

lemma scanned_less: "k \<in> set (scanned is p) \<Longrightarrow> k < length is"
  by (induction "is" p rule: scanned.induct) (subst (asm) (2) scanned.simps, auto split: if_splits)

lemma scanned_cover:
  "p \<le> k \<Longrightarrow> k < length is \<Longrightarrow> k \<in> set (scanned is p) \<or>
     (\<exists>j \<in> set (scanned is p). k = j + 1 \<and> ebpf_op_of (i_opcode (is ! j)) = Some OP_LDDW)"
proof (induction "is" p rule: scanned.induct)
  case (1 "is" p)
  consider "k = p" | "k = p + 1" "ebpf_op_of (i_opcode (is ! p)) = Some OP_LDDW"
    | "(if ebpf_op_of (i_opcode (is ! p)) = Some OP_LDDW then p + 2 else p + 1) \<le> k"
    using 1(2) by atomize_elim auto
  then show ?case
    using 1 by cases (auto simp: scanned.simps [of "is" p])
qed

text \<open>Everything the loop has checked of an arbitrary slot.\<close>

definition slot_ok :: "nat \<Rightarrow> ebpf_inst list \<Rightarrow> nat \<Rightarrow> bool" where
  "slot_ok m is k \<longleftrightarrow>
     inst_benign (length is) k (is ! k) \<and> verify_load m (is ! k) = None \<and>
     (ebpf_op_of (i_opcode (is ! k)) = Some OP_LDDW \<longrightarrow>
        k + 1 < length is \<and> i_opcode (is ! (k + 1)) = 0)"

lemma inst_accepted_load: "inst_accepted m n p i \<Longrightarrow> verify_load m i = None"
  by (auto simp: inst_accepted_def verify_inst_def verify_load_def verify_load_sz_def Let_def
      split: if_splits option.splits ebpf_op.splits)

lemma inst_accepted_lddw:
  "inst_accepted m n p i \<Longrightarrow> ebpf_op_of (i_opcode i) = Some OP_LDDW \<Longrightarrow> p + 1 < n"
  by (auto simp: inst_accepted_def verify_inst_def Let_def split: if_splits option.splits)

lemma verify_zero:
  assumes "ifw_verify_policy (Some code) m = 0"
  shows "length (insts_of_code code) \<le> IFW_RUNTIME_MAX_INSTS"
    and "k \<in> set (scanned (insts_of_code code) 0) \<Longrightarrow>
      inst_accepted m (length (insts_of_code code)) k (insts_of_code code ! k)"
  using assms
  by (auto simp: ifw_verify_policy_def verify_loop_iff length_insts_of_code split: if_splits)

lemma verified_slot_ok:
  assumes "ifw_verify_policy (Some code) m = 0" "lddw_tails_inert (insts_of_code code)"
    and "k < length (insts_of_code code)"
  shows "slot_ok m (insts_of_code code) k"
  using scanned_cover [OF le0 assms(3)]
proof (elim disjE bexE conjE)
  assume k: "k \<in> set (scanned (insts_of_code code) 0)"
  note a = verify_zero(2) [OF assms(1) k]
  show ?thesis
    using inst_accepted_benign [OF a] inst_accepted_load [OF a] inst_accepted_lddw [OF a] assms(2) k
    by (auto simp: slot_ok_def lddw_tails_inert_def list_all_iff)
next
  fix j
  assume "j \<in> set (scanned (insts_of_code code) 0)" "k = j + 1"
    "ebpf_op_of (i_opcode (insts_of_code code ! j)) = Some OP_LDDW"
  then have "i_opcode (insts_of_code code ! k) = 0"
    using assms(2) by (auto simp: lddw_tails_inert_def list_all_iff)
  then show ?thesis
    by (simp add: slot_ok_def inst_benign_def verify_load_def verify_load_sz_def)
qed

lemma verified_all_benign:
  assumes "ifw_verify_policy (Some code) m = 0" "lddw_tails_inert (insts_of_code code)"
  shows "all_benign (insts_of_code code)"
  using verify_zero(1) [OF assms(1)] verified_slot_ok [OF assms]
  by (auto simp: all_benign_def slot_ok_def)

text \<open>With a final \<open>EXIT\<close>, control never leaves the code.\<close>

lemma slot_ok_next:
  assumes ok: "\<forall>k < length is. slot_ok m is k" and len: "length is \<le> IFW_RUNTIME_MAX_INSTS"
    and "exit": "ends_in_exit is" and step: "ebpf_step vm h ml is s = Inr (Go s')"
  shows "unat (pc s') < length is"
proof -
  let ?k = "unat (pc s)" and ?s = "s\<lparr>pc := pc s + 1\<rparr>"
  note k = ebpf_step_go [OF step]
  have ok_k: "slot_ok m is ?k" using ok k(1) by simp
  have n: "length is \<le> 64" using len by (simp add: IFW_RUNTIME_MAX_INSTS_def)
  have "ebpf_op_of (i_opcode (is ! ?k)) \<noteq> Some OP_EXIT" using k(2) by (auto simp: exec_inst_def Let_def)
  then have "?k \<noteq> length is - 1" using "exit" by (auto simp: ends_in_exit_def last_conv_nth)
  then have k1: "?k + 1 < length is" using k(1) by simp
  have p1: "unat (pc s + 1) = ?k + 1" using k(1) n by (simp add: unat_add_small)
  then have p2: "unat (pc s + 1 + 1) = ?k + 2" using k(1) n by (subst unat_add_small) simp_all
  show ?thesis
  proof (cases "ebpf_op_of (i_opcode (is ! ?k)) = Some OP_LDDW")
    case True
    then have "i_opcode (is ! (?k + 1)) = 0" using ok_k by (simp add: slot_ok_def)
    then have "?k + 1 \<noteq> length is - 1" using "exit" by (auto simp: ends_in_exit_def last_conv_nth)
    then have "?k + 2 < length is" using k1 by simp
    moreover have "pc s' = pc s + 1 + 1"
      using True k(2) by (auto simp: exec_inst_def exec_lddw_def Let_def c_bind_Inr_iff)
    ultimately show ?thesis using p2 by simp
  next
    case False
    then have "pc s' = pc ?s \<or> pc s' = pc ?s + i_offset (is ! ?k) \<and>
      0 \<le> sint (i_offset (is ! ?k)) \<and> ?k + 1 + nat (sint (i_offset (is ! ?k))) < length is"
      using k(2) ok_k
      by (auto simp: exec_inst_def slot_ok_def inst_benign_def exec_ldx_def jump_def Let_def
          c_bind_Inr_iff split: option.splits ebpf_op.splits if_splits dest!: alu_result_go)
    then show ?thesis using p1 k1 n by (auto simp: nat_sint_nonneg unat_add_small)
  qed
qed

lemma total_step:
  assumes ok: "\<forall>k < length is. slot_ok m is k" and len: "length is \<le> IFW_RUNTIME_MAX_INSTS"
    and tot: "list_all inst_total is" and bases: "bases_kept is" and vm: "\<not> bounds_check_enabled vm"
    and s: "machine_ok m is s" "unat (pc s) < length is"
  shows "\<exists>f. ebpf_step vm h ml is s = Inr f"
proof -
  let ?k = "unat (pc s)" and ?s = "s\<lparr>pc := pc s + 1\<rparr>"
  have base: "reg s r = base_addr s r" if "loads_from (is ! ?k) r" "r \<in> {1, 10}" for r
    using that bases s by (auto simp: bases_kept_def machine_ok_def list_all_iff)
  have slot: "slot_ok m is ?k" using ok s by simp
  have "\<exists>f. exec_inst vm h ml is (is ! ?k) ?s = Inr f"
  proof (rule exec_total [where n = "length is" and p = ?k])
    show "inst_total (is ! ?k)" using tot s(2) by (simp add: list_all_length)
    show "unat (pc ?s) < length is" if "ebpf_op_of (i_opcode (is ! ?k)) = Some OP_LDDW"
      using that slot s(2) len by (simp add: slot_ok_def unat_add_small IFW_RUNTIME_MAX_INSTS_def)
  qed (use slot vm s(1) base in \<open>simp_all add: slot_ok_def machine_ok_def base_addr_def\<close>)
  then show ?thesis using s by (simp add: ebpf_step_def fetch_def)
qed

lemma total_loop:
  assumes ok: "\<forall>k < length is. slot_ok m is k" and len: "length is \<le> IFW_RUNTIME_MAX_INSTS"
    and tot: "list_all inst_total is" and bases: "bases_kept is" and "exit": "ends_in_exit is"
    and vm: "\<not> bounds_check_enabled vm"
  shows "machine_ok m is s \<Longrightarrow> unat (pc s) < length is \<Longrightarrow>
    \<exists>v. ebpf_vm_loop vm h ml is s = Some (Inr (v, mem_bytes s))"
proof (induction "length is - unat (pc s)" arbitrary: s rule: less_induct)
  case less
  have ben: "all_benign is" using ok len by (simp add: all_benign_def slot_ok_def)
  obtain f where f: "ebpf_step vm h ml is s = Inr f"
    using total_step [OF ok len tot bases vm less(2,3)] by auto
  show ?case
  proof (cases f)
    case (Go s')
    note step = f [unfolded Go]
    have "\<exists>v. ebpf_vm_loop vm h ml is s' = Some (Inr (v, mem_bytes s'))"
      using less benign_step(1) [OF ben step] slot_ok_next [OF ok len "exit" step]
        machine_ok_step [OF ben step] by simp
    then show ?thesis
      using step benign_step(2) [OF ben step]
      by (simp add: ebpf_vm_loop.simps [of vm h ml "is" s] same_memory_def)
  qed (simp add: f ebpf_vm_loop.simps [of vm h ml "is" s])
qed

text \<open>The code array of a list of instructions.\<close>

definition code_of_insts :: "ebpf_inst list \<Rightarrow> u8 list" where
  "code_of_insts is = concat (map bytes_of_inst is)"

lemma insts_of_code_of_insts [simp]: "insts_of_code (code_of_insts is) = is"
  unfolding code_of_insts_def by (induction "is") (simp_all add: insts_of_code_append inst_of_bytes_of_inst)

lemma length_code_of_insts [simp]: "length (code_of_insts is) = 8 * length is"
  unfolding code_of_insts_def by (induction "is") simp_all

section \<open>Properties\<close>

text \<open>What the verifier promises of one slot, without its order of checks and error codes.\<close>

definition slot_spec :: "nat \<Rightarrow> nat \<Rightarrow> nat \<Rightarrow> ebpf_inst \<Rightarrow> bool" where
  "slot_spec m n p i \<longleftrightarrow>
     i_dst i \<le> 10 \<and> i_src i \<le> 10 \<and>
     (case ebpf_op_of (i_opcode i) of
        Some OP_CALL \<Rightarrow> False
      | Some OP_EXIT \<Rightarrow> True
      | Some (OP_ST z) \<Rightarrow> False
      | Some (OP_STX z) \<Rightarrow> False
      | Some (OP_LDX z) \<Rightarrow>
          i_src i = 1 \<and> 0 \<le> sint (i_offset i) \<and> sint (i_offset i) + int (size_bytes z) \<le> int m \<or>
          i_src i = 10 \<and> - int STACK_SIZE \<le> sint (i_offset i) \<and>
            sint (i_offset i) + int (size_bytes z) \<le> 0
      | Some OP_LDDW \<Rightarrow> p + 1 < n
      | _ \<Rightarrow> i_opcode i AND 7 = 5 \<longrightarrow>
          0 \<le> sint (i_offset i) \<and> int p + 1 + sint (i_offset i) < int n)"

lemma size_bytes_pos: "size_bytes z > 0"
  by (cases z) simp_all

lemma reg_bound: "(d :: 4 word) \<ge> MAX_BPF_REG \<longleftrightarrow> \<not> d \<le> 10"
  unfolding MAX_BPF_REG_def by (simp add: word_le_def word_less_def not_le) linarith

lemma not_jmp_class: "ebpf_op_of c = Some (OP_LDX z) \<Longrightarrow> c AND 7 \<noteq> 5"
  unfolding ebpf_op_of_iff by (cases z) auto

lemma alu_not_jmp_class: "ebpf_op_code (OP_ALU a r) AND 7 \<noteq> 5" "ebpf_op_code (OP_ALU64 a r) AND 7 \<noteq> 5"
  by (cases a; cases r; simp)+

lemma verify_load_iff:
  "verify_load m i = None \<longleftrightarrow>
     (case ebpf_op_of (i_opcode i) of
        Some (OP_LDX z) \<Rightarrow>
          i_src i = 1 \<and> 0 \<le> sint (i_offset i) \<and> sint (i_offset i) + int (size_bytes z) \<le> int m \<or>
          i_src i = 10 \<and> - int STACK_SIZE \<le> sint (i_offset i) \<and>
            sint (i_offset i) + int (size_bytes z) \<le> 0
      | _ \<Rightarrow> True)"
proof (cases "ebpf_op_of (i_opcode i)")
  case (Some op)
  then show ?thesis
  proof (cases op)
    case (OP_LDX z)
    then show ?thesis
      using size_bytes_pos [of z] Some by (auto simp: verify_load_def verify_load_sz_def Let_def)
  qed (simp_all add: verify_load_def verify_load_sz_def)
qed (simp add: verify_load_def verify_load_sz_def)

lemma inst_accepted_iff: "inst_accepted m n p i \<longleftrightarrow> slot_spec m n p i"
proof (cases "i_dst i \<le> 10 \<and> i_src i \<le> 10")
  case True
  show ?thesis
  proof (cases "ebpf_op_of (i_opcode i)")
    case (Some op)
    then show ?thesis
      using True verify_load_iff [of m i] not_jmp_class
      by (cases op) (auto simp: inst_accepted_def verify_inst_def slot_spec_def verify_is_store_def
          reg_bound Let_def split: option.split)
  qed (use True verify_load_iff [of m i] in \<open>auto simp: inst_accepted_def verify_inst_def slot_spec_def
      verify_is_store_def reg_bound Let_def\<close>)
qed (auto simp: inst_accepted_def verify_inst_def slot_spec_def reg_bound)

lemma verify_accepts_scan:
  "ifw_verify_policy (Some (code_of_insts is)) m = 0 \<longleftrightarrow>
     is \<noteq> [] \<and> length is \<le> 64 \<and> list_all (\<lambda>k. inst_accepted m (length is) k (is ! k)) (scanned is 0) \<and>
     list_ex (\<lambda>k. ebpf_op_of (i_opcode (is ! k)) = Some OP_EXIT) (scanned is 0)"
  by (auto simp: ifw_verify_policy_def verify_loop_iff IFW_RUNTIME_MAX_INSTS_def list_all_iff list_ex_iff
      simp flip: length_0_conv [of "code_of_insts is"])

text \<open>
  C14: the verifier accepts exactly the programs of one to 64 whole instructions, each of whose
  scanned slots satisfies the declarative specification (registers \<open>r0\<close> to \<open>r10\<close>, no call, no
  store, loads inside the protocol state or the stack, forward jumps inside the program), and which
  contain an \<open>EXIT\<close> among the scanned slots.
\<close>

theorem verify_accepts_iff:
  "ifw_verify_policy (Some code) m = 0 \<longleftrightarrow>
     code \<noteq> [] \<and> 8 dvd length code \<and> length code div 8 \<le> 64 \<and>
     list_all (\<lambda>k. slot_spec m (length code div 8) k (insts_of_code code ! k))
       (scanned (insts_of_code code) 0) \<and>
     list_ex (\<lambda>k. ebpf_op_of (i_opcode (insts_of_code code ! k)) = Some OP_EXIT)
       (scanned (insts_of_code code) 0)"
  by (auto simp: ifw_verify_policy_def verify_loop_iff inst_accepted_iff IFW_RUNTIME_MAX_INSTS_def
      length_insts_of_code list_all_iff list_ex_iff dvd_eq_mod_eq_0)

text \<open>
  C15: an accepted program whose \<open>LDDW\<close> second halves are inert always stops: from every memory,
  helper table and stack address the interpreter returns or hits undefined behaviour after finitely
  many steps, never loops, and if it returns the protocol state is the one it was called with.
\<close>

theorem verified_policy_stops:
  assumes "ifw_verify_policy (Some code) m = 0" "lddw_tails_inert (insts_of_code code)"
    and "insts vm = Some (insts_of_code code)"
  shows "\<exists>r. ebpf_vm_exec vm helpers mem bs mem_len stack = Some r \<and>
    (\<forall>v bs'. r = Inr (v, bs') \<longrightarrow> bs' = bs)"
  using benign_returns [OF verified_all_benign [OF assms(1,2)], of vm helpers mem_len "vm_init mem bs stack"] assms(3)
  by (simp add: ebpf_vm_exec_def vm_init_def)

text \<open>
  C4: if moreover the last instruction is \<open>EXIT\<close>, divisors and shift amounts are admissible
  constants, loads are at multiples of their size and none uses a base register after a write to
  it, then the interpreter, called with a protocol state and a stack that are aligned as their types
  require, returns a value without any undefined behaviour: no read outside the state and the stack,
  no misaligned access, no fetch outside the code, no division by zero.
\<close>

theorem verified_policy_safe:
  assumes "ifw_verify_policy (Some code) m = 0" "lddw_tails_inert (insts_of_code code)"
    and "ends_in_exit (insts_of_code code)" "list_all inst_total (insts_of_code code)"
    and "bases_kept (insts_of_code code)"
    and "insts vm = Some (insts_of_code code)" "\<not> bounds_check_enabled vm" "length bs = m"
    and "aligned mem 4" "aligned stack 8"
  shows "\<exists>v. ebpf_vm_exec vm helpers mem bs mem_len stack = Some (Inr (v, bs))"
proof -
  let ?is = "insts_of_code code" and ?s = "vm_init mem bs stack"
  have "machine_ok m ?is ?s" "unat (pc ?s) < length ?is"
    using assms(3,8-10) by (auto simp: machine_ok_def vm_init_def base_addr_def STACK_SIZE_def ends_in_exit_def)
  then have "\<exists>v. ebpf_vm_loop vm helpers mem_len ?is ?s = Some (Inr (v, mem_bytes ?s))"
    using total_loop [OF _ verify_zero(1) [OF assms(1)] assms(4,5,3,7)] verified_slot_ok [OF assms(1,2)]
    by blast
  then show ?thesis using assms(6) by (simp add: ebpf_vm_exec_def vm_init_def)
qed

section \<open>What the verifier lets through\<close>

definition hidden_loop :: "u8 list" where
  "hidden_loop =
     [0x05, 0x00, 0x01, 0x00, 0, 0, 0, 0,
      0x18, 0x00, 0x00, 0x00, 0, 0, 0, 0,
      0x05, 0x00, 0xff, 0xff, 0, 0, 0, 0,
      0x95, 0x00, 0x00, 0x00, 0, 0, 0, 0]"

text \<open>
  Programs parametrised by what they do: a load of any size through any address put into \<open>r1\<close>, and
  a division or remainder of a register by the constant zero.
\<close>

definition inst :: "ebpf_op \<Rightarrow> 4 word \<Rightarrow> 4 word \<Rightarrow> s32 \<Rightarrow> ebpf_inst" where
  "inst op d r I = \<lparr>i_opcode = ebpf_op_code op, i_dst = d, i_src = r, i_offset = 0, i_imm = I\<rparr>"

lemma inst_simps [simp]:
  "ebpf_op_of (i_opcode (inst op d r I)) = Some op" "i_opcode (inst op d r I) = ebpf_op_code op"
  "i_dst (inst op d r I) = d" "i_src (inst op d r I) = r" "i_offset (inst op d r I) = 0"
  "i_imm (inst op d r I) = I"
  by (simp_all add: inst_def del: ebpf_op_code.simps)

definition reads_at :: "ebpf_size \<Rightarrow> u64 \<Rightarrow> ebpf_inst list" where
  "reads_at z a =
     [inst OP_LDDW 1 0 (ucast a),
      \<lparr>i_opcode = 0, i_dst = 0, i_src = 0, i_offset = 0, i_imm = ucast (drop_bit 32 a)\<rparr>,
      inst (OP_LDX z) 0 1 0, inst OP_EXIT 0 0 0]"

definition divides_by_zero :: "bool \<Rightarrow> alu_op \<Rightarrow> 4 word \<Rightarrow> ebpf_inst list" where
  "divides_by_zero wide a d =
     [inst (if wide then OP_ALU64 a EBPF_SRC_IMM else OP_ALU a EBPF_SRC_IMM) d 0 0, inst OP_EXIT 0 0 0]"

lemma hidden_loop_step:
  assumes "pc s = 2"
  shows "ebpf_step vm h ml (insts_of_code hidden_loop) s = Inr (Go s)"
  using assms
  by (simp add: hidden_loop_def ebpf_step_def fetch_def exec_inst_def inst_of_bytes_def jump_def Let_def)

lemma hidden_loop_start:
  "ebpf_step vm h ml (insts_of_code hidden_loop) (vm_init mem bs stack) =
     Inr (Go ((vm_init mem bs stack)\<lparr>pc := 2\<rparr>))"
  by (simp add: hidden_loop_def ebpf_step_def fetch_def exec_inst_def inst_of_bytes_def jump_def
      vm_init_def Let_def)

lemma hidden_loop_diverges:
  "ebpf_vm_loop vm h ml is s = Some y \<Longrightarrow> is = insts_of_code hidden_loop \<longrightarrow> pc s \<noteq> 2"
  by (erule ebpf_vm_loop.raw_induct [rotated]) (auto simp: hidden_loop_step)

lemma reg_one_ok: "\<not> (11 :: 4 word) \<le> 1"
  by (simp add: word_le_def)

lemmas verify_eval = reg_one_ok ifw_verify_policy_def verify_loop.simps verify_inst_def verify_load_def
  verify_load_sz_def verify_is_store_def IFW_RUNTIME_MAX_INSTS_def MAX_BPF_REG_def STACK_SIZE_def
  inst_of_bytes_def Let_def

text \<open>
  C25: the verifier does not exclude endless loops. It accepts a program that jumps into the second
  half of an \<open>LDDW\<close>, where an unchecked backward jump never leaves that slot.
\<close>

theorem verifier_accepts_endless_loop:
  "ifw_verify_policy (Some hidden_loop) 120 = 0 \<and>
   ebpf_vm_exec (ebpf_vm_set_inst ebpf_vm_zero (Some hidden_loop) 32) helpers mem bs mem_len stack = None"
proof
  show "ifw_verify_policy (Some hidden_loop) 120 = 0"
    by (simp add: hidden_loop_def verify_eval)
  have "ebpf_vm_loop vm h ml (insts_of_code hidden_loop) (s\<lparr>pc := 2\<rparr>) = None" for vm h ml s
    using hidden_loop_diverges [of vm h ml "insts_of_code hidden_loop" "s\<lparr>pc := 2\<rparr>"] by fastforce
  then show "ebpf_vm_exec (ebpf_vm_set_inst ebpf_vm_zero (Some hidden_loop) 32) helpers mem bs mem_len stack = None"
    by (simp add: ebpf_vm_exec_def ebpf_vm_set_inst_def ebpf_vm_loop.simps [of _ _ _ _ "vm_init mem bs stack"]
      hidden_loop_start)
qed

lemma lddw_join:
  fixes a :: u64
  shows "(ucast (ucast a :: u32) :: u64) OR push_bit 32 (ucast (ucast (drop_bit 32 a) :: u32)) = a"
  by (auto intro!: bit_word_eqI simp: bit_or_iff bit_ucast_iff bit_push_bit_iff bit_drop_bit_eq)

lemma reads_at_accepted:
  assumes "size_bytes z \<le> m"
  shows "ifw_verify_policy (Some (code_of_insts (reads_at z a))) m = 0"
  unfolding verify_accepts_scan inst_accepted_iff
  using assms by (simp add: reads_at_def scanned.simps slot_spec_def del: ebpf_op_code.simps)

lemma divides_by_zero_accepted:
  assumes "d \<le> 10"
  shows "ifw_verify_policy (Some (code_of_insts (divides_by_zero wide op d))) m = 0"
  unfolding verify_accepts_scan inst_accepted_iff
  using assms alu_not_jmp_class [of op EBPF_SRC_IMM]
  by (cases wide) (simp_all add: divides_by_zero_def scanned.simps slot_spec_def del: ebpf_op_code.simps)

lemma reads_at_run:
  "ebpf_vm_exec (ebpf_vm_set_inst ebpf_vm_zero (Some (code_of_insts (reads_at z a))) 32) helpers mem bs mem_len stack =
     Some (map_sum id (\<lambda>v. (v, bs)) (vm_load (vm_init mem bs stack) (ucast a) (size_bytes z)))"
proof -
  have load: "vm_load (vm_init mem bs stack\<lparr>reg := f, pc := p\<rparr>) b n = vm_load (vm_init mem bs stack) b n" for p f b n
    by (simp add: vm_load_def)
  have init: "pc (vm_init mem bs stack) = 0" "mem_bytes (vm_init mem bs stack) = bs" by (simp_all add: vm_init_def)
  show ?thesis
    by (cases "vm_load (vm_init mem bs stack) (ucast a) (size_bytes z)")
      (simp_all add: reads_at_def ebpf_vm_exec_def ebpf_vm_set_inst_def ebpf_vm_zero_def ebpf_vm_loop.simps ebpf_step_def fetch_def
        exec_inst_def exec_lddw_def exec_ldx_def set_dst_def bounds_check_def lddw_join load init Let_def
        del: ebpf_op_code.simps)
qed

lemma divides_by_zero_run:
  assumes "is_divide op"
  shows "ebpf_vm_exec (ebpf_vm_set_inst ebpf_vm_zero (Some (code_of_insts (divides_by_zero wide op d))) 16) helpers
     mem bs mem_len stack = Some (Inl Div_zero)"
  using assms
  by (cases wide; cases op)
    (simp_all add: is_divide_def divides_by_zero_def ebpf_vm_exec_def ebpf_vm_set_inst_def ebpf_vm_loop.simps
      ebpf_step_def fetch_def exec_inst_def alu_result_def go32_def go64_def c_div_def c_mod_def vm_init_def Let_def
      del: ebpf_op_code.simps)

text \<open>
  C26: nor does it exclude undefined behaviour at run time. For every size and every 64-bit value
  \<open>a\<close> it accepts a program that loads from address \<open>a\<close>, whose run is exactly that load: undefined
  whenever \<open>a\<close> is misaligned or outside the protocol state and the stack. And it accepts the division
  and the remainder of every register by the constant zero, in both widths, whose run is undefined.
\<close>

theorem verifier_accepts_undefined_behaviour:
  assumes "size_bytes z \<le> m" "is_divide op" "d \<le> 10"
  shows "ifw_verify_policy (Some (code_of_insts (reads_at z a))) m = 0 \<and>
    ebpf_vm_exec (ebpf_vm_set_inst ebpf_vm_zero (Some (code_of_insts (reads_at z a))) 32) helpers mem bs mem_len stack =
      Some (map_sum id (\<lambda>v. (v, bs)) (vm_load (vm_init mem bs stack) (ucast a) (size_bytes z))) \<and>
    ifw_verify_policy (Some (code_of_insts (divides_by_zero wide op d))) m = 0 \<and>
    ebpf_vm_exec (ebpf_vm_set_inst ebpf_vm_zero (Some (code_of_insts (divides_by_zero wide op d))) 16) helpers mem bs
      mem_len stack = Some (Inl Div_zero)"
  using assms by (simp add: reads_at_accepted reads_at_run divides_by_zero_accepted divides_by_zero_run)

theorem verifier_accepts_undefined_behaviour_witness:
  "ifw_verify_policy (Some (code_of_insts (reads_at EBPF_SIZE_W 0x40000000))) 120 = 0 \<and>
   ebpf_vm_exec (ebpf_vm_set_inst ebpf_vm_zero (Some (code_of_insts (reads_at EBPF_SIZE_W 0x40000000))) 32) None
     0x20000000 (replicate 120 0) 64 0x20001000 = Some (Inl Oob_read) \<and>
   ifw_verify_policy (Some (code_of_insts (divides_by_zero True EBPF_ALU_MOD 3))) 120 = 0 \<and>
   ebpf_vm_exec (ebpf_vm_set_inst ebpf_vm_zero (Some (code_of_insts (divides_by_zero True EBPF_ALU_MOD 3))) 16) None
     0x20000000 (replicate 120 0) 64 0x20001000 = Some (Inl Div_zero)"
  using verifier_accepts_undefined_behaviour [where z = EBPF_SIZE_W and m = 120 and op = EBPF_ALU_MOD and d = 3
      and a = "0x40000000" and helpers = None and mem = "0x20000000" and bs = "replicate 120 0" and mem_len = 64
      and stack = "0x20001000" and wide = True]
  by (simp add: is_divide_def vm_load_def vm_init_def aligned_def in_object_def STACK_SIZE_def)

section \<open>The shipped policies\<close>

text \<open>The conditions of the safety theorem as one check of a code array.\<close>

definition policy_safe :: "nat \<Rightarrow> u8 list \<Rightarrow> bool" where
  "policy_safe m code \<longleftrightarrow>
     ifw_verify_policy (Some code) m = 0 \<and> lddw_tails_inert (insts_of_code code) \<and>
     ends_in_exit (insts_of_code code) \<and> list_all inst_total (insts_of_code code) \<and>
     bases_kept (insts_of_code code)"

lemmas policy_safe_eval = policy_safe_def verify_eval lddw_tails_inert_def scanned.simps ends_in_exit_def
  inst_total_def load_total_def is_shift_def is_divide_def bases_kept_def loads_from_def writes_reg_def upt_rec

lemma shipped_safe:
  "policy_safe 120 (butlast conn_chan_map)"
  "policy_safe 120 (butlast conn_chan_hop)"
  "policy_safe 120 (butlast lll_interval)"
  "policy_safe 120 (butlast dc_nesn)"
  "policy_safe 120 (butlast llcp_len_req)"
  "policy_safe 120 (butlast llcp_conn_param_req)"
  "policy_safe 120 (butlast scan_rsp_len)"
  "policy_safe 120 (butlast smp_ident_check)"
  "policy_safe 120 (butlast spi_acl_len)"
  "policy_safe 120 (butlast spi_evt_len)"
  by (simp_all add: policy_code_defs policy_safe_eval)

theorem verified_policy_stops_witness:
  "\<exists>r. ebpf_vm_exec (ebpf_vm_set_inst ebpf_vm_zero (Some (butlast conn_chan_map)) 64) None 0x20000000
      (fsm_bytes fsm_zero) 64 0x20001000 = Some r \<and>
    (\<forall>v bs'. r = Inr (v, bs') \<longrightarrow> bs' = fsm_bytes fsm_zero)"
  using shipped_safe(1)
  by (intro verified_policy_stops [of "butlast conn_chan_map" 120])
    (simp_all add: policy_safe_def ebpf_vm_set_inst_def)

theorem verified_policy_safe_witness:
  "\<exists>v. ebpf_vm_exec (ebpf_vm_set_inst ebpf_vm_zero (Some (butlast smp_ident_check)) 152) None 0x20000000
      (fsm_bytes fsm_zero) 64 0x20001000 = Some (Inr (v, fsm_bytes fsm_zero))"
  using shipped_safe(8)
  by (intro verified_policy_safe [of "butlast smp_ident_check" 120])
    (simp_all add: policy_safe_def ebpf_vm_set_inst_def ebpf_vm_zero_def length_fsm_bytes sizeof_FsmState_def
      aligned_def)

end
