(* ===== verification/Thumb2.thy ===== *)
theory Thumb2
  imports Prelude
begin

text \<open>
  The Thumb-2 instruction encoders of \<^verbatim>\<open>libebpf/ebpf-src/jit_thumb2.h\<close>, one function each (the
  leading underscore of the C names is dropped). A register number is an \<open>s8\<close>; it is promoted to
  \<open>int\<close> before a shift, so a negative one (a stack offset used where a register is expected)
  spreads over the instruction word, as the compiler's two's complement shift makes it. A pair of
  registers \<open>s8[]\<close> is a pair (high, low).
\<close>

section \<open>Constants\<close>

text \<open>The macros of the header; like them they stand for their values.\<close>

abbreviation (input) THUMB2_IT :: u32 where "THUMB2_IT \<equiv> 0xbf00"
abbreviation (input) THUMB2_MOV_REG :: u32 where "THUMB2_MOV_REG \<equiv> 0x4600"
abbreviation (input) THUMB2_MOVS_REG :: u32 where "THUMB2_MOVS_REG \<equiv> 0x0000"
abbreviation (input) THUMB2_MOVW_REG :: u32 where "THUMB2_MOVW_REG \<equiv> 0xea4f0000"
abbreviation (input) THUMB2_ASRW_REG :: u32 where "THUMB2_ASRW_REG \<equiv> 0xfa40f000"
abbreviation (input) THUMB2_ASRW_IMM :: u32 where "THUMB2_ASRW_IMM \<equiv> 0xea4f0020"
abbreviation (input) THUMB2_LSLW_REG_T2 :: u32 where "THUMB2_LSLW_REG_T2 \<equiv> 0xfa00f000"
abbreviation (input) THUMB2_LSRW_REG :: u32 where "THUMB2_LSRW_REG \<equiv> 0xfa20f000"
abbreviation (input) THUMB2_LSRW_IMM :: u32 where "THUMB2_LSRW_IMM \<equiv> 0xea4f0010"
abbreviation (input) THUMB2_ORRW_REG :: u32 where "THUMB2_ORRW_REG \<equiv> 0xea400000"
abbreviation (input) THUMB2_ORR_REG :: u32 where "THUMB2_ORR_REG \<equiv> 0x4300"
abbreviation (input) THUMB2_EOR_REG_T2 :: u32 where "THUMB2_EOR_REG_T2 \<equiv> 0xea800000"
abbreviation (input) THUMB2_RSBW_REG :: u32 where "THUMB2_RSBW_REG \<equiv> 0xebc00000"
abbreviation (input) THUMB2_RSBW_IMM :: u32 where "THUMB2_RSBW_IMM \<equiv> 0xf1c00000"
abbreviation (input) THUMB2_STR_IMM :: u32 where "THUMB2_STR_IMM \<equiv> 0xf8400000"
abbreviation (input) THUMB2_STRB_IMM_T3 :: u32 where "THUMB2_STRB_IMM_T3 \<equiv> 0xf8000800"
abbreviation (input) THUMB2_STRH_IMM_T3 :: u32 where "THUMB2_STRH_IMM_T3 \<equiv> 0xf8200800"
abbreviation (input) THUMB2_STRD_IMM :: u32 where "THUMB2_STRD_IMM \<equiv> 0xe8400000"
abbreviation (input) THUMB2_LDRB_IMM_T1 :: u32 where "THUMB2_LDRB_IMM_T1 \<equiv> 0x7800"
abbreviation (input) THUMB2_LDRB_IMM_T3 :: u32 where "THUMB2_LDRB_IMM_T3 \<equiv> 0xf8100000"
abbreviation (input) THUMB2_LDR_IMM_T4 :: u32 where "THUMB2_LDR_IMM_T4 \<equiv> 0xf8500800"
abbreviation (input) THUMB2_LDRD_IMM :: u32 where "THUMB2_LDRD_IMM \<equiv> 0xe8500000"
abbreviation (input) THUMB2_PUSH_T1 :: u32 where "THUMB2_PUSH_T1 \<equiv> 0xb400"
abbreviation (input) THUMB2_PUSH_W :: u32 where "THUMB2_PUSH_W \<equiv> 0xe92d0000"
abbreviation (input) THUMB2_POP_W :: u32 where "THUMB2_POP_W \<equiv> 0xe8bd0000"
abbreviation (input) THUMB2_SUB_IMM_T1 :: u32 where "THUMB2_SUB_IMM_T1 \<equiv> 0x1e00"
abbreviation (input) THUMB2_SUB_IMM_T2 :: u32 where "THUMB2_SUB_IMM_T2 \<equiv> 0x3800"
abbreviation (input) THUMB2_SUB_REG_T1 :: u32 where "THUMB2_SUB_REG_T1 \<equiv> 0x1a00"
abbreviation (input) THUMB2_SUB_REG_T2 :: u32 where "THUMB2_SUB_REG_T2 \<equiv> 0xeba00000"
abbreviation (input) THUMB2_SUBW_IMM_T4 :: u32 where "THUMB2_SUBW_IMM_T4 \<equiv> 0xf2a00000"
abbreviation (input) THUMB2_ADD_IMM_T2 :: u32 where "THUMB2_ADD_IMM_T2 \<equiv> 0x3000"
abbreviation (input) THUMB2_ADD_IMM_T4 :: u32 where "THUMB2_ADD_IMM_T4 \<equiv> 0xf2000000"
abbreviation (input) THUMB2_ADD_REG_T2 :: u32 where "THUMB2_ADD_REG_T2 \<equiv> 0x4400"
abbreviation (input) THUMB2_ADDW_REG :: u32 where "THUMB2_ADDW_REG \<equiv> 0xeb000000"
abbreviation (input) THUMB2_AND_REG_T1 :: u32 where "THUMB2_AND_REG_T1 \<equiv> 0x4000"
abbreviation (input) THUMB2_AND_REG_T2 :: u32 where "THUMB2_AND_REG_T2 \<equiv> 0xea000000"
abbreviation (input) THUMB2_CMP_REG_T1 :: u32 where "THUMB2_CMP_REG_T1 \<equiv> 0x4280"
abbreviation (input) THUMB2_CMP_REG_T2 :: u32 where "THUMB2_CMP_REG_T2 \<equiv> 0x4500"
abbreviation (input) THUMB2_CMPW_REG_T3 :: u32 where "THUMB2_CMPW_REG_T3 \<equiv> 0xebb00f00"
abbreviation (input) THUMB2_MUL_REG_T2 :: u32 where "THUMB2_MUL_REG_T2 \<equiv> 0xfb00f000"
abbreviation (input) THUMB2_SBCW_REG :: u32 where "THUMB2_SBCW_REG \<equiv> 0xeb600000"
abbreviation (input) THUMB2_B_COND_T1 :: u32 where "THUMB2_B_COND_T1 \<equiv> 0xd000"
abbreviation (input) THUMB2_B_T2 :: u32 where "THUMB2_B_T2 \<equiv> 0xe000"
abbreviation (input) THUMB2_BLX_REG_T1 :: u32 where "THUMB2_BLX_REG_T1 \<equiv> 0x4780"
abbreviation (input) THUMB2_BW_COND_T3 :: u32 where "THUMB2_BW_COND_T3 \<equiv> 0xf0008000"
abbreviation (input) THUMB2_BW_T4 :: u32 where "THUMB2_BW_T4 \<equiv> 0xf0009000"
abbreviation (input) THUMB2_MUL_T2 :: u32 where "THUMB2_MUL_T2 \<equiv> 0xfb00f000"
abbreviation (input) THUMB2_UMULL_T2 :: u32 where "THUMB2_UMULL_T2 \<equiv> 0xfba00000"
abbreviation (input) IT_MASK_NONE :: u8 where "IT_MASK_NONE \<equiv> 8"
abbreviation (input) COND_EQ :: u8 where "COND_EQ \<equiv> 0"
abbreviation (input) COND_NE :: u8 where "COND_NE \<equiv> 1"
abbreviation (input) COND_CS :: u8 where "COND_CS \<equiv> 2"
abbreviation (input) COND_CC :: u8 where "COND_CC \<equiv> 3"
abbreviation (input) COND_MI :: u8 where "COND_MI \<equiv> 4"
abbreviation (input) COND_PL :: u8 where "COND_PL \<equiv> 5"
abbreviation (input) COND_VS :: u8 where "COND_VS \<equiv> 6"
abbreviation (input) COND_VC :: u8 where "COND_VC \<equiv> 7"
abbreviation (input) COND_HI :: u8 where "COND_HI \<equiv> 8"
abbreviation (input) COND_LS :: u8 where "COND_LS \<equiv> 9"
abbreviation (input) COND_GE :: u8 where "COND_GE \<equiv> 10"
abbreviation (input) COND_LT :: u8 where "COND_LT \<equiv> 11"
abbreviation (input) COND_GT :: u8 where "COND_GT \<equiv> 12"
abbreviation (input) COND_LE :: u8 where "COND_LE \<equiv> 13"
abbreviation (input) COND_AL :: u8 where "COND_AL \<equiv> 14"
abbreviation (input) SRTYPE_LSL :: u8 where "SRTYPE_LSL \<equiv> 0"
abbreviation (input) SRTYPE_LSR :: u8 where "SRTYPE_LSR \<equiv> 1"
abbreviation (input) SRTYPE_ASR :: u8 where "SRTYPE_ASR \<equiv> 2"
abbreviation (input) SRTYPE_ROR :: u8 where "SRTYPE_ROR \<equiv> 3"
abbreviation (input) SRTYPE_ASL :: u8 where "SRTYPE_ASL \<equiv> SRTYPE_LSL"
abbreviation (input) FLAG_NOS :: u8 where "FLAG_NOS \<equiv> 0"
abbreviation (input) FLAG_S :: u8 where "FLAG_S \<equiv> 1"

section \<open>Encoders\<close>

text \<open>The C expressions \<open>r << k\<close> for \<open>s8\<close> and \<open>u8\<close> operands and \<open>(x >> k) & m\<close> for an \<open>s32\<close>.\<close>

definition sh8 :: "s8 \<Rightarrow> nat \<Rightarrow> u32" where "sh8 r k = push_bit k (scast r)"
definition shu8 :: "u8 \<Rightarrow> nat \<Rightarrow> u32" where "shu8 r k = push_bit k (ucast r)"
definition fld :: "s32 \<Rightarrow> nat \<Rightarrow> u32 \<Rightarrow> u32" where "fld x k m = signed_drop_bit k x AND m"

text \<open>\<open>off > 0 ? off : -off\<close>, and a condition as 0 or 1.\<close>

definition c_abs :: "s32 \<Rightarrow> u32" where "c_abs x = (if 0 < sint x then x else - x)"
definition c_bool :: "bool \<Rightarrow> u32" where "c_bool b = (if b then 1 else 0)"

text \<open>The operand fields shared by the register forms with a shifted second operand.\<close>

definition dp_reg :: "u32 \<Rightarrow> s8 \<Rightarrow> s8 \<Rightarrow> s8 \<Rightarrow> s32 \<Rightarrow> u8 \<Rightarrow> u8 \<Rightarrow> u32" where
  "dp_reg base Rd Rn Rm imm5 srtype flagS =
     base OR shu8 flagS 20 OR sh8 Rn 16 OR push_bit 12 (fld imm5 2 7) OR sh8 Rd 8 OR
     push_bit 6 (imm5 AND 3) OR shu8 srtype 4 OR scast Rm"

definition thumb32_UMULL_T2 :: "s8 \<Rightarrow> s8 \<Rightarrow> s8 \<Rightarrow> s8 \<Rightarrow> u32" where
  "thumb32_UMULL_T2 RdLo RdHi Rn Rm =
     THUMB2_UMULL_T2 OR sh8 Rn 16 OR sh8 RdLo 12 OR sh8 RdHi 8 OR scast Rm"

definition thumb32_MUL_T2 :: "s8 \<Rightarrow> s8 \<Rightarrow> s8 \<Rightarrow> u32" where
  "thumb32_MUL_T2 Rd Rn Rm = THUMB2_MUL_T2 OR sh8 Rn 16 OR sh8 Rd 8 OR scast Rm"

definition thumb16_IT_T1 :: "u8 \<Rightarrow> u8 \<Rightarrow> u16" where
  "thumb16_IT_T1 cond m = ucast (THUMB2_IT OR shu8 cond 4 OR ucast m)"

definition thumb32_RSBW_IMM_T2 :: "s8 \<Rightarrow> s8 \<Rightarrow> s32 \<Rightarrow> u8 \<Rightarrow> u32" where
  "thumb32_RSBW_IMM_T2 Rd Rn shiftImm12 flagS =
     THUMB2_RSBW_IMM OR push_bit 26 (fld shiftImm12 11 1) OR shu8 flagS 20 OR sh8 Rn 16 OR
     push_bit 12 (fld shiftImm12 8 7) OR sh8 Rd 8 OR (shiftImm12 AND 0xff)"

definition thumb32_RSBW_REG_T1 :: "s8 \<Rightarrow> s8 \<Rightarrow> s8 \<Rightarrow> s32 \<Rightarrow> u8 \<Rightarrow> u8 \<Rightarrow> u32" where
  "thumb32_RSBW_REG_T1 Rd Rn Rm shiftImm5 srtype flagS =
     dp_reg THUMB2_RSBW_REG Rd Rn Rm shiftImm5 srtype flagS"

definition thumb16_B_T1 :: "s32 \<Rightarrow> s8 \<Rightarrow> u16" where
  "thumb16_B_T1 offImm9 cond = ucast (THUMB2_B_COND_T1 OR sh8 cond 8 OR fld offImm9 1 0xff)"

definition thumb16_B_T2 :: "s32 \<Rightarrow> u16" where
  "thumb16_B_T2 offImm12 = ucast (THUMB2_B_T2 OR fld offImm12 1 0x7ff)"

definition thumb16_BLX_REG_T1 :: "s8 \<Rightarrow> u16" where
  "thumb16_BLX_REG_T1 Rm = ucast (THUMB2_BLX_REG_T1 OR sh8 Rm 3)"

definition thumb32_BW_T3 :: "s32 \<Rightarrow> s8 \<Rightarrow> u32" where
  "thumb32_BW_T3 offImm20 cond =
     (let S = c_bool (sint offImm20 < 0); imm11 = fld offImm20 1 0x7ff; imm6 = fld offImm20 12 0x3f;
          J1 = fld offImm20 18 1; J2 = fld offImm20 19 1
      in THUMB2_BW_COND_T3 OR push_bit 26 S OR sh8 cond 22 OR push_bit 16 imm6 OR
         push_bit 13 J1 OR push_bit 11 J2 OR imm11)"

definition thumb32_BW_T4 :: "s32 \<Rightarrow> u32" where
  "thumb32_BW_T4 offImm23 =
     (let S = c_bool (sint offImm23 < 0); imm11 = fld offImm23 1 0x7ff; imm10 = fld offImm23 12 0x3ff;
          I1 = fld offImm23 18 1; I2 = fld offImm23 19 1;
          J1 = (NOT I1 XOR S) AND 1; J2 = (NOT I2 XOR S) AND 1
      in THUMB2_BW_COND_T3 OR push_bit 26 S OR push_bit 16 imm10 OR push_bit 13 J1 OR
         push_bit 11 J2 OR imm11)"

definition thumb32_SBCW_T2 :: "s8 \<Rightarrow> s8 \<Rightarrow> s8 \<Rightarrow> s32 \<Rightarrow> u8 \<Rightarrow> u8 \<Rightarrow> u32" where
  "thumb32_SBCW_T2 Rd Rn Rm shiftImm5 srtype flagS =
     dp_reg THUMB2_SBCW_REG Rd Rn Rm shiftImm5 srtype flagS"

definition thumb16_CMP_REG_T1 :: "s8 \<Rightarrow> s8 \<Rightarrow> u16" where
  "thumb16_CMP_REG_T1 Rn Rm = ucast (THUMB2_CMP_REG_T1 OR sh8 Rm 3 OR scast Rn)"

definition thumb16_CMP_REG_T2 :: "s8 \<Rightarrow> s8 \<Rightarrow> u16" where
  "thumb16_CMP_REG_T2 Rn Rm =
     (let N = fld (scast Rn AND 8) 3 0xffff; Rn3 = scast Rn AND 7
      in ucast (THUMB2_CMP_REG_T2 OR push_bit 7 N OR sh8 Rm 3 OR Rn3))"

definition thumb32_CMPW_REG_T3 :: "s8 \<Rightarrow> s8 \<Rightarrow> s32 \<Rightarrow> u8 \<Rightarrow> u32" where
  "thumb32_CMPW_REG_T3 Rn Rm offImm5 srtype =
     THUMB2_CMPW_REG_T3 OR sh8 Rn 16 OR push_bit 12 (fld offImm5 2 7) OR push_bit 6 (offImm5 AND 3) OR
     shu8 srtype 4 OR scast Rm"

definition thumb32_MUL_REG_T2 :: "s8 \<Rightarrow> s8 \<Rightarrow> s8 \<Rightarrow> u32" where
  "thumb32_MUL_REG_T2 Rd Rn Rm = THUMB2_MUL_REG_T2 OR sh8 Rn 16 OR sh8 Rd 8 OR scast Rm"

definition thumb16_ADD_IMM_T2 :: "s8 \<Rightarrow> s32 \<Rightarrow> u16" where
  "thumb16_ADD_IMM_T2 RDn imm8 = ucast (THUMB2_ADD_IMM_T2 OR sh8 RDn 8 OR (imm8 AND 0xff))"

definition thumb32_ADD_IMM_T4 :: "s8 \<Rightarrow> s8 \<Rightarrow> s32 \<Rightarrow> u32" where
  "thumb32_ADD_IMM_T4 Rd Rn imm12 =
     THUMB2_ADD_IMM_T4 OR push_bit 26 (fld imm12 11 1) OR sh8 Rn 16 OR push_bit 12 (fld imm12 8 7) OR
     sh8 Rd 8 OR (imm12 AND 0xff)"

definition thumb16_ADD_REG_T2 :: "s8 \<Rightarrow> s8 \<Rightarrow> u16" where
  "thumb16_ADD_REG_T2 RDn Rm =
     ucast (THUMB2_ADD_REG_T2 OR push_bit 7 (fld (scast RDn) 3 1) OR sh8 Rm 3 OR (scast RDn AND 7))"

definition thumb32_ADDW_REG_T3 :: "s8 \<Rightarrow> s8 \<Rightarrow> s8 \<Rightarrow> s32 \<Rightarrow> u8 \<Rightarrow> u8 \<Rightarrow> u32" where
  "thumb32_ADDW_REG_T3 Rd Rn Rm offImm5 srtype flagS =
     dp_reg THUMB2_ADDW_REG Rd Rn Rm offImm5 srtype flagS"

definition thumb16_AND_REG_T1 :: "s8 \<Rightarrow> s8 \<Rightarrow> u16" where
  "thumb16_AND_REG_T1 RDn Rm = ucast (THUMB2_AND_REG_T1 OR sh8 Rm 3 OR scast RDn)"

definition thumb32_AND_REG_T2 :: "s8 \<Rightarrow> s8 \<Rightarrow> s8 \<Rightarrow> s32 \<Rightarrow> u8 \<Rightarrow> u8 \<Rightarrow> u32" where
  "thumb32_AND_REG_T2 Rd Rn Rm offImm5 srtype flagS =
     dp_reg THUMB2_AND_REG_T2 Rd Rn Rm offImm5 srtype flagS"

definition thumb16_MOV_REG_T1 :: "s8 \<Rightarrow> s8 \<Rightarrow> u16" where
  "thumb16_MOV_REG_T1 Rd Rm =
     ucast (THUMB2_MOV_REG OR push_bit 7 (fld (scast Rd) 3 1) OR sh8 Rm 3 OR (scast Rd AND 7))"

definition thumb16_MOVS_REG_T2 :: "s8 \<Rightarrow> s8 \<Rightarrow> u16" where
  "thumb16_MOVS_REG_T2 Rd Rm = ucast (THUMB2_MOVS_REG OR sh8 Rm 3 OR scast Rd)"

definition thumb32_MOVW_REG_T3 :: "s8 \<Rightarrow> s8 \<Rightarrow> u8 \<Rightarrow> u32" where
  "thumb32_MOVW_REG_T3 Rd Rm flagS = THUMB2_MOVW_REG OR shu8 flagS 20 OR sh8 Rd 8 OR scast Rm"

definition thumb16_SUB_IMM_T1 :: "s8 \<Rightarrow> s8 \<Rightarrow> s32 \<Rightarrow> u16" where
  "thumb16_SUB_IMM_T1 Rd3 Rn3 imm3 =
     ucast (THUMB2_SUB_IMM_T1 OR push_bit 6 (imm3 AND 7) OR sh8 Rn3 3 OR scast Rd3)"

definition thumb16_SUB_IMM_T2 :: "s8 \<Rightarrow> s32 \<Rightarrow> u16" where
  "thumb16_SUB_IMM_T2 Rdn3 imm8 = ucast (THUMB2_SUB_IMM_T2 OR sh8 Rdn3 8 OR (imm8 AND 0xff))"

text \<open>The mask of \<open>imm3\<close> has two bits, and the flag argument is not used.\<close>

definition thumb32_SUBW_IMM_T4 :: "s8 \<Rightarrow> s8 \<Rightarrow> s32 \<Rightarrow> u8 \<Rightarrow> u32" where
  "thumb32_SUBW_IMM_T4 Rd Rn imm12 flagS =
     THUMB2_SUBW_IMM_T4 OR push_bit 26 (fld imm12 11 1) OR sh8 Rn 16 OR push_bit 12 (fld imm12 8 3) OR
     sh8 Rd 8 OR (imm12 AND 0xff)"

definition thumb16_SUB_REG_T1 :: "s8 \<Rightarrow> s8 \<Rightarrow> s8 \<Rightarrow> u16" where
  "thumb16_SUB_REG_T1 Rd Rn Rm = ucast (THUMB2_SUB_REG_T1 OR sh8 Rm 6 OR sh8 Rn 3 OR scast Rd)"

definition thumb32_SUB_REG_T2 :: "s8 \<Rightarrow> s8 \<Rightarrow> s8 \<Rightarrow> s32 \<Rightarrow> u8 \<Rightarrow> u8 \<Rightarrow> u32" where
  "thumb32_SUB_REG_T2 Rd Rn Rm shiftOff5 srtype flagS =
     dp_reg THUMB2_SUB_REG_T2 Rd Rn Rm shiftOff5 srtype flagS"

definition thumb16_PUSH_T1 :: "s32 \<Rightarrow> u16" where
  "thumb16_PUSH_T1 reg_mask =
     ucast (THUMB2_PUSH_T1 OR push_bit 8 (fld reg_mask 14 1) OR (reg_mask AND 0xff))"

definition thumb32_PUSHW_T2 :: "s32 \<Rightarrow> u32" where
  "thumb32_PUSHW_T2 reg_mask =
     THUMB2_PUSH_W OR push_bit 14 (fld reg_mask 14 1) OR (reg_mask AND 0x1fff)"

definition thumb32_POPW_T2 :: "s32 \<Rightarrow> u32" where
  "thumb32_POPW_T2 reg_mask =
     THUMB2_POP_W OR push_bit 15 (fld reg_mask 15 1) OR push_bit 14 (fld reg_mask 14 1) OR
     (reg_mask AND 0x1fff)"

definition thumb16_LDRB_IMM_T1 :: "s8 \<Rightarrow> s8 \<Rightarrow> s16 \<Rightarrow> u16" where
  "thumb16_LDRB_IMM_T1 Rt Rn offImm5 =
     ucast (THUMB2_LDRB_IMM_T1 OR push_bit 6 (scast offImm5) OR sh8 Rn 3 OR scast Rt)"

definition thumb32_LDRB_IMM_T3 :: "s8 \<Rightarrow> s8 \<Rightarrow> s32 \<Rightarrow> u32" where
  "thumb32_LDRB_IMM_T3 Rt Rn offImm8 =
     (let flag = 8 OR push_bit 2 1 OR push_bit 1 (c_bool (0 \<le> sint offImm8))
      in THUMB2_LDRB_IMM_T3 OR sh8 Rn 16 OR sh8 Rt 12 OR push_bit 8 flag OR c_abs offImm8)"

definition thumb32_LDR_IMM_T4 :: "s8 \<Rightarrow> s8 \<Rightarrow> s32 \<Rightarrow> u32" where
  "thumb32_LDR_IMM_T4 Rt Rn offImm8 =
     (let flag = push_bit 2 (c_bool (offImm8 \<noteq> 0)) OR push_bit 1 (c_bool (0 \<le> sint offImm8))
      in THUMB2_LDR_IMM_T4 OR sh8 Rn 16 OR sh8 Rt 12 OR push_bit 8 flag OR c_abs offImm8)"

definition thumb32_LDRD_IMM_T1 :: "s8 \<times> s8 \<Rightarrow> s8 \<Rightarrow> s32 \<Rightarrow> u32" where
  "thumb32_LDRD_IMM_T1 Rt Rn offImm8 =
     (let flag = 2 OR push_bit 3 (c_bool (offImm8 \<noteq> 0)) OR push_bit 2 (c_bool (0 < sint offImm8));
          imm8 = drop_bit 2 (c_abs offImm8) AND 0xff
      in THUMB2_LDRD_IMM OR push_bit 21 flag OR sh8 Rn 16 OR sh8 (snd Rt) 12 OR sh8 (fst Rt) 8 OR imm8)"

text \<open>In the byte and half-word stores the flag bits are all set whatever the offset.\<close>

definition thumb32_STRB_IMM_T3 :: "s8 \<Rightarrow> s8 \<Rightarrow> s16 \<Rightarrow> u32" where
  "thumb32_STRB_IMM_T3 Rn Rt offImm8 =
     (let flag = 7 OR push_bit 2 (c_bool (offImm8 \<noteq> 0)) OR push_bit 1 (c_bool (0 < sint offImm8))
      in THUMB2_STRB_IMM_T3 OR sh8 Rn 16 OR sh8 Rt 12 OR push_bit 8 flag OR c_abs (scast offImm8))"

definition thumb32_STRH_IMM_T3 :: "s8 \<Rightarrow> s8 \<Rightarrow> s16 \<Rightarrow> u32" where
  "thumb32_STRH_IMM_T3 Rn Rt offImm8 =
     (let flag = 7 OR push_bit 2 (c_bool (offImm8 \<noteq> 0)) OR push_bit 1 (c_bool (0 < sint offImm8))
      in THUMB2_STRH_IMM_T3 OR sh8 Rn 16 OR sh8 Rt 12 OR push_bit 8 flag OR c_abs (scast offImm8))"

definition thumb32_STRD_IMM_T1 :: "s8 \<times> s8 \<Rightarrow> s8 \<Rightarrow> s16 \<Rightarrow> u32" where
  "thumb32_STRD_IMM_T1 RnSrc RtDst offImm8 =
     (let imm8 = drop_bit 2 (c_abs (scast offImm8)) AND 0xff
      in THUMB2_STRD_IMM OR push_bit 24 (c_bool (offImm8 \<noteq> 0)) OR push_bit 23 (c_bool (0 < sint offImm8)) OR
         sh8 RtDst 16 OR sh8 (snd RnSrc) 12 OR sh8 (fst RnSrc) 8 OR imm8)"

definition thumb32_ASRW_IMM_T2 :: "s8 \<Rightarrow> s8 \<Rightarrow> s32 \<Rightarrow> u8 \<Rightarrow> u32" where
  "thumb32_ASRW_IMM_T2 Rd Rm imm5 flagS =
     THUMB2_ASRW_IMM OR shu8 flagS 20 OR push_bit 12 (fld imm5 2 7) OR sh8 Rd 8 OR
     push_bit 6 (imm5 AND 3) OR scast Rm"

definition thumb32_ASRW_REG_T2 :: "s8 \<Rightarrow> s8 \<Rightarrow> s8 \<Rightarrow> u8 \<Rightarrow> u32" where
  "thumb32_ASRW_REG_T2 Rd Rn Rm flagS =
     THUMB2_ASRW_REG OR shu8 flagS 20 OR sh8 Rn 16 OR sh8 Rd 8 OR scast Rm"

definition thumb32_LSLW_REG_T2 :: "s8 \<Rightarrow> s8 \<Rightarrow> s8 \<Rightarrow> u8 \<Rightarrow> u32" where
  "thumb32_LSLW_REG_T2 Rd Rn Rm flagS =
     THUMB2_LSLW_REG_T2 OR shu8 flagS 20 OR sh8 Rn 16 OR sh8 Rd 8 OR scast Rm"

definition thumb32_LSRW_REG_T2 :: "s8 \<Rightarrow> s8 \<Rightarrow> s8 \<Rightarrow> u8 \<Rightarrow> u32" where
  "thumb32_LSRW_REG_T2 Rd Rn Rm flagS =
     THUMB2_LSRW_REG OR shu8 flagS 20 OR sh8 Rn 16 OR sh8 Rd 8 OR scast Rm"

definition thumb32_LSRW_IMM_T2 :: "s8 \<Rightarrow> s8 \<Rightarrow> s32 \<Rightarrow> u8 \<Rightarrow> u32" where
  "thumb32_LSRW_IMM_T2 Rd Rm shiftImm5 flagS =
     (if sint shiftImm5 < 0 \<or> sint shiftImm5 > 31 then - 1
      else THUMB2_LSRW_IMM OR shu8 flagS 20 OR push_bit 12 (fld shiftImm5 2 7) OR sh8 Rd 8 OR
           push_bit 6 (shiftImm5 AND 3) OR scast Rm)"

definition thumb16_ORR_REG_T1 :: "s8 \<Rightarrow> s8 \<Rightarrow> u16" where
  "thumb16_ORR_REG_T1 RDn Rm =
     ucast (THUMB2_ORR_REG OR push_bit 4 (scast RDn AND 7) OR (scast Rm AND 7))"

definition thumb32_EOR_REG_T2 :: "s8 \<Rightarrow> s8 \<Rightarrow> s8 \<Rightarrow> s32 \<Rightarrow> u8 \<Rightarrow> u8 \<Rightarrow> u32" where
  "thumb32_EOR_REG_T2 Rd Rn Rm shiftImm5 srtype flagS =
     dp_reg THUMB2_EOR_REG_T2 Rd Rn Rm shiftImm5 srtype flagS"

definition thumb32_ORRW_REG_T2 :: "s8 \<Rightarrow> s8 \<Rightarrow> s8 \<Rightarrow> s32 \<Rightarrow> u8 \<Rightarrow> u8 \<Rightarrow> u32" where
  "thumb32_ORRW_REG_T2 Rd Rn Rm shiftImm5 srtype flagS =
     (if sint shiftImm5 < 0 \<or> sint shiftImm5 > 31 then - 1
      else dp_reg THUMB2_ORRW_REG Rd Rn Rm shiftImm5 srtype flagS)"

end
