(* ===== verification/Jit_Emit.thy ===== *)
theory Jit_Emit
  imports Thumb2 Ebpf_Inst
begin

text \<open>
  The emitters of \<^verbatim>\<open>libebpf/ebpf-src/jit_thumb2.c\<close>. An emitter appends half-words at the current
  index of the code buffer and does nothing else to the compiler state, so it is modelled as the
  list of half-words it appends; one that also yields a register returns both. The loop over the
  program and the writes into the buffer are in \<open>Jit\<close>.
\<close>

section \<open>Registers\<close>

type_synonym code = "u16 list"
type_synonym reg2 = "s8 \<times> s8"

text \<open>A pair is \<open>{hi, lo}\<close>: index 0 is the high half, index 1 the low half.\<close>

abbreviation hi_of :: "reg2 \<Rightarrow> s8" where "hi_of r \<equiv> fst r"
abbreviation lo_of :: "reg2 \<Rightarrow> s8" where "lo_of r \<equiv> snd r"

abbreviation (input) ARM_R0 :: s8 where "ARM_R0 \<equiv> 0"
abbreviation (input) ARM_FP :: s8 where "ARM_FP \<equiv> 11"
abbreviation (input) ARM_IP :: s8 where "ARM_IP \<equiv> 12"
abbreviation (input) ARM_SP :: s8 where "ARM_SP \<equiv> 13"
abbreviation (input) ARM_LR :: s8 where "ARM_LR \<equiv> 14"

definition STACK_OFFSET :: "s8 \<Rightarrow> s8" where "STACK_OFFSET k = - 4 - k * 4"

definition BPF_JIT_SCRATCH_REGS :: nat where "BPF_JIT_SCRATCH_REGS = 20"
abbreviation (input) SCRATCH_SIZE :: s32 where "SCRATCH_SIZE \<equiv> word_of_nat (BPF_JIT_SCRATCH_REGS * 4)"

text \<open>
  The table, by BPF register: \<open>r0\<close> to \<open>r9\<close>, the frame pointer, \<open>AX\<close>, the two temporaries, the
  tail call counter.
\<close>

definition bpf2a32 :: "reg2 list" where
  "bpf2a32 =
     [(1, 0), (3, 2),
      (STACK_OFFSET 0, STACK_OFFSET 1), (STACK_OFFSET 2, STACK_OFFSET 3),
      (STACK_OFFSET 4, STACK_OFFSET 5), (STACK_OFFSET 6, STACK_OFFSET 7),
      (5, 4),
      (STACK_OFFSET 8, STACK_OFFSET 9), (STACK_OFFSET 10, STACK_OFFSET 11),
      (STACK_OFFSET 12, STACK_OFFSET 13), (STACK_OFFSET 14, STACK_OFFSET 15),
      (STACK_OFFSET 18, STACK_OFFSET 19),
      (7, 6), (9, 8),
      (STACK_OFFSET 16, STACK_OFFSET 17)]"

abbreviation (input) TMP_REG_1 :: nat where "TMP_REG_1 \<equiv> 12"
abbreviation (input) TMP_REG_2 :: nat where "TMP_REG_2 \<equiv> 13"

definition tmp1 :: reg2 where "tmp1 = bpf2a32 ! TMP_REG_1"
definition tmp2 :: reg2 where "tmp2 = bpf2a32 ! TMP_REG_2"

definition is_stacked :: "s8 \<Rightarrow> bool" where "is_stacked r \<longleftrightarrow> sint r < 0"

text \<open>Without \<open>CONFIG_FRAME_POINTER\<close> the macro \<open>EBPF_SCRATCH_TO_ARM_FP\<close> is the identity.\<close>

definition EBPF_SCRATCH_TO_ARM_FP :: "s8 \<Rightarrow> s16" where "EBPF_SCRATCH_TO_ARM_FP x = scast x"

section \<open>Emission\<close>

definition emit2 :: "u16 \<Rightarrow> code" where "emit2 x = [x]"

text \<open>The two half-words of \<open>x\<close>, the upper one first.\<close>

definition emit4 :: "u32 \<Rightarrow> code" where "emit4 x = [ucast (drop_bit 16 x), ucast x]"

text \<open>\<open>a <= x && x <= b\<close> on a signed half-word.\<close>

definition between :: "int \<Rightarrow> s16 \<Rightarrow> int \<Rightarrow> bool" where "between a x b \<longleftrightarrow> a \<le> sint x \<and> sint x \<le> b"

definition emit_ldr_i :: "s8 \<Rightarrow> s8 \<Rightarrow> s16 \<Rightarrow> code" where
  "emit_ldr_i Rt Rn off =
     (if off = 0 then emit4 (0xf8d00000 OR sh8 Rn 16 OR sh8 Rt 12 OR (scast off AND 0xfff))
      else emit4 (thumb32_LDR_IMM_T4 Rt Rn (scast off)))"

definition emit_ldrb_i :: "s8 \<Rightarrow> s8 \<Rightarrow> s16 \<Rightarrow> code" where
  "emit_ldrb_i Rt Rn off =
     (if between (- 31) off 31 \<and> sint Rt < 8 \<and> sint Rn < 8 then emit2 (thumb16_LDRB_IMM_T1 Rt Rn off)
      else if between (- 255) off 255 then emit4 (thumb32_LDRB_IMM_T3 Rt Rn (scast off))
      else if between (- 4095) off 4095 then emit4 (0xf8900000 OR sh8 Rn 16 OR sh8 Rt 12 OR scast off)
      else [])"

definition emit_ldrh_i :: "s8 \<Rightarrow> s8 \<Rightarrow> s16 \<Rightarrow> code" where
  "emit_ldrh_i Rt Rn off =
     (if between (- 31) off 31
      then emit2 (ucast (0x8800 OR push_bit 6 (scast off AND 31) OR sh8 Rn 3 OR (scast Rt :: u32)))
      else if between (- 255) off 255
      then emit4 (0xf8300000 OR sh8 Rn 16 OR sh8 Rt 12 OR push_bit 8 14 OR (scast off AND 255))
      else if between (- 4095) off 4095
      then emit4 (0xf8b00000 OR sh8 Rn 16 OR sh8 Rt 12 OR (scast off AND 4095))
      else [])"

definition emit_ldrd_i :: "reg2 \<Rightarrow> s8 \<Rightarrow> s16 \<Rightarrow> code" where
  "emit_ldrd_i Rt Rn off = emit4 (thumb32_LDRD_IMM_T1 Rt Rn (scast off))"

definition emit_str_i :: "s8 \<Rightarrow> s8 \<Rightarrow> s16 \<Rightarrow> code" where
  "emit_str_i RnSrc Rt off =
     (let imm8 = (ucast (c_abs (scast off)) :: u8);
          flag = 8 OR push_bit 2 (c_bool (off \<noteq> 0)) OR push_bit 1 (c_bool (0 < sint off))
      in emit4 (THUMB2_STR_IMM OR sh8 RnSrc 16 OR sh8 Rt 12 OR push_bit 8 flag OR ucast imm8))"

definition emit_strd_i :: "reg2 \<Rightarrow> s8 \<Rightarrow> s16 \<Rightarrow> code" where
  "emit_strd_i RnSrc RtDst off = emit4 (thumb32_STRD_IMM_T1 RnSrc RtDst off)"

definition emit_mov_reg :: "s8 \<Rightarrow> s8 \<Rightarrow> code" where
  "emit_mov_reg src dst =
     (if dst \<noteq> ARM_SP \<and> src \<noteq> ARM_SP then emit2 (thumb16_MOV_REG_T1 dst src)
      else emit4 (thumb32_MOVW_REG_T3 dst src FLAG_NOS))"

text \<open>\<open>movs\<close>, or \<open>movw\<close> followed by \<open>movt\<close> when the value has an upper half.\<close>

definition mov_wide :: "u32 \<Rightarrow> u8 \<Rightarrow> u16 \<Rightarrow> u32" where
  "mov_wide base rd v1 =
     (let i4 = drop_bit 12 (v1 AND 0xf000); i = drop_bit 11 (v1 AND 0x0800);
          i3 = drop_bit 8 (v1 AND 0x0700); i8 = v1 AND 0x00ff
      in base OR push_bit 26 (ucast i) OR push_bit 16 (ucast i4) OR push_bit 12 (ucast i3) OR
         shu8 rd 8 OR ucast i8)"

definition emit_mov_imm :: "u8 \<Rightarrow> u32 \<Rightarrow> code" where
  "emit_mov_imm rd val =
     (if val \<le> 0xff \<and> rd < 8 then emit2 (ucast (0x2000 OR shu8 rd 8 OR val))
      else emit4 (mov_wide 0xf2400000 rd (ucast (val AND 0xffff))) @
           (if val > 0xffff then emit4 (mov_wide 0xf2c00000 rd (ucast (drop_bit 16 val))) else []))"

section \<open>Operands\<close>

definition arm_bpf_get_reg32 :: "s8 \<Rightarrow> s8 \<Rightarrow> s8 \<times> code" where
  "arm_bpf_get_reg32 r tmp =
     (if is_stacked r then (tmp, emit_ldr_i tmp ARM_FP (EBPF_SCRATCH_TO_ARM_FP r)) else (r, []))"

definition arm_bpf_put_reg32 :: "s8 \<Rightarrow> s8 \<Rightarrow> code" where
  "arm_bpf_put_reg32 r src =
     (if is_stacked r then emit_str_i ARM_FP src (EBPF_SCRATCH_TO_ARM_FP r)
      else if r \<noteq> src then emit_mov_reg src r else [])"

definition arm_bpf_get_reg64 :: "reg2 \<Rightarrow> reg2 \<Rightarrow> reg2 \<times> code" where
  "arm_bpf_get_reg64 r tmp =
     (if is_stacked (lo_of r) then (tmp, emit_ldrd_i tmp ARM_FP (EBPF_SCRATCH_TO_ARM_FP (lo_of r)))
      else (r, []))"

definition emit_a32_mov_reg :: "s8 \<Rightarrow> s8 \<Rightarrow> code" where
  "emit_a32_mov_reg src dst =
     (let (rt, c) = arm_bpf_get_reg32 src (hi_of tmp1) in c @ arm_bpf_put_reg32 dst rt)"

definition arm_bpf_put_reg64 :: "reg2 \<Rightarrow> reg2 \<Rightarrow> code" where
  "arm_bpf_put_reg64 r src =
     (if is_stacked (lo_of r) then emit_strd_i src ARM_FP (EBPF_SCRATCH_TO_ARM_FP (lo_of r))
      else (if lo_of r \<noteq> lo_of src then emit_a32_mov_reg (lo_of src) (lo_of r) else []) @
           (if hi_of r \<noteq> hi_of src then emit_a32_mov_reg (hi_of src) (hi_of r) else []))"

definition is_ldst_imm :: "s16 \<Rightarrow> ebpf_size \<Rightarrow> bool" where
  "is_ldst_imm off z =
     (let off_max = (case z of EBPF_SIZE_B \<Rightarrow> 0xfff | EBPF_SIZE_W \<Rightarrow> 0xfff
                             | EBPF_SIZE_H \<Rightarrow> 0xff | EBPF_SIZE_DW \<Rightarrow> 0xfff - 4)
      in between (- off_max) off off_max)"

section \<open>Arithmetic\<close>

definition emit_add_reg :: "s8 \<Rightarrow> s8 \<Rightarrow> bool \<Rightarrow> bool \<Rightarrow> code" where
  "emit_add_reg dst src is64 hi =
     (if is64
      then (if hi then emit4 (0xeb400000 OR sh8 src 16 OR sh8 dst 8 OR scast dst)
            else emit4 (0xeb100000 OR sh8 src 16 OR sh8 dst 8 OR scast dst))
      else emit2 (thumb16_ADD_REG_T2 dst src))"

definition emit_add_imm :: "s8 \<Rightarrow> s8 \<Rightarrow> s32 \<Rightarrow> code" where
  "emit_add_imm dst src val =
     (if 0 \<le> sint val \<and> sint val \<le> 255 \<and> dst = src \<and> sint dst < 8
      then emit2 (thumb16_ADD_IMM_T2 dst val)
      else if 0 \<le> sint val \<and> sint val \<le> 4095 then emit4 (thumb32_ADD_IMM_T4 dst src val)
      else [])"

definition low_reg :: "s8 \<Rightarrow> bool" where "low_reg r \<longleftrightarrow> 0 \<le> sint r \<and> sint r < 8"

definition emit_sub_imm :: "s8 \<Rightarrow> s8 \<Rightarrow> s32 \<Rightarrow> code" where
  "emit_sub_imm dst src val =
     (if sint val < 0 \<or> sint val > 4095 then []
      else if low_reg dst \<and> low_reg src \<and> dst = src \<and> sint val \<le> 0xff
      then emit2 (thumb16_SUB_IMM_T2 dst val)
      else if low_reg dst \<and> low_reg src \<and> sint val \<le> 7 then emit2 (thumb16_SUB_IMM_T1 dst src val)
      else emit4 (thumb32_SUBW_IMM_T4 dst src val FLAG_NOS))"

definition emit_sub_reg :: "s8 \<Rightarrow> s8 \<Rightarrow> bool \<Rightarrow> bool \<Rightarrow> code" where
  "emit_sub_reg dst src is64 hi =
     (if is64 \<and> \<not> hi then emit4 (thumb32_SUB_REG_T2 dst dst src 0 SRTYPE_LSL FLAG_S)
      else if is64 \<and> hi then emit4 (thumb32_SBCW_T2 dst dst src 0 SRTYPE_LSL FLAG_NOS)
      else if sint src < 8 \<and> sint dst < 8 then emit2 (thumb16_SUB_REG_T1 dst dst src)
      else emit4 (thumb32_SUB_REG_T2 dst dst src 0 SRTYPE_LSL FLAG_NOS))"

definition emit_orr_reg :: "s8 \<Rightarrow> s8 \<Rightarrow> code" where
  "emit_orr_reg dst src =
     (if sint dst < 8 \<and> sint src < 8 then emit2 (thumb16_ORR_REG_T1 dst src)
      else emit4 (thumb32_ORRW_REG_T2 dst dst src 0 SRTYPE_ASL FLAG_NOS))"

definition emit_and_reg :: "s8 \<Rightarrow> s8 \<Rightarrow> code" where
  "emit_and_reg dst src =
     (if sint dst < 8 \<and> sint src < 8 then emit2 (thumb16_AND_REG_T1 dst src)
      else emit4 (thumb32_AND_REG_T2 dst dst src 0 SRTYPE_ASL FLAG_NOS))"

definition emit_cmp_reg :: "s8 \<Rightarrow> s8 \<Rightarrow> code" where
  "emit_cmp_reg Rn Rm =
     (if sint Rn < 8 \<and> sint Rm < 8 then emit2 (thumb16_CMP_REG_T1 Rn Rm)
      else emit2 (thumb16_CMP_REG_T2 Rn Rm))"

text \<open>The test \<open>rn > 0 && rn < 8 && rd > 0 && rd < 8\<close> before a 16-bit form.\<close>

definition both_low :: "s8 \<Rightarrow> s8 \<Rightarrow> bool" where
  "both_low rn rd \<longleftrightarrow> 0 < sint rn \<and> sint rn < 8 \<and> 0 < sint rd \<and> sint rd < 8"

definition alu16 :: "u32 \<Rightarrow> s8 \<Rightarrow> s8 \<Rightarrow> code" where
  "alu16 base rn rd = emit2 (ucast (base OR sh8 rn 3 OR scast rd))"

definition emit_alu32_reg :: "s8 \<Rightarrow> s8 \<Rightarrow> bool \<Rightarrow> bool \<Rightarrow> alu_op \<Rightarrow> code" where
  "emit_alu32_reg dst src is64 hi op =
     (let (rn, c1) = arm_bpf_get_reg32 src (lo_of tmp1);
          (rd, c2) = arm_bpf_get_reg32 dst (hi_of tmp1)
      in c1 @ c2 @
         (case op of
            EBPF_ALU_ADD \<Rightarrow> emit_add_reg rd rn is64 hi
          | EBPF_ALU_SUB \<Rightarrow> emit_sub_reg rd rn is64 hi
          | EBPF_ALU_OR \<Rightarrow> emit_orr_reg rd rn
          | EBPF_ALU_AND \<Rightarrow> emit_and_reg rd rn
          | EBPF_ALU_XOR \<Rightarrow> if both_low rn rd then alu16 0x4040 rn rd
              else emit4 (thumb32_EOR_REG_T2 rd rn rd 0 SRTYPE_ROR FLAG_NOS)
          | EBPF_ALU_MUL \<Rightarrow> if both_low rn rd then alu16 0x4340 rn rd
              else emit4 (thumb32_MUL_REG_T2 rd rn rd)
          | EBPF_ALU_LSH \<Rightarrow> if both_low rn rd then alu16 0x4080 rn rd
              else emit4 (thumb32_LSLW_REG_T2 rd rd rn FLAG_NOS)
          | EBPF_ALU_RSH \<Rightarrow> if both_low rn rd then alu16 0x40c0 rn rd
              else emit4 (thumb32_LSRW_REG_T2 rd rd rn FLAG_NOS)
          | EBPF_ALU_ARSH \<Rightarrow> if both_low rn rd then alu16 0x4100 rn rd
              else emit4 (thumb32_ASRW_REG_T2 rd rd rn FLAG_NOS)
          | _ \<Rightarrow> []) @
         arm_bpf_put_reg32 dst rd)"

definition emit_alu64_reg :: "bool \<Rightarrow> reg2 \<Rightarrow> reg2 \<Rightarrow> alu_op \<Rightarrow> code" where
  "emit_alu64_reg is64 dst src op =
     (let (rd, c1) = arm_bpf_get_reg64 dst tmp1
      in c1 @
         (if is64
          then (let (rs, c2) = arm_bpf_get_reg64 src tmp2
                in c2 @ emit_alu32_reg (lo_of rd) (lo_of rs) True False op @
                   emit_alu32_reg (hi_of rd) (hi_of rs) True True op)
          else (let (rs, c2) = arm_bpf_get_reg32 (lo_of src) (lo_of tmp2)
                in c2 @ emit_alu32_reg (lo_of rd) rs True False op)) @
         arm_bpf_put_reg64 dst rd)"

text \<open>Shifts of one word by a constant, and negation (\<open>EBPF_ALU_NEG\<close>, here \<open>None\<close>).\<close>

definition emit_alu32_imm :: "s8 \<Rightarrow> u16 \<Rightarrow> alu_op option \<Rightarrow> code" where
  "emit_alu32_imm dst val op =
     (let (rd, c1) = arm_bpf_get_reg32 dst (hi_of tmp1);
          shift = (\<lambda>base. emit2 (ucast (base OR push_bit 6 (ucast val) OR sh8 rd 3 OR (scast rd :: u32))))
      in c1 @
         (case op of
            Some EBPF_ALU_LSH \<Rightarrow> shift 0x0000
          | Some EBPF_ALU_RSH \<Rightarrow> shift 0x0800
          | Some EBPF_ALU_ARSH \<Rightarrow> shift 0x1000
          | None \<Rightarrow> alu16 0x4240 rd rd
          | _ \<Rightarrow> []) @
         arm_bpf_put_reg32 dst rd)"

text \<open>The immediate divisor is passed as a \<open>u16\<close>.\<close>

definition emit_u32_div_mod :: "reg2 \<Rightarrow> reg2 \<Rightarrow> bool \<Rightarrow> ebpf_src \<Rightarrow> u16 \<Rightarrow> code" where
  "emit_u32_div_mod dst src is_div k imm =
     (let (rd_lo, c1) = arm_bpf_get_reg32 (lo_of dst) (lo_of tmp2);
          (rt, c2) = (case k of
                        EBPF_SRC_REG \<Rightarrow> arm_bpf_get_reg32 (lo_of src) (hi_of tmp2)
                      | EBPF_SRC_IMM \<Rightarrow> (hi_of tmp2, emit_mov_imm (hi_of tmp2) (ucast imm)))
      in c1 @ c2 @
         (if is_div then emit4 (0xfbb0f0f0 OR sh8 rd_lo 16 OR sh8 rd_lo 8 OR scast rt)
          else emit4 (0xfbb0f0f0 OR sh8 rd_lo 16 OR sh8 ARM_IP 8 OR scast rt) @
               emit4 (0xfb000010 OR sh8 rd_lo 16 OR sh8 ARM_IP 12 OR sh8 rd_lo 8 OR scast rt)) @
         arm_bpf_put_reg32 (lo_of dst) rd_lo)"

section \<open>64-bit shifts, negation, multiplication\<close>

definition emit_lsh64_reg :: "reg2 \<Rightarrow> reg2 \<Rightarrow> code" where
  "emit_lsh64_reg dst src =
     (let (rt, c1) = arm_bpf_get_reg32 (lo_of src) (lo_of tmp2);
          (rd, c2) = arm_bpf_get_reg64 dst tmp1;
          t = hi_of tmp2
      in c1 @ c2 @
         emit4 (0xf1a00000 OR sh8 rt 16 OR sh8 ARM_IP 8 OR 32) @
         emit4 (THUMB2_LSLW_REG_T2 OR sh8 (hi_of rd) 16 OR sh8 t 8 OR scast rt) @
         emit4 (THUMB2_LSLW_REG_T2 OR sh8 (lo_of rd) 16 OR sh8 ARM_IP 8 OR scast ARM_IP) @
         emit4 (THUMB2_ORRW_REG OR sh8 t 16 OR sh8 ARM_IP 8 OR scast ARM_IP) @
         emit4 (0xf1c00000 OR sh8 rt 16 OR sh8 t 8 OR 32) @
         emit4 (THUMB2_LSLW_REG_T2 OR sh8 (lo_of rd) 16 OR sh8 t 8 OR scast t) @
         emit4 (THUMB2_ORRW_REG OR sh8 t 16 OR sh8 ARM_IP 8 OR scast ARM_IP) @
         emit4 (THUMB2_LSLW_REG_T2 OR sh8 (lo_of rd) 16 OR sh8 t 8 OR scast rt) @
         arm_bpf_put_reg32 (lo_of dst) t @
         arm_bpf_put_reg32 (hi_of dst) ARM_IP)"

definition emit_lsh64_imm :: "reg2 \<Rightarrow> u16 \<Rightarrow> code" where
  "emit_lsh64_imm dst val =
     (let (rd, c1) = arm_bpf_get_reg64 dst tmp1; v = (ucast val :: u32)
      in c1 @
         (if val < 32
          then emit4 (0xea5f0000 OR push_bit 12 (drop_bit 2 (v AND 28)) OR sh8 (hi_of tmp2) 8 OR
                 push_bit 4 (v AND 3) OR scast (hi_of rd)) @
               emit4 (0xea500010 OR sh8 (hi_of tmp2) 16 OR push_bit 12 (drop_bit 2 ((32 - v) AND 28)) OR
                 sh8 (hi_of rd) 8 OR push_bit 6 ((32 - v) AND 3) OR scast (lo_of rd)) @
               emit2 (ucast (push_bit 6 v OR sh8 (lo_of rd) 3 OR scast (lo_of rd)))
          else (if val = 32 then emit_mov_reg (lo_of rd) (hi_of rd)
                else emit2 (ucast (push_bit 6 (v - 32) OR sh8 (lo_of rd) 3 OR scast (hi_of rd)))) @
               alu16 0x4040 (lo_of rd) (lo_of rd)) @
         arm_bpf_put_reg64 dst rd)"

definition emit_a32_rsh_r64 :: "reg2 \<Rightarrow> reg2 \<Rightarrow> code" where
  "emit_a32_rsh_r64 dst src =
     (let (rt, c1) = arm_bpf_get_reg32 (lo_of src) (lo_of tmp2);
          (rd, c2) = arm_bpf_get_reg64 dst tmp1;
          t = hi_of tmp2
      in c1 @ c2 @
         emit4 (thumb32_RSBW_IMM_T2 ARM_IP rt 32 FLAG_S) @
         emit4 (thumb32_SUBW_IMM_T4 t rt 32 FLAG_S) @
         emit4 (thumb32_LSRW_REG_T2 ARM_LR (lo_of rd) rt FLAG_S) @
         emit4 (thumb32_LSLW_REG_T2 (hi_of rd) (hi_of rd) ARM_IP FLAG_S) @
         emit4 (thumb32_ORRW_REG_T2 ARM_LR ARM_LR (hi_of rd) 0 SRTYPE_LSL FLAG_S) @
         emit4 (thumb32_LSRW_REG_T2 (hi_of rd) (hi_of rd) t FLAG_S) @
         emit4 (thumb32_ORRW_REG_T2 ARM_LR ARM_LR (hi_of rd) 0 SRTYPE_LSL FLAG_S) @
         emit4 (thumb32_LSRW_REG_T2 ARM_IP (hi_of rd) rt FLAG_S) @
         arm_bpf_put_reg32 (lo_of dst) ARM_LR @
         arm_bpf_put_reg32 (hi_of dst) ARM_IP)"

definition emit_a32_rsh_i64 :: "reg2 \<Rightarrow> u16 \<Rightarrow> code" where
  "emit_a32_rsh_i64 dst val =
     (let (rd, c1) = arm_bpf_get_reg64 dst tmp1; v = (ucast val :: s32)
      in c1 @
         (if val = 0 then []
          else if val < 32
          then emit4 (thumb32_LSRW_IMM_T2 (lo_of tmp2) (lo_of rd) v FLAG_NOS) @
               emit4 (thumb32_ORRW_REG_T2 (lo_of rd) (lo_of tmp2) (hi_of rd) (32 - v) SRTYPE_LSL FLAG_NOS) @
               emit4 (thumb32_LSRW_IMM_T2 (hi_of rd) (hi_of rd) v FLAG_NOS)
          else if val = 32
          then emit_mov_reg (hi_of rd) (lo_of rd) @ emit_mov_imm (hi_of rd) 0
          else emit4 (thumb32_LSRW_IMM_T2 (lo_of rd) (hi_of rd) (v - 32) FLAG_NOS) @
               emit_mov_imm (hi_of rd) 0) @
         arm_bpf_put_reg64 dst rd)"

definition emit_a32_arsh_r64 :: "reg2 \<Rightarrow> reg2 \<Rightarrow> code" where
  "emit_a32_arsh_r64 dst src =
     (let (rt, c1) = arm_bpf_get_reg32 (lo_of src) (lo_of tmp2);
          (rd, c2) = arm_bpf_get_reg64 dst tmp1;
          t = hi_of tmp2
      in c1 @ c2 @
         emit4 (thumb32_RSBW_IMM_T2 ARM_IP rt 32 FLAG_S) @
         emit4 (thumb32_SUBW_IMM_T4 t rt 32 FLAG_S) @
         emit4 (thumb32_LSRW_REG_T2 ARM_LR (lo_of rd) rt FLAG_S) @
         emit4 (thumb32_LSLW_REG_T2 (hi_of rd) (hi_of rd) t FLAG_NOS) @
         emit4 (thumb32_ORRW_REG_T2 ARM_LR ARM_LR (hi_of rd) 0 SRTYPE_LSL FLAG_S) @
         emit4 (thumb32_ASRW_REG_T2 (hi_of rd) (hi_of rd) t FLAG_NOS) @
         emit2 (thumb16_IT_T1 COND_PL IT_MASK_NONE) @
         emit4 (thumb32_ORRW_REG_T2 ARM_LR ARM_LR (hi_of rd) 0 SRTYPE_LSL FLAG_S) @
         emit4 (thumb32_ASRW_REG_T2 ARM_IP (hi_of rd) rt FLAG_S) @
         arm_bpf_put_reg32 (lo_of dst) ARM_LR @
         arm_bpf_put_reg32 (hi_of dst) ARM_IP)"

definition emit_a32_arsh_i64 :: "reg2 \<Rightarrow> u32 \<Rightarrow> code" where
  "emit_a32_arsh_i64 dst val =
     (let (rd, c1) = arm_bpf_get_reg64 dst tmp1
      in c1 @
         (if val = 0 then []
          else if val < 32
          then emit4 (thumb32_LSRW_IMM_T2 (lo_of tmp2) (lo_of rd) val FLAG_S) @
               emit4 (thumb32_ORRW_REG_T2 (lo_of rd) (lo_of tmp2) (hi_of rd) (32 - val) SRTYPE_LSL FLAG_S) @
               emit4 (thumb32_ASRW_IMM_T2 (hi_of rd) (hi_of rd) val FLAG_S)
          else if val = 32
          then emit_mov_reg (hi_of rd) (lo_of rd) @
               emit4 (thumb32_ASRW_IMM_T2 (hi_of rd) (hi_of rd) 31 FLAG_S)
          else emit4 (thumb32_ASRW_IMM_T2 (lo_of rd) (hi_of rd) (val - 32) FLAG_S) @
               emit4 (thumb32_ASRW_IMM_T2 (hi_of rd) (hi_of rd) 31 FLAG_S)) @
         arm_bpf_put_reg64 dst rd)"

definition emit_a32_neg64 :: "reg2 \<Rightarrow> code" where
  "emit_a32_neg64 dst =
     (let (rd, c1) = arm_bpf_get_reg64 dst tmp1
      in c1 @ emit4 (thumb32_RSBW_IMM_T2 (lo_of rd) (lo_of rd) 0 FLAG_S) @
         emit4 (thumb32_RSBW_IMM_T2 (hi_of rd) (hi_of rd) 0 FLAG_S) @
         arm_bpf_put_reg64 dst rd)"

definition emit_a32_mul_r64 :: "reg2 \<Rightarrow> reg2 \<Rightarrow> code" where
  "emit_a32_mul_r64 dst src =
     (let (rd, c1) = arm_bpf_get_reg64 dst tmp1; (rt, c2) = arm_bpf_get_reg64 src tmp2
      in c1 @ c2 @
         emit4 (thumb32_MUL_T2 ARM_IP (lo_of rd) (hi_of rt)) @
         emit4 (thumb32_MUL_T2 ARM_LR (hi_of rd) (lo_of rt)) @
         emit2 (thumb16_ADD_REG_T2 ARM_LR ARM_IP) @
         emit4 (thumb32_UMULL_T2 ARM_IP (hi_of rd) (lo_of rd) (lo_of rt)) @
         emit2 (thumb16_ADD_REG_T2 (hi_of rd) ARM_LR) @
         arm_bpf_put_reg32 (lo_of dst) ARM_IP @
         arm_bpf_put_reg32 (hi_of dst) (hi_of rd))"

section \<open>Memory and moves\<close>

definition emit_ldx_reg :: "reg2 \<Rightarrow> s8 \<Rightarrow> s16 \<Rightarrow> ebpf_size \<Rightarrow> code" where
  "emit_ldx_reg dst src off z =
     (let rd = (if is_stacked (lo_of dst) then tmp1 else dst); t = hi_of tmp1;
          (c1, rm, off) =
            (if \<not> is_ldst_imm off z
             then (emit_mov_imm t (scast off) @ emit_add_reg t src False False, t, 0)
             else if lo_of rd = src then (emit_a32_mov_reg src t, t, off)
             else ([], src, off))
      in c1 @
         (case z of
            EBPF_SIZE_B \<Rightarrow> emit_ldrb_i (lo_of rd) rm off
          | EBPF_SIZE_H \<Rightarrow> emit_ldrh_i (lo_of rd) rm off
          | EBPF_SIZE_W \<Rightarrow> emit_ldr_i (lo_of rd) rm off
          | EBPF_SIZE_DW \<Rightarrow> emit_ldr_i (lo_of rd) rm off @ emit_ldr_i (hi_of rd) rm (off + 4)) @
         arm_bpf_put_reg64 dst rd)"

definition emit_str_reg :: "s8 \<Rightarrow> reg2 \<Rightarrow> s16 \<Rightarrow> ebpf_size \<Rightarrow> code" where
  "emit_str_reg dst src off z =
     (let (rd, c1) = arm_bpf_get_reg32 dst (lo_of tmp1); t = hi_of tmp1;
          (c2, rd, off) =
            (if \<not> is_ldst_imm off z
             then (emit_mov_imm t (scast off) @ emit_add_reg t rd False False, t, 0)
             else ([], rd, off))
      in c1 @ c2 @
         (case z of
            EBPF_SIZE_B \<Rightarrow> emit4 (thumb32_STRB_IMM_T3 (lo_of src) rd off)
          | EBPF_SIZE_H \<Rightarrow> emit4 (thumb32_STRH_IMM_T3 (lo_of src) rd off)
          | EBPF_SIZE_W \<Rightarrow> emit_str_i (lo_of src) rd off
          | EBPF_SIZE_DW \<Rightarrow> emit_str_i (lo_of src) rd off @ emit_str_i (hi_of src) rd (off + 4)))"

definition emit_mov_reg64 :: "bool \<Rightarrow> reg2 \<Rightarrow> reg2 \<Rightarrow> code" where
  "emit_mov_reg64 is64 dst src =
     (if \<not> is64 then emit_a32_mov_reg (lo_of src) (lo_of dst)
      else if is_stacked (lo_of src) \<and> is_stacked (lo_of dst)
      then emit_ldrd_i tmp1 ARM_FP (EBPF_SCRATCH_TO_ARM_FP (lo_of src)) @
           emit_strd_i tmp1 ARM_FP (EBPF_SCRATCH_TO_ARM_FP (lo_of dst))
      else if is_stacked (lo_of src) then emit_ldrd_i dst ARM_FP (EBPF_SCRATCH_TO_ARM_FP (lo_of src))
      else if is_stacked (lo_of dst) then emit_strd_i src ARM_FP (EBPF_SCRATCH_TO_ARM_FP (lo_of dst))
      else emit_mov_reg (lo_of src) (lo_of dst) @ emit_mov_reg (hi_of src) (hi_of dst))"

definition emit_push_r64 :: "reg2 \<Rightarrow> code" where
  "emit_push_r64 src =
     (let (rt, c1) = arm_bpf_get_reg64 src tmp2;
          reg_set = push_bit (unat (lo_of rt)) 1 OR push_bit (unat (hi_of rt)) (1 :: u32)
      in c1 @
         (if (hi_of rt = ARM_LR \<or> sint (hi_of rt) < 8) \<and> (lo_of rt = ARM_LR \<or> sint (lo_of rt) < 8)
          then emit2 (thumb16_PUSH_T1 (reg_set AND 0xffff))
          else emit4 (thumb32_PUSHW_T2 (reg_set AND 0xffff))))"

definition emit_mov_i64 :: "reg2 \<Rightarrow> u64 \<Rightarrow> code" where
  "emit_mov_i64 dst val =
     (let rd = (if is_stacked (lo_of dst) then tmp1 else dst)
      in emit_mov_imm (lo_of rd) (ucast val) @ emit_mov_imm (hi_of rd) (ucast (drop_bit 32 val)) @
         arm_bpf_put_reg64 dst rd)"

definition emit_mov_se_imm64 :: "bool \<Rightarrow> reg2 \<Rightarrow> u32 \<Rightarrow> code" where
  "emit_mov_se_imm64 is64 dst val =
     (if is64
      then emit_mov_i64 dst (if bit val 31 then ucast val OR 0xffffffff00000000 else ucast val)
      else emit_mov_imm (lo_of dst) val)"

section \<open>Comparisons and branches\<close>

definition emit_cmp_cond :: "s8 \<Rightarrow> s8 \<Rightarrow> s8 \<Rightarrow> s8 \<Rightarrow> jmp_op \<Rightarrow> bool \<Rightarrow> code" where
  "emit_cmp_cond rd rt rm rn op is_jmp64 =
     (let unsigned_cmp = (if is_jmp64 then emit_cmp_reg rd rm @ emit_cmp_reg rt rn else emit_cmp_reg rt rn);
          b_minus_a = emit_cmp_reg rn rt @
            (if is_jmp64 then emit4 (thumb32_SBCW_T2 ARM_IP rm rd 0 SRTYPE_LSL FLAG_S) else []);
          a_minus_b = emit_cmp_reg rt rn @
            (if is_jmp64 then emit4 (thumb32_SBCW_T2 ARM_IP rd rm 0 SRTYPE_LSL FLAG_S) else [])
      in case op of
           EBPF_JSET \<Rightarrow>
             if is_jmp64
             then emit4 (thumb32_ADDW_REG_T3 ARM_IP rt rn 0 SRTYPE_LSL FLAG_NOS) @
                  emit4 (thumb32_ADDW_REG_T3 ARM_LR rd rm 0 SRTYPE_LSL FLAG_NOS) @
                  emit4 (thumb32_ORRW_REG_T2 ARM_IP ARM_LR ARM_IP 0 SRTYPE_LSL FLAG_S)
             else emit4 (thumb32_ADDW_REG_T3 ARM_IP rt rn 0 SRTYPE_LSL FLAG_S)
         | EBPF_JEQ \<Rightarrow> unsigned_cmp | EBPF_JNE \<Rightarrow> unsigned_cmp | EBPF_JGT \<Rightarrow> unsigned_cmp
         | EBPF_JGE \<Rightarrow> unsigned_cmp | EBPF_JLE \<Rightarrow> unsigned_cmp | EBPF_JLT \<Rightarrow> unsigned_cmp
         | EBPF_JSLE \<Rightarrow> b_minus_a | EBPF_JSGT \<Rightarrow> b_minus_a
         | EBPF_JSLT \<Rightarrow> a_minus_b | EBPF_JSGE \<Rightarrow> a_minus_b)"

text \<open>The wide conditional branch is used for every program of more than twenty instructions.\<close>

definition use_b4 :: "int \<Rightarrow> bool" where "use_b4 inst_num \<longleftrightarrow> inst_num > 20"

definition emit_b_cond :: "int \<Rightarrow> int \<Rightarrow> u8 \<Rightarrow> code" where
  "emit_b_cond inst_num off cond =
     (if \<not> use_b4 inst_num \<and> off \<ge> - 256 \<and> off \<le> 254 then emit2 (thumb16_B_T1 (word_of_int off) cond)
      else if off > - 1048576 \<and> off < 1048574 then emit4 (thumb32_BW_T3 (word_of_int off) cond)
      else [])"

definition emit_b :: "int \<Rightarrow> code" where
  "emit_b off =
     (if off > - 2048 \<and> off < 2046 then emit2 (thumb16_B_T2 (word_of_int off))
      else if off > - 16777216 \<and> off < 16777214 then emit4 (thumb32_BW_T4 (word_of_int off))
      else [])"

text \<open>
  \<open>_emit_jump\<close> takes its operation as an \<open>s8\<close> and compares the promoted value with the operation
  codes: a code of \<open>0x80\<close> or more, which is negative as an \<open>s8\<close>, matches no label.
\<close>

definition op_is :: "s8 \<Rightarrow> jmp_op \<Rightarrow> bool" where
  "op_is op j \<longleftrightarrow> (scast op :: s32) = ucast (jmp_code j)"

definition emit_jump :: "int \<Rightarrow> int \<Rightarrow> s8 \<Rightarrow> code" where
  "emit_jump inst_num jmp_off op =
     (if op_is op EBPF_JNE \<or> op_is op EBPF_JSET then emit_b_cond inst_num jmp_off COND_NE
      else if op_is op EBPF_JEQ then emit_b_cond inst_num jmp_off COND_EQ
      else if op_is op EBPF_JGT then emit_b_cond inst_num jmp_off COND_HI
      else if op_is op EBPF_JGE then emit_b_cond inst_num jmp_off COND_CS
      else if op_is op EBPF_JSGT then emit_b_cond inst_num jmp_off COND_LT
      else if op_is op EBPF_JSGE then emit_b_cond inst_num jmp_off COND_GE
      else if op_is op EBPF_JLE then emit_b_cond inst_num jmp_off COND_LS
      else if op_is op EBPF_JLT then emit_b_cond inst_num jmp_off COND_CC
      else if op_is op EBPF_JSLT then emit_b_cond inst_num jmp_off COND_LT
      else if op_is op EBPF_JSLE then emit_b_cond inst_num jmp_off COND_GE
      else [])"

end
