(* ===== verification/Jit.thy ===== *)
theory Jit
  imports Jit_Emit Policy_Code
begin

text \<open>
  The compiler proper: \<open>build_inst\<close>, \<open>build_prologue\<close>, \<open>build_body\<close>, \<open>build_epilogue\<close> and
  \<open>jit_compile\<close> of \<^verbatim>\<open>libebpf/ebpf-src/jit_thumb2.c\<close>, and \<open>jit_mem_allocate\<close> and \<open>gen_jit_code\<close> of
  \<^verbatim>\<open>jit.c\<close>. The compiler runs twice over the program: a first pass records where each
  instruction's code ends, in a table of bytes, and a second pass writes the code into the buffer.
  Memory from \<open>malloc\<close> is taken to be aligned to four bytes, so that rounding the buffer address
  down leaves it unchanged. Running the generated code is a matter of the processor and is not
  modelled here.
\<close>

section \<open>State\<close>

text \<open>
  The words at \<open>__bpf_call_base\<close> are \<open>call_base\<close> (\<open>None\<close> for the null pointer). A write outside the
  code buffer or the offset table is undefined behaviour.
\<close>

record jit_state =
  js_insts :: "ebpf_inst list"
  inst_num :: int
  js_code :: "u8 list"
  idx :: nat
  epilogue_off :: int
  err_line :: int
  offsets :: "u8 list"
  call_base :: "u32 list option"
  needGen :: bool

text \<open>\<open>emit_bytes\<close> for a sequence of half-words.\<close>

definition emit_code :: "code \<Rightarrow> jit_state \<Rightarrow> jit_state cres" where
  "emit_code c s =
     (let bs = concat (map (le_bytes 2) c) in
      if \<not> needGen s then Inr (s\<lparr>idx := idx s + length bs\<rparr>)
      else if idx s + length bs \<le> length (js_code s)
      then Inr (s\<lparr>js_code := splice (js_code s) (idx s) bs, idx := idx s + length bs\<rparr>)
      else if c = [] then Inr s
      else Inl Oob_write)"

section \<open>Instructions\<close>

definition bpf2a32_offset :: "jit_state \<Rightarrow> int \<Rightarrow> int \<Rightarrow> int \<Rightarrow> int cres" where
  "bpf2a32_offset s bpf_from bpf_to bsize =
     (if \<not> needGen s then Inr 0
      else if bpf_to < 0 \<or> bpf_from < 0 \<or> nat bpf_to \<ge> length (offsets s) \<or> nat bpf_from \<ge> length (offsets s)
      then Inl Oob_read
      else (let to = uint (offsets s ! nat bpf_to); from = uint (offsets s ! nat bpf_from) - bsize
            in Inr (to - from - 4)))"

definition epilogue_offset :: "jit_state \<Rightarrow> int" where
  "epilogue_offset s = (if \<not> needGen s then 0 else epilogue_off s - int (idx s) - 4)"

definition a32 :: "4 word \<Rightarrow> reg2 cres" where
  "a32 r = (if unat r < length bpf2a32 then Inr (bpf2a32 ! unat r) else Inl Oob_read)"

text \<open>What \<open>build_inst\<close> does: its return value, the error line it records, the code it emits.\<close>

record built =
  ret :: int
  err :: "int option"
  out :: code

definition done0 :: "code \<Rightarrow> built cres" where
  "done0 c = Inr \<lparr>ret = 0, err = None, out = c\<rparr>"

definition build_call :: "jit_state \<Rightarrow> s32 \<Rightarrow> built cres" where
  "build_call s imm =
     (case call_base s of
        None \<Rightarrow> Inl Null_deref
      | Some ws \<Rightarrow>
          if sint imm < 0 \<or> nat (sint imm) \<ge> length ws then Inl Oob_read
          else done0
            (emit_mov_reg64 True (bpf2a32 ! 0) (bpf2a32 ! 1) @
             emit_mov_reg64 True (bpf2a32 ! 1) (bpf2a32 ! 2) @
             emit_push_r64 (bpf2a32 ! 5) @ emit_push_r64 (bpf2a32 ! 4) @ emit_push_r64 (bpf2a32 ! 3) @
             emit_mov_imm (lo_of tmp1) (ws ! nat (sint imm)) @
             emit2 (thumb16_BLX_REG_T1 (lo_of tmp1)) @
             emit_add_imm ARM_SP ARM_SP 24))"

text \<open>The conditional jumps.\<close>

definition build_jmp :: "jit_state \<Rightarrow> nat \<Rightarrow> ebpf_inst \<Rightarrow> reg2 \<Rightarrow> reg2 \<Rightarrow> jmp_op \<Rightarrow> ebpf_src \<Rightarrow> built cres" where
  "build_jmp s p i dst src j k =
     (let off = sint (i_offset i);
          (rm, c1) = (case k of
             EBPF_SRC_REG \<Rightarrow> arm_bpf_get_reg32 (hi_of src) (hi_of tmp2) | EBPF_SRC_IMM \<Rightarrow> (hi_of tmp2, []));
          (rn, c2) = (case k of
             EBPF_SRC_REG \<Rightarrow> arm_bpf_get_reg32 (lo_of src) (lo_of tmp2)
           | EBPF_SRC_IMM \<Rightarrow> (lo_of tmp2, emit_mov_se_imm64 True tmp2 (i_imm i)));
          (rd, c3) = arm_bpf_get_reg64 dst tmp1;
          bsize = (if use_b4 (inst_num s) then 4 else 2)
      in if k = EBPF_SRC_IMM \<and> off = 0 then done0 []
         else c_bind (bpf2a32_offset s (int p) (int p + off) bsize) (\<lambda>jmp_offset.
           done0 (c1 @ c2 @ c3 @ emit_cmp_cond (hi_of rd) (lo_of rd) rm rn j True @
             emit_jump (inst_num s) jmp_offset (jmp_code j))))"

text \<open>
  One instruction, at index \<open>p\<close>. The \<open>switch\<close> is over the whole opcode byte; line 1451 is the one
  recorded for a 32-bit shift by more than 31.
\<close>

definition build_op :: "jit_state \<Rightarrow> nat \<Rightarrow> ebpf_inst \<Rightarrow> reg2 \<Rightarrow> reg2 \<Rightarrow> built cres" where
  "build_op s p i dst src =
     (let off = i_offset i; imm = i_imm i in
      case ebpf_op_of (i_opcode i) of
        None \<Rightarrow> done0 []
      | Some op \<Rightarrow>
          (case op of
             OP_ALU EBPF_ALU_MOV EBPF_SRC_REG \<Rightarrow>
               done0 (if imm = 1 then emit_mov_imm (hi_of dst) 0 else emit_mov_reg64 False dst src)
           | OP_ALU64 EBPF_ALU_MOV EBPF_SRC_REG \<Rightarrow>
               done0 (if imm = 1 then emit_mov_imm (hi_of dst) 0 else emit_mov_reg64 True dst src)
           | OP_ALU EBPF_ALU_MOV EBPF_SRC_IMM \<Rightarrow> done0 (emit_mov_se_imm64 False dst imm)
           | OP_ALU64 EBPF_ALU_MOV EBPF_SRC_IMM \<Rightarrow> done0 (emit_mov_se_imm64 True dst imm)
           | OP_ALU EBPF_ALU_DIV k \<Rightarrow> done0 (emit_u32_div_mod dst src True k (ucast imm))
           | OP_ALU EBPF_ALU_MOD k \<Rightarrow> done0 (emit_u32_div_mod dst src False k (ucast imm))
           | OP_ALU64 EBPF_ALU_DIV k \<Rightarrow> done0 (emit_u32_div_mod dst src True k (ucast imm))
           | OP_ALU64 EBPF_ALU_MOD k \<Rightarrow> done0 (emit_u32_div_mod dst src False k (ucast imm))
           | OP_ALU64 EBPF_ALU_LSH EBPF_SRC_REG \<Rightarrow> done0 (emit_lsh64_reg dst src)
           | OP_ALU64 EBPF_ALU_LSH EBPF_SRC_IMM \<Rightarrow> done0 (emit_lsh64_imm dst (ucast imm))
           | OP_ALU64 EBPF_ALU_RSH EBPF_SRC_REG \<Rightarrow> done0 (emit_a32_rsh_r64 dst src)
           | OP_ALU64 EBPF_ALU_RSH EBPF_SRC_IMM \<Rightarrow> done0 (emit_a32_rsh_i64 dst (ucast imm))
           | OP_ALU64 EBPF_ALU_ARSH EBPF_SRC_REG \<Rightarrow> done0 (emit_a32_arsh_r64 dst src)
           | OP_ALU64 EBPF_ALU_ARSH EBPF_SRC_IMM \<Rightarrow> done0 (emit_a32_arsh_i64 dst imm)
           | OP_ALU64 EBPF_ALU_MUL EBPF_SRC_IMM \<Rightarrow>
               done0 (emit_mov_se_imm64 True tmp2 imm @ emit_a32_mul_r64 dst tmp2)
           | OP_ALU64 EBPF_ALU_MUL EBPF_SRC_REG \<Rightarrow> done0 (emit_a32_mul_r64 dst src)
           | OP_ALU a EBPF_SRC_IMM \<Rightarrow>
               if a = EBPF_ALU_LSH \<or> a = EBPF_ALU_RSH \<or> a = EBPF_ALU_ARSH
               then (if sint imm > 31 then Inr \<lparr>ret = - 1, err = Some 1451, out = []\<rparr>
                     else done0 (if imm \<noteq> 0 then emit_alu32_imm (lo_of dst) (ucast imm) (Some a) else []))
               else done0 (emit_mov_se_imm64 False tmp2 imm @ emit_alu64_reg False dst tmp2 a)
           | OP_ALU a EBPF_SRC_REG \<Rightarrow> done0 (emit_alu64_reg False dst src a)
           | OP_ALU64 a EBPF_SRC_IMM \<Rightarrow>
               done0 (emit_mov_se_imm64 True tmp2 imm @ emit_alu64_reg True dst tmp2 a)
           | OP_ALU64 a EBPF_SRC_REG \<Rightarrow> done0 (emit_alu64_reg True dst src a)
           | OP_NEG \<Rightarrow> done0 (emit_alu32_imm (lo_of dst) 0 None)
           | OP_NEG64 \<Rightarrow> done0 (emit_a32_neg64 dst)
           | OP_LE \<Rightarrow> Inr \<lparr>ret = - 1, err = None, out = []\<rparr>
           | OP_BE \<Rightarrow> Inr \<lparr>ret = - 1, err = None, out = []\<rparr>
           | OP_LDDW \<Rightarrow>
               if p + 1 \<ge> length (js_insts s) then Inl Oob_read
               else Inr \<lparr>ret = 1, err = None,
                 out = emit_mov_i64 dst (ucast imm OR push_bit 32 (ucast (i_imm (js_insts s ! (p + 1)))))\<rparr>
           | OP_LDX z \<Rightarrow>
               (let (rn, c) = arm_bpf_get_reg32 (lo_of src) (lo_of tmp2)
                in done0 (c @ emit_ldx_reg dst rn off z))
           | OP_ST z \<Rightarrow>
               done0 ((if z = EBPF_SIZE_DW then emit_mov_se_imm64 True tmp2 imm
                       else emit_mov_imm (lo_of tmp2) imm) @
                      emit_str_reg (lo_of dst) tmp2 off z)
           | OP_STX z \<Rightarrow>
               (let (rs, c) = arm_bpf_get_reg64 src tmp2
                in done0 (c @ emit_str_reg (lo_of dst) rs off z))
           | OP_JMP j k \<Rightarrow> build_jmp s p i dst src j k
           | OP_JA \<Rightarrow>
               if off = 0 then done0 []
               else c_bind (bpf2a32_offset s (int p) (int p + sint off) 2) (\<lambda>jmp_offset.
                 done0 (emit_b jmp_offset))
           | OP_CALL \<Rightarrow> build_call s imm
           | OP_EXIT \<Rightarrow>
               if int p = inst_num s - 1 then done0 [] else done0 (emit_b (epilogue_offset s))))"

definition build_inst :: "jit_state \<Rightarrow> nat \<Rightarrow> built cres" where
  "build_inst s p =
     (if p \<ge> length (js_insts s) then Inl Oob_read
      else c_bind (a32 (i_dst (js_insts s ! p))) (\<lambda>dst.
           c_bind (a32 (i_src (js_insts s ! p))) (\<lambda>src.
           build_op s p (js_insts s ! p) dst src)))"

section \<open>Passes\<close>

abbreviation (input) CALLEE_MASK :: s32 where "CALLEE_MASK \<equiv> 0xbf0"
abbreviation (input) CALLEE_PUSH_MASK :: s32 where "CALLEE_PUSH_MASK \<equiv> CALLEE_MASK OR 0x4000"
abbreviation (input) CALLEE_POP_MASK :: s32 where "CALLEE_POP_MASK \<equiv> CALLEE_MASK OR 0x8000"
abbreviation (input) EBPF_STACK_SIZE :: s32 where "EBPF_STACK_SIZE \<equiv> 256"

definition prologue_code :: code where
  "prologue_code =
     (let bpf_r1 = bpf2a32 ! 1; bpf_fp = bpf2a32 ! 10
      in emit4 (thumb32_PUSHW_T2 CALLEE_PUSH_MASK) @
         emit_mov_reg ARM_SP ARM_FP @
         emit_mov_imm (hi_of bpf_r1) 0 @
         emit_sub_imm (lo_of bpf_r1) ARM_SP SCRATCH_SIZE @
         emit_sub_imm ARM_SP ARM_SP EBPF_STACK_SIZE @
         emit_mov_reg64 True bpf_fp bpf_r1 @
         emit_mov_reg ARM_R0 (lo_of bpf_r1) @
         emit_mov_imm (hi_of bpf_r1) 0)"

definition build_prologue :: "jit_state \<Rightarrow> jit_state cres" where
  "build_prologue s = emit_code prologue_code s"

definition epilogue_code :: code where
  "epilogue_code = emit_mov_reg ARM_FP ARM_SP @ emit4 (thumb32_POPW_T2 CALLEE_POP_MASK)"

definition build_epilogue :: "jit_state \<Rightarrow> jit_state cres" where
  "build_epilogue s = emit_code epilogue_code s"

text \<open>The table of end offsets has one byte per instruction.\<close>

definition set_offset :: "nat \<Rightarrow> jit_state \<Rightarrow> jit_state cres" where
  "set_offset k s =
     (if needGen s then Inr s
      else if k < length (offsets s) then Inr (s\<lparr>offsets := (offsets s)[k := word_of_nat (idx s)]\<rparr>)
      else Inl Oob_write)"

lemma emit_code_inst_num: "emit_code c s = Inr s' \<Longrightarrow> inst_num s' = inst_num s"
  by (auto simp: emit_code_def Let_def split: if_splits)

lemma set_offset_inst_num: "set_offset k s = Inr s' \<Longrightarrow> inst_num s' = inst_num s"
  by (auto simp: set_offset_def split: if_splits)

function build_body :: "nat \<Rightarrow> jit_state \<Rightarrow> jit_state cres" where
  "build_body p s =
     (if int p < inst_num s
      then c_bind (build_inst s p) (\<lambda>b.
             c_bind (emit_code (out b) (case err b of None \<Rightarrow> s | Some l \<Rightarrow> s\<lparr>err_line := l\<rparr>)) (\<lambda>s'.
               if ret b > 0 then c_bind (set_offset (p + 1) s') (build_body (p + 2))
               else c_bind (set_offset p s') (\<lambda>s''.
                      if ret b < 0 then Inr s'' else build_body (p + 1) s'')))
      else Inr s)"
  by pat_completeness auto
termination
  by (relation "measure (\<lambda>(p, s). nat (inst_num s - int p))")
    (auto dest!: emit_code_inst_num set_offset_inst_num split: option.splits)

declare build_body.simps [simp del]

definition jit_compile :: "jit_state \<Rightarrow> jit_state cres" where
  "jit_compile s =
     c_bind (build_prologue (s\<lparr>idx := 0, needGen := False\<rparr>)) (\<lambda>s.
     c_bind (build_body 0 s) (\<lambda>s.
     c_bind (build_prologue (s\<lparr>epilogue_off := int (idx s), idx := 0, needGen := True\<rparr>)) (\<lambda>s.
     c_bind (build_body 0 s) (\<lambda>s.
     build_epilogue s))))"

section \<open>Memory and entry point\<close>

definition jit_mem_allocate :: "bool \<Rightarrow> nat \<Rightarrow> jit_mem cres" where
  "jit_mem_allocate ok insts_num =
     (if \<not> ok then Inl Null_deref
      else Inr \<lparr>jit_code = replicate (10 * insts_num + 16) 0, code_size = 10 * int insts_num + 16,
                jmp_offsets = replicate (4 * insts_num + 16) 0\<rparr>)"

definition jit_state_of :: "ebpf_vm \<Rightarrow> u32 list option \<Rightarrow> jit_mem \<Rightarrow> jit_state" where
  "jit_state_of vm base m =
     \<lparr>js_insts = (case insts vm of None \<Rightarrow> [] | Some is \<Rightarrow> is), inst_num = uint (num_insts vm),
      js_code = jit_code m, idx = 0, epilogue_off = 0, err_line = 0, offsets = jmp_offsets m,
      call_base = base, needGen = False\<rparr>"

text \<open>The old buffers are freed first; \<open>base\<close> are the words at \<open>vm->helper_func\<close>.\<close>

definition gen_jit_code :: "bool \<Rightarrow> u32 list option \<Rightarrow> ebpf_vm \<Rightarrow> ebpf_vm cres" where
  "gen_jit_code ok base vm =
     c_bind (jit_mem_allocate ok (unat (num_insts vm))) (\<lambda>m.
     c_bind (jit_compile (jit_state_of vm base m)) (\<lambda>s.
     Inr (vm\<lparr>jmem := Some (m\<lparr>jit_code := js_code s, jmp_offsets := offsets s\<rparr>),
             jit_func := Some (js_code s)\<rparr>)))"

section \<open>The two passes lay the code out alike\<close>

lemma length_emit [simp]: "length (emit2 x) = 1" "length (emit4 y) = 2"
  by (simp_all add: emit2_def emit4_def)

text \<open>What the passes share.\<close>

definition same_program :: "jit_state \<Rightarrow> jit_state \<Rightarrow> bool" where
  "same_program s t \<longleftrightarrow> js_insts t = js_insts s \<and> inst_num t = inst_num s \<and> call_base t = call_base s"

definition branch_op :: "ebpf_op \<Rightarrow> bool" where
  "branch_op op = (case op of OP_JMP j k \<Rightarrow> True | OP_JA \<Rightarrow> True | OP_EXIT \<Rightarrow> True | _ \<Rightarrow> False)"

definition slot_op :: "jit_state \<Rightarrow> nat \<Rightarrow> ebpf_op option" where
  "slot_op s p = ebpf_op_of (i_opcode (js_insts s ! p))"

lemma build_op_same:
  assumes "same_program s t" "\<And>op. ebpf_op_of (i_opcode i) = Some op \<Longrightarrow> \<not> branch_op op"
  shows "build_op t p i dst src = build_op s p i dst src"
proof -
  have eq: "js_insts t = js_insts s" "inst_num t = inst_num s" "call_base t = call_base s"
    using assms(1) by (simp_all add: same_program_def)
  show ?thesis
  proof (cases "ebpf_op_of (i_opcode i)")
    case (Some op)
    then show ?thesis
      using assms(2) unfolding build_op_def build_call_def eq
      by (cases op) (simp_all add: branch_op_def)
  qed (simp add: build_op_def)
qed

lemma build_inst_same:
  assumes "same_program s t" "\<And>op. slot_op s p = Some op \<Longrightarrow> \<not> branch_op op"
  shows "build_inst t p = build_inst s p"
proof -
  have "build_op t p (js_insts s ! p) dst = build_op s p (js_insts s ! p) dst" for dst
    using assms(2) by (intro ext build_op_same [OF assms(1)]) (simp add: slot_op_def)
  then show ?thesis using assms(1) by (simp add: build_inst_def same_program_def)
qed

text \<open>Every recorded offset is even, so a short conditional branch stays in its range.\<close>

definition even_offsets :: "jit_state \<Rightarrow> bool" where
  "even_offsets s \<longleftrightarrow> (\<forall>w \<in> set (offsets s). even (uint w))"

definition short_range :: "int \<Rightarrow> int \<Rightarrow> bool" where
  "short_range n off \<longleftrightarrow> (if use_b4 n then - 300 \<le> off \<and> off \<le> 300 else - 256 \<le> off \<and> off \<le> 254)"

lemma bpf2a32_offset_range:
  assumes "bpf2a32_offset s f t (if use_b4 n then 4 else 2) = Inr off" "even_offsets s"
  shows "short_range n off"
proof (cases "needGen s")
  case True
  let ?t = "uint (offsets s ! nat t)" and ?f = "uint (offsets s ! nat f)"
  from assms(1) True have idx: "nat t < length (offsets s)" "nat f < length (offsets s)"
    and off: "off = ?t - (?f - (if use_b4 n then 4 else 2)) - 4"
    by (auto simp: bpf2a32_offset_def Let_def split: if_splits)
  have "even ?t" "even ?f" using assms(2) idx by (auto simp: even_offsets_def)
  moreover have "0 \<le> ?t" "?t < 256" "0 \<le> ?f" "?f < 256"
    using uint_lt2p [of "offsets s ! nat t"] uint_lt2p [of "offsets s ! nat f"] by simp_all
  ultimately have "?f \<le> 254" "?t \<le> 254" by presburger+
  then show ?thesis
    using \<open>0 \<le> ?t\<close> \<open>0 \<le> ?f\<close>
    by (cases "use_b4 n") (simp_all only: short_range_def off if_True if_False, linarith+)
next
  case False
  then show ?thesis using assms(1) by (simp add: bpf2a32_offset_def short_range_def)
qed

lemma length_emit_b_cond: "short_range n off \<Longrightarrow> length (emit_b_cond n off c) = (if use_b4 n then 2 else 1)"
  by (auto simp: emit_b_cond_def short_range_def)

lemma length_emit_jump:
  "short_range n off \<Longrightarrow> short_range n off' \<Longrightarrow>
     length (emit_jump n off op) = length (emit_jump n off' op)"
  by (simp add: emit_jump_def length_emit_b_cond)

lemma length_emit_b: "- 2048 < off \<Longrightarrow> off < 2046 \<Longrightarrow> length (emit_b off) = 1"
  by (simp add: emit_b_def)

definition same_size :: "built \<Rightarrow> built \<Rightarrow> bool" where
  "same_size b c \<longleftrightarrow> length (out b) = length (out c) \<and> ret b = ret c"

lemma build_jmp_same_size:
  assumes "build_jmp s p i dst src j k = Inr b" "build_jmp t p i dst src j k = Inr c"
    and "same_program s t" "even_offsets s" "even_offsets t"
  shows "same_size b c"
proof (cases "k = EBPF_SRC_IMM \<and> sint (i_offset i) = 0")
  case True
  then show ?thesis
    using assms(1,2) by (auto simp: build_jmp_def done0_def same_size_def Let_def split: prod.splits)
next
  case False
  let ?n = "inst_num s" and ?off = "int p + sint (i_offset i)"
  obtain o1 where o1: "bpf2a32_offset s (int p) ?off (if use_b4 ?n then 4 else 2) = Inr o1"
    using assms(1) False by (auto simp: build_jmp_def c_bind_Inr_iff Let_def split: prod.splits)
  obtain o2 where o2: "bpf2a32_offset t (int p) ?off (if use_b4 ?n then 4 else 2) = Inr o2"
    using assms(2,3) False
    by (auto simp: build_jmp_def same_program_def c_bind_Inr_iff Let_def split: prod.splits)
  have "length (emit_jump ?n o1 op) = length (emit_jump ?n o2 op)" for op
    using bpf2a32_offset_range [OF o1 assms(4)] bpf2a32_offset_range [OF o2 assms(5)]
    by (rule length_emit_jump)
  moreover have "inst_num t = ?n" using assms(3) by (simp add: same_program_def)
  ultimately show ?thesis
    using assms(1,2) False o1 o2
    by (auto simp: build_jmp_def done0_def same_size_def Let_def split: prod.splits)
qed

lemma length_emit_b_offset:
  "bpf2a32_offset s f g 2 = Inr off \<Longrightarrow> even_offsets s \<Longrightarrow> length (emit_b off) = 1"
  using bpf2a32_offset_range [where n = 0, of s f g off]
  by (simp add: use_b4_def short_range_def length_emit_b)

text \<open>The branches of \<open>build_inst\<close>, once its operands are decoded.\<close>

lemma build_inst_operands:
  assumes "build_inst s p = Inr b"
  obtains dst src where "p < length (js_insts s)" "a32 (i_dst (js_insts s ! p)) = Inr dst"
    "a32 (i_src (js_insts s ! p)) = Inr src"
  using assms by (auto simp: build_inst_def Let_def c_bind_Inr_iff split: if_splits)

lemma build_inst_branch:
  assumes "p < length (js_insts s)" "a32 (i_dst (js_insts s ! p)) = Inr dst"
    "a32 (i_src (js_insts s ! p)) = Inr src"
  shows "slot_op s p = Some (OP_JMP j k) \<Longrightarrow>
      build_inst s p = build_jmp s p (js_insts s ! p) dst src j k"
    and "slot_op s p = Some OP_JA \<Longrightarrow>
      build_inst s p = (if i_offset (js_insts s ! p) = 0 then done0 []
        else c_bind (bpf2a32_offset s (int p) (int p + sint (i_offset (js_insts s ! p))) 2)
          (\<lambda>jmp_offset. done0 (emit_b jmp_offset)))"
    and "slot_op s p = Some OP_EXIT \<Longrightarrow>
      build_inst s p = (if int p = inst_num s - 1 then done0 [] else done0 (emit_b (epilogue_offset s)))"
  using assms by (simp_all add: build_inst_def build_op_def slot_op_def Let_def)

lemma build_inst_same_size:
  assumes "build_inst s p = Inr b" "build_inst t p = Inr c" "same_program s t"
    and "even_offsets s" "even_offsets t"
    and "- 2048 < epilogue_offset s" "epilogue_offset s < 2046"
      "- 2048 < epilogue_offset t" "epilogue_offset t < 2046"
  shows "same_size b c"
proof (cases "\<exists>op. slot_op s p = Some op \<and> branch_op op")
  case False
  then have "build_inst t p = build_inst s p" using build_inst_same [OF assms(3)] by blast
  then show ?thesis using assms(1,2) by (simp add: same_size_def)
next
  case True
  then obtain op where op: "slot_op s p = Some op" "branch_op op" by blast
  obtain dst src where r: "p < length (js_insts s)" "a32 (i_dst (js_insts s ! p)) = Inr dst"
    "a32 (i_src (js_insts s ! p)) = Inr src"
    using build_inst_operands [OF assms(1)] .
  have eq: "js_insts t = js_insts s" "inst_num t = inst_num s" "slot_op t p = slot_op s p"
    using assms(3) by (simp_all add: same_program_def slot_op_def)
  note br = build_inst_branch [OF r] build_inst_branch [of p t, unfolded eq, OF r]
  show ?thesis
  proof (cases op)
    case (OP_JMP j k)
    then show ?thesis
      using assms(1,2) op(1) br(1,4) build_jmp_same_size [OF _ _ assms(3-5)] by simp
  next
    case OP_JA
    then show ?thesis
      using assms(1,2,4,5) op(1) br(2,5)
      by (auto simp: done0_def same_size_def c_bind_Inr_iff length_emit_b_offset split: if_splits)
  next
    case OP_EXIT
    then show ?thesis
      using assms(1,2,6-9) op(1) br(3,6)
      by (auto simp: done0_def same_size_def length_emit_b split: if_splits)
  qed (use op in \<open>simp_all add: branch_op_def\<close>)
qed

lemma length_code_bytes [simp]: "length (concat (map (le_bytes n) c)) = n * length c"
  by (induction c) simp_all

lemma emit_code_idx: "emit_code c s = Inr s' \<Longrightarrow> idx s' = idx s + 2 * length c"
  by (auto simp: emit_code_def Let_def split: if_splits)

lemma emit_code_keeps:
  "emit_code c s = Inr s' \<Longrightarrow>
     same_program s s' \<and> needGen s' = needGen s \<and> offsets s' = offsets s \<and> epilogue_off s' = epilogue_off s"
  by (auto simp: emit_code_def same_program_def Let_def split: if_splits)

lemma set_offset_keeps:
  "set_offset k s = Inr s' \<Longrightarrow>
     same_program s s' \<and> needGen s' = needGen s \<and> idx s' = idx s \<and> epilogue_off s' = epilogue_off s"
  by (auto simp: set_offset_def same_program_def split: if_splits)

lemma same_program_trans: "same_program s t \<Longrightarrow> same_program t u \<Longrightarrow> same_program s u"
  by (simp add: same_program_def)

text \<open>One round of \<open>build_body\<close>: the state after an instruction's code and offset are recorded.\<close>

definition body_step :: "nat \<Rightarrow> jit_state \<Rightarrow> (int \<times> jit_state) cres" where
  "body_step p s =
     c_bind (build_inst s p) (\<lambda>b.
     c_bind (emit_code (out b) (case err b of None \<Rightarrow> s | Some l \<Rightarrow> s\<lparr>err_line := l\<rparr>)) (\<lambda>s'.
     c_bind (set_offset (if ret b > 0 then p + 1 else p) s') (\<lambda>s''. Inr (ret b, s''))))"

lemma build_body_step:
  "build_body p s =
     (if int p < inst_num s
      then c_bind (body_step p s) (\<lambda>(r, s').
             if r > 0 then build_body (p + 2) s' else if r < 0 then Inr s' else build_body (p + 1) s')
      else Inr s)"
proof -
  have "c_bind (build_inst s p) (\<lambda>b.
      c_bind (emit_code (out b) (case err b of None \<Rightarrow> s | Some l \<Rightarrow> s\<lparr>err_line := l\<rparr>)) (\<lambda>s'.
        if ret b > 0 then c_bind (set_offset (p + 1) s') (build_body (p + 2))
        else c_bind (set_offset p s') (\<lambda>s''. if ret b < 0 then Inr s'' else build_body (p + 1) s''))) =
    c_bind (body_step p s) (\<lambda>(r, s').
      if r > 0 then build_body (p + 2) s' else if r < 0 then Inr s' else build_body (p + 1) s')"
    unfolding body_step_def c_bind_assoc by (intro c_bind_cong refl) simp
  then show ?thesis by (subst build_body.simps) (simp only:)
qed

definition even_layout :: "jit_state \<Rightarrow> bool" where
  "even_layout s \<longleftrightarrow> even (idx s) \<and> even_offsets s"

lemma even_word_of_nat: "even n \<Longrightarrow> even (uint (word_of_nat n :: u8))"
  by (simp add: unsigned_of_nat take_bit_eq_mod dvd_mod flip: of_nat_mod)

lemma set_offset_even:
  assumes "set_offset k s = Inr s'" "even_layout s"
  shows "even_layout s'"
proof -
  have "even (uint w)" if "w \<in> set ((offsets s)[k := word_of_nat (idx s)])" for w
    using that assms(2) even_word_of_nat set_update_subset_insert [of "offsets s" k "word_of_nat (idx s)"]
    by (auto simp: even_layout_def even_offsets_def)
  then show ?thesis
    using assms by (auto simp: set_offset_def even_layout_def even_offsets_def split: if_splits)
qed

lemma body_step_phases:
  assumes "body_step p s = Inr (r, s')"
  obtains b t u k where "build_inst s p = Inr b" "r = ret b" "emit_code (out b) t = Inr u"
    "set_offset k u = Inr s'" "same_program s t" "needGen t = needGen s" "idx t = idx s"
    "offsets t = offsets s" "epilogue_off t = epilogue_off s" "js_code t = js_code s"
proof -
  obtain b u where b: "build_inst s p = Inr b" "r = ret b"
    "emit_code (out b) (case err b of None \<Rightarrow> s | Some l \<Rightarrow> s\<lparr>err_line := l\<rparr>) = Inr u"
    "set_offset (if ret b > 0 then p + 1 else p) u = Inr s'"
    using assms by (auto simp: body_step_def c_bind_Inr_iff)
  then show thesis by (rule that) (simp_all add: same_program_def split: option.split)
qed

lemma body_step_keeps:
  assumes "body_step p s = Inr (r, s')"
  shows "same_program s s'" "needGen s' = needGen s" "epilogue_off s' = epilogue_off s"
    "\<exists>b. build_inst s p = Inr b \<and> r = ret b \<and> idx s' = idx s + 2 * length (out b)"
    "even_layout s \<Longrightarrow> even_layout s'"
proof -
  obtain b t u k where b: "build_inst s p = Inr b" "r = ret b" and u: "emit_code (out b) t = Inr u"
    and s': "set_offset k u = Inr s'" and t: "same_program s t" "needGen t = needGen s" "idx t = idx s"
    "offsets t = offsets s" "epilogue_off t = epilogue_off s"
    using body_step_phases [OF assms] by metis
  note ku = emit_code_keeps [OF u] emit_code_idx [OF u] and ks = set_offset_keeps [OF s']
  show "same_program s s'" "needGen s' = needGen s" "epilogue_off s' = epilogue_off s"
    using ku ks t by (simp_all add: same_program_def)
  show "\<exists>b. build_inst s p = Inr b \<and> r = ret b \<and> idx s' = idx s + 2 * length (out b)"
    using b ku ks t by simp
  show "even_layout s'" if "even_layout s"
    using that ku t by (intro set_offset_even [OF s']) (simp add: even_layout_def even_offsets_def)
qed

lemma build_body_keeps:
  "build_body p s = Inr s' \<Longrightarrow>
     idx s \<le> idx s' \<and> same_program s s' \<and> (even_layout s \<longrightarrow> even_layout s') \<and>
     needGen s' = needGen s \<and> epilogue_off s' = epilogue_off s"
proof (induction "nat (inst_num s - int p)" arbitrary: p s rule: less_induct)
  case less
  show ?case
  proof (cases "int p < inst_num s")
    case False
    then show ?thesis using less(2) by (simp add: build_body_step [of p s] same_program_def)
  next
    case True
    then obtain r t where step: "body_step p s = Inr (r, t)"
      using less(2) by (auto simp: build_body_step [of p s] c_bind_Inr_iff)
    note k = body_step_keeps [OF step]
    have rec: "idx t \<le> idx s' \<and> same_program t s' \<and> (even_layout t \<longrightarrow> even_layout s') \<and>
        needGen s' = needGen t \<and> epilogue_off s' = epilogue_off t"
      if "build_body q t = Inr s'" "p < q" for q
      using less(1) [of t q] that True k(1) by (simp add: same_program_def)
    show ?thesis
      using less(2) True step k rec [of "p + 1"] rec [of "p + 2"]
      by (auto simp: build_body_step [of p s] same_program_def split: if_splits)
  qed
qed

text \<open>
  The layout of the generating pass is the one of the first pass, when the distance to the
  epilogue fits the short branch.
\<close>

lemma build_body_agree:
  "build_body p s = Inr s' \<Longrightarrow> build_body p t = Inr t' \<Longrightarrow> same_program s t \<Longrightarrow>
     even_layout s \<Longrightarrow> even_layout t \<Longrightarrow> \<not> needGen s \<Longrightarrow> needGen t \<Longrightarrow> idx t = idx s \<Longrightarrow>
     epilogue_off t = int (idx s') \<Longrightarrow> idx s' < 2048 \<Longrightarrow> idx t' = idx s'"
proof (induction "nat (inst_num s - int p)" arbitrary: p s t rule: less_induct)
  case less
  note eq = less(4) [unfolded same_program_def]
  show ?case
  proof (cases "int p < inst_num s")
    case False
    then show ?thesis using less(2,3,9) eq by (simp add: build_body_step [of p])
  next
    case True
    obtain r s1 where s1: "body_step p s = Inr (r, s1)"
      using less(2) True by (auto simp: build_body_step [of p s] c_bind_Inr_iff)
    obtain q t1 where t1: "body_step p t = Inr (q, t1)"
      using less(3) True eq by (auto simp: build_body_step [of p t] c_bind_Inr_iff)
    note ks = body_step_keeps [OF s1] and kt = body_step_keeps [OF t1]
    obtain b where b: "build_inst s p = Inr b" "r = ret b" "idx s1 = idx s + 2 * length (out b)"
      using ks(4) by blast
    obtain c where c: "build_inst t p = Inr c" "q = ret c" "idx t1 = idx t + 2 * length (out c)"
      using kt(4) by blast
    have le: "idx s \<le> idx s'" using build_body_keeps [OF less(2)] by simp
    have "same_size b c"
      using less(5-11) le
      by (intro build_inst_same_size [OF b(1) c(1) less(4)]) (simp_all add: epilogue_offset_def even_layout_def)
    then have same: "q = r" "idx t1 = idx s1" using b c less(9) by (simp_all add: same_size_def)
    have rec: "idx t' = idx s'"
      if "build_body m s1 = Inr s'" "build_body m t1 = Inr t'" "p < m" for m
      using that less(5-11) True ks(1-3) kt(1-3) same eq ks(5) kt(5)
      by (intro less(1) [of s1 m t1]) (simp_all add: same_program_def)
    show ?thesis
      using less(2,3,11) True s1 t1 same eq rec [of "p + 1"] rec [of "p + 2"] less(10)
      by (auto simp: build_body_step [of p s] build_body_step [of p t] split: if_splits)
  qed
qed

section \<open>Sizes\<close>

text \<open>The number of half-words of each emitter, as far as the size policies need it.\<close>

lemma length_emitters [simp]:
  "length (emit_ldr_i Rt Rn off) = 2"
  "length (emit_ldrd_i R Rn off) = 2"
  "length (emit_str_i Rn Rt off) = 2"
  "length (emit_strd_i R Rn off) = 2"
  "length (emit_mov_reg a b) = (if b \<noteq> ARM_SP \<and> a \<noteq> ARM_SP then 1 else 2)"
  "length (emit_mov_imm rd v) = (if v \<le> 0xff \<and> rd < 8 then 1 else if v > 0xffff then 4 else 2)"
  "length (emit_cmp_reg a b) = 1"
  "length (alu16 x a b) = 1"
  by (simp_all add: emit_ldr_i_def emit_ldrd_i_def emit_str_i_def emit_strd_i_def emit_mov_reg_def
      emit_mov_imm_def emit_cmp_reg_def alu16_def Let_def)

lemmas jit_regs = tmp1_def tmp2_def bpf2a32_def STACK_OFFSET_def
  is_stacked_def a32_def

lemma length_prologue [simp]: "length prologue_code = 13"
  by (simp add: prologue_code_def jit_regs Let_def emit_sub_imm_def low_reg_def
      BPF_JIT_SCRATCH_REGS_def emit_mov_reg64_def)

lemma length_epilogue [simp]: "length epilogue_code = 4"
  by (simp add: epilogue_code_def jit_regs)

text \<open>The first pass translates an instruction independently of its position in the output.\<close>

definition pre_state :: "ebpf_inst list \<Rightarrow> int \<Rightarrow> u32 list option \<Rightarrow> jit_state" where
  "pre_state is n base =
     \<lparr>js_insts = is, inst_num = n, js_code = [], idx = 0, epilogue_off = 0, err_line = 0,
      offsets = [], call_base = base, needGen = False\<rparr>"

lemma build_inst_pre:
  assumes "\<not> needGen s"
  shows "build_inst s p = build_inst (pre_state (js_insts s) (inst_num s) (call_base s)) p"
proof -
  let ?t = "pre_state (js_insts s) (inst_num s) (call_base s)"
  have st: "same_program ?t s" "\<not> needGen ?t" by (simp_all add: pre_state_def same_program_def)
  have eq: "js_insts ?t = js_insts s" "inst_num ?t = inst_num s" by (simp_all add: pre_state_def)
  have off: "bpf2a32_offset s a b c = Inr 0" "bpf2a32_offset ?t a b c = Inr 0"
    "epilogue_offset s = 0" "epilogue_offset ?t = 0" for a b c
    using assms st(2) by (simp_all add: bpf2a32_offset_def epilogue_offset_def)
  have op_eq: "build_op s p i dst src = build_op ?t p i dst src" for i dst src
  proof (cases "\<exists>op. ebpf_op_of (i_opcode i) = Some op \<and> branch_op op")
    case True
    then obtain op where op: "ebpf_op_of (i_opcode i) = Some op" "branch_op op" by blast
    then show ?thesis
      unfolding build_op_def build_jmp_def off eq by (cases op) (simp_all add: branch_op_def)
  qed (use build_op_same [OF st(1)] in blast)
  have "build_op s p i dst = build_op ?t p i dst" for i dst by (rule ext) (rule op_eq)
  then show ?thesis by (simp add: build_inst_def eq)
qed

definition pre_size :: "ebpf_inst list \<Rightarrow> int \<Rightarrow> u32 list option \<Rightarrow> nat \<Rightarrow> nat" where
  "pre_size is n base p = length (out (projr (build_inst (pre_state is n base) p)))"

definition pre_ok :: "ebpf_inst list \<Rightarrow> int \<Rightarrow> u32 list option \<Rightarrow> nat \<Rightarrow> bool" where
  "pre_ok is n base p \<longleftrightarrow>
     (case build_inst (pre_state is n base) p of Inl e \<Rightarrow> False | Inr b \<Rightarrow> ret b = 0)"

lemma pre_pass_idx:
  assumes "\<not> needGen s" "build_body p s = Inr s'" "n = nat (inst_num s)" "p \<le> n"
    and "list_all (pre_ok (js_insts s) (inst_num s) (call_base s)) [p..<n]"
  shows "idx s' = idx s + 2 * sum_list (map (pre_size (js_insts s) (inst_num s) (call_base s)) [p..<n])"
  using assms
proof (induction "n - p" arbitrary: p s)
  case 0
  then have "\<not> int p < inst_num s" by linarith
  with 0 show ?case by (simp add: build_body_step [of p s])
next
  case (Suc m)
  then have lt: "p < n" "int p < inst_num s" by auto
  let ?pre = "build_inst (pre_state (js_insts s) (inst_num s) (call_base s)) p"
  obtain r t where t: "body_step p s = Inr (r, t)"
    using Suc(4) lt by (auto simp: build_body_step [of p s] c_bind_Inr_iff)
  note k = body_step_keeps [OF t]
  obtain b where b: "build_inst s p = Inr b" "r = ret b" "idx t = idx s + 2 * length (out b)"
    using k(4) by blast
  have "?pre = Inr b" using b(1) build_inst_pre [OF Suc(3)] by simp
  moreover have ok: "pre_ok (js_insts s) (inst_num s) (call_base s) p"
    "list_all (pre_ok (js_insts s) (inst_num s) (call_base s)) [p + 1..<n]"
    using Suc(7) lt by (simp_all add: upt_conv_Cons)
  ultimately have r: "r = 0" and sz: "pre_size (js_insts s) (inst_num s) (call_base s) p = length (out b)"
    using b by (simp_all add: pre_ok_def pre_size_def)
  have eq: "js_insts t = js_insts s" "inst_num t = inst_num s" "call_base t = call_base s"
    using k(1) by (simp_all add: same_program_def)
  have "build_body (p + 1) t = Inr s'" using Suc(4) lt t r by (simp add: build_body_step [of p s])
  then have "idx s' = idx t + 2 * sum_list (map (pre_size (js_insts s) (inst_num s) (call_base s)) [p + 1..<n])"
    using Suc(1) [of "p + 1" t] Suc(2,3,5) ok(2) k(2) eq lt by simp
  then show ?case using b sz lt by (simp add: upt_conv_Cons)
qed

lemma emit_code_fits:
  "emit_code c s = Inr s' \<Longrightarrow> needGen s \<Longrightarrow> c \<noteq> [] \<Longrightarrow> idx s' \<le> length (js_code s)"
  by (auto simp: emit_code_def Let_def split: if_splits)

lemma splice_length: "i + length xs \<le> length bs \<Longrightarrow> length (splice bs i xs) = length bs"
  by (simp add: splice_def)

lemma emit_code_buffer: "emit_code c s = Inr s' \<Longrightarrow> length (js_code s') = length (js_code s)"
  by (auto simp: emit_code_def Let_def splice_length split: if_splits)

lemma set_offset_buffer: "set_offset k s = Inr s' \<Longrightarrow> js_code s' = js_code s"
  by (auto simp: set_offset_def split: if_splits)

lemma body_step_buffer:
  assumes "body_step p s = Inr (r, s')"
  shows "length (js_code s') = length (js_code s)"
  using assms
proof (rule body_step_phases)
  fix b t u k
  assume "emit_code (out b) t = Inr u" "set_offset k u = Inr s'" "js_code t = js_code s"
  then show ?thesis using emit_code_buffer set_offset_buffer by simp
qed

lemma build_body_buffer: "build_body p s = Inr s' \<Longrightarrow> length (js_code s') = length (js_code s)"
proof (induction "nat (inst_num s - int p)" arbitrary: p s rule: less_induct)
  case less
  show ?case
  proof (cases "int p < inst_num s")
    case True
    then obtain r t where step: "body_step p s = Inr (r, t)"
      using less(2) by (auto simp: build_body_step [of p s] c_bind_Inr_iff)
    have "length (js_code s') = length (js_code t)" if "build_body q t = Inr s'" "p < q" for q
      using less(1) [of t q] that True body_step_keeps(1) [OF step] by (simp add: same_program_def)
    then show ?thesis
      using less(2) True step body_step_buffer [OF step]
      by (auto simp: build_body_step [of p s] split: if_splits)
  qed (use less(2) in \<open>simp add: build_body_step [of p s]\<close>)
qed

section \<open>A compilation from end to end\<close>

text \<open>The states between the phases of a compilation that succeeds.\<close>

lemma jit_compile_phases:
  assumes "jit_compile s = Inr s'" "even_offsets s"
  obtains a b c d where
    "\<not> needGen a" "idx a = 26" "same_program s a" "even_layout a" "build_body 0 a = Inr b"
    "needGen c" "idx c = 26" "same_program s c" "even_layout c" "epilogue_off c = int (idx b)"
    "build_body 0 c = Inr d" "length (js_code d) = length (js_code s)"
    "build_epilogue d = Inr s'" "epilogue_off s' = epilogue_off d" "idx s' = idx d + 8"
proof -
  let ?s0 = "s\<lparr>idx := 0, needGen := False\<rparr>"
  obtain a b c d where a: "build_prologue ?s0 = Inr a" and b: "build_body 0 a = Inr b"
    and c: "build_prologue (b\<lparr>epilogue_off := int (idx b), idx := 0, needGen := True\<rparr>) = Inr c"
    and d: "build_body 0 c = Inr d" and e: "build_epilogue d = Inr s'"
    using assms(1) by (auto simp: jit_compile_def c_bind_Inr_iff)
  note ka = emit_code_keeps [OF a [unfolded build_prologue_def]] emit_code_idx [OF a [unfolded build_prologue_def]]
    emit_code_buffer [OF a [unfolded build_prologue_def]]
  note kc = emit_code_keeps [OF c [unfolded build_prologue_def]] emit_code_idx [OF c [unfolded build_prologue_def]]
    emit_code_buffer [OF c [unfolded build_prologue_def]]
  note ke = emit_code_keeps [OF e [unfolded build_epilogue_def]] emit_code_idx [OF e [unfolded build_epilogue_def]]
  have ea: "even_layout a" using ka assms(2) by (simp add: even_layout_def even_offsets_def)
  note kb = build_body_keeps [OF b] build_body_buffer [OF b]
  show thesis
  proof (rule that [of a b c d])
    show "even_layout c" using ea kb kc by (simp add: even_layout_def even_offsets_def)
    show "same_program s c" using ka kb kc by (simp add: same_program_def)
  qed (use ka kb kc ke ea b d e build_body_buffer [OF d] in \<open>simp_all add: same_program_def\<close>)
qed

lemma jit_layout:
  assumes "jit_compile s = Inr s'" "even_offsets s" "epilogue_off s' < 2048"
  shows "int (idx s') = epilogue_off s' + 8" "idx s' \<le> length (js_code s)"
proof -
  obtain a b c d where a: "\<not> needGen a" "idx a = 26" "same_program s a" "even_layout a" "build_body 0 a = Inr b"
    and c: "needGen c" "idx c = 26" "same_program s c" "even_layout c" "epilogue_off c = int (idx b)"
    "build_body 0 c = Inr d" "length (js_code d) = length (js_code s)"
    and e: "build_epilogue d = Inr s'" "epilogue_off s' = epilogue_off d" "idx s' = idx d + 8"
    using jit_compile_phases [OF assms(1,2)] .
  have d: "epilogue_off d = epilogue_off c" "needGen d" using build_body_keeps [OF c(6)] c(1) by simp_all
  then have "idx d = idx b"
    using build_body_agree [OF a(5) c(6)] a c e assms(3) by (simp add: same_program_def)
  moreover have "idx s' \<le> length (js_code s)"
    using emit_code_fits [OF e(1) [unfolded build_epilogue_def] d(2)] length_epilogue c(7)
    by (cases "epilogue_code = []") (simp_all del: length_epilogue)
  ultimately show "int (idx s') = epilogue_off s' + 8" "idx s' \<le> length (js_code s)"
    using d c e by simp_all
qed

section \<open>Properties\<close>

text \<open>
  C16: when a compilation succeeds and the body of the program ends within 2048 bytes, the code of the second
  pass is exactly as long as the first pass measured it: it ends with the eight bytes of the epilogue
  at the offset that the branches of the \<open>EXIT\<close> instructions use, within the buffer.
\<close>

theorem jit_passes_agree:
  assumes "jit_compile s = Inr s'" "even_offsets s" "epilogue_off s' < 2048"
  shows "int (idx s') = epilogue_off s' + 8 \<and> idx s' \<le> length (js_code s)"
  using jit_layout [OF assms] by simp

text \<open>
  The compiler emits no branch at all for the four comparisons whose operation code has its top
  bit set (\<open>JLT\<close>, \<open>JLE\<close>, \<open>JSLT\<close>, \<open>JSLE\<close>), because the code is passed as a signed byte; for the
  other seven it does.
\<close>

theorem jit_missing_branches:
  assumes "short_range n off"
  shows "emit_jump n off (jmp_code j) = [] \<longleftrightarrow> j \<in> {EBPF_JLT, EBPF_JLE, EBPF_JSLT, EBPF_JSLE}"
proof -
  have "emit_b_cond n off c \<noteq> []" for c
    using length_emit_b_cond [OF assms, of c] by (metis length_0_conv one_neq_zero zero_neq_numeral)
  then show ?thesis by (cases j) (simp_all add: emit_jump_def op_is_def)
qed

theorem jit_missing_branches_witness:
  "emit_jump 9 12 (jmp_code EBPF_JLT) = [] \<and> emit_jump 9 12 (jmp_code EBPF_JEQ) \<noteq> []"
  using jit_missing_branches [of 9 12 EBPF_JLT] jit_missing_branches [of 9 12 EBPF_JEQ]
  by (simp add: short_range_def use_b4_def)

text \<open>
  The 16-bit \<open>ORR\<close> encoder puts its destination register four bits up instead of its source
  register three bits up. For two low registers, the instruction word it returns has the source
  register in the destination field (bits 0 to 2), and twice the destination register, modulo
  eight, in the source field (bits 3 to 5), where the \<open>AND\<close> encoder has the right registers.
\<close>

theorem orr_encoder_swaps_fields:
  "list_all (\<lambda>d. list_all (\<lambda>m.
     thumb16_ORR_REG_T1 d m AND 7 = ucast m \<and>
     drop_bit 3 (thumb16_ORR_REG_T1 d m) AND 7 = (2 * ucast d) AND 7 \<and>
     thumb16_AND_REG_T1 d m AND 7 = ucast d \<and>
     drop_bit 3 (thumb16_AND_REG_T1 d m) AND 7 = ucast m) [0, 1, 2, 3, 4, 5, 6, 7]) [0, 1, 2, 3, 4, 5, 6, 7]"
  by (simp add: thumb16_ORR_REG_T1_def thumb16_AND_REG_T1_def sh8_def)

section \<open>Buffer sizes\<close>

text \<open>The buffer a program needs: prologue, body, epilogue.\<close>

definition jit_size :: "ebpf_inst list \<Rightarrow> nat" where
  "jit_size is = 26 + 2 * sum_list (map (pre_size is (int (length is)) None) [0..<length is]) + 8"

definition jit_plain :: "ebpf_inst list \<Rightarrow> bool" where
  "jit_plain is \<longleftrightarrow> list_all (pre_ok is (int (length is)) None) [0..<length is]"

lemma jit_compile_size:
  assumes "jit_compile s = Inr s'" "even_offsets s" "inst_num s = int (length (js_insts s))"
    and "call_base s = None" "jit_plain (js_insts s)" "jit_size (js_insts s) < 2048"
  shows "jit_size (js_insts s) \<le> length (js_code s)"
proof -
  obtain a b c d where a: "\<not> needGen a" "idx a = 26" "same_program s a" "even_layout a" "build_body 0 a = Inr b"
    and c: "needGen c" "idx c = 26" "same_program s c" "even_layout c" "epilogue_off c = int (idx b)"
    "build_body 0 c = Inr d" "length (js_code d) = length (js_code s)"
    and e: "build_epilogue d = Inr s'" "epilogue_off s' = epilogue_off d" "idx s' = idx d + 8"
    using jit_compile_phases [OF assms(1,2)] .
  have "idx b + 8 = jit_size (js_insts s)"
    using pre_pass_idx [OF a(1,5) refl] a assms(3-5) by (simp add: same_program_def jit_size_def jit_plain_def)
  moreover have "epilogue_off s' = int (idx b)" using build_body_keeps [OF c(6)] c e by simp
  moreover have "int (idx s') = epilogue_off s' + 8" "idx s' \<le> length (js_code s)"
    if "epilogue_off s' < 2048"
    using jit_layout [OF assms(1,2) that] by simp_all
  ultimately show ?thesis using assms(6) by simp
qed

lemmas jit_size_eval = jit_plain_def jit_size_def pre_ok_def pre_size_def pre_state_def upt_rec build_inst_def
  build_op_def Let_def jit_regs done0_def build_jmp_def bpf2a32_offset_def epilogue_offset_def inst_of_bytes_def
  arm_bpf_get_reg32_def arm_bpf_put_reg32_def arm_bpf_get_reg64_def arm_bpf_put_reg64_def
  emit_a32_mov_reg_def emit_ldx_reg_def is_ldst_imm_def between_def emit_mov_se_imm64_def
  emit_mov_i64_def emit_mov_reg64_def emit_cmp_cond_def emit_jump_def op_is_def emit_b_cond_def
  use_b4_def emit_b_def emit_alu64_reg_def emit_alu32_reg_def emit_lsh64_imm_def
  emit_a32_rsh_i64_def emit_a32_arsh_i64_def emit_add_reg_def emit_and_reg_def

lemma gen_jit_code_size:
  assumes "gen_jit_code ok None (ebpf_vm_set_inst ebpf_vm_zero (Some code) len) = Inr vm"
    and "num_insts_of len = word_of_nat (length (insts_of_code code))" "length (insts_of_code code) < 2 ^ 16"
    and "jit_plain (insts_of_code code)" "jit_size (insts_of_code code) < 2048"
  shows "jit_size (insts_of_code code) \<le> 10 * length (insts_of_code code) + 16"
proof -
  let ?n = "length (insts_of_code code)"
  have n: "unat (num_insts_of len) = ?n" "uint (num_insts_of len) = int ?n"
    using assms(2,3) by (simp_all add: unat_of_nat unsigned_of_nat take_bit_eq_mod)
  let ?m = "\<lparr>jit_code = replicate (10 * ?n + 16) 0, code_size = 10 * int ?n + 16,
              jmp_offsets = replicate (4 * ?n + 16) 0\<rparr>"
  let ?s = "jit_state_of (ebpf_vm_set_inst ebpf_vm_zero (Some code) len) None ?m"
  obtain s' where "jit_compile ?s = Inr s'"
    using assms(1) n
    by (auto simp: gen_jit_code_def jit_mem_allocate_def ebpf_vm_set_inst_def c_bind_Inr_iff split: if_splits)
  moreover have "even_offsets ?s" by (simp add: even_offsets_def jit_state_of_def)
  ultimately show ?thesis
    using jit_compile_size [of ?s s'] assms(4,5) n
    by (simp add: jit_state_of_def ebpf_vm_set_inst_def ebpf_vm_zero_def)
qed

lemma shipped_jit_sizes:
  "jit_plain (insts_of_code dc_nesn)" "jit_size (insts_of_code dc_nesn) = 114"
  "jit_plain (insts_of_code smp_ident_check)" "jit_size (insts_of_code smp_ident_check) = 254"
  by (simp_all add: dc_nesn_def smp_ident_check_def jit_size_eval)

text \<open>
  C27: compiling \<open>dc_nesn\<close> or \<open>smp_ident_check\<close>, two of the eight policies the firewall registers,
  never succeeds: their code needs 114 and 254 bytes, and the buffer allocated for them, ten bytes
  per instruction and sixteen more, has 106 and 206. The generating pass writes past its end.
\<close>

theorem jit_buffer_too_small:
  "jit_size (insts_of_code dc_nesn) = 114 \<and>
   gen_jit_code ok None (ebpf_vm_set_inst ebpf_vm_zero (Some dc_nesn) 73) \<noteq> Inr vm \<and>
   jit_size (insts_of_code smp_ident_check) = 254 \<and>
   gen_jit_code ok None (ebpf_vm_set_inst ebpf_vm_zero (Some smp_ident_check) 153) \<noteq> Inr vm"
proof -
  have n: "length (insts_of_code dc_nesn) = 9" "length (insts_of_code smp_ident_check) = 19"
    by (simp_all add: dc_nesn_def smp_ident_check_def)
  show ?thesis
    using gen_jit_code_size [of ok dc_nesn 73 vm] gen_jit_code_size [of ok smp_ident_check 153 vm]
    by (auto simp: n shipped_jit_sizes num_insts_of_def)
qed

text \<open>A program of three instructions whose compilation succeeds.\<close>

definition jit_sample :: "u8 list" where
  "jit_sample =
     [0x61, 0x11, 0x2c, 0x00, 0, 0, 0, 0,
      0xb7, 0x00, 0x00, 0x00, 0, 0, 0, 0,
      0x95, 0x00, 0x00, 0x00, 0, 0, 0, 0]"

definition jit_sample_state :: jit_state where
  "jit_sample_state =
     jit_state_of (ebpf_vm_set_inst ebpf_vm_zero (Some jit_sample) 24) None
       \<lparr>jit_code = replicate 46 0, code_size = 46, jmp_offsets = replicate 28 0\<rparr>"

theorem jit_passes_agree_witness:
  "\<exists>s'. jit_compile jit_sample_state = Inr s' \<and> int (idx s') = epilogue_off s' + 8 \<and>
     idx s' \<le> length (js_code jit_sample_state)"
proof -
  have "case jit_compile jit_sample_state of Inl e \<Rightarrow> False | Inr s' \<Rightarrow> epilogue_off s' = 36"
    by code_simp
  moreover have "even_offsets jit_sample_state"
    by (simp add: even_offsets_def jit_sample_state_def jit_state_of_def)
  ultimately show ?thesis
    using jit_passes_agree [of jit_sample_state] by (auto split: sum.splits)
qed

end
