(* ===== verification/Policy_Cache.thy ===== *)
theory Policy_Cache
  imports Policy_Verifier Jit
begin

text \<open>
  The policy manager of \<^verbatim>\<open>policy/src/fsm_policy_cache.c\<close>: the policy slots, the lists of policies per
  state class and type, installation at run time, and the dispatch that runs every policy of a slot
  on the protocol state. The globals of the C file are the fields of \<open>policy_state\<close>; a linked list
  is the list of its indices, the null pointer is the empty list.
\<close>

section \<open>State\<close>

text \<open>
  What the code takes from its surroundings: whether an allocation of a given size succeeds, where
  the protocol state and the interpreter's stack are, the words stored in a helper table, and what
  the processor does with generated code. The protocol state is a structure of \<open>int\<close> and the stack an
  array of \<open>u64\<close>, so they are given by the number of the word and of the double word they start at.
\<close>

record platform =
  alloc_ok :: "nat \<Rightarrow> bool"
  state_word :: "30 word"
  stack_dword :: "29 word"
  helper_words :: "nat \<Rightarrow> u32 list"
  run_native :: "u8 list \<Rightarrow> u8 list \<Rightarrow> u16 \<Rightarrow> (u64 \<times> u8 list) cres option"

definition state_addr :: "platform \<Rightarrow> u32" where
  "state_addr pl = push_bit 2 (ucast (state_word pl))"

definition stack_addr :: "platform \<Rightarrow> u32" where
  "stack_addr pl = push_bit 3 (ucast (stack_dword pl))"

lemma aligned_push_bit: "aligned (push_bit n (w :: 'a::len word)) (2 ^ n)"
  unfolding aligned_dvd and_mask_dvd_nat
  by (auto intro!: bit_word_eqI simp: bit_and_iff bit_push_bit_iff bit_mask_iff)

lemma platform_aligned [simp]: "aligned (state_addr pl) 4" "aligned (stack_addr pl) 8"
  using aligned_push_bit [of 2 "ucast (state_word pl) :: u32"] aligned_push_bit [of 3 "ucast (stack_dword pl) :: u32"]
  by (simp_all add: state_addr_def stack_addr_def)

datatype fsm_policy_tag =
    PID_conn_chan_map | PID_conn_chan_hop | PID_lll_interval | PID_dc_nesn | PID_llcp_len_req
  | PID_llcp_conn_param_req | PID_scan_rsp_len | PID_smp_ident_check | PID_NUM

fun pid_code :: "fsm_policy_tag \<Rightarrow> int" where
  "pid_code PID_conn_chan_map = 0"
| "pid_code PID_conn_chan_hop = 1"
| "pid_code PID_lll_interval = 2"
| "pid_code PID_dc_nesn = 3"
| "pid_code PID_llcp_len_req = 4"
| "pid_code PID_llcp_conn_param_req = 5"
| "pid_code PID_scan_rsp_len = 6"
| "pid_code PID_smp_ident_check = 7"
| "pid_code PID_NUM = 8"

definition IFW_MAX_RUNTIME_POLICIES :: int where "IFW_MAX_RUNTIME_POLICIES = 8"

record policy_cache =
  pc_size :: int
  pc_code :: "u8 list option"
  pc_jit :: bool

definition policy_cache_zero :: policy_cache where
  "policy_cache_zero = \<lparr>pc_size = 0, pc_code = None, pc_jit = False\<rparr>"

record policy_state =
  core_policy_mask :: u32
  shared_policy_mask :: u32
  conn_policy_mask :: u32
  dc_policy_mask :: u32
  spi_policy_mask :: u32
  hci_policy_mask :: u32
  policy_mgr_init :: bool
  policy_manager :: "int \<times> int \<Rightarrow> int list"
  policy_arr :: "policy_cache list"
  runtime_policy_arr :: "policy_cache list"
  runtime_policy_count :: int
  g_vm :: "ebpf_vm option"
  g_jit_vm :: "ebpf_vm option"

definition policy_state_init :: policy_state where
  "policy_state_init =
     \<lparr>core_policy_mask = 0, shared_policy_mask = 0, conn_policy_mask = 0, dc_policy_mask = 0,
      spi_policy_mask = 0, hci_policy_mask = 0, policy_mgr_init = False,
      policy_manager = (\<lambda>_. []), policy_arr = replicate 8 policy_cache_zero,
      runtime_policy_arr = replicate 8 policy_cache_zero, runtime_policy_count = 0,
      g_vm = None, g_jit_vm = None\<rparr>"

text \<open>The bounds of \<open>policy[IFW_STATE_CLASS_NUM][IFW_DC_PARAM_NUM]\<close>.\<close>

definition slot_in_range :: "int \<Rightarrow> int \<Rightarrow> bool" where
  "slot_in_range cls ty \<longleftrightarrow>
     0 \<le> cls \<and> cls < uint (class_code IFW_STATE_CLASS_NUM) \<and>
     0 \<le> ty \<and> ty < uint (dc_type IFW_DC_PARAM_NUM)"

section \<open>Slots and registration\<close>

definition get_policy_slot :: "int \<Rightarrow> policy_state \<Rightarrow> policy_cache option" where
  "get_policy_slot pid st =
     (if pid < 0 then None
      else if pid < pid_code PID_NUM then Some (policy_arr st ! nat pid)
      else if pid - pid_code PID_NUM \<ge> IFW_MAX_RUNTIME_POLICIES then None
      else Some (runtime_policy_arr st ! nat (pid - pid_code PID_NUM)))"

definition init_policy_manager :: "policy_state \<Rightarrow> policy_state" where
  "init_policy_manager st = st\<lparr>policy_manager := (\<lambda>_. []), policy_mgr_init := True\<rparr>"

definition set_policy_mask :: "int \<Rightarrow> int \<Rightarrow> policy_state \<Rightarrow> policy_state cres" where
  "set_policy_mask cls ty st =
     (let b = push_bit (nat ty) 1 in
      if cls < 0 \<or> cls \<ge> uint (class_code IFW_STATE_CLASS_NUM) then Inr st
      else if ty < 0 \<or> ty \<ge> 31 then Inl Shift_range
      else if cls = uint (class_code CORE) then Inr (st\<lparr>core_policy_mask := core_policy_mask st OR b\<rparr>)
      else if cls = uint (class_code SHARED) then Inr (st\<lparr>shared_policy_mask := shared_policy_mask st OR b\<rparr>)
      else if cls = uint (class_code CONN) then Inr (st\<lparr>conn_policy_mask := conn_policy_mask st OR b\<rparr>)
      else if cls = uint (class_code DC) then Inr (st\<lparr>dc_policy_mask := dc_policy_mask st OR b\<rparr>)
      else if cls = uint (class_code SPI) then Inr (st\<lparr>spi_policy_mask := spi_policy_mask st OR b\<rparr>)
      else Inr (st\<lparr>hci_policy_mask := hci_policy_mask st OR b\<rparr>))"

text \<open>The new node, of eight bytes, goes to the end of the list; a failed allocation is written through.\<close>

definition register_policy :: "platform \<Rightarrow> int \<Rightarrow> int \<Rightarrow> int \<Rightarrow> policy_state \<Rightarrow> policy_state cres" where
  "register_policy pl cls ty pid st =
     (let st = (if \<not> policy_mgr_init st then init_policy_manager st else st) in
      c_bind (set_policy_mask cls ty st) (\<lambda>st.
        if \<not> slot_in_range cls ty then Inl Oob_read
        else if \<not> alloc_ok pl 8 then Inl Null_deref
        else Inr (st\<lparr>policy_manager :=
               (policy_manager st)((cls, ty) := policy_manager st (cls, ty) @ [pid])\<rparr>)))"

definition ADD_POLICY ::
  "platform \<Rightarrow> fsm_policy_tag \<Rightarrow> u8 list \<Rightarrow> ifw_state_class \<Rightarrow> u16 \<Rightarrow> policy_state \<Rightarrow> policy_state cres" where
  "ADD_POLICY pl tag code cls ty st =
     register_policy pl (uint (class_code cls)) (uint ty) (pid_code tag)
       (st\<lparr>policy_arr := (policy_arr st)[nat (pid_code tag) :=
             \<lparr>pc_size = int (length code), pc_code = Some code, pc_jit = False\<rparr>]\<rparr>)"

definition load_all_policies :: "platform \<Rightarrow> policy_state \<Rightarrow> policy_state cres" where
  "load_all_policies pl st =
     c_bind (ADD_POLICY pl PID_conn_chan_map conn_chan_map CONN (conn_type CHANNEL_MAP) st) (\<lambda>st.
     c_bind (ADD_POLICY pl PID_conn_chan_hop conn_chan_hop CONN (conn_type CHANNEL_HOP) st) (\<lambda>st.
     c_bind (ADD_POLICY pl PID_lll_interval lll_interval CONN (conn_type LLL_INTERVAL) st) (\<lambda>st.
     c_bind (ADD_POLICY pl PID_dc_nesn dc_nesn DC (dc_type NESN) st) (\<lambda>st.
     c_bind (ADD_POLICY pl PID_llcp_len_req llcp_len_req DC (dc_type LLCP_LEN_REQ) st) (\<lambda>st.
     c_bind (ADD_POLICY pl PID_llcp_conn_param_req llcp_conn_param_req DC (dc_type LLCP_CONN_PARAM_REQ) st) (\<lambda>st.
     c_bind (ADD_POLICY pl PID_scan_rsp_len scan_rsp_len CONN (conn_type SCAN_RSP_LEN) st) (\<lambda>st.
     ADD_POLICY pl PID_smp_ident_check smp_ident_check DC (dc_type SMP_KEYS) st)))))))"

definition set_policy_jit_on :: "int \<Rightarrow> policy_state \<Rightarrow> policy_state" where
  "set_policy_jit_on pid st =
     (if pid \<ge> 0 \<and> pid < pid_code PID_NUM
      then st\<lparr>policy_arr := (policy_arr st)[nat pid := (policy_arr st ! nat pid)\<lparr>pc_jit := True\<rparr>]\<rparr>
      else st)"

definition set_all_policy_jit_on :: "policy_state \<Rightarrow> policy_state" where
  "set_all_policy_jit_on st = st\<lparr>policy_arr := map (\<lambda>s. s\<lparr>pc_jit := True\<rparr>) (policy_arr st)\<rparr>"

section \<open>Execution\<close>

text \<open>The two machines are created on first use; \<open>sizeof_vm\<close> is the size of their structure.\<close>

definition sizeof_vm :: nat where "sizeof_vm = 24"

definition get_default_vm :: "platform \<Rightarrow> bool \<Rightarrow> policy_state \<Rightarrow> (ebpf_vm option \<times> policy_state) cres" where
  "get_default_vm pl jit st =
     (if jit
      then (case g_jit_vm st of
              Some vm \<Rightarrow> Inr (Some vm, st)
            | None \<Rightarrow>
                (case ebpf_create (alloc_ok pl sizeof_vm) of
                   None \<Rightarrow> Inl Null_deref
                 | Some vm \<Rightarrow> Inr (Some (vm\<lparr>use_jit := True\<rparr>), st\<lparr>g_jit_vm := Some (vm\<lparr>use_jit := True\<rparr>)\<rparr>)))
      else (case g_vm st of
              Some vm \<Rightarrow> Inr (Some vm, st)
            | None \<Rightarrow>
                (let vm = ebpf_create (alloc_ok pl sizeof_vm) in Inr (vm, st\<lparr>g_vm := vm\<rparr>))))"

definition load_ebpf_code ::
  "platform \<Rightarrow> int \<Rightarrow> bool \<Rightarrow> policy_state \<Rightarrow> (ebpf_vm option \<times> policy_state) cres" where
  "load_ebpf_code pl ebpf_idx jit st =
     (case get_policy_slot ebpf_idx st of
        None \<Rightarrow> Inr (None, st)
      | Some slot \<Rightarrow>
          if pc_size slot = 0 then Inr (None, st)
          else c_bind (get_default_vm pl jit st) (\<lambda>(vm, st).
            case vm of
              None \<Rightarrow> Inl Null_deref
            | Some vm \<Rightarrow>
                let vm = ebpf_vm_set_inst vm (pc_code slot) (word_of_int (pc_size slot)) in
                if jit
                then c_bind (gen_jit_code (list_all (alloc_ok pl)
                                 [12, 10 * unat (num_insts vm) + 16, 4 * unat (num_insts vm) + 16])
                               (map_option (helper_words pl) (helper_func vm)) vm) (\<lambda>vm.
                       Inr (Some vm, st\<lparr>g_jit_vm := Some vm\<rparr>))
                else Inr (Some vm, st\<lparr>g_vm := Some vm\<rparr>)))"

definition get_vm_from_cache :: "platform \<Rightarrow> int \<Rightarrow> policy_state \<Rightarrow> (ebpf_vm option \<times> policy_state) cres" where
  "get_vm_from_cache pl ebpf_idx st =
     (case get_policy_slot ebpf_idx st of
        None \<Rightarrow> Inr (None, st)
      | Some slot \<Rightarrow> if pc_size slot = 0 then Inr (None, st) else load_ebpf_code pl ebpf_idx (pc_jit slot) st)"

text \<open>
  The result carries the bytes of the protocol state after the run. No helper is ever registered
  for the two machines, so the interpreter runs without a helper table.
\<close>

definition run_fsm_ebpf_policy ::
  "platform \<Rightarrow> int \<Rightarrow> u8 list \<Rightarrow> nat \<Rightarrow> policy_state \<Rightarrow> (u64 \<times> u8 list \<times> policy_state) cres option" where
  "run_fsm_ebpf_policy pl ebpf_policy_idx newState dsize st =
     (case get_vm_from_cache pl ebpf_policy_idx st of
        Inl e \<Rightarrow> Some (Inl e)
      | Inr (None, st) \<Rightarrow> Some (Inr (0, newState, st))
      | Inr (Some vm, st) \<Rightarrow>
          map_option (map_sum id (\<lambda>(v, bs). (v, bs, st)))
            (if use_jit vm
             then (case jit_func vm of
                     None \<Rightarrow> Some (Inl Null_deref)
                   | Some code \<Rightarrow> run_native pl code newState (word_of_nat dsize))
             else ebpf_vm_exec vm None (state_addr pl) newState dsize (stack_addr pl)))"

fun run_policy_list ::
  "platform \<Rightarrow> int list \<Rightarrow> u8 list \<Rightarrow> policy_state \<Rightarrow> (u64 \<times> u8 list \<times> policy_state) cres option" where
  "run_policy_list pl [] newState st = Some (Inr (IFW_OPERATION_PASS, newState, st))"
| "run_policy_list pl (pid # pids) newState st =
     (case run_fsm_ebpf_policy pl pid newState 64 st of
        None \<Rightarrow> None
      | Some (Inl e) \<Rightarrow> Some (Inl e)
      | Some (Inr (result, newState, st)) \<Rightarrow>
          if result = IFW_OPERATION_REJECT then Some (Inr (IFW_OPERATION_REJECT, newState, st))
          else run_policy_list pl pids newState st)"

definition run_fsm_check_policy ::
  "platform \<Rightarrow> int \<Rightarrow> int \<Rightarrow> u8 list \<Rightarrow> policy_state \<Rightarrow> (u64 \<times> u8 list \<times> policy_state) cres option" where
  "run_fsm_check_policy pl ty cls newState st =
     (if \<not> slot_in_range cls ty then Some (Inl Oob_read)
      else run_policy_list pl (policy_manager st (cls, ty)) newState st)"

section \<open>Installation at run time\<close>

definition ifw_install_policy ::
  "platform \<Rightarrow> int \<Rightarrow> int \<Rightarrow> u8 list option \<Rightarrow> policy_state \<Rightarrow> (int \<times> policy_state) cres" where
  "ifw_install_policy pl cls ty code st =
     (case code of
        None \<Rightarrow> Inr (- 1, st)
      | Some bs \<Rightarrow>
          if length bs = 0 \<or> length bs mod 8 \<noteq> 0 then Inr (- 1, st)
          else if \<not> slot_in_range cls ty then Inr (- 2, st)
          else if runtime_policy_count st \<ge> IFW_MAX_RUNTIME_POLICIES then Inr (- 3, st)
          else let verr = ifw_verify_policy code sizeof_FsmState in
               if verr \<noteq> 0 then Inr (verr, st)
               else if \<not> alloc_ok pl (length bs) then Inr (- 4, st)
               else let rt_idx = runtime_policy_count st;
                        st = st\<lparr>runtime_policy_arr := (runtime_policy_arr st)[nat rt_idx :=
                                  \<lparr>pc_size = int (length bs), pc_code = Some bs, pc_jit = False\<rparr>],
                                runtime_policy_count := rt_idx + 1\<rparr>
                    in c_bind (register_policy pl cls ty (pid_code PID_NUM + rt_idx) st) (\<lambda>st. Inr (0, st)))"

definition ifw_fsm_enable :: "platform \<Rightarrow> bool \<Rightarrow> policy_state \<Rightarrow> policy_state cres" where
  "ifw_fsm_enable pl jit st =
     c_bind (load_all_policies pl st) (\<lambda>st. Inr (if jit then set_all_policy_jit_on st else st))"

section \<open>The interpreter does not depend on the rest of the machine\<close>

lemma exec_inst_vm:
  "bounds_check_enabled vm = bounds_check_enabled vm' \<Longrightarrow> exec_inst vm h ml is i s = exec_inst vm' h ml is i s"
proof -
  assume "bounds_check_enabled vm = bounds_check_enabled vm'"
  then have "exec_ldx vm = exec_ldx vm'" "exec_store vm = exec_store vm'"
    by (auto simp: fun_eq_iff exec_ldx_def exec_store_def bounds_check_def)
  then show ?thesis by (simp only: exec_inst_def)
qed

lemma ebpf_vm_loop_vm_Some:
  "ebpf_vm_loop vm h ml is s = Some y \<Longrightarrow>
   bounds_check_enabled vm = bounds_check_enabled vm' \<longrightarrow> ebpf_vm_loop vm' h ml is s = Some y"
proof (erule ebpf_vm_loop.raw_induct [rotated], rule impI)
  fix f vm h ml "is" s y
  assume IH: "\<And>vm h ml is s y. f vm h ml is s = Some y \<Longrightarrow>
      bounds_check_enabled vm = bounds_check_enabled vm' \<longrightarrow> ebpf_vm_loop vm' h ml is s = Some y"
    and f: "(case ebpf_step vm h ml is s of Inl e \<Rightarrow> Some (Inl e)
       | Inr (Ret v) \<Rightarrow> Some (Inr (v, mem_bytes s)) | Inr (Go s') \<Rightarrow> f vm h ml is s') = Some y"
    and vm: "bounds_check_enabled vm = bounds_check_enabled vm'"
  have "ebpf_step vm h ml is s = ebpf_step vm' h ml is s"
    using exec_inst_vm [OF vm] by (simp add: ebpf_step_def)
  then show "ebpf_vm_loop vm' h ml is s = Some y"
    using IH f vm by (subst ebpf_vm_loop.simps) (auto split: sum.splits flow.splits)
qed

lemma ebpf_vm_loop_vm:
  "bounds_check_enabled vm = bounds_check_enabled vm' \<Longrightarrow> ebpf_vm_loop vm h ml is s = ebpf_vm_loop vm' h ml is s"
  using ebpf_vm_loop_vm_Some [of vm h ml "is" s _ vm'] ebpf_vm_loop_vm_Some [of vm' h ml "is" s _ vm]
  by (cases "ebpf_vm_loop vm h ml is s"; cases "ebpf_vm_loop vm' h ml is s") auto

section \<open>The verdict of a list of policies\<close>

text \<open>
  The contract of running one policy, as the dispatch relies on it: a usable policy returns its
  verdict, leaves the protocol state alone and keeps the invariant of the engine. From it the
  dispatch over a list returns a rejection exactly if some policy of the list rejects.
\<close>

locale policy_engine =
  fixes inv :: "'s \<Rightarrow> bool"
    and usable :: "'p \<Rightarrow> 'b \<Rightarrow> bool"
    and verdict :: "'p \<Rightarrow> 'b \<Rightarrow> u64"
    and run_one :: "'p \<Rightarrow> 'b \<Rightarrow> 's \<Rightarrow> (u64 \<times> 'b \<times> 's) cres option"
    and run_list :: "'p list \<Rightarrow> 'b \<Rightarrow> 's \<Rightarrow> (u64 \<times> 'b \<times> 's) cres option"
  assumes run_one: "\<lbrakk>inv s; usable p b\<rbrakk> \<Longrightarrow> \<exists>s'. inv s' \<and> run_one p b s = Some (Inr (verdict p b, b, s'))"
    and run_list_Nil: "run_list [] b s = Some (Inr (IFW_OPERATION_PASS, b, s))"
    and run_list_Cons: "run_one p b s = Some (Inr (v, b', s')) \<Longrightarrow> run_list (p # ps) b s =
          (if v = IFW_OPERATION_REJECT then Some (Inr (IFW_OPERATION_REJECT, b', s')) else run_list ps b' s')"
begin

definition rejects :: "'p list \<Rightarrow> 'b \<Rightarrow> bool" where
  "rejects ps b \<longleftrightarrow> list_ex (\<lambda>p. verdict p b = IFW_OPERATION_REJECT) ps"

lemma list_verdict:
  assumes "inv s" "\<And>p. p \<in> set ps \<Longrightarrow> usable p b"
  shows "\<exists>s'. inv s' \<and> run_list ps b s =
     Some (Inr (if rejects ps b then IFW_OPERATION_REJECT else IFW_OPERATION_PASS, b, s'))"
  using assms
proof (induction ps arbitrary: s)
  case Nil
  then show ?case by (simp add: run_list_Nil rejects_def)
next
  case (Cons p ps)
  obtain s' where "inv s'" "run_one p b s = Some (Inr (verdict p b, b, s'))"
    using run_one Cons.prems by (meson list.set_intros(1))
  then show ?case using Cons.IH [of s'] Cons.prems run_list_Cons by (auto simp: rejects_def)
qed

end

text \<open>What a slot's code computes on the bytes of the protocol state, on a fresh machine.\<close>

definition slot_run :: "platform \<Rightarrow> policy_cache \<Rightarrow> u8 list \<Rightarrow> (u64 \<times> u8 list) cres option" where
  "slot_run pl slot bs =
     ebpf_vm_exec (ebpf_vm_set_inst ebpf_vm_zero (pc_code slot) (word_of_int (pc_size slot))) None
       (state_addr pl) bs 64 (stack_addr pl)"

definition slot_verdict :: "platform \<Rightarrow> policy_state \<Rightarrow> int \<Rightarrow> u8 list \<Rightarrow> u64" where
  "slot_verdict pl st pid bs =
     (case get_policy_slot pid st of
        None \<Rightarrow> 0
      | Some slot \<Rightarrow> if pc_size slot = 0 then 0
                     else (case slot_run pl slot bs of Some (Inr (v, _)) \<Rightarrow> v | _ \<Rightarrow> 0))"

definition slot_usable :: "platform \<Rightarrow> policy_state \<Rightarrow> int \<Rightarrow> u8 list \<Rightarrow> bool" where
  "slot_usable pl st pid bs =
     (case get_policy_slot pid st of
        None \<Rightarrow> True
      | Some slot \<Rightarrow> pc_size slot = 0 \<or> \<not> pc_jit slot \<and>
          (case slot_run pl slot bs of Some (Inr (_, bs')) \<Rightarrow> bs' = bs | _ \<Rightarrow> False))"

text \<open>States that differ at most in the interpreter's machine, which is ready to run.\<close>

definition same_policies :: "policy_state \<Rightarrow> policy_state \<Rightarrow> bool" where
  "same_policies st st' \<longleftrightarrow> st' = st\<lparr>g_vm := g_vm st'\<rparr>"

definition vm_ready :: "platform \<Rightarrow> policy_state \<Rightarrow> bool" where
  "vm_ready pl st =
     (case g_vm st of
        None \<Rightarrow> alloc_ok pl sizeof_vm
      | Some vm \<Rightarrow> \<not> bounds_check_enabled vm \<and> \<not> use_jit vm)"

lemma same_policies_refl [simp]: "same_policies st st"
  by (simp add: same_policies_def)

lemma same_policies_g_vm [simp]: "same_policies st (st'\<lparr>g_vm := v\<rparr>) \<longleftrightarrow> same_policies st st'"
  by (cases st; cases st') (simp add: same_policies_def)

lemma same_policies_trans: "same_policies a b \<Longrightarrow> same_policies b c \<Longrightarrow> same_policies a c"
  by (cases a; cases b; cases c) (simp add: same_policies_def)

lemma same_policies_simps:
  assumes "same_policies st st'"
  shows "get_policy_slot pid st' = get_policy_slot pid st" "policy_manager st' = policy_manager st"
    "policy_arr st' = policy_arr st" "runtime_policy_arr st' = runtime_policy_arr st"
    "runtime_policy_count st' = runtime_policy_count st" "g_jit_vm st' = g_jit_vm st"
  using assms by (cases st; cases st'; simp add: same_policies_def get_policy_slot_def)+

lemma slot_run_vm:
  assumes "\<not> bounds_check_enabled vm"
  shows "ebpf_vm_exec (ebpf_vm_set_inst vm (pc_code slot) n) None (state_addr pl) bs 64 (stack_addr pl) =
    slot_run pl slot bs"
proof -
  let ?a = "ebpf_vm_set_inst vm (pc_code slot) n"
    and ?b = "ebpf_vm_set_inst ebpf_vm_zero (pc_code slot) (word_of_int (pc_size slot))"
  have "bounds_check_enabled ?a = bounds_check_enabled ?b" "insts ?a = insts ?b"
    using assms by (simp_all add: ebpf_vm_set_inst_def ebpf_vm_zero_def)
  then show ?thesis
    using ebpf_vm_loop_vm [of ?a ?b] by (simp add: slot_run_def ebpf_vm_exec_def split: option.split)
qed

lemma get_default_vm_ready:
  assumes "vm_ready pl st"
  shows "\<exists>vm st'. get_default_vm pl False st = Inr (Some vm, st') \<and> \<not> bounds_check_enabled vm \<and>
    \<not> use_jit vm \<and> same_policies st st' \<and> g_vm st' = Some vm"
  using assms
  by (auto simp: vm_ready_def get_default_vm_def ebpf_create_def ebpf_vm_zero_def Let_def split: option.splits)

lemma run_one_usable:
  assumes "vm_ready pl s" "same_policies st s" "slot_usable pl st pid bs"
  shows "\<exists>s'. (vm_ready pl s' \<and> same_policies st s') \<and>
    run_fsm_ebpf_policy pl pid bs 64 s = Some (Inr (slot_verdict pl st pid bs, bs, s'))"
proof (cases "get_policy_slot pid st = None \<or> pc_size (the (get_policy_slot pid st)) = 0")
  case True
  then show ?thesis
    using assms same_policies_simps(1) [OF assms(2)]
    by (auto simp: run_fsm_ebpf_policy_def get_vm_from_cache_def slot_verdict_def intro!: exI [of _ s] split: option.splits)
next
  case False
  then obtain slot where slot: "get_policy_slot pid st = Some slot" "pc_size slot \<noteq> 0" by auto
  obtain v where v: "slot_run pl slot bs = Some (Inr (v, bs))" and jit: "\<not> pc_jit slot"
    using assms(3) slot by (auto simp: slot_usable_def split: option.splits sum.splits)
  obtain vm s' where vm: "get_default_vm pl False s = Inr (Some vm, s')" "\<not> bounds_check_enabled vm"
      "\<not> use_jit vm" "same_policies s s'" "g_vm s' = Some vm"
    using get_default_vm_ready [OF assms(1)] by blast
  let ?vm = "ebpf_vm_set_inst vm (pc_code slot) (word_of_int (pc_size slot))"
  have load: "get_vm_from_cache pl pid s = Inr (Some ?vm, s'\<lparr>g_vm := Some ?vm\<rparr>)"
    using vm slot jit same_policies_simps(1) [OF assms(2)]
    by (simp add: get_vm_from_cache_def load_ebpf_code_def Let_def)
  have plain: "\<not> use_jit ?vm" "\<not> bounds_check_enabled ?vm" using vm by (simp_all add: ebpf_vm_set_inst_def)
  have "run_fsm_ebpf_policy pl pid bs 64 s = Some (Inr (v, bs, s'\<lparr>g_vm := Some ?vm\<rparr>))"
    using v slot_run_vm [OF vm(2)] plain by (simp add: run_fsm_ebpf_policy_def load)
  then show ?thesis
    using slot v plain same_policies_trans [OF assms(2) vm(4)]
    by (intro exI [of _ "s'\<lparr>g_vm := Some ?vm\<rparr>"]) (simp add: slot_verdict_def vm_ready_def)
qed

interpretation dispatch: policy_engine "\<lambda>s. vm_ready pl s \<and> same_policies st s" "slot_usable pl st"
  "slot_verdict pl st" "\<lambda>pid bs. run_fsm_ebpf_policy pl pid bs 64" "run_policy_list pl"
  for pl st
  by unfold_locales (auto dest: run_one_usable)

lemma check_policy_dispatch:
  assumes "slot_in_range cls ty" "vm_ready pl st"
    and "\<And>pid. pid \<in> set (policy_manager st (cls, ty)) \<Longrightarrow> slot_usable pl st pid bs"
  shows "\<exists>st'. vm_ready pl st' \<and> same_policies st st' \<and>
    run_fsm_check_policy pl ty cls bs st =
      Some (Inr (if list_ex (\<lambda>pid. slot_verdict pl st pid bs = IFW_OPERATION_REJECT) (policy_manager st (cls, ty))
                 then IFW_OPERATION_REJECT else IFW_OPERATION_PASS, bs, st'))"
  using dispatch.list_verdict [of pl st st "policy_manager st (cls, ty)" bs] assms
  by (auto simp: run_fsm_check_policy_def dispatch.rejects_def)

text \<open>A code array that meets the conditions of the safety theorem is usable on every state object.\<close>

lemma safe_slot_run:
  assumes "policy_safe (length bs) code" "pc_code slot = Some code"
  shows "\<exists>v. slot_run pl slot bs = Some (Inr (v, bs))"
proof -
  let ?is = "insts_of_code code" and ?s = "vm_init (state_addr pl) bs (stack_addr pl)"
  have safe: "ifw_verify_policy (Some code) (length bs) = 0" "lddw_tails_inert ?is" "ends_in_exit ?is"
      "list_all inst_total ?is" "bases_kept ?is"
    using assms(1) by (simp_all add: policy_safe_def)
  have "machine_ok (length bs) ?is ?s" "unat (pc ?s) < length ?is"
    using safe(3) by (auto simp: machine_ok_def vm_init_def base_addr_def STACK_SIZE_def ends_in_exit_def)
  then have "\<exists>v. ebpf_vm_loop vm h ml ?is ?s = Some (Inr (v, mem_bytes ?s))"
    if "\<not> bounds_check_enabled vm" for vm h ml
    using total_loop [OF _ verify_zero(1) [OF safe(1)] safe(4,5,3) that] verified_slot_ok [OF safe(1,2)] by blast
  then show ?thesis
    using assms(2) by (simp add: slot_run_def ebpf_vm_exec_def ebpf_vm_set_inst_def ebpf_vm_zero_def vm_init_def)
qed

lemma shipped_slot_run:
  assumes "(code, src) \<in> set shipped_policies" "wf_fsm fsm" "pc_code slot = Some code"
  shows "slot_run pl slot (fsm_bytes fsm) = Some (Inr (src fsm, fsm_bytes fsm))"
  using assms
  by (simp add: slot_run_def ebpf_vm_exec_def ebpf_vm_set_inst_def ebpf_vm_zero_def shipped_policy_loop)

section \<open>The policies loaded at start\<close>

text \<open>The compile-time policies: slot, index, bytecode, and the C source it was compiled from.\<close>

definition slot_key :: "ifw_state_class \<Rightarrow> u16 \<Rightarrow> int \<times> int" where
  "slot_key cls ty = (uint (class_code cls), uint ty)"

definition loaded_table :: "((int \<times> int) \<times> int \<times> u8 list \<times> (FsmState \<Rightarrow> u64)) list" where
  "loaded_table =
     [(slot_key CONN (conn_type CHANNEL_MAP), 0, conn_chan_map, conn_chan_map_filter),
      (slot_key CONN (conn_type CHANNEL_HOP), 1, conn_chan_hop, conn_chan_hop_filter),
      (slot_key CONN (conn_type LLL_INTERVAL), 2, lll_interval, lll_interval_filter),
      (slot_key DC (dc_type NESN), 3, dc_nesn, dc_nesn_filter),
      (slot_key DC (dc_type LLCP_LEN_REQ), 4, llcp_len_req, llcp_len_req_filter),
      (slot_key DC (dc_type LLCP_CONN_PARAM_REQ), 5, llcp_conn_param_req, llcp_conn_param_req_filter),
      (slot_key CONN (conn_type SCAN_RSP_LEN), 6, scan_rsp_len, scan_rsp_len_filter),
      (slot_key DC (dc_type SMP_KEYS), 7, smp_ident_check, smp_ident_check_filter)]"

text \<open>The verdict of the C source behind a slot; a slot without a policy passes.\<close>

definition source_verdict :: "int \<Rightarrow> int \<Rightarrow> FsmState \<Rightarrow> u64" where
  "source_verdict cls ty =
     (case map_of loaded_table (cls, ty) of None \<Rightarrow> (\<lambda>_. 0) | Some (_, _, src) \<Rightarrow> src)"

text \<open>What loading establishes, as the later run-time needs it.\<close>

definition policies_loaded :: "policy_state \<Rightarrow> bool" where
  "policies_loaded st \<longleftrightarrow>
     policy_arr st = map (\<lambda>(_, _, code, _). \<lparr>pc_size = int (length code), pc_code = Some code, pc_jit = False\<rparr>)
       loaded_table \<and>
     policy_manager st = (\<lambda>k. case map_of loaded_table k of None \<Rightarrow> [] | Some (pid, _) \<Rightarrow> [pid])"

lemmas register_simps = ADD_POLICY_def register_policy_def set_policy_mask_def init_policy_manager_def
  slot_in_range_def Let_def

lemma load_all_policies_ok:
  assumes "alloc_ok pl 8"
  shows "\<exists>st. load_all_policies pl policy_state_init = Inr st \<and> policies_loaded st \<and>
    runtime_policy_arr st = replicate 8 policy_cache_zero \<and> runtime_policy_count st = 0 \<and>
    policy_mgr_init st \<and> g_vm st = None \<and> g_jit_vm st = None \<and>
    conn_policy_mask st = 0xf \<and> dc_policy_mask st = 0x846 \<and>
    core_policy_mask st = 0 \<and> shared_policy_mask st = 0 \<and> spi_policy_mask st = 0 \<and> hci_policy_mask st = 0"
proof -
  have manager: "(\<lambda>_. [])((2, 0) := [0], (2, 1) := [1], (2, 3) := [2], (3, 1) := [3],
       (3, 2) := [4], (3, 6) := [5], (2, 2) := [6], (3, 11) := [7]) =
     (\<lambda>k. case map_of loaded_table k of None \<Rightarrow> [] | Some (pid, _) \<Rightarrow> [pid])"
    by (rule ext) (auto simp: loaded_table_def slot_key_def)
  show ?thesis
    using assms
    by (simp add: load_all_policies_def register_simps policy_state_init_def replicate8 policies_loaded_def
        manager cong: c_bind_weak) (simp add: loaded_table_def)
qed

text \<open>Each loaded slot runs the bytecode of its table entry.\<close>

lemma loaded_entry:
  assumes "policies_loaded st" "map_of loaded_table k = Some (pid, code, src)"
  shows "policy_manager st k = [pid]" "(code, src) \<in> set shipped_policies"
    "get_policy_slot pid st = Some \<lparr>pc_size = int (length code), pc_code = Some code, pc_jit = False\<rparr>"
proof -
  show "policy_manager st k = [pid]" using assms by (simp add: policies_loaded_def)
  have "(k, pid, code, src) \<in> set loaded_table" using map_of_SomeD [OF assms(2)] by simp
  then show "(code, src) \<in> set shipped_policies"
    by (auto simp: loaded_table_def shipped_policies_def)
  show "get_policy_slot pid st = Some \<lparr>pc_size = int (length code), pc_code = Some code, pc_jit = False\<rparr>"
    using assms(1) \<open>(k, pid, code, src) \<in> set loaded_table\<close>
    by (auto simp: policies_loaded_def get_policy_slot_def loaded_table_def)
qed

lemma loaded_verdict:
  assumes "policies_loaded st" "wf_fsm fsm" "policy_manager st (cls, ty) = pids"
  shows "pid \<in> set pids \<Longrightarrow> slot_usable pl st pid (fsm_bytes fsm)"
    "list_ex (\<lambda>pid. slot_verdict pl st pid (fsm_bytes fsm) = IFW_OPERATION_REJECT) pids \<longleftrightarrow>
     source_verdict cls ty fsm = IFW_OPERATION_REJECT"
proof -
  have code: "length code \<noteq> 0" if "(code, src) \<in> set shipped_policies" for code src
    using that by (auto simp: shipped_policies_def policy_code_defs)
  note entry = loaded_entry [OF assms(1)] and run = shipped_slot_run [OF _ assms(2)]
  show "slot_usable pl st pid (fsm_bytes fsm)" if "pid \<in> set pids"
    using that assms(1,3) entry [of "(cls, ty)"] run code
    by (cases "map_of loaded_table (cls, ty)") (auto simp: policies_loaded_def slot_usable_def)
  show "list_ex (\<lambda>pid. slot_verdict pl st pid (fsm_bytes fsm) = IFW_OPERATION_REJECT) pids \<longleftrightarrow>
     source_verdict cls ty fsm = IFW_OPERATION_REJECT"
  proof (cases "map_of loaded_table (cls, ty)")
    case None
    then show ?thesis using assms(1,3) by (auto simp: policies_loaded_def source_verdict_def ifw_codes)
  next
    case (Some e)
    then obtain pid code src where e: "map_of loaded_table (cls, ty) = Some (pid, code, src)"
      by (cases e) auto
    then show ?thesis
      using assms(3) entry [OF e] run [OF entry(2) [OF e]] code [OF entry(2) [OF e]]
      by (auto simp: source_verdict_def slot_verdict_def)
  qed
qed

lemma loaded_check:
  assumes "policies_loaded st" "vm_ready pl st" "slot_in_range cls ty" "wf_fsm fsm"
  shows "\<exists>st'. policies_loaded st' \<and> vm_ready pl st' \<and>
    run_fsm_check_policy pl ty cls (fsm_bytes fsm) st =
      Some (Inr (if source_verdict cls ty fsm = IFW_OPERATION_REJECT
                 then IFW_OPERATION_REJECT else IFW_OPERATION_PASS, fsm_bytes fsm, st'))"
  using check_policy_dispatch [OF assms(3,2), of "fsm_bytes fsm"]
    loaded_verdict [OF assms(1,4) refl, of _ cls ty] assms(1) same_policies_simps
  by (fastforce simp: policies_loaded_def)

text \<open>
  C10: the firewall implements its policies. After \<open>load_all_policies\<close>, a check of any slot, for any
  protocol state, returns without undefined behaviour, rejects exactly if the C source of the
  policy registered for that slot rejects, passes where no policy is registered, and does not
  change the protocol state.
\<close>

theorem loaded_policies_verdict:
  assumes "load_all_policies pl policy_state_init = Inr st" "alloc_ok pl 8" "alloc_ok pl sizeof_vm"
    and "slot_in_range cls ty" "wf_fsm fsm"
  shows "\<exists>st'. run_fsm_check_policy pl ty cls (fsm_bytes fsm) st =
      Some (Inr (if source_verdict cls ty fsm = IFW_OPERATION_REJECT
                 then IFW_OPERATION_REJECT else IFW_OPERATION_PASS, fsm_bytes fsm, st'))"
proof -
  have "policies_loaded st" "vm_ready pl st"
    using load_all_policies_ok [OF assms(2)] assms(1,3) by (auto simp: vm_ready_def)
  then show ?thesis using loaded_check assms(4,5) by blast
qed

section \<open>Installation\<close>

text \<open>The invariant of the globals.\<close>

definition vm_plain :: "bool \<Rightarrow> ebpf_vm option \<Rightarrow> bool" where
  "vm_plain jit vmo =
     (case vmo of None \<Rightarrow> True
      | Some vm \<Rightarrow> \<not> bounds_check_enabled vm \<and> helper_func vm = None \<and> use_jit vm = jit)"

definition installed_ok :: "policy_cache \<Rightarrow> bool" where
  "installed_ok slot =
     (case pc_code slot of None \<Rightarrow> False
      | Some code \<Rightarrow> pc_size slot = int (length code) \<and> \<not> pc_jit slot \<and>
          ifw_verify_policy (Some code) sizeof_FsmState = 0)"

definition wf_policies :: "policy_state \<Rightarrow> bool" where
  "wf_policies st \<longleftrightarrow>
     length (policy_arr st) = 8 \<and> length (runtime_policy_arr st) = 8 \<and>
     0 \<le> runtime_policy_count st \<and> runtime_policy_count st \<le> IFW_MAX_RUNTIME_POLICIES \<and>
     (\<forall>k. \<forall>pid \<in> set (policy_manager st k). 0 \<le> pid \<and> pid < pid_code PID_NUM + runtime_policy_count st) \<and>
     (\<forall>i < nat (runtime_policy_count st). installed_ok (runtime_policy_arr st ! i)) \<and>
     vm_plain False (g_vm st) \<and> vm_plain True (g_jit_vm st)"

lemma register_policy_effect:
  assumes "register_policy pl cls ty pid st = Inr st'"
  shows "policy_arr st' = policy_arr st" "runtime_policy_arr st' = runtime_policy_arr st"
    "runtime_policy_count st' = runtime_policy_count st" "g_vm st' = g_vm st" "g_jit_vm st' = g_jit_vm st"
    "slot_in_range cls ty" "policy_mgr_init st'"
    "policy_manager st' =
       (let m = (if policy_mgr_init st then policy_manager st else (\<lambda>_. [])) in
        m((cls, ty) := m (cls, ty) @ [pid]))"
  using assms
  by (auto simp: register_policy_def set_policy_mask_def init_policy_manager_def c_bind_Inr_iff Let_def
      split: if_splits)

lemma register_policy_wf:
  assumes "register_policy pl cls ty pid st = Inr st'" "wf_policies st"
    and "0 \<le> pid" "pid < pid_code PID_NUM + runtime_policy_count st"
  shows "wf_policies st'"
  using assms(2-4) register_policy_effect [OF assms(1)]
  by (auto simp: wf_policies_def Let_def split: if_splits)

lemma add_policy_wf:
  assumes "ADD_POLICY pl tag code cls ty st = Inr st'" "wf_policies st" "tag \<noteq> PID_NUM"
  shows "wf_policies st'"
proof (rule register_policy_wf)
  show "wf_policies (st\<lparr>policy_arr := (policy_arr st)[nat (pid_code tag) :=
      \<lparr>pc_size = int (length code), pc_code = Some code, pc_jit = False\<rparr>]\<rparr>)"
    using assms(2) by (simp add: wf_policies_def)
  have "0 \<le> pid_code tag \<and> pid_code tag < pid_code PID_NUM" using assms(3) by (cases tag) simp_all
  then show "0 \<le> pid_code tag" "pid_code tag < pid_code PID_NUM + runtime_policy_count (st\<lparr>policy_arr :=
      (policy_arr st)[nat (pid_code tag) := \<lparr>pc_size = int (length code), pc_code = Some code, pc_jit = False\<rparr>]\<rparr>)"
    using assms(2) by (simp_all add: wf_policies_def)
qed (use assms(1) in \<open>simp add: ADD_POLICY_def\<close>)

lemma load_all_policies_wf:
  assumes "load_all_policies pl st = Inr st'" "wf_policies st"
  shows "wf_policies st'"
  using assms unfolding load_all_policies_def
  by (auto simp: c_bind_Inr_iff dest!: add_policy_wf)

lemma install_policy_cases:
  assumes "ifw_install_policy pl cls ty code st = Inr (r, st')"
  obtains (failed) "r < 0" "st' = st"
  | (installed) bs where "r = 0" "code = Some bs" "slot_in_range cls ty"
      "runtime_policy_count st < IFW_MAX_RUNTIME_POLICIES" "ifw_verify_policy (Some bs) sizeof_FsmState = 0"
      "alloc_ok pl (length bs)"
      "register_policy pl cls ty (pid_code PID_NUM + runtime_policy_count st)
         (st\<lparr>runtime_policy_arr := (runtime_policy_arr st)[nat (runtime_policy_count st) :=
                \<lparr>pc_size = int (length bs), pc_code = Some bs, pc_jit = False\<rparr>],
              runtime_policy_count := runtime_policy_count st + 1\<rparr>) = Inr st'"
proof -
  have neg: "ifw_verify_policy c m < 0" if "ifw_verify_policy c m \<noteq> 0" for c m
    using that verify_result_le [of c m] by simp
  show thesis
    using assms neg that
    by (auto simp: ifw_install_policy_def c_bind_Inr_iff Let_def split: option.splits if_splits)
qed

lemma install_policy_succeeds:
  assumes "\<forall>n. alloc_ok pl n" "slot_in_range cls ty" "runtime_policy_count st < IFW_MAX_RUNTIME_POLICIES"
    and "ifw_verify_policy (Some code) sizeof_FsmState = 0"
  shows "\<exists>st'. ifw_install_policy pl cls ty (Some code) st = Inr (0, st')"
proof -
  have "length code \<noteq> 0 \<and> length code mod 8 = 0"
    using assms(4) by (auto simp: ifw_verify_policy_def split: if_splits)
  then show ?thesis
    using assms by (auto simp: ifw_install_policy_def register_policy_def set_policy_mask_def slot_in_range_def Let_def)
qed

lemma install_policy_wf:
  assumes "ifw_install_policy pl cls ty code st = Inr (r, st')" "wf_policies st"
  shows "wf_policies st'"
  using assms(1)
proof (cases rule: install_policy_cases)
  case failed
  then show ?thesis using assms(2) by simp
next
  case (installed bs)
  note reg = register_policy_wf [OF installed(7)]
  have "pid < 9 + runtime_policy_count st" if "pid \<in> set (policy_manager st k)" for pid k
  proof -
    have "pid < 8 + runtime_policy_count st" using that assms(2) by (cases k) (simp add: wf_policies_def)
    then show ?thesis by simp
  qed
  then show ?thesis
    using assms(2) installed
    by (intro reg)
      (auto simp: wf_policies_def installed_ok_def nth_list_update IFW_MAX_RUNTIME_POLICIES_def less_Suc_eq
        nat_add_distrib)
qed

text \<open>The machines keep their kind.\<close>

lemma get_default_vm_wf:
  assumes "get_default_vm pl jit st = Inr (vmo, st')" "wf_policies st"
  shows "wf_policies st'" "vm_plain jit vmo"
  using assms
  by (auto simp: get_default_vm_def wf_policies_def vm_plain_def ebpf_create_def ebpf_vm_zero_def Let_def
      split: option.splits if_splits)

lemma gen_jit_code_keeps:
  assumes "gen_jit_code ok base vm = Inr vm'"
  shows "bounds_check_enabled vm' = bounds_check_enabled vm \<and> helper_func vm' = helper_func vm \<and>
    use_jit vm' = use_jit vm"
  using assms by (auto simp: gen_jit_code_def c_bind_Inr_iff)

lemma load_ebpf_code_wf:
  assumes "load_ebpf_code pl pid jit st = Inr (vmo, st')" "wf_policies st"
  shows "wf_policies st'"
proof (cases "vmo = None")
  case True
  then show ?thesis
    using assms by (auto simp: load_ebpf_code_def c_bind_Inr_iff Let_def split: option.splits if_splits)
next
  case False
  then obtain slot vm st1 where slot: "get_policy_slot pid st = Some slot" "pc_size slot \<noteq> 0"
      and vm: "get_default_vm pl jit st = Inr (Some vm, st1)"
    using assms by (auto simp: load_ebpf_code_def c_bind_Inr_iff Let_def split: option.splits if_splits)
  then show ?thesis
    using get_default_vm_wf [OF vm assms(2)] assms(1)
    by (auto simp: load_ebpf_code_def c_bind_Inr_iff Let_def wf_policies_def vm_plain_def ebpf_vm_set_inst_def
        split: if_splits dest!: gen_jit_code_keeps)
qed

lemma run_fsm_ebpf_policy_wf:
  assumes "run_fsm_ebpf_policy pl pid bs n st = Some (Inr (v, bs', st'))" "wf_policies st"
  shows "wf_policies st'"
proof -
  obtain vmo where "get_vm_from_cache pl pid st = Inr (vmo, st')"
    using assms(1)
    by (auto simp: run_fsm_ebpf_policy_def map_sum_Inr_iff split: sum.splits option.splits)
  then show ?thesis
    using assms(2) load_ebpf_code_wf by (auto simp: get_vm_from_cache_def split: option.splits if_splits)
qed

lemma run_policy_list_wf:
  "run_policy_list pl pids bs st = Some (Inr (v, bs', st')) \<Longrightarrow> wf_policies st \<Longrightarrow> wf_policies st'"
  by (induction pids arbitrary: bs st)
    (auto split: option.splits sum.splits if_splits dest!: run_fsm_ebpf_policy_wf)

lemma jit_on_wf:
  "wf_policies st \<Longrightarrow> wf_policies (set_policy_jit_on pid st)"
  "wf_policies st \<Longrightarrow> wf_policies (set_all_policy_jit_on st)"
  by (simp_all add: set_policy_jit_on_def set_all_policy_jit_on_def wf_policies_def)

text \<open>The states the firewall goes through: any sequence of the manager's entry points.\<close>

inductive policy_reach :: "platform \<Rightarrow> policy_state \<Rightarrow> bool" for pl where
  init: "policy_reach pl policy_state_init"
| load: "\<lbrakk>policy_reach pl st; load_all_policies pl st = Inr st'\<rbrakk> \<Longrightarrow> policy_reach pl st'"
| install: "\<lbrakk>policy_reach pl st; ifw_install_policy pl cls ty code st = Inr (r, st')\<rbrakk> \<Longrightarrow> policy_reach pl st'"
| jit_on: "policy_reach pl st \<Longrightarrow> policy_reach pl (set_policy_jit_on pid st)"
| all_jit_on: "policy_reach pl st \<Longrightarrow> policy_reach pl (set_all_policy_jit_on st)"
| check: "\<lbrakk>policy_reach pl st; run_fsm_check_policy pl ty cls bs st = Some (Inr (v, bs', st'))\<rbrakk> \<Longrightarrow>
    policy_reach pl st'"

lemma policy_reach_wf: "policy_reach pl st \<Longrightarrow> wf_policies st"
proof (induction rule: policy_reach.induct)
  case init
  show ?case
    by (simp add: wf_policies_def policy_state_init_def vm_plain_def IFW_MAX_RUNTIME_POLICIES_def)
next
  case (check st ty cls bs v bs' st')
  then show ?case using run_policy_list_wf by (auto simp: run_fsm_check_policy_def split: if_splits)
qed (auto intro: load_all_policies_wf install_policy_wf jit_on_wf)

text \<open>
  C17: in every state the manager can reach, by any interleaving of loading, installation, JIT
  switches and checks, every listed policy has a slot, at most eight policies were installed, and
  the code of each installed policy is complete, interpreted and accepted by the verifier.
\<close>

theorem policy_reach_invariant:
  assumes "policy_reach pl st"
  shows "wf_policies st \<and>
    (\<forall>k. \<forall>pid \<in> set (policy_manager st k). \<exists>slot. get_policy_slot pid st = Some slot \<and>
       (pid \<ge> pid_code PID_NUM \<longrightarrow> installed_ok slot))"
proof -
  have wf: "wf_policies st" using assms by (rule policy_reach_wf)
  have "\<exists>slot. get_policy_slot pid st = Some slot \<and> (pid \<ge> pid_code PID_NUM \<longrightarrow> installed_ok slot)"
    if "pid \<in> set (policy_manager st k)" for k pid
  proof -
    have "0 \<le> pid" "pid < 8 + runtime_policy_count st"
      using that wf by (cases k; simp add: wf_policies_def)+
    then show ?thesis
      using wf by (auto simp: get_policy_slot_def wf_policies_def IFW_MAX_RUNTIME_POLICIES_def)
  qed
  then show ?thesis using wf by blast
qed

text \<open>
  C28: which requests \<open>ifw_install_policy\<close> accepts, and that a refused request changes nothing: the
  return value is zero exactly if the slot exists, a runtime slot is free, the verifier accepts the
  code and both allocations succeed.
\<close>

theorem install_policy_accepts_iff:
  "(\<exists>st'. ifw_install_policy pl cls ty code st = Inr (0, st')) =
     (\<exists>bs. code = Some bs \<and> slot_in_range cls ty \<and>
       runtime_policy_count st < IFW_MAX_RUNTIME_POLICIES \<and>
       ifw_verify_policy code sizeof_FsmState = 0 \<and> alloc_ok pl (length bs) \<and> alloc_ok pl 8) \<and>
   (\<forall>r st'. r = 0 \<or> st' = st \<or> ifw_install_policy pl cls ty code st \<noteq> Inr (r, st'))"
proof (intro conjI iffI allI)
  assume "\<exists>st'. ifw_install_policy pl cls ty code st = Inr (0, st')"
  then obtain st' where "ifw_install_policy pl cls ty code st = Inr (0, st')" ..
  then show "\<exists>bs. code = Some bs \<and> slot_in_range cls ty \<and>
       runtime_policy_count st < IFW_MAX_RUNTIME_POLICIES \<and>
       ifw_verify_policy code sizeof_FsmState = 0 \<and> alloc_ok pl (length bs) \<and> alloc_ok pl 8"
    by (cases rule: install_policy_cases)
      (auto simp: register_policy_def Let_def c_bind_Inr_iff split: if_splits)
next
  assume "\<exists>bs. code = Some bs \<and> slot_in_range cls ty \<and>
       runtime_policy_count st < IFW_MAX_RUNTIME_POLICIES \<and>
       ifw_verify_policy code sizeof_FsmState = 0 \<and> alloc_ok pl (length bs) \<and> alloc_ok pl 8"
  then obtain bs where ok: "code = Some bs" "slot_in_range cls ty"
      "runtime_policy_count st < IFW_MAX_RUNTIME_POLICIES" "ifw_verify_policy (Some bs) sizeof_FsmState = 0"
      "alloc_ok pl (length bs)" "alloc_ok pl 8"
    by blast
  then have "length bs \<noteq> 0 \<and> length bs mod 8 = 0"
    by (auto simp: ifw_verify_policy_def split: if_splits)
  then show "\<exists>st'. ifw_install_policy pl cls ty code st = Inr (0, st')"
    using ok
    by (auto simp: ifw_install_policy_def register_policy_def set_policy_mask_def slot_in_range_def Let_def)
next
  fix r st'
  show "r = 0 \<or> st' = st \<or> ifw_install_policy pl cls ty code st \<noteq> Inr (r, st')"
    using install_policy_cases [of pl cls ty code st r st'] by blast
qed

text \<open>Installing a policy leaves the meaning of the others alone.\<close>

lemma installed_slots:
  assumes "ifw_install_policy pl cls ty (Some code) st = Inr (0, st')" "wf_policies st"
  shows "get_policy_slot (8 + runtime_policy_count st) st' =
      Some \<lparr>pc_size = int (length code), pc_code = Some code, pc_jit = False\<rparr>"
    "pid \<in> set (policy_manager st k) \<Longrightarrow> get_policy_slot pid st' = get_policy_slot pid st"
    "policy_mgr_init st \<Longrightarrow> policy_manager st' =
       (policy_manager st)((cls, ty) := policy_manager st (cls, ty) @ [8 + runtime_policy_count st])"
    "g_vm st' = g_vm st"
proof -
  have lt: "runtime_policy_count st < IFW_MAX_RUNTIME_POLICIES"
    using assms(1) by (cases rule: install_policy_cases) auto
  have "register_policy pl cls ty (pid_code PID_NUM + runtime_policy_count st)
         (st\<lparr>runtime_policy_arr := (runtime_policy_arr st)[nat (runtime_policy_count st) :=
                \<lparr>pc_size = int (length code), pc_code = Some code, pc_jit = False\<rparr>],
              runtime_policy_count := runtime_policy_count st + 1\<rparr>) = Inr st'"
    using assms(1) by (cases rule: install_policy_cases) auto
  note reg = register_policy_effect [OF this]
  have n: "0 \<le> runtime_policy_count st" "runtime_policy_count st < 8" "length (runtime_policy_arr st) = 8"
    using assms(2) lt by (simp_all add: wf_policies_def IFW_MAX_RUNTIME_POLICIES_def)
  then show "get_policy_slot (8 + runtime_policy_count st) st' =
      Some \<lparr>pc_size = int (length code), pc_code = Some code, pc_jit = False\<rparr>"
    using reg by (simp add: get_policy_slot_def IFW_MAX_RUNTIME_POLICIES_def)
  show "get_policy_slot pid st' = get_policy_slot pid st" if pid: "pid \<in> set (policy_manager st k)"
  proof -
    have "pid < 8 + runtime_policy_count st" "0 \<le> pid"
      using pid assms(2) by (cases k; simp add: wf_policies_def)+
    then show ?thesis using reg(1,2) n by (simp add: get_policy_slot_def)
  qed
  show "policy_mgr_init st \<Longrightarrow> policy_manager st' =
       (policy_manager st)((cls, ty) := policy_manager st (cls, ty) @ [8 + runtime_policy_count st])"
    using reg(8) by (simp add: Let_def)
  show "g_vm st' = g_vm st" using reg(4) by simp
qed

lemma install_extends:
  assumes "ifw_install_policy pl cls ty (Some code) st = Inr (0, st')"
    and "wf_policies st" "policy_mgr_init st" "vm_ready pl st"
    and "policy_safe sizeof_FsmState code" "length bs = sizeof_FsmState"
    and "\<forall>k. \<forall>pid \<in> set (policy_manager st k). slot_usable pl st pid bs"
  shows "\<exists>v. slot_run pl \<lparr>pc_size = int (length code), pc_code = Some code, pc_jit = False\<rparr> bs = Some (Inr (v, bs)) \<and>
      (\<forall>c t. slot_in_range c t \<longrightarrow> (\<exists>r st1 st2.
        run_fsm_check_policy pl t c bs st = Some (Inr (r, bs, st1)) \<and>
        run_fsm_check_policy pl t c bs st' =
          Some (Inr (if (c, t) = (cls, ty) \<and> v = IFW_OPERATION_REJECT then IFW_OPERATION_REJECT else r, bs, st2))))"
proof -
  let ?new = "\<lparr>pc_size = int (length code), pc_code = Some code, pc_jit = False\<rparr>"
    and ?pid = "8 + runtime_policy_count st"
  note inst = installed_slots [OF assms(1,2)]
  obtain v where v: "slot_run pl ?new bs = Some (Inr (v, bs))"
    using safe_slot_run [of bs code ?new pl] assms(5,6) by auto
  have code: "length code \<noteq> 0"
    using assms(5) by (auto simp: policy_safe_def ifw_verify_policy_def)
  have new: "slot_usable pl st' ?pid bs" "slot_verdict pl st' ?pid bs = v"
    using v code by (simp_all add: slot_usable_def slot_verdict_def inst(1))
  have old: "slot_usable pl st' pid bs" "slot_verdict pl st' pid bs = slot_verdict pl st pid bs"
    if "pid \<in> set (policy_manager st k)" for pid k
    using assms(7) [rule_format, OF that] inst(2) [OF that] by (simp_all add: slot_usable_def slot_verdict_def)
  have ready: "vm_ready pl st'" using assms(4) inst(4) by (simp add: vm_ready_def)
  have "\<exists>r st1 st2. run_fsm_check_policy pl t c bs st = Some (Inr (r, bs, st1)) \<and>
        run_fsm_check_policy pl t c bs st' =
          Some (Inr (if (c, t) = (cls, ty) \<and> v = IFW_OPERATION_REJECT then IFW_OPERATION_REJECT else r, bs, st2))"
    if ct: "slot_in_range c t" for c t
  proof -
    have "list_ex (\<lambda>pid. slot_verdict pl st' pid bs = IFW_OPERATION_REJECT) (policy_manager st' (c, t)) \<longleftrightarrow>
        list_ex (\<lambda>pid. slot_verdict pl st pid bs = IFW_OPERATION_REJECT) (policy_manager st (c, t)) \<or>
        (c, t) = (cls, ty) \<and> v = IFW_OPERATION_REJECT"
      using new(2) old(2) [of _ "(c, t)"] by (auto simp: inst(3) [OF assms(3)] list_ex_iff)
    moreover have "slot_usable pl st' pid bs" if "pid \<in> set (policy_manager st' (c, t))" for pid
      using that new(1) old(1) by (auto simp: inst(3) [OF assms(3)] split: if_splits)
    ultimately show ?thesis
      using check_policy_dispatch [OF ct assms(4), of bs] check_policy_dispatch [OF ct ready, of bs] assms(7)
      by auto
  qed
  then show ?thesis using v by blast
qed

text \<open>
  C13: installing a policy tightens one slot and nothing else. If the code meets the conditions of
  the safety theorem, aligned loads among them, and every listed policy is interpreted and returns, then after the installation
  a check of the slot rejects exactly if it rejected before or the new policy rejects, every other
  check has the result it had, and none has undefined behaviour.
\<close>

theorem install_policy_extends_check:
  assumes "ifw_install_policy pl cls ty (Some code) st = Inr (0, st')"
    and "wf_policies st" "policy_mgr_init st" "vm_ready pl st"
    and "policy_safe sizeof_FsmState code" "length bs = sizeof_FsmState"
    and "\<forall>k. \<forall>pid \<in> set (policy_manager st k). slot_usable pl st pid bs"
  shows "\<exists>v. ebpf_vm_exec (ebpf_vm_set_inst ebpf_vm_zero (Some code) (word_of_nat (length code))) None
        (state_addr pl) bs 64 (stack_addr pl) = Some (Inr (v, bs)) \<and>
      (\<forall>c t. slot_in_range c t \<longrightarrow> (\<exists>r st1 st2.
        run_fsm_check_policy pl t c bs st = Some (Inr (r, bs, st1)) \<and>
        run_fsm_check_policy pl t c bs st' =
          Some (Inr (if (c, t) = (cls, ty) \<and> v = IFW_OPERATION_REJECT then IFW_OPERATION_REJECT else r, bs, st2))))"
  using install_extends [OF assms] by (simp add: slot_run_def)

section \<open>Instances\<close>

text \<open>A platform where every allocation succeeds and generated code returns zero.\<close>

definition platform_example :: platform where
  "platform_example =
     \<lparr>alloc_ok = (\<lambda>_. True), state_word = 0x8000000, stack_dword = 0x4000200,
      helper_words = (\<lambda>_. []), run_native = (\<lambda>_ bs _. Some (Inr (0, bs)))\<rparr>"

lemma platform_example_simps [simp]: "alloc_ok platform_example n"
  by (simp add: platform_example_def)

theorem loaded_policies_verdict_witness:
  "\<exists>st st'. load_all_policies platform_example policy_state_init = Inr st \<and>
     run_fsm_check_policy platform_example 1 2 (fsm_bytes fsm_zero) st =
       Some (Inr (IFW_OPERATION_REJECT, fsm_bytes fsm_zero, st'))"
proof -
  obtain st where st: "load_all_policies platform_example policy_state_init = Inr st"
    using load_all_policies_ok [of platform_example] by auto
  have "source_verdict 2 1 fsm_zero = IFW_OPERATION_REJECT"
    by (simp add: source_verdict_def loaded_table_def slot_key_def policy_filter_defs fsm_zero_def ifw_codes)
  then show ?thesis
    using loaded_policies_verdict [OF st, of 2 1 fsm_zero] st by (auto simp: slot_in_range_def)
qed

theorem policy_reach_invariant_witness:
  "\<exists>st. load_all_policies platform_example policy_state_init = Inr st \<and> wf_policies st"
proof -
  obtain st where st: "load_all_policies platform_example policy_state_init = Inr st"
    using load_all_policies_ok [of platform_example] by auto
  then have "policy_reach platform_example st" by (rule policy_reach.load [OF policy_reach.init])
  then show ?thesis using policy_reach_invariant st by blast
qed

theorem install_policy_accepts_iff_witness:
  "\<exists>st'. ifw_install_policy platform_example 4 1 (Some (butlast spi_acl_len)) policy_state_init = Inr (0, st')"
  using install_policy_accepts_iff [of platform_example 4 1 "Some (butlast spi_acl_len)" policy_state_init]
    shipped_safe(9)
  by (simp add: slot_in_range_def policy_state_init_def IFW_MAX_RUNTIME_POLICIES_def sizeof_FsmState_def policy_safe_def)

theorem install_policy_extends_check_witness:
  "\<exists>st st' v. load_all_policies platform_example policy_state_init = Inr st \<and>
     ifw_install_policy platform_example 4 1 (Some (butlast spi_acl_len)) st = Inr (0, st') \<and>
     ebpf_vm_exec (ebpf_vm_set_inst ebpf_vm_zero (Some (butlast spi_acl_len))
        (word_of_nat (length (butlast spi_acl_len)))) None (state_addr platform_example) (fsm_bytes fsm_zero) 64
        (stack_addr platform_example) = Some (Inr (v, fsm_bytes fsm_zero))"
proof -
  let ?pl = platform_example and ?code = "butlast spi_acl_len"
  obtain st where st: "load_all_policies ?pl policy_state_init = Inr st" "policies_loaded st"
      "policy_mgr_init st" "g_vm st = None" "runtime_policy_count st = 0"
    using load_all_policies_ok [of ?pl] by auto
  have safe: "policy_safe sizeof_FsmState ?code"
    using shipped_safe(9) by (simp add: sizeof_FsmState_def)
  then have "length ?code \<noteq> 0 \<and> length ?code mod 8 = 0"
    by (auto simp: policy_safe_def ifw_verify_policy_def split: if_splits)
  then obtain st' where inst: "ifw_install_policy ?pl 4 1 (Some ?code) st = Inr (0, st')"
    using safe st(5)
    by (auto simp: ifw_install_policy_def policy_safe_def register_policy_def set_policy_mask_def
        slot_in_range_def IFW_MAX_RUNTIME_POLICIES_def Let_def)
  have "wf_policies st" using policy_reach_wf policy_reach.load [OF policy_reach.init st(1)] .
  moreover have "vm_ready ?pl st" using st(4) by (simp add: vm_ready_def)
  moreover have "\<forall>k. \<forall>pid \<in> set (policy_manager st k). slot_usable ?pl st pid (fsm_bytes fsm_zero)"
    using loaded_verdict(1) [OF st(2) wf_fsm_zero] by auto
  ultimately show ?thesis
    using install_policy_extends_check [OF inst _ st(3) _ safe, of "fsm_bytes fsm_zero"] st(1) inst
    by (auto simp: length_fsm_bytes)
qed

end
