(* ===== verification/Fsm_Core.thy ===== *)
theory Fsm_Core
  imports Policy_Cache
begin

text \<open>
  The state machine core of \<^verbatim>\<open>core/fsm_core.c\<close>: the committed protocol state, the state the policies
  look at, the two update operations and the entry to the policy engine. Writing past the end of
  one of the arrays is undefined behaviour. A run of the policies that does not return has the value
  \<open>None\<close>.
\<close>

section \<open>State\<close>

record fw_state =
  curFSMState :: FsmState
  newFSMState :: FsmState
  fsm_new_init :: bool
  policies :: policy_state

definition fw_state_init :: fw_state where
  "fw_state_init =
     \<lparr>curFSMState = fsm_zero, newFSMState = fsm_zero, fsm_new_init = False, policies = policy_state_init\<rparr>"

definition ifw_core_state_num :: "s32 list" where
  "ifw_core_state_num =
     map ucast [ll_state_code IFW_BLE_LL_STATE_NUM, pairing_mode_code IFW_BLE_PAIRING_MODE_NUM,
       pairing_method_code IFW_BLE_PAIRING_METHOD_NUM, ble_role_code IFW_BLE_ROLE_NUM,
       io_capacity_code IFW_IO_CAPACITY_NUM]"

text \<open>\<open>newFSMState\<close> as the engine leaves it, read back from its bytes.\<close>

definition fsm_of_words :: "s32 list \<Rightarrow> FsmState" where
  "fsm_of_words ws =
     \<lparr>core_state = take 5 ws, shared_state = take 3 (drop 5 ws), conn_param = take 4 (drop 8 ws),
      dc_param = take 15 (drop 12 ws), spi_param = take 2 (drop 27 ws), hci_param = take 1 (drop 29 ws)\<rparr>"

definition fsm_of_bytes :: "u8 list \<Rightarrow> FsmState" where
  "fsm_of_bytes bs = fsm_of_words (map (\<lambda>i. ucast (le_join (take 4 (drop (4 * i) bs)))) [0..<30])"

section \<open>Operations\<close>

definition ifw_fsm_init :: "fw_state \<Rightarrow> fw_state" where
  "ifw_fsm_init fw = fw\<lparr>curFSMState := fsm_zero\<lparr>core_state := ifw_core_state_num\<rparr>\<rparr>"

text \<open>The \<open>switch\<close> over the class that both updates share; \<open>None\<close> is its default branch.\<close>

definition array_store :: "u16 \<Rightarrow> u16 \<Rightarrow> s32 list \<Rightarrow> s32 list cres" where
  "array_store ty v xs = (if unat ty < length xs then Inr (xs[unat ty := ucast v]) else Inl Oob_write)"

definition fsm_store :: "u16 \<Rightarrow> u16 \<Rightarrow> u16 \<Rightarrow> FsmState \<Rightarrow> FsmState option cres" where
  "fsm_store v ty cls st =
     (if cls = class_code SHARED then
        c_bind (array_store ty v (shared_state st)) (\<lambda>xs. Inr (Some (st\<lparr>shared_state := xs\<rparr>)))
      else if cls = class_code CORE then
        c_bind (array_store ty v (core_state st)) (\<lambda>xs. Inr (Some (st\<lparr>core_state := xs\<rparr>)))
      else if cls = class_code CONN then
        c_bind (array_store ty v (conn_param st)) (\<lambda>xs. Inr (Some (st\<lparr>conn_param := xs\<rparr>)))
      else if cls = class_code DC then
        c_bind (array_store ty v (dc_param st)) (\<lambda>xs. Inr (Some (st\<lparr>dc_param := xs\<rparr>)))
      else if cls = class_code SPI then
        c_bind (array_store ty v (spi_param st)) (\<lambda>xs. Inr (Some (st\<lparr>spi_param := xs\<rparr>)))
      else if cls = class_code HCI then
        c_bind (array_store ty v (hci_param st)) (\<lambda>xs. Inr (Some (st\<lparr>hci_param := xs\<rparr>)))
      else Inr None)"

definition ifw_fsm_state_update :: "u16 \<Rightarrow> u16 \<Rightarrow> u16 \<Rightarrow> fw_state \<Rightarrow> (u64 \<times> fw_state) cres" where
  "ifw_fsm_state_update v ty cls fw =
     c_bind (fsm_store v ty cls (curFSMState fw)) (\<lambda>r.
       case r of
         None \<Rightarrow> Inr (IFW_UPDATE_ERROR, fw)
       | Some st \<Rightarrow> Inr (IFW_UPDATE_SUCCESS, fw\<lparr>curFSMState := st, fsm_new_init := False\<rparr>))"

definition ifw_fsm_check_update :: "u16 \<Rightarrow> u16 \<Rightarrow> u16 \<Rightarrow> fw_state \<Rightarrow> (u64 \<times> fw_state) cres" where
  "ifw_fsm_check_update v ty cls fw =
     (let fw = (if fsm_new_init fw then fw\<lparr>newFSMState := curFSMState fw, fsm_new_init := True\<rparr> else fw) in
      c_bind (fsm_store v ty cls (newFSMState fw)) (\<lambda>r.
        case r of
          None \<Rightarrow> Inr (IFW_UPDATE_ERROR, fw)
        | Some st \<Rightarrow> Inr (IFW_UPDATE_SUCCESS, fw\<lparr>newFSMState := st\<rparr>)))"

definition ifw_run_verifier :: "platform \<Rightarrow> u16 \<Rightarrow> u16 \<Rightarrow> fw_state \<Rightarrow> (u64 \<times> fw_state) cres option" where
  "ifw_run_verifier pl ty cls fw =
     (let fw = fw\<lparr>fsm_new_init := False\<rparr> in
      case run_fsm_check_policy pl (uint ty) (uint cls) (fsm_bytes (newFSMState fw)) (policies fw) of
        None \<Rightarrow> None
      | Some (Inl e) \<Rightarrow> Some (Inl e)
      | Some (Inr (r, bs, ps)) \<Rightarrow>
          let fw = fw\<lparr>newFSMState := fsm_of_bytes bs, policies := ps\<rparr> in
          if r = IFW_OPERATION_REJECT then Some (Inr (IFW_OPERATION_REJECT, fw))
          else Some (Inr (IFW_OPERATION_PASS, fw)))"

text \<open>The macros of \<^verbatim>\<open>include/fsm_handle.h\<close> the hooks use.\<close>

definition IFW_FSM_CHECK_UPDATE :: "u16 \<Rightarrow> u16 \<Rightarrow> u16 \<Rightarrow> fw_state \<Rightarrow> (bool \<times> fw_state) cres" where
  "IFW_FSM_CHECK_UPDATE v ty cls fw =
     c_bind (ifw_fsm_check_update v ty cls fw) (\<lambda>(r, fw). Inr (r = IFW_UPDATE_ERROR, fw))"

definition IFW_RUN_VERIFIER :: "platform \<Rightarrow> u16 \<Rightarrow> u16 \<Rightarrow> fw_state \<Rightarrow> (bool \<times> fw_state) cres option" where
  "IFW_RUN_VERIFIER pl ty cls fw =
     map_option (map_sum id (\<lambda>(r, fw). (r = IFW_OPERATION_REJECT, fw))) (ifw_run_verifier pl ty cls fw)"

definition IFW_FSM_STATE_UPDATE :: "u16 \<Rightarrow> u16 \<Rightarrow> u16 \<Rightarrow> fw_state \<Rightarrow> (bool \<times> fw_state) cres" where
  "IFW_FSM_STATE_UPDATE v ty cls fw =
     c_bind (ifw_fsm_state_update v ty cls fw) (\<lambda>(r, fw). Inr (r = IFW_UPDATE_ERROR, fw))"

section \<open>Bytes and fields\<close>

lemma fsm_of_words_inverse: "wf_fsm st \<Longrightarrow> fsm_of_words (fsm_words st) = st"
  by (cases st) (simp add: fsm_of_words_def fsm_words_def wf_fsm_def)

lemma fsm_of_bytes_inverse:
  assumes "wf_fsm st"
  shows "fsm_of_bytes (fsm_bytes st) = st"
proof -
  have "length (fsm_words st) = 30" using assms by (simp add: fsm_words_def wf_fsm_def)
  then have "map (\<lambda>i. ucast (le_join (take 4 (drop (4 * i) (fsm_bytes st)))) :: s32) [0..<30] = fsm_words st"
    using assms by (intro nth_equalityI) (simp_all add: fsm_bytes_word)
  then show ?thesis using fsm_of_words_inverse [OF assms] by (simp add: fsm_of_bytes_def)
qed

section \<open>The contract of the core\<close>

lemma fsm_store_wf: "fsm_store v ty cls st = Inr (Some st') \<Longrightarrow> wf_fsm st \<Longrightarrow> wf_fsm st'"
  by (auto simp: fsm_store_def array_store_def wf_fsm_def c_bind_Inr_iff split: if_splits)

lemma fsm_store_defined:
  assumes "wf_fsm st" "wf_fsm st'"
  shows "fsm_store v ty cls st = Inl e \<longleftrightarrow> fsm_store v ty cls st' = Inl e"
    "fsm_store v ty cls st = Inr None \<longleftrightarrow> fsm_store v ty cls st' = Inr None"
  using assms by (auto simp: fsm_store_def array_store_def wf_fsm_def c_bind_Inr_iff c_bind_Inl_iff)

text \<open>Storing one field of the protocol state.\<close>

definition put_core :: "nat \<Rightarrow> u16 \<Rightarrow> FsmState \<Rightarrow> FsmState" where
  "put_core i v st = st\<lparr>core_state := (core_state st)[i := ucast v]\<rparr>"

definition put_conn :: "nat \<Rightarrow> u16 \<Rightarrow> FsmState \<Rightarrow> FsmState" where
  "put_conn i v st = st\<lparr>conn_param := (conn_param st)[i := ucast v]\<rparr>"

definition put_dc :: "nat \<Rightarrow> u16 \<Rightarrow> FsmState \<Rightarrow> FsmState" where
  "put_dc i v st = st\<lparr>dc_param := (dc_param st)[i := ucast v]\<rparr>"

lemma put_wf [simp]:
  "wf_fsm (put_core i v st) = wf_fsm st" "wf_fsm (put_conn i v st) = wf_fsm st" "wf_fsm (put_dc i v st) = wf_fsm st"
  by (simp_all add: wf_fsm_def put_core_def put_conn_def put_dc_def)

lemma put_sel [simp]:
  "conn_param (put_conn i v st) = (conn_param st)[i := ucast v]" "conn_param (put_dc i v st) = conn_param st"
  "conn_param (put_core i v st) = conn_param st"
  "dc_param (put_dc i v st) = (dc_param st)[i := ucast v]" "dc_param (put_conn i v st) = dc_param st"
  "dc_param (put_core i v st) = dc_param st"
  by (simp_all add: put_core_def put_conn_def put_dc_def)

text \<open>Which source decides the slots the hooks check.\<close>

lemma source_verdicts:
  "source_verdict 2 0 = conn_chan_map_filter" "source_verdict 2 1 = conn_chan_hop_filter"
  "source_verdict 2 2 = scan_rsp_len_filter" "source_verdict 2 3 = lll_interval_filter"
  "source_verdict 3 1 = dc_nesn_filter" "source_verdict 3 2 = llcp_len_req_filter"
  "source_verdict 3 6 = llcp_conn_param_req_filter" "source_verdict 3 11 = smp_ident_check_filter"
  "source_verdict 1 3 = (\<lambda>_. 0)"
  by (simp_all add: source_verdict_def loaded_table_def slot_key_def)

text \<open>
  What the hooks rely on: an update in range stores the value into the state under check, and a run
  of the verifier rejects exactly if the registered policy's source rejects that state, which it
  keeps.
\<close>

locale fsm_checker =
  fixes inv :: "'s \<Rightarrow> bool"
    and view :: "'s \<Rightarrow> FsmState"
    and update :: "u16 \<Rightarrow> u16 \<Rightarrow> u16 \<Rightarrow> 's \<Rightarrow> (bool \<times> 's) cres"
    and verify :: "u16 \<Rightarrow> u16 \<Rightarrow> 's \<Rightarrow> (bool \<times> 's) cres option"
  assumes view_wf: "inv s \<Longrightarrow> wf_fsm (view s)"
    and update_store: "\<lbrakk>inv s; fsm_store v ty cls (view s) = Inr (Some st)\<rbrakk> \<Longrightarrow>
      \<exists>s'. update v ty cls s = Inr (False, s') \<and> inv s' \<and> view s' = st"
    and verify_verdict: "\<lbrakk>inv s; slot_in_range (uint cls) (uint ty)\<rbrakk> \<Longrightarrow>
      \<exists>s'. verify ty cls s =
          Some (Inr (source_verdict (uint cls) (uint ty) (view s) = IFW_OPERATION_REJECT, s')) \<and>
        inv s' \<and> view s' = view s"
begin

lemma update_conn:
  assumes "inv s" "ty < conn_type IFW_CONN_PARAM_NUM"
  shows "\<exists>s'. update v ty (class_code CONN) s = Inr (False, s') \<and> inv s' \<and> view s' = put_conn (unat ty) v (view s)"
  using view_wf [OF assms(1)] assms(2)
  by (intro update_store [OF assms(1)])
    (simp add: fsm_store_def array_store_def wf_fsm_def word_less_nat_alt put_conn_def)

lemma update_dc:
  assumes "inv s" "ty < dc_type IFW_DC_PARAM_NUM"
  shows "\<exists>s'. update v ty (class_code DC) s = Inr (False, s') \<and> inv s' \<and> view s' = put_dc (unat ty) v (view s)"
  using view_wf [OF assms(1)] assms(2)
  by (intro update_store [OF assms(1)])
    (simp add: fsm_store_def array_store_def wf_fsm_def word_less_nat_alt put_dc_def)

lemma update_core:
  assumes "inv s" "ty < core_type IFW_CORE_STATE_NUM"
  shows "\<exists>s'. update v ty (class_code CORE) s = Inr (False, s') \<and> inv s' \<and> view s' = put_core (unat ty) v (view s)"
  using view_wf [OF assms(1)] assms(2)
  by (intro update_store [OF assms(1)])
    (simp add: fsm_store_def array_store_def wf_fsm_def word_less_nat_alt put_core_def)

end

text \<open>The invariant under which the core meets the contract: interpreted, loaded policies.\<close>

definition fw_inv :: "platform \<Rightarrow> fw_state \<Rightarrow> bool" where
  "fw_inv pl fw \<longleftrightarrow>
     \<not> fsm_new_init fw \<and> wf_fsm (curFSMState fw) \<and> wf_fsm (newFSMState fw) \<and>
     policies_loaded (policies fw) \<and> vm_ready pl (policies fw)"

lemma check_update_store:
  assumes "fw_inv pl fw" "fsm_store v ty cls (newFSMState fw) = Inr (Some st)"
  shows "\<exists>fw'. IFW_FSM_CHECK_UPDATE v ty cls fw = Inr (False, fw') \<and> fw_inv pl fw' \<and> newFSMState fw' = st"
  using assms fsm_store_wf [OF assms(2)]
  by (simp add: IFW_FSM_CHECK_UPDATE_def ifw_fsm_check_update_def fw_inv_def ifw_codes)

lemma run_verifier_verdict:
  assumes "fw_inv pl fw" "slot_in_range (uint cls) (uint ty)"
  shows "\<exists>fw'. IFW_RUN_VERIFIER pl ty cls fw =
      Some (Inr (source_verdict (uint cls) (uint ty) (newFSMState fw) = IFW_OPERATION_REJECT, fw')) \<and>
    fw_inv pl fw' \<and> newFSMState fw' = newFSMState fw"
proof -
  have inv: "policies_loaded (policies fw)" "vm_ready pl (policies fw)" "wf_fsm (newFSMState fw)"
    using assms(1) by (simp_all add: fw_inv_def)
  obtain ps where "policies_loaded ps" "vm_ready pl ps"
      "run_fsm_check_policy pl (uint ty) (uint cls) (fsm_bytes (newFSMState fw)) (policies fw) =
        Some (Inr (if source_verdict (uint cls) (uint ty) (newFSMState fw) = IFW_OPERATION_REJECT
                   then IFW_OPERATION_REJECT else IFW_OPERATION_PASS, fsm_bytes (newFSMState fw), ps))"
    using loaded_check [OF inv(1,2) assms(2) inv(3)] by blast
  then show ?thesis
    using assms(1) fsm_of_bytes_inverse [OF inv(3)]
    by (simp add: IFW_RUN_VERIFIER_def ifw_run_verifier_def fw_inv_def Let_def ifw_codes)
qed

interpretation core: fsm_checker "fw_inv pl" newFSMState IFW_FSM_CHECK_UPDATE "IFW_RUN_VERIFIER pl"
  for pl
  by unfold_locales (auto simp: check_update_store run_verifier_verdict, simp add: fw_inv_def)

section \<open>The committed state and the checked state\<close>

text \<open>Sequences of calls to the core, with the values they return.\<close>

datatype fsm_op =
    Op_init
  | Op_state_update u16 u16 u16
  | Op_check_update u16 u16 u16
  | Op_run_verifier u16 u16

fun fsm_op_run :: "platform \<Rightarrow> fsm_op \<Rightarrow> fw_state \<Rightarrow> (u64 \<times> fw_state) cres option" where
  "fsm_op_run pl Op_init fw = Some (Inr (0, ifw_fsm_init fw))"
| "fsm_op_run pl (Op_state_update v ty cls) fw = Some (ifw_fsm_state_update v ty cls fw)"
| "fsm_op_run pl (Op_check_update v ty cls) fw = Some (ifw_fsm_check_update v ty cls fw)"
| "fsm_op_run pl (Op_run_verifier ty cls) fw = ifw_run_verifier pl ty cls fw"

fun fsm_ops_run :: "platform \<Rightarrow> fsm_op list \<Rightarrow> fw_state \<Rightarrow> (u64 list \<times> fw_state) cres option" where
  "fsm_ops_run pl [] fw = Some (Inr ([], fw))"
| "fsm_ops_run pl (x # xs) fw =
     (case fsm_op_run pl x fw of
        None \<Rightarrow> None
      | Some (Inl e) \<Rightarrow> Some (Inl e)
      | Some (Inr (r, fw)) \<Rightarrow>
          map_option (map_sum id (\<lambda>(rs, fw). (r # rs, fw))) (fsm_ops_run pl xs fw))"

text \<open>States that agree on everything but the committed protocol state.\<close>

definition same_check :: "fw_state \<Rightarrow> fw_state \<Rightarrow> bool" where
  "same_check fw fw' \<longleftrightarrow>
     newFSMState fw' = newFSMState fw \<and> policies fw' = policies fw \<and>
     \<not> fsm_new_init fw \<and> \<not> fsm_new_init fw' \<and> wf_fsm (curFSMState fw) \<and> wf_fsm (curFSMState fw')"

definition same_result :: "('a \<times> fw_state) cres option \<Rightarrow> ('a \<times> fw_state) cres option \<Rightarrow> bool" where
  "same_result r r' = rel_option (rel_sum (=) (rel_prod (=) same_check)) r r'"

lemma wf_core_num: "wf_fsm st \<Longrightarrow> wf_fsm (st\<lparr>core_state := ifw_core_state_num\<rparr>)"
  by (simp add: wf_fsm_def ifw_core_state_num_def)

lemma state_update_same:
  assumes "same_check fw fw'"
  shows "same_result (Some (ifw_fsm_state_update v ty cls fw)) (Some (ifw_fsm_state_update v ty cls fw'))"
proof -
  have wf: "wf_fsm (curFSMState fw)" "wf_fsm (curFSMState fw')" using assms by (simp_all add: same_check_def)
  show ?thesis
  proof (cases "fsm_store v ty cls (curFSMState fw)")
    case (Inl e)
    then show ?thesis
      using fsm_store_defined(1) [OF wf, of v ty cls e] by (simp add: ifw_fsm_state_update_def same_result_def)
  next
    case (Inr r)
    have "fsm_store v ty cls (curFSMState fw') \<noteq> Inl e" for e
      using fsm_store_defined(1) [OF wf, of v ty cls e] Inr by simp
    then obtain r' where r': "fsm_store v ty cls (curFSMState fw') = Inr r'"
      by (cases "fsm_store v ty cls (curFSMState fw')") auto
    have "r = None \<longleftrightarrow> r' = None" using fsm_store_defined(2) [OF wf, of v ty cls] Inr r' by simp
    then show ?thesis
      using assms Inr r' fsm_store_wf [of v ty cls "curFSMState fw"] fsm_store_wf [of v ty cls "curFSMState fw'"]
      by (auto simp: ifw_fsm_state_update_def same_result_def same_check_def split: option.split)
  qed
qed

lemma check_update_same:
  assumes "same_check fw fw'"
  shows "same_result (Some (ifw_fsm_check_update v ty cls fw)) (Some (ifw_fsm_check_update v ty cls fw'))"
  using assms
  by (cases "fsm_store v ty cls (newFSMState fw)")
    (auto simp: ifw_fsm_check_update_def same_check_def same_result_def split: option.split)

lemma run_verifier_same:
  assumes "same_check fw fw'"
  shows "same_result (ifw_run_verifier pl ty cls fw) (ifw_run_verifier pl ty cls fw')"
  using assms
  by (auto simp: ifw_run_verifier_def same_check_def same_result_def Let_def split: option.split sum.split)

lemma fsm_op_same:
  assumes "same_check fw fw'"
  shows "same_result (fsm_op_run pl x fw) (fsm_op_run pl x fw')"
proof (cases x)
  case Op_init
  then show ?thesis
    using assms wf_core_num [OF wf_fsm_zero] by (simp add: same_result_def same_check_def ifw_fsm_init_def)
qed (use assms state_update_same check_update_same run_verifier_same in simp_all)

lemma fsm_ops_same: "same_check fw fw' \<Longrightarrow> same_result (fsm_ops_run pl xs fw) (fsm_ops_run pl xs fw')"
proof (induction xs arbitrary: fw fw')
  case Nil
  then show ?case by (simp add: same_result_def)
next
  case (Cons x xs)
  note step = fsm_op_same [OF Cons.prems, of pl x, unfolded same_result_def]
  then show ?case
  proof (cases rule: option.rel_cases)
    case None
    then show ?thesis by (simp add: same_result_def)
  next
    case (Some a b)
    show ?thesis
    proof (cases a)
      case (Inl e)
      then show ?thesis using Some by (cases b) (simp_all add: same_result_def)
    next
      case (Inr p)
      then obtain r g g' where "a = Inr (r, g)" "b = Inr (r, g')" "same_check g g'"
        using Some(3) by (cases b; cases p) auto
      then show ?thesis
        using Some Cons.IH [of g g']
        by (auto simp: same_result_def option.rel_map sum.rel_map elim!: option.rel_mono_strong sum.rel_mono_strong)
    qed
  qed
qed

text \<open>
  C34: the committed state never reaches the policies. Whatever sequence of initialisations, updates,
  check updates and verifier runs follows, the values returned, the undefined behaviour and the state
  the policies look at are the same for every committed state: \<open>ifw_fsm_check_update\<close> copies it only
  if \<open>fsm_new_init\<close> is set, and nothing sets it.
\<close>

theorem committed_state_never_checked:
  assumes "\<not> fsm_new_init fw" "wf_fsm (curFSMState fw)" "wf_fsm st"
  shows "map_option (map_sum id (\<lambda>(rs, fw). (rs, newFSMState fw))) (fsm_ops_run pl ops fw) =
    map_option (map_sum id (\<lambda>(rs, fw). (rs, newFSMState fw))) (fsm_ops_run pl ops (fw\<lparr>curFSMState := st\<rparr>))"
proof -
  have "same_check fw (fw\<lparr>curFSMState := st\<rparr>)" using assms by (simp add: same_check_def)
  then have "same_result (fsm_ops_run pl ops fw) (fsm_ops_run pl ops (fw\<lparr>curFSMState := st\<rparr>))"
    by (rule fsm_ops_same)
  then show ?thesis
    by (cases "fsm_ops_run pl ops fw"; cases "fsm_ops_run pl ops (fw\<lparr>curFSMState := st\<rparr>)")
      (auto simp: same_result_def same_check_def elim!: rel_sum.cases)
qed

theorem committed_state_never_checked_witness:
  "map_option (map_sum id (\<lambda>(rs, fw). (rs, newFSMState fw)))
     (fsm_ops_run platform_example [Op_check_update 3 0 2] fw_state_init) =
   map_option (map_sum id (\<lambda>(rs, fw). (rs, newFSMState fw)))
     (fsm_ops_run platform_example [Op_check_update 3 0 2] (fw_state_init\<lparr>curFSMState := fsm_zero\<lparr>spi_param := [7, 9]\<rparr>\<rparr>))"
  by (rule committed_state_never_checked) (simp_all add: fw_state_init_def wf_fsm_def fsm_zero_def)

end
