(* ===== verification/Ll_Parser.thy ===== *)
theory Ll_Parser
  imports Fsm_Core
begin

text \<open>
  The link-layer hooks of \<^verbatim>\<open>core/fsm_ll_pkt_parser.c\<close>. A received node is its type and the bytes of
  its PDU buffer; the structures of \<^verbatim>\<open>ll_sw/pdu.h\<close> are read from the bytes at their packed offsets
  (little-endian bit fields, with the reserved byte of the nRF data channel header). A read past the
  end of the buffer is undefined behaviour. Of \<open>struct lll_conn\<close> the fields the hooks touch are kept.
\<close>

section \<open>Buffers and PDUs\<close>

definition PDU_ADV_TYPE_SCAN_RSP :: "4 word" where "PDU_ADV_TYPE_SCAN_RSP = 4"

text \<open>\<open>struct pdu_adv\<close>: the type and the length, and the fields of \<open>connect_ind\<close>.\<close>

definition pdu_adv_type :: "u8 list \<Rightarrow> 4 word cres" where
  "pdu_adv_type pdu = c_bind (read8 pdu 0) (\<lambda>b. Inr (ucast b))"

definition pdu_adv_len :: "u8 list \<Rightarrow> u8 cres" where
  "pdu_adv_len pdu = read8 pdu 1"

definition ci_access_addr :: "u8 list \<Rightarrow> u8 list cres" where "ci_access_addr pdu = read_mem pdu 14 4"
definition ci_crc_init :: "u8 list \<Rightarrow> u8 list cres" where "ci_crc_init pdu = read_mem pdu 18 3"
definition ci_interval :: "u8 list \<Rightarrow> u16 cres" where "ci_interval pdu = read_le16 pdu 24"
definition ci_chan_map :: "u8 list \<Rightarrow> u8 list cres" where "ci_chan_map pdu = read_mem pdu 30 5"
definition ci_hop :: "u8 list \<Rightarrow> 5 word cres" where "ci_hop pdu = c_bind (read8 pdu 35) (\<lambda>b. Inr (ucast b))"

text \<open>\<open>struct pdu_data\<close>, its control PDU, and the two indications the hook inspects.\<close>

definition pdu_ll_id :: "u8 list \<Rightarrow> 2 word cres" where
  "pdu_ll_id pdu = c_bind (read8 pdu 0) (\<lambda>b. Inr (ucast b))"
definition pdu_nesn :: "u8 list \<Rightarrow> 1 word cres" where
  "pdu_nesn pdu = c_bind (read8 pdu 0) (\<lambda>b. Inr (ucast (drop_bit 2 b)))"
definition pdu_sn :: "u8 list \<Rightarrow> 1 word cres" where
  "pdu_sn pdu = c_bind (read8 pdu 0) (\<lambda>b. Inr (ucast (drop_bit 3 b)))"
definition llctrl_opcode :: "u8 list \<Rightarrow> u8 cres" where "llctrl_opcode pdu = read8 pdu 3"
definition cu_interval :: "u8 list \<Rightarrow> u16 cres" where "cu_interval pdu = read_le16 pdu 7"
definition cm_chm :: "u8 list \<Rightarrow> u8 list cres" where "cm_chm pdu = read_mem pdu 4 5"

definition PDU_DATA_LLID_CTRL :: "2 word" where "PDU_DATA_LLID_CTRL = 3"
definition PDU_DATA_LLCTRL_TYPE_CONN_UPDATE_IND :: u8 where "PDU_DATA_LLCTRL_TYPE_CONN_UPDATE_IND = 0x00"
definition PDU_DATA_LLCTRL_TYPE_CHAN_MAP_IND :: u8 where "PDU_DATA_LLCTRL_TYPE_CHAN_MAP_IND = 0x01"
definition PDU_DATA_LLCTRL_TYPE_CONN_PARAM_REQ :: u8 where "PDU_DATA_LLCTRL_TYPE_CONN_PARAM_REQ = 0x0F"
definition PDU_DATA_LLCTRL_TYPE_CONN_PARAM_RSP :: u8 where "PDU_DATA_LLCTRL_TYPE_CONN_PARAM_RSP = 0x10"
definition PDU_DATA_LLCTRL_TYPE_LENGTH_REQ :: u8 where "PDU_DATA_LLCTRL_TYPE_LENGTH_REQ = 0x14"
definition PDU_DATA_LLCTRL_TYPE_LENGTH_RSP :: u8 where "PDU_DATA_LLCTRL_TYPE_LENGTH_RSP = 0x15"

lemmas pdu_codes = PDU_ADV_TYPE_SCAN_RSP_def PDU_DATA_LLID_CTRL_def
  PDU_DATA_LLCTRL_TYPE_CONN_UPDATE_IND_def PDU_DATA_LLCTRL_TYPE_CHAN_MAP_IND_def
  PDU_DATA_LLCTRL_TYPE_CONN_PARAM_REQ_def PDU_DATA_LLCTRL_TYPE_CONN_PARAM_RSP_def
  PDU_DATA_LLCTRL_TYPE_LENGTH_REQ_def PDU_DATA_LLCTRL_TYPE_LENGTH_RSP_def

definition NODE_RX_TYPE_EVENT_DONE :: u8 where "NODE_RX_TYPE_EVENT_DONE = 1"
definition NODE_RX_TYPE_DC_PDU :: u8 where "NODE_RX_TYPE_DC_PDU = 2"
definition NODE_RX_TYPE_DC_PDU_RELEASE :: u8 where "NODE_RX_TYPE_DC_PDU_RELEASE = 3"
definition NODE_RX_TYPE_CONNECTION :: u8 where "NODE_RX_TYPE_CONNECTION = 8"

lemmas node_rx_codes = NODE_RX_TYPE_EVENT_DONE_def NODE_RX_TYPE_DC_PDU_def NODE_RX_TYPE_DC_PDU_RELEASE_def
  NODE_RX_TYPE_CONNECTION_def

record lll_conn =
  crc_init :: "u8 list"
  access_addr :: "u8 list"
  data_chan_map :: "u8 list"
  data_chan_count :: "6 word"
  data_chan_hop :: u8
  lll_role :: "1 word"
  interval :: u16

record node_rx_pdu =
  rx_type :: u8
  rx_pdu :: "u8 list"

section \<open>State of the hooks\<close>

record ll_parser =
  fw :: fw_state
  result :: bool
  llcp_len_req_pending :: s32
  llcp_cpr_pending :: s32

definition ll_parser_init :: ll_parser where
  "ll_parser_init = \<lparr>fw = fw_state_init, result = False, llcp_len_req_pending = 0, llcp_cpr_pending = 0\<rparr>"

text \<open>The two macros as steps of the hooks; the value of the first is not used by any of them.\<close>

definition ll_check :: "u16 \<Rightarrow> u16 \<Rightarrow> ifw_state_class \<Rightarrow> ll_parser \<Rightarrow> ll_parser cres option" where
  "ll_check v ty cls s =
     Some (c_bind (IFW_FSM_CHECK_UPDATE v ty (class_code cls) (fw s)) (\<lambda>(_, f). Inr (s\<lparr>fw := f\<rparr>)))"

definition ll_verify :: "platform \<Rightarrow> u16 \<Rightarrow> ifw_state_class \<Rightarrow> ll_parser \<Rightarrow> (bool \<times> ll_parser) cres option" where
  "ll_verify pl ty cls s =
     m_bind (IFW_RUN_VERIFIER pl ty (class_code cls) (fw s)) (\<lambda>(b, f). Some (Inr (b, s\<lparr>fw := f\<rparr>)))"

text \<open>\<open>n++\<close> on a static \<open>int\<close>.\<close>

definition s32_inc :: "s32 \<Rightarrow> s32 cres" where
  "s32_inc n = (if n = 0x7FFFFFFF then Inl Signed_overflow else Inr (n + 1))"

section \<open>Counting channels\<close>

text \<open>Clearing the lowest set bit of a number removes exactly one bit.\<close>

fun pop_count :: "nat \<Rightarrow> nat \<Rightarrow> nat" where
  "pop_count 0 n = 0"
| "pop_count (Suc k) n = n mod 2 + pop_count k (n div 2)"

lemma pop_count_clear: "0 < n \<Longrightarrow> n < 2 ^ k \<Longrightarrow> pop_count k n = Suc (pop_count k (n AND (n - 1)))"
proof (induction k arbitrary: n)
  case (Suc k)
  show ?case
  proof (cases "even n")
    case True
    then obtain m where m: "n = 2 * m" by blast
    then have "(2 * m - Suc 0) div 2 = m - Suc 0" using Suc.prems by arith
    then have "n AND (n - 1) = 2 * (m AND (m - 1))" using m and_rec [of n "n - 1"] by simp
    then show ?thesis using Suc m by simp
  next
    case False
    then obtain m where m: "n = 2 * m + 1" by (blast elim: oddE)
    then have "n AND (n - 1) = 2 * m" using and_rec [of n "n - 1"] by simp
    then show ?thesis using m by simp
  qed
qed simp

lemma pop_count_filter: "pop_count k n = length (filter (bit n) [0..<k])"
proof (induction k arbitrary: n)
  case (Suc k)
  have "[0..<Suc k] = 0 # map Suc [0..<k]" by (simp add: upt_conv_Cons map_Suc_upt del: upt_Suc)
  then show ?case using Suc by (simp add: bit_0 bit_Suc filter_map o_def mod_2_eq_odd del: upt_Suc)
qed simp

text \<open>The number of set bits of an octet, and of a sequence of octets.\<close>

definition bits_set :: "u8 \<Rightarrow> nat" where
  "bits_set b = length (filter (bit b) [0..<8])"

definition channels_used :: "u8 list \<Rightarrow> nat" where
  "channels_used bs = sum_list (map bits_set bs)"

lemma bits_set_le: "bits_set b \<le> 8"
  using length_filter_le [of "bit b" "[0..<8]"] by (simp add: bits_set_def del: length_filter_le)

lemma channels_used_le: "channels_used bs \<le> 8 * length bs"
  by (induction bs) (auto simp: channels_used_def intro: add_mono bits_set_le)

lemma clear_lowest:
  assumes "(x :: u8) \<noteq> 0"
  shows "x AND (x - 1) < x" "bits_set x = Suc (bits_set (x AND (x - 1)))"
proof -
  show "x AND (x - 1) < x"
    using unat_minus_one [OF assms] assms
    by (intro order.strict_trans1 [OF word_and_le1]) (simp add: word_less_nat_alt unat_gt_0)
  have "bits_set y = pop_count 8 (unat y)" for y
    unfolding bits_set_def pop_count_filter
    by (intro arg_cong [of _ _ length] filter_cong) (simp_all add: bit_unsigned_iff)
  moreover have "0 < unat x" "unat x < 2 ^ 8"
    using assms unsigned_less [of x] by (simp_all add: unat_gt_0)
  moreover have "unat (x - 1) = unat x - 1" using assms by (rule unat_minus_one)
  ultimately show "bits_set x = Suc (bits_set (x AND (x - 1)))"
    using pop_count_clear [of "unat x" 8] by (simp add: unsigned_and_eq)
qed

function count_bite :: "u8 \<Rightarrow> u8 \<Rightarrow> u8" where
  "count_bite bite one_count =
     (if bite \<noteq> 0 then count_bite (bite AND (bite - 1)) (one_count + 1) else one_count)"
  by pat_completeness auto
termination
proof (relation "measure (\<lambda>(b, _). unat b)")
  fix bite one_count :: u8
  assume "bite \<noteq> 0"
  from clear_lowest(1) [OF this]
  show "((bite AND (bite - 1), one_count + 1), bite, one_count) \<in> measure (\<lambda>(b, _). unat b)"
    by (simp only: in_measure prod.case word_less_nat_alt)
qed simp

declare count_bite.simps [simp del]

fun count_octets :: "nat \<Rightarrow> u8 list \<Rightarrow> u8 \<Rightarrow> u8 cres" where
  "count_octets 0 octets one_count = Inr one_count"
| "count_octets (Suc n) [] one_count = Inl Oob_read"
| "count_octets (Suc n) (b # octets) one_count = count_octets n octets (count_bite b one_count)"

definition ifw_count_one :: "u8 list \<Rightarrow> u8 cres" where
  "ifw_count_one octets = count_octets 5 octets 0"

lemma count_bite_add:
  "count_bite b n = n + word_of_nat (bits_set b)"
proof (induction b n rule: count_bite.induct)
  case (1 b n)
  show ?case
  proof (cases "b = 0")
    case True
    then show ?thesis by (simp add: count_bite.simps [of 0 n] bits_set_def)
  next
    case False
    then show ?thesis
      using 1 [OF False] clear_lowest(2) [OF False] by (simp add: count_bite.simps [of b n])
  qed
qed

lemma count_octets_add:
  "n \<le> length bs \<Longrightarrow> count_octets n bs c = Inr (c + word_of_nat (channels_used (take n bs)))"
  by (induction n bs c rule: count_octets.induct) (simp_all add: count_bite_add channels_used_def)

lemma ifw_count_one_eq:
  "5 \<le> length octets \<Longrightarrow> ifw_count_one octets = Inr (word_of_nat (channels_used (take 5 octets)))"
  by (simp add: ifw_count_one_def count_octets_add)

lemma channels_used_take: "channels_used (take 5 octets) \<le> 40"
  using channels_used_le [of "take 5 octets"] by simp

section \<open>The hooks\<close>

definition ifw_ll_packet_parser_tx ::
  "platform \<Rightarrow> u8 list option \<Rightarrow> ll_parser \<Rightarrow> (bool \<times> ll_parser) cres option" where
  "ifw_ll_packet_parser_tx pl pduo s =
     (case pduo of
        None \<Rightarrow> Some (Inr (False, s))
      | Some pdu \<Rightarrow>
          m_bind (Some (pdu_adv_type pdu)) (\<lambda>ty.
          if ty = PDU_ADV_TYPE_SCAN_RSP then
            m_bind (Some (pdu_adv_len pdu)) (\<lambda>len.
            m_bind (ll_check (ucast len) (conn_type SCAN_RSP_LEN) CONN s) (\<lambda>s.
            m_bind (ll_verify pl (conn_type SCAN_RSP_LEN) CONN s) (\<lambda>(rej, s).
            Some (Inr (rej, s)))))
          else Some (Inr (False, s))))"

definition ifw_peripheral_setup ::
  "platform \<Rightarrow> u8 list \<Rightarrow> lll_conn \<Rightarrow> ll_parser \<Rightarrow> (lll_conn \<times> ll_parser) cres option" where
  "ifw_peripheral_setup pl pdu_adv lll s =
     m_bind (Some (ci_crc_init pdu_adv)) (\<lambda>crc.
     m_bind (Some (ci_access_addr pdu_adv)) (\<lambda>aa.
     m_bind (Some (ci_chan_map pdu_adv)) (\<lambda>chm.
     let lll = lll\<lparr>crc_init := crc, access_addr := aa, data_chan_map := chm\<rparr>;
         s = s\<lparr>llcp_len_req_pending := 0, llcp_cpr_pending := 0\<rparr> in
     m_bind (ll_check 1 (dc_type DC_ANCHOR_STATE) DC s) (\<lambda>s.
     m_bind (Some (ifw_count_one (data_chan_map lll))) (\<lambda>n.
     let lll = lll\<lparr>data_chan_count := ucast n\<rparr> in
     m_bind (ll_check (ucast (data_chan_count lll)) (conn_type CHANNEL_MAP) CONN s) (\<lambda>s.
     m_bind (ll_verify pl (conn_type CHANNEL_MAP) CONN s) (\<lambda>(rej, s).
     if rej then Some (Inr (lll, s\<lparr>result := True\<rparr>))
     else
       m_bind (Some (ci_hop pdu_adv)) (\<lambda>hop.
       let lll = lll\<lparr>data_chan_hop := ucast hop\<rparr> in
       m_bind (ll_check (ucast (data_chan_hop lll)) (conn_type CHANNEL_HOP) CONN s) (\<lambda>s.
       m_bind (ll_verify pl (conn_type CHANNEL_HOP) CONN s) (\<lambda>(rej, s).
       if rej then Some (Inr (lll, s\<lparr>result := True\<rparr>))
       else
         m_bind (Some (ci_interval pdu_adv)) (\<lambda>iv.
         let lll = lll\<lparr>interval := iv\<rparr> in
         m_bind (ll_check (interval lll) (conn_type LLL_INTERVAL) CONN s) (\<lambda>s.
         m_bind (ll_verify pl (conn_type LLL_INTERVAL) CONN s) (\<lambda>(rej, s).
         Some (Inr (lll, if rej then s\<lparr>result := True\<rparr> else s)))))))))))))))"

text \<open>\<open>ifw_central_setup\<close> is empty.\<close>

definition ifw_conn_setup ::
  "platform \<Rightarrow> u8 list \<Rightarrow> lll_conn \<Rightarrow> ll_parser \<Rightarrow> (lll_conn \<times> ll_parser) cres option" where
  "ifw_conn_setup pl pdu lll s =
     (if lll_role lll = 0 then
        m_bind (ll_check (ble_role_code IFW_BLE_ROLE_CENTRAL) (core_type BLE_ROLE) CORE s) (\<lambda>s.
        m_bind (ll_verify pl (core_type BLE_ROLE) CORE s) (\<lambda>(rej, s).
        Some (Inr (lll, if rej then s\<lparr>result := True\<rparr> else s))))
      else
        m_bind (ifw_peripheral_setup pl pdu lll s) (\<lambda>(lll, s).
        m_bind (ll_check (ble_role_code IFW_BLE_ROLE_PERIPHERAL) (core_type BLE_ROLE) CORE s) (\<lambda>s.
        m_bind (ll_verify pl (core_type BLE_ROLE) CORE s) (\<lambda>(rej, s).
        Some (Inr (lll, if rej then s\<lparr>result := True\<rparr> else s))))))"

definition ifw_ctrl_rx :: "platform \<Rightarrow> u8 list \<Rightarrow> ll_parser \<Rightarrow> ll_parser cres option" where
  "ifw_ctrl_rx pl pdu_rx s =
     m_bind (Some (llctrl_opcode pdu_rx)) (\<lambda>opcode.
     if opcode = PDU_DATA_LLCTRL_TYPE_CONN_UPDATE_IND then
       m_bind (Some (cu_interval pdu_rx)) (\<lambda>new_interval.
       m_bind (ll_check new_interval (conn_type LLL_INTERVAL) CONN s) (\<lambda>s.
       m_bind (ll_verify pl (conn_type LLL_INTERVAL) CONN s) (\<lambda>(rej, s).
       Some (Inr (if rej then s\<lparr>result := True\<rparr> else s)))))
     else if opcode = PDU_DATA_LLCTRL_TYPE_CHAN_MAP_IND then
       m_bind (Some (c_bind (cm_chm pdu_rx) ifw_count_one)) (\<lambda>new_count.
       m_bind (ll_check (ucast new_count) (conn_type CHANNEL_MAP) CONN s) (\<lambda>s.
       m_bind (ll_verify pl (conn_type CHANNEL_MAP) CONN s) (\<lambda>(rej, s).
       Some (Inr (if rej then s\<lparr>result := True\<rparr> else s)))))
     else if opcode = PDU_DATA_LLCTRL_TYPE_LENGTH_REQ then
       m_bind (Some (s32_inc (llcp_len_req_pending s))) (\<lambda>n.
       m_bind (ll_check (ucast n) (dc_type LLCP_LEN_REQ) DC (s\<lparr>llcp_len_req_pending := n\<rparr>)) (\<lambda>s.
       m_bind (ll_verify pl (dc_type LLCP_LEN_REQ) DC s) (\<lambda>(rej, s).
       Some (Inr (if rej then s\<lparr>result := True\<rparr> else s)))))
     else if opcode = PDU_DATA_LLCTRL_TYPE_LENGTH_RSP then
       Some (Inr (if sint (llcp_len_req_pending s) > 0
                  then s\<lparr>llcp_len_req_pending := llcp_len_req_pending s - 1\<rparr> else s))
     else if opcode = PDU_DATA_LLCTRL_TYPE_CONN_PARAM_REQ then
       m_bind (Some (s32_inc (llcp_cpr_pending s))) (\<lambda>n.
       m_bind (ll_check (ucast n) (dc_type LLCP_CONN_PARAM_REQ) DC (s\<lparr>llcp_cpr_pending := n\<rparr>)) (\<lambda>s.
       m_bind (ll_verify pl (dc_type LLCP_CONN_PARAM_REQ) DC s) (\<lambda>(rej, s).
       Some (Inr (if rej then s\<lparr>result := True\<rparr> else s)))))
     else if opcode = PDU_DATA_LLCTRL_TYPE_CONN_PARAM_RSP then
       Some (Inr (if sint (llcp_cpr_pending s) > 0
                  then s\<lparr>llcp_cpr_pending := llcp_cpr_pending s - 1\<rparr> else s))
     else Some (Inr s))"

definition ifw_conn_rx :: "platform \<Rightarrow> u8 list \<Rightarrow> ll_parser \<Rightarrow> ll_parser cres option" where
  "ifw_conn_rx pl pdu_rx s =
     m_bind (Some (pdu_nesn pdu_rx)) (\<lambda>nesn.
     m_bind (ll_check (ucast nesn) (dc_type NESN) DC s) (\<lambda>s.
     m_bind (Some (pdu_sn pdu_rx)) (\<lambda>sn.
     m_bind (ll_check (ucast sn) (dc_type SN) DC s) (\<lambda>s.
     m_bind (ll_verify pl (dc_type NESN) DC s) (\<lambda>(rej, s).
     if rej then Some (Inr (s\<lparr>result := True\<rparr>))
     else
       m_bind (ll_check 0 (dc_type DC_ANCHOR_STATE) DC s) (\<lambda>s.
       m_bind (Some (pdu_ll_id pdu_rx)) (\<lambda>ll_id.
       if ll_id = PDU_DATA_LLID_CTRL then ifw_ctrl_rx pl pdu_rx s else Some (Inr s))))))))"

text \<open>The connection of the node is the one its footer points to.\<close>

definition ifw_ll_packet_parser_rx ::
  "platform \<Rightarrow> node_rx_pdu \<Rightarrow> lll_conn \<Rightarrow> ll_parser \<Rightarrow> (bool \<times> lll_conn \<times> ll_parser) cres option" where
  "ifw_ll_packet_parser_rx pl rx lll s =
     (let s = s\<lparr>result := False\<rparr> in
      if rx_type rx = NODE_RX_TYPE_EVENT_DONE then Some (Inr (False, lll, s))
      else if rx_type rx = NODE_RX_TYPE_CONNECTION then
        m_bind (ifw_conn_setup pl (rx_pdu rx) lll s) (\<lambda>(lll, s). Some (Inr (result s, lll, s)))
      else if rx_type rx = NODE_RX_TYPE_DC_PDU then
        m_bind (ifw_conn_rx pl (rx_pdu rx) s) (\<lambda>s. Some (Inr (result s, lll, s)))
      else Some (Inr (result s, lll, s)))"

text \<open>The use of the hook in \<open>rx_demux_rx\<close>: a rejected node becomes one to release.\<close>

definition rx_demux_filter ::
  "platform \<Rightarrow> node_rx_pdu \<Rightarrow> lll_conn \<Rightarrow> ll_parser \<Rightarrow> (node_rx_pdu \<times> lll_conn \<times> ll_parser) cres option" where
  "rx_demux_filter pl rx lll s =
     m_bind (ifw_ll_packet_parser_rx pl rx lll s) (\<lambda>(rej, lll, s).
     Some (Inr (if rej then rx\<lparr>rx_type := NODE_RX_TYPE_DC_PDU_RELEASE\<rparr> else rx, lll, s)))"

section \<open>Running the hooks\<close>

lemma returns_check_conn [returns_rules]:
  assumes "fw_inv pl (fw s)" "ty < conn_type IFW_CONN_PARAM_NUM"
    and "\<And>f. \<lbrakk>fw_inv pl f; newFSMState f = put_conn (unat ty) v (newFSMState (fw s))\<rbrakk> \<Longrightarrow> returns (k (s\<lparr>fw := f\<rparr>)) P"
  shows "returns (m_bind (ll_check v ty CONN s) k) P"
  using core.update_conn [OF assms(1,2), of v] assms(3) by (auto simp: ll_check_def)

lemma returns_check_dc [returns_rules]:
  assumes "fw_inv pl (fw s)" "ty < dc_type IFW_DC_PARAM_NUM"
    and "\<And>f. \<lbrakk>fw_inv pl f; newFSMState f = put_dc (unat ty) v (newFSMState (fw s))\<rbrakk> \<Longrightarrow> returns (k (s\<lparr>fw := f\<rparr>)) P"
  shows "returns (m_bind (ll_check v ty DC s) k) P"
  using core.update_dc [OF assms(1,2), of v] assms(3) by (auto simp: ll_check_def)

lemma returns_check_core [returns_rules]:
  assumes "fw_inv pl (fw s)" "ty < core_type IFW_CORE_STATE_NUM"
    and "\<And>f. \<lbrakk>fw_inv pl f; newFSMState f = put_core (unat ty) v (newFSMState (fw s))\<rbrakk> \<Longrightarrow> returns (k (s\<lparr>fw := f\<rparr>)) P"
  shows "returns (m_bind (ll_check v ty CORE s) k) P"
  using core.update_core [OF assms(1,2), of v] assms(3) by (auto simp: ll_check_def)

lemma returns_verify [returns_rules]:
  assumes "fw_inv pl (fw s)" "slot_in_range (uint (class_code cls)) (uint ty)"
    and "\<And>f. \<lbrakk>fw_inv pl f; newFSMState f = newFSMState (fw s)\<rbrakk> \<Longrightarrow>
      returns (k (source_verdict (uint (class_code cls)) (uint ty) (newFSMState (fw s)) = IFW_OPERATION_REJECT,
                  s\<lparr>fw := f\<rparr>)) P"
  shows "returns (m_bind (ll_verify pl ty cls s) k) P"
  using core.verify_verdict [OF assms(1,2)] assms(3) by (auto simp: ll_verify_def)

section \<open>What the hooks decide\<close>

text \<open>
  The specification: a machine over the packets, with the anchor gate and the two counters of
  requests in flight. The counters are compared after truncation to sixteen bits.
\<close>

datatype ll_ctrl =
    Conn_update nat
  | Chan_map nat
  | Length_req
  | Length_rsp
  | Conn_param_req
  | Conn_param_rsp
  | Other_ctrl

datatype ll_event =
    Connect nat nat nat
  | Data bool bool ll_ctrl
  | Other_event

record ll_spec =
  anchor :: bool
  len_reqs :: nat
  cprs :: nat

fun ctrl_step :: "ll_ctrl \<Rightarrow> ll_spec \<Rightarrow> bool \<times> ll_spec" where
  "ctrl_step (Conn_update iv) a = (iv = 0, a)"
| "ctrl_step (Chan_map n) a = (n < 2, a)"
| "ctrl_step Length_req a = (Suc (len_reqs a) mod 2 ^ 16 > 1, a\<lparr>len_reqs := Suc (len_reqs a)\<rparr>)"
| "ctrl_step Length_rsp a = (False, a\<lparr>len_reqs := len_reqs a - 1\<rparr>)"
| "ctrl_step Conn_param_req a = (Suc (cprs a) mod 2 ^ 16 > 1, a\<lparr>cprs := Suc (cprs a)\<rparr>)"
| "ctrl_step Conn_param_rsp a = (False, a\<lparr>cprs := cprs a - 1\<rparr>)"
| "ctrl_step Other_ctrl a = (False, a)"

fun ll_step :: "ll_event \<Rightarrow> ll_spec \<Rightarrow> bool \<times> ll_spec" where
  "ll_step (Connect channels hop iv) a =
     (channels < 2 \<or> hop < 5 \<or> hop > 16 \<or> iv = 0, \<lparr>anchor = True, len_reqs = 0, cprs = 0\<rparr>)"
| "ll_step (Data nesn sn c) a =
     (if anchor a \<and> nesn \<and> sn then (True, a) else ctrl_step c (a\<lparr>anchor := False\<rparr>))"
| "ll_step Other_event a = (False, a)"

text \<open>The packet a node carries.\<close>

definition ctrl_of :: "u8 list \<Rightarrow> ll_ctrl" where
  "ctrl_of bs =
     (if bs ! 0 AND 3 \<noteq> 3 then Other_ctrl
      else if bs ! 3 = PDU_DATA_LLCTRL_TYPE_CONN_UPDATE_IND then Conn_update (le16_at bs 7)
      else if bs ! 3 = PDU_DATA_LLCTRL_TYPE_CHAN_MAP_IND then Chan_map (channels_used (take 5 (drop 4 bs)))
      else if bs ! 3 = PDU_DATA_LLCTRL_TYPE_LENGTH_REQ then Length_req
      else if bs ! 3 = PDU_DATA_LLCTRL_TYPE_LENGTH_RSP then Length_rsp
      else if bs ! 3 = PDU_DATA_LLCTRL_TYPE_CONN_PARAM_REQ then Conn_param_req
      else if bs ! 3 = PDU_DATA_LLCTRL_TYPE_CONN_PARAM_RSP then Conn_param_rsp
      else Other_ctrl)"

definition event_of :: "node_rx_pdu \<Rightarrow> lll_conn \<Rightarrow> ll_event" where
  "event_of rx lll =
     (let bs = rx_pdu rx in
      if rx_type rx = NODE_RX_TYPE_CONNECTION \<and> lll_role lll = 1
      then Connect (channels_used (take 5 (drop 30 bs))) (unat (bs ! 35 AND 31)) (le16_at bs 24)
      else if rx_type rx = NODE_RX_TYPE_DC_PDU then Data (bit (bs ! 0) 2) (bit (bs ! 0) 3) (ctrl_of bs)
      else Other_event)"

definition wf_node :: "node_rx_pdu \<Rightarrow> bool" where
  "wf_node rx \<longleftrightarrow> 36 \<le> length (rx_pdu rx)"

definition ll_abs :: "ll_parser \<Rightarrow> ll_spec" where
  "ll_abs s =
     \<lparr>anchor = (dc_param (newFSMState (fw s)) ! unat (dc_type DC_ANCHOR_STATE) = 1),
      len_reqs = unat (llcp_len_req_pending s), cprs = unat (llcp_cpr_pending s)\<rparr>"

definition ll_inv :: "platform \<Rightarrow> nat \<Rightarrow> ll_parser \<Rightarrow> bool" where
  "ll_inv pl n s \<longleftrightarrow>
     fw_inv pl (fw s) \<and> unat (llcp_len_req_pending s) \<le> n \<and> unat (llcp_cpr_pending s) \<le> n"

section \<open>Reading the fields\<close>

lemma u8_to_5: "unat (ucast (b :: u8) :: 5 word) = unat (b AND 31)"
  by (simp add: unsigned_ucast_eq unsigned_and_eq take_bit_eq_mask mask_eq_exp_minus_1)

lemma u8_to_1: "(ucast (drop_bit n (b :: u8)) :: 1 word) = of_bool (bit b n)"
  by (rule bit_word_eqI) (simp add: bit_ucast_iff bit_drop_bit_eq bit_of_bool_iff)

lemma u8_to_2: "(ucast (b :: u8) :: 2 word) = 3 \<longleftrightarrow> b AND 3 = 3"
proof -
  have "unat (ucast b :: 2 word) = unat (b AND 3)"
  proof -
    have "b AND 3 = take_bit 2 b" by (simp add: take_bit_eq_mask mask_eq_exp_minus_1)
    then show ?thesis by (simp add: unsigned_ucast_eq unsigned_take_bit_eq)
  qed
  then show ?thesis using word_unat_eq_iff [of "b AND 3" 3] word_unat_eq_iff [of "ucast b :: 2 word" 3] by simp
qed

text \<open>The verdicts of the sources on a state a hook has just written.\<close>

lemma verdict_conn:
  assumes "wf_fsm st"
  shows "conn_chan_map_filter (put_conn 0 v st) = IFW_OPERATION_REJECT \<longleftrightarrow> unat v < 2"
    "conn_chan_hop_filter (put_conn 1 v st) = IFW_OPERATION_REJECT \<longleftrightarrow> unat v < 5 \<or> unat v > 16"
    "lll_interval_filter (put_conn 3 v st) = IFW_OPERATION_REJECT \<longleftrightarrow> unat v = 0"
    "scan_rsp_len_filter (put_conn 2 v st) = IFW_OPERATION_REJECT \<longleftrightarrow> unat v > 80"
  using assms
  by (auto simp: wf_fsm_def policy_filter_defs ifw_codes u16_compare ucast_u16_eq)

lemma verdict_dc:
  assumes "wf_fsm st"
  shows "llcp_len_req_filter (put_dc 2 v st) = IFW_OPERATION_REJECT \<longleftrightarrow> unat v > 1"
    "llcp_conn_param_req_filter (put_dc 6 v st) = IFW_OPERATION_REJECT \<longleftrightarrow> unat v > 1"
    "dc_nesn_filter (put_dc 0 w (put_dc 1 v st)) = IFW_OPERATION_REJECT \<longleftrightarrow>
       dc_param st ! 14 = 1 \<and> v = 1 \<and> w = 1"
  using assms
  by (auto simp: wf_fsm_def policy_filter_defs ifw_codes u16_compare ucast_u16_eq)

section \<open>The hooks follow the specification\<close>

lemma read_ok [simp]:
  "36 \<le> length bs \<Longrightarrow> ci_crc_init bs = Inr (take 3 (drop 18 bs))"
  "36 \<le> length bs \<Longrightarrow> ci_access_addr bs = Inr (take 4 (drop 14 bs))"
  "36 \<le> length bs \<Longrightarrow> ci_chan_map bs = Inr (take 5 (drop 30 bs))"
  "36 \<le> length bs \<Longrightarrow> ci_hop bs = Inr (ucast (bs ! 35))"
  "36 \<le> length bs \<Longrightarrow> pdu_ll_id bs = Inr (ucast (bs ! 0))"
  "36 \<le> length bs \<Longrightarrow> pdu_nesn bs = Inr (of_bool (bit (bs ! 0) 2))"
  "36 \<le> length bs \<Longrightarrow> pdu_sn bs = Inr (of_bool (bit (bs ! 0) 3))"
  "36 \<le> length bs \<Longrightarrow> llctrl_opcode bs = Inr (bs ! 3)"
  "36 \<le> length bs \<Longrightarrow> cm_chm bs = Inr (take 5 (drop 4 bs))"
  by (simp_all add: ci_crc_init_def ci_access_addr_def ci_chan_map_def ci_hop_def pdu_ll_id_def pdu_nesn_def
      pdu_sn_def llctrl_opcode_def cm_chm_def read_mem_def read8_def u8_to_1) auto

lemma read_interval:
  assumes "36 \<le> length bs"
  shows "\<exists>w. ci_interval bs = Inr w \<and> unat w = le16_at bs 24" "\<exists>w. cu_interval bs = Inr w \<and> unat w = le16_at bs 7"
  using assms read_le16_ok [of 24 bs] read_le16_ok [of 7 bs] by (simp_all add: ci_interval_def cu_interval_def)

lemma channel_count:
  assumes "36 \<le> length bs" "i + 5 \<le> 36"
  shows "ifw_count_one (take 5 (drop i bs)) = Inr (word_of_nat (channels_used (take 5 (drop i bs))))"
    "channels_used (take 5 (drop i bs)) \<le> 40"
  using assms ifw_count_one_eq [of "take 5 (drop i bs)"] channels_used_take [of "drop i bs"] by simp_all

lemma count_widths:
  assumes "n \<le> 40"
  shows "unat (ucast (ucast (word_of_nat n :: u8) :: 6 word) :: u16) = n" "unat (ucast (word_of_nat n :: u8) :: u16) = n"
  using assms by (simp_all add: unsigned_ucast_eq unsigned_of_nat take_bit_eq_mod)

lemma hop_width: "unat (ucast (ucast (w :: 5 word) :: u8) :: u16) = unat w"
proof -
  have "unat w < 32" using unsigned_less [of w, where 'a = nat] by simp
  then show ?thesis by (simp add: unsigned_ucast_eq unsigned_take_bit_eq take_bit_nat_eq_self)
qed

lemma fw_inv_wf: "fw_inv pl f \<Longrightarrow> wf_fsm (newFSMState f)"
  by (simp add: fw_inv_def)

lemmas hook_simps = source_verdicts slot_in_range_def verdict_conn [simplified] verdict_dc [simplified]

lemma peripheral_refines:
  assumes "fw_inv pl (fw s)" "36 \<le> length bs" "\<not> result s"
  shows "returns (ifw_peripheral_setup pl bs lll s) (\<lambda>(lll', s'). fw_inv pl (fw s') \<and>
     (result s' \<longleftrightarrow> channels_used (take 5 (drop 30 bs)) < 2 \<or> unat (bs ! 35 AND 31) < 5 \<or>
        unat (bs ! 35 AND 31) > 16 \<or> le16_at bs 24 = 0) \<and>
     dc_param (newFSMState (fw s')) ! 14 = 1 \<and> llcp_len_req_pending s' = 0 \<and> llcp_cpr_pending s' = 0)"
proof -
  let ?n = "channels_used (take 5 (drop 30 bs))"
  note wf = fw_inv_wf [OF assms(1)]
  obtain iv where iv: "ci_interval bs = Inr iv" "unat iv = le16_at bs 24" using read_interval [OF assms(2)] by blast
  note n = channel_count [OF assms(2), of 30] count_widths [of ?n]
  have hop: "unat (ucast (ucast (ucast (bs ! 35) :: 5 word) :: u8) :: u16) = unat (bs ! 35 AND 31)"
    by (simp only: hop_width u8_to_5)
  have len: "length (dc_param (newFSMState (fw s))) = 15" using wf by (simp add: wf_fsm_def)
  show ?thesis
    unfolding ifw_peripheral_setup_def Let_def
    apply (rule returns_read, simp add: assms)+
    apply (rule returns_check_dc [of pl], simp add: assms, simp)
    apply (rule returns_read, simp add: n)
    apply (rule returns_check_conn [of pl], simp, simp)
    apply (rule returns_verify, simp, simp add: slot_in_range_def)
    apply (simp only: prod.case)
    apply (rule returns_if)
    apply (simp add: hook_simps wf n len)
    apply (rule returns_read, simp add: assms)
    apply (rule returns_check_conn [of pl], simp, simp)
    apply (rule returns_verify, simp, simp add: slot_in_range_def)
    apply (simp only: prod.case)
    apply (rule returns_if)
    apply (fastforce simp: hook_simps wf n len hop)
    apply (rule returns_read, rule iv)
    apply (rule returns_check_conn [of pl], simp, simp)
    apply (rule returns_verify, simp, simp add: slot_in_range_def)
    apply (simp add: hook_simps wf n len hop iv assms)
    done
qed

lemma conn_setup_refines:
  assumes "fw_inv pl (fw s)" "36 \<le> length bs" "\<not> result s" "lll_role lll = 1"
  shows "returns (ifw_conn_setup pl bs lll s) (\<lambda>(lll', s'). fw_inv pl (fw s') \<and>
     (result s' \<longleftrightarrow> channels_used (take 5 (drop 30 bs)) < 2 \<or> unat (bs ! 35 AND 31) < 5 \<or>
        unat (bs ! 35 AND 31) > 16 \<or> le16_at bs 24 = 0) \<and>
     dc_param (newFSMState (fw s')) ! 14 = 1 \<and> llcp_len_req_pending s' = 0 \<and> llcp_cpr_pending s' = 0)"
  using assms(4) unfolding ifw_conn_setup_def
  apply (simp split del: if_split)
  apply (rule returns_bind [OF peripheral_refines [OF assms(1-3)]])
  apply (clarsimp split del: if_split)
  apply (rule returns_check_core [of pl], simp, simp)
  apply (rule returns_verify, simp, simp add: slot_in_range_def)
  apply (simp add: source_verdicts ifw_codes)
  done

lemma central_refines:
  assumes "fw_inv pl (fw s)" "lll_role lll = 0"
  shows "returns (ifw_conn_setup pl bs lll s) (\<lambda>(lll', s'). fw_inv pl (fw s') \<and> result s' = result s \<and>
     ll_abs s' = ll_abs s)"
  using assms(2) unfolding ifw_conn_setup_def
  apply (simp split del: if_split)
  apply (rule returns_check_core [of pl], simp add: assms(1), simp)
  apply (rule returns_verify, simp, simp add: slot_in_range_def)
  apply (simp add: source_verdicts ifw_codes ll_abs_def)
  done

text \<open>The counters: an increment below the largest \<open>int\<close>, and a guarded decrement.\<close>

lemma s32_inc_ok:
  assumes "unat (n :: s32) < 2 ^ 31 - 1"
  shows "s32_inc n = Inr (n + 1)" "unat (n + 1) = Suc (unat n)"
    "unat (ucast (n + 1) :: u16) = Suc (unat n) mod 2 ^ 16"
proof -
  have "n \<noteq> 0x7FFFFFFF" using assms by auto
  then show "s32_inc n = Inr (n + 1)" by (simp add: s32_inc_def)
  show u: "unat (n + 1) = Suc (unat n)" using assms by (simp add: unat_word_ariths)
  show "unat (ucast (n + 1) :: u16) = Suc (unat n) mod 2 ^ 16"
    unfolding unsigned_ucast_eq by (simp add: u take_bit_eq_mod)
qed

lemma s32_dec:
  assumes "unat (n :: s32) < 2 ^ 31"
  shows "unat (if sint n > 0 then n - 1 else n) = unat n - 1"
proof -
  have "uint n = int (unat n)" by simp
  moreover have "unat n < 2147483648" using assms by simp
  ultimately have "uint n < 2147483648" by linarith
  then have "uint n < 2 ^ 31" by simp
  then have "sint n = uint n" by (rule sint_small)
  then show ?thesis using unat_minus_one [of n] by (cases "n = 0") (simp_all add: uint_0_iff less_le)
qed

lemma ctrl_refines:
  assumes "fw_inv pl (fw s)" "36 \<le> length bs" "\<not> result s" "bs ! 0 AND 3 = 3"
    and "unat (llcp_len_req_pending s) < 2 ^ 31 - 1" "unat (llcp_cpr_pending s) < 2 ^ 31 - 1"
  shows "returns (ifw_ctrl_rx pl bs s) (\<lambda>s'. fw_inv pl (fw s') \<and>
     (result s', ll_abs s') = ctrl_step (ctrl_of bs) (ll_abs s))"
proof -
  note wf = fw_inv_wf [OF assms(1)]
  have len: "length (dc_param (newFSMState (fw s))) = 15" using wf by (simp add: wf_fsm_def)
  obtain iv where iv: "cu_interval bs = Inr iv" "unat iv = le16_at bs 7" using read_interval [OF assms(2)] by blast
  have n: "c_bind (cm_chm bs) ifw_count_one = Inr (word_of_nat (channels_used (take 5 (drop 4 bs))))"
      "unat (ucast (word_of_nat (channels_used (take 5 (drop 4 bs))) :: u8) :: u16) = channels_used (take 5 (drop 4 bs))"
    using channel_count [OF assms(2), of 4] count_widths assms(2) by simp_all
  note req = s32_inc_ok [OF assms(5)] s32_inc_ok [OF assms(6)] and rsp = s32_dec [of "llcp_len_req_pending s"] s32_dec [of "llcp_cpr_pending s"]
  show ?thesis
    unfolding ifw_ctrl_rx_def
    apply (rule returns_read, simp add: assms)
    apply (intro returns_if)
    subgoal
      apply (rule returns_read, rule iv)
      apply (rule returns_check_conn [of pl], simp add: assms, simp)
      apply (rule returns_verify, simp, simp add: slot_in_range_def)
      apply (simp add: hook_simps wf iv ctrl_of_def assms ll_abs_def)
      done
    subgoal
      apply (rule returns_read, rule n)
      apply (rule returns_check_conn [of pl], simp add: assms, simp)
      apply (rule returns_verify, simp, simp add: slot_in_range_def)
      apply (simp add: hook_simps wf n ctrl_of_def assms ll_abs_def)
      done
    subgoal
      apply (rule returns_read, rule req)
      apply (rule returns_check_dc [of pl], simp add: assms, simp)
      apply (rule returns_verify, simp, simp add: slot_in_range_def)
      apply (simp add: hook_simps wf req ctrl_of_def assms ll_abs_def len)
      done
    subgoal using rsp assms by (auto simp: ctrl_of_def ll_abs_def split: if_splits)
    subgoal
      apply (rule returns_read, rule req)
      apply (rule returns_check_dc [of pl], simp add: assms, simp)
      apply (rule returns_verify, simp, simp add: slot_in_range_def)
      apply (simp add: hook_simps wf req ctrl_of_def assms ll_abs_def len)
      done
    subgoal using rsp assms by (auto simp: ctrl_of_def ll_abs_def split: if_splits)
    subgoal using assms by (simp add: ctrl_of_def)
    done
qed

lemma conn_rx_refines:
  assumes "fw_inv pl (fw s)" "36 \<le> length bs" "\<not> result s"
    and "unat (llcp_len_req_pending s) < 2 ^ 31 - 1" "unat (llcp_cpr_pending s) < 2 ^ 31 - 1"
  shows "returns (ifw_conn_rx pl bs s) (\<lambda>s'. fw_inv pl (fw s') \<and>
     (result s', ll_abs s') = ll_step (Data (bit (bs ! 0) 2) (bit (bs ! 0) 3) (ctrl_of bs)) (ll_abs s))"
proof -
  note wf = fw_inv_wf [OF assms(1)]
  have len: "length (dc_param (newFSMState (fw s))) = 15" using wf by (simp add: wf_fsm_def)
  have one: "(ucast (of_bool b :: 1 word) :: u16) = 1 \<longleftrightarrow> b" for b by (cases b) simp_all
  show ?thesis
    unfolding ifw_conn_rx_def
    apply (rule returns_read, simp add: assms)
    apply (rule returns_check_dc [of pl], simp add: assms, simp)
    apply (rule returns_read, simp add: assms)
    apply (rule returns_check_dc [of pl], simp, simp)
    apply (rule returns_verify, simp, simp add: slot_in_range_def)
    apply (simp only: prod.case)
    apply (rule returns_if)
    subgoal using assms by (simp add: hook_simps wf one ll_abs_def len)
    apply (rule returns_check_dc [of pl], simp, simp)
    apply (rule returns_read, simp add: assms)
    apply (rule returns_if)
    subgoal premises prems for f fa fb fc
    proof -
      let ?s = "s\<lparr>fw := f, fw := fa, fw := fb, fw := fc\<rparr>"
      have abs: "ll_abs ?s = (ll_abs s)\<lparr>anchor := False\<rparr>"
        and gate: "\<not> (anchor (ll_abs s) \<and> bit (bs ! 0) 2 \<and> bit (bs ! 0) 3)"
        using prems by (auto simp: ll_abs_def len hook_simps wf one)
      have "bs ! 0 AND 3 = 3" using prems by (simp add: PDU_DATA_LLID_CTRL_def u8_to_2)
      then show ?thesis
        using ctrl_refines [of pl ?s bs] prems assms gate abs by (auto simp: returns_def)
    qed
    subgoal using assms by (auto simp: hook_simps wf one ll_abs_def len ctrl_of_def u8_to_2 PDU_DATA_LLID_CTRL_def)
    done
qed

text \<open>One node, and a sequence of nodes.\<close>

lemma ll_step_bounds:
  "len_reqs (snd (ll_step e a)) \<le> Suc (len_reqs a)" "cprs (snd (ll_step e a)) \<le> Suc (cprs a)"
proof -
  have c: "len_reqs (snd (ctrl_step c (a\<lparr>anchor := False\<rparr>))) \<le> Suc (len_reqs a)"
      "cprs (snd (ctrl_step c (a\<lparr>anchor := False\<rparr>))) \<le> Suc (cprs a)" for c
    by (cases c; simp)+
  show "len_reqs (snd (ll_step e a)) \<le> Suc (len_reqs a)" by (cases e) (simp_all add: c)
  show "cprs (snd (ll_step e a)) \<le> Suc (cprs a)" by (cases e) (simp_all add: c)
qed

lemma ll_inv_next:
  assumes "ll_inv pl n s" "fw_inv pl (fw s')" "(b, ll_abs s') = ll_step e (ll_abs s)"
  shows "ll_inv pl (Suc n) s'"
proof -
  have "ll_abs s' = snd (ll_step e (ll_abs s))" using assms(3) by (metis snd_conv)
  then have "len_reqs (ll_abs s') \<le> Suc (len_reqs (ll_abs s))" "cprs (ll_abs s') \<le> Suc (cprs (ll_abs s))"
    using ll_step_bounds [of e "ll_abs s"] by simp_all
  then show ?thesis using assms(1,2) by (simp add: ll_inv_def ll_abs_def)
qed

lemma ll_abs_result [simp]: "ll_abs (s\<lparr>result := b\<rparr>) = ll_abs s"
  by (simp add: ll_abs_def)

lemma role_cases: "(r :: 1 word) = 0 \<or> r = 1"
proof -
  have "unat r < 2" using unsigned_less [of r, where 'a = nat] by simp
  then show ?thesis using word_unat_eq_iff [of r 0] word_unat_eq_iff [of r 1] by (cases "unat r = 0") simp_all
qed

lemma ll_rx_step:
  assumes "ll_inv pl n s" "n < 2 ^ 31 - 1" "wf_node rx"
  shows "returns (ifw_ll_packet_parser_rx pl rx lll s) (\<lambda>(b, lll', s'). fw_inv pl (fw s') \<and>
     (b, ll_abs s') = ll_step (event_of rx lll) (ll_abs s))"
proof -
  let ?s = "s\<lparr>result := False\<rparr>"
  have inv: "fw_inv pl (fw ?s)" "36 \<le> length (rx_pdu rx)" "\<not> result ?s"
      "unat (llcp_len_req_pending ?s) < 2 ^ 31 - 1" "unat (llcp_cpr_pending ?s) < 2 ^ 31 - 1"
    using assms by (simp_all add: ll_inv_def wf_node_def)
  consider "rx_type rx = NODE_RX_TYPE_CONNECTION" "lll_role lll = 1" | "rx_type rx = NODE_RX_TYPE_CONNECTION" "lll_role lll = 0"
    | "rx_type rx = NODE_RX_TYPE_DC_PDU" | "rx_type rx \<noteq> NODE_RX_TYPE_CONNECTION" "rx_type rx \<noteq> NODE_RX_TYPE_DC_PDU"
    using role_cases by blast
  then show ?thesis
  proof cases
    case 1
    then show ?thesis
      using conn_setup_refines [OF inv(1-3) 1(2)]
      by (auto simp: ifw_ll_packet_parser_rx_def event_of_def node_rx_codes ll_abs_def returns_def Let_def)
  next
    case 2
    then show ?thesis
      using central_refines [OF inv(1) 2(2), of "rx_pdu rx"]
      by (auto simp: ifw_ll_packet_parser_rx_def event_of_def node_rx_codes returns_def Let_def)
  next
    case 3
    then show ?thesis
      using conn_rx_refines [OF inv]
      by (auto simp: ifw_ll_packet_parser_rx_def event_of_def node_rx_codes returns_def Let_def)
  next
    case 4
    then show ?thesis
      using inv(1) by (auto simp: ifw_ll_packet_parser_rx_def event_of_def Let_def)
  qed
qed

fun ll_rx_all ::
  "platform \<Rightarrow> (node_rx_pdu \<times> lll_conn) list \<Rightarrow> ll_parser \<Rightarrow> (bool list \<times> ll_parser) cres option" where
  "ll_rx_all pl [] s = Some (Inr ([], s))"
| "ll_rx_all pl ((rx, lll) # ps) s =
     m_bind (ifw_ll_packet_parser_rx pl rx lll s) (\<lambda>(b, _, s).
     m_bind (ll_rx_all pl ps s) (\<lambda>(bs, s). Some (Inr (b # bs, s))))"

fun ll_step_all :: "ll_event list \<Rightarrow> ll_spec \<Rightarrow> bool list \<times> ll_spec" where
  "ll_step_all [] a = ([], a)"
| "ll_step_all (e # es) a =
     (let (b, a) = ll_step e a; (bs, a) = ll_step_all es a in (b # bs, a))"

lemma ll_rx_all_refines:
  assumes "ll_inv pl n s" "n + length ps < 2 ^ 31" "\<forall>(rx, lll) \<in> set ps. wf_node rx"
  shows "returns (ll_rx_all pl ps s) (\<lambda>(bs, s'). fw_inv pl (fw s') \<and>
     (bs, ll_abs s') = ll_step_all (map (\<lambda>(rx, lll). event_of rx lll) ps) (ll_abs s))"
  using assms
proof (induction ps arbitrary: n s)
  case Nil
  then show ?case by (simp add: ll_inv_def)
next
  case (Cons p ps)
  obtain rx lll where p: "p = (rx, lll)" by (cases p)
  have "returns (ifw_ll_packet_parser_rx pl rx lll s) (\<lambda>(b, lll', s'). fw_inv pl (fw s') \<and>
     (b, ll_abs s') = ll_step (event_of rx lll) (ll_abs s))"
    using ll_rx_step [OF Cons.prems(1)] Cons.prems p by simp
  then obtain b lll' s' where s': "ifw_ll_packet_parser_rx pl rx lll s = Some (Inr (b, lll', s'))"
      "fw_inv pl (fw s')" "(b, ll_abs s') = ll_step (event_of rx lll) (ll_abs s)"
    by (auto simp: returns_def)
  have "returns (ll_rx_all pl ps s') (\<lambda>(bs, s''). fw_inv pl (fw s'') \<and>
     (bs, ll_abs s'') = ll_step_all (map (\<lambda>(rx, lll). event_of rx lll) ps) (ll_abs s'))"
    using Cons.IH [OF ll_inv_next [OF Cons.prems(1) s'(2,3)]] Cons.prems p by simp
  then show ?case
    using s' p by (auto simp: returns_def Let_def simp flip: s'(3) split: prod.splits)
qed

lemma u8_to_4: "(ucast (b :: u8) :: 4 word) = 4 \<longleftrightarrow> b AND 15 = 4"
proof -
  have "b AND 15 = take_bit 4 b" by (simp add: take_bit_eq_mask mask_eq_exp_minus_1)
  then have "unat (ucast b :: 4 word) = unat (b AND 15)" by (simp add: unsigned_ucast_eq unsigned_take_bit_eq)
  then show ?thesis using word_unat_eq_iff [of "b AND 15" 4] word_unat_eq_iff [of "ucast b :: 4 word" 4] by simp
qed

lemma u8_take_bit: "take_bit 16 (unat (b :: u8)) = unat b"
  using unsigned_less [of b, where 'a = nat] by (simp add: take_bit_nat_eq_self)

lemma bits_set_card: "bits_set b = card {k. k < 8 \<and> bit b k}"
proof -
  have "{k. k < 8 \<and> bit b k} = set (filter (bit b) [0..<8])" by auto
  then show ?thesis unfolding bits_set_def by (simp only: distinct_card distinct_filter distinct_upt)
qed

lemma channels_used_card:
  assumes "5 \<le> length bs"
  shows "channels_used (take 5 bs) = card {(i, k). i < 5 \<and> k < 8 \<and> bit (bs ! i) k}"
proof -
  have "{(i, k). i < (5 :: nat) \<and> k < 8 \<and> bit (bs ! i) k} = (SIGMA i : {..<5}. {k. k < 8 \<and> bit (bs ! i) k})"
    by auto
  moreover have "channels_used (take 5 bs) = (\<Sum>i < 5. bits_set (bs ! i))"
    using assms by (simp add: channels_used_def sum_list_sum_nth atLeast0LessThan min_def)
  ultimately show ?thesis by (simp add: bits_set_card)
qed

section \<open>Start-up\<close>

text \<open>\<open>ll_init\<close> (through \<open>bt_enable\<close>) initialises the core, then \<open>main\<close> loads the policies.\<close>

definition firewall_boot :: "platform \<Rightarrow> ll_parser cres" where
  "firewall_boot pl =
     (let f = ifw_fsm_init fw_state_init in
      c_bind (ifw_fsm_enable pl False (policies f)) (\<lambda>ps. Inr (ll_parser_init\<lparr>fw := f\<lparr>policies := ps\<rparr>\<rparr>)))"

lemma firewall_boot_inv:
  assumes "alloc_ok pl 8" "alloc_ok pl sizeof_vm"
  shows "\<exists>s. firewall_boot pl = Inr s \<and> ll_inv pl 0 s \<and> ll_abs s = \<lparr>anchor = False, len_reqs = 0, cprs = 0\<rparr>"
proof -
  have wf: "wf_fsm (fsm_zero\<lparr>core_state := ifw_core_state_num\<rparr>)" by (rule wf_core_num) simp
  have "dc_param fsm_zero ! 14 \<noteq> 1" by (simp add: fsm_zero_def)
  then show ?thesis
    using load_all_policies_ok [OF assms(1)] assms(2) wf
    by (auto simp: firewall_boot_def ifw_fsm_enable_def ifw_fsm_init_def fw_state_init_def ll_parser_init_def
        ll_inv_def fw_inv_def vm_ready_def ll_abs_def Let_def)
qed

lemma scan_rsp_run:
  assumes "fw_inv pl (fw s)" "2 \<le> length pdu"
  shows "returns (ifw_ll_packet_parser_tx pl (Some pdu) s) (\<lambda>(b, s').
      (b \<longleftrightarrow> (pdu ! 0 AND 15) = 4 \<and> unat (pdu ! 1) > 80) \<and> fw_inv pl (fw s') \<and> ll_abs s' = ll_abs s)"
proof -
  have ty: "pdu_adv_type pdu = Inr (ucast (pdu ! 0))" "pdu_adv_len pdu = Inr (pdu ! 1)"
    using assms(2) by (auto simp: pdu_adv_type_def pdu_adv_len_def read8_def)
  have len: "unat (ucast b :: u16) = unat b" for b :: u8
    by (simp add: unsigned_ucast_eq unsigned_take_bit_eq u8_take_bit)
  show ?thesis
    unfolding ifw_ll_packet_parser_tx_def option.case PDU_ADV_TYPE_SCAN_RSP_def
    apply (rule returns_read, rule ty)
    apply (rule returns_if)
    subgoal
      apply (rule returns_read, rule ty)
      apply (rule returns_check_conn [of pl], simp add: assms(1), simp)
      apply (rule returns_verify, simp, simp add: slot_in_range_def)
      apply (simp add: hook_simps fw_inv_wf [OF assms(1)] len u8_to_4 ll_abs_def)
      done
    subgoal using assms(1) by (simp add: u8_to_4)
    done
qed

section \<open>Properties\<close>

text \<open>
  C2: the receive hook implements its specification. From start-up, for every sequence of fewer than
  2^31 received nodes, the hook returns for each node, without undefined behaviour, the verdict of
  the specification machine \<open>ll_step\<close> on the packet the node's bytes encode: the checks on
  \<open>CONNECT_IND\<close>, the anchor gate on the first data packet, the mid-session checks and the counting of
  requests, in any order.
\<close>

theorem ll_rx_refines_spec:
  assumes "firewall_boot pl = Inr s" "alloc_ok pl 8" "alloc_ok pl sizeof_vm"
    and "\<forall>(rx, lll) \<in> set ps. wf_node rx" "length ps < 2 ^ 31"
  shows "\<exists>bs s'. ll_rx_all pl ps s = Some (Inr (bs, s')) \<and>
    (bs, ll_abs s') = ll_step_all (map (\<lambda>(rx, lll). event_of rx lll) ps) \<lparr>anchor = False, len_reqs = 0, cprs = 0\<rparr>"
proof -
  have "ll_inv pl 0 s" "ll_abs s = \<lparr>anchor = False, len_reqs = 0, cprs = 0\<rparr>"
    using firewall_boot_inv [OF assms(2,3)] assms(1) by auto
  then show ?thesis
    using ll_rx_all_refines [of pl 0 s ps] assms(4,5) by (auto simp: returns_def)
qed

text \<open>
  C29: a connection request to the peripheral is rejected exactly if its channel map enables fewer
  than two channels, its hop increment is outside 5 to 16 or its interval is zero, in every state the
  hook can be in; either way it arms the anchor gate and resets the request counters.
\<close>

theorem connect_ind_verdict:
  assumes "ll_inv pl n s" "n < 2 ^ 31 - 1" "wf_node rx"
    and "rx_type rx = NODE_RX_TYPE_CONNECTION" "lll_role lll = 1"
  shows "\<exists>b lll' s'. ifw_ll_packet_parser_rx pl rx lll s = Some (Inr (b, lll', s')) \<and>
    (b \<longleftrightarrow> channels_used (take 5 (drop 30 (rx_pdu rx))) < 2 \<or> unat (rx_pdu rx ! 35 AND 31) \<notin> {5..16} \<or>
       le16_at (rx_pdu rx) 24 = 0) \<and>
    ll_abs s' = \<lparr>anchor = True, len_reqs = 0, cprs = 0\<rparr>"
  using ll_rx_step [OF assms(1-3), of lll] assms(4,5)
  by (auto simp: returns_def event_of_def Let_def not_le)

text \<open>
  The number of channels the hook computes, by clearing the lowest bit of each octet in turn, is
  the number of set bits of the five octets of the map; it is at most 40, so that neither the octet it
  is kept in nor the six-bit field of \<open>struct lll_conn\<close> overflows.
\<close>

theorem count_one_counts:
  assumes "5 \<le> length octets"
  shows "\<exists>n. ifw_count_one octets = Inr n \<and>
    unat n = card {(i, k). i < 5 \<and> k < 8 \<and> bit (octets ! i) k} \<and> unat n \<le> 40 \<and> unat (ucast n :: 6 word) = unat n"
proof -
  let ?c = "channels_used (take 5 octets)"
  have le: "?c \<le> 40" by (rule channels_used_take)
  then have "unat (word_of_nat ?c :: u8) = ?c" "unat (ucast (word_of_nat ?c :: u8) :: 6 word) = ?c"
    by (simp_all add: unsigned_ucast_eq unsigned_of_nat take_bit_eq_mod)
  then show ?thesis
    using ifw_count_one_eq [OF assms] channels_used_card [OF assms] le by simp
qed

theorem count_one_counts_witness:
  "\<exists>n. ifw_count_one [0xFF, 0, 0, 1, 0x1F] = Inr n \<and> unat n \<le> 40"
  using count_one_counts [of "[0xFF, 0, 0, 1, 0x1F]"] by auto

text \<open>
  The transmit hook rejects exactly the scan responses whose length is above 80, so it lets
  through lengths that do not fit the advertising payload of 37 octets; and it never settles a request
  the receive hook counted.
\<close>

theorem scan_rsp_verdict:
  assumes "fw_inv pl (fw s)" "2 \<le> length pdu"
  shows "\<exists>s'. ifw_ll_packet_parser_tx pl (Some pdu) s =
      Some (Inr ((pdu ! 0 AND 15) = 4 \<and> unat (pdu ! 1) > 80, s')) \<and> ll_abs s' = ll_abs s"
  using scan_rsp_run [OF assms] by (auto simp: returns_def)

section \<open>Instances\<close>

definition connect_example :: node_rx_pdu where
  "connect_example = \<lparr>rx_type = NODE_RX_TYPE_CONNECTION,
     rx_pdu = replicate 24 0 @ [24, 0] @ replicate 4 0 @ [0xFF, 0, 0, 0, 0, 7]\<rparr>"

definition data_example :: "u8 \<Rightarrow> u8 \<Rightarrow> node_rx_pdu" where
  "data_example hdr opcode = \<lparr>rx_type = NODE_RX_TYPE_DC_PDU, rx_pdu = [hdr, 0, 0, opcode] @ replicate 32 0\<rparr>"

definition lll_example :: lll_conn where
  "lll_example = \<lparr>crc_init = [0, 0, 0], access_addr = [0, 0, 0, 0], data_chan_map = [0, 0, 0, 0, 0],
     data_chan_count = 0, data_chan_hop = 0, lll_role = 1, interval = 0\<rparr>"

lemma event_examples:
  "event_of connect_example lll_example = Connect 8 7 24"
  "event_of (data_example 0x0C 0) lll_example = Data True True Other_ctrl"
  "event_of (data_example 0x03 0x14) lll_example = Data False False Length_req"
  by (simp_all add: event_of_def connect_example_def data_example_def lll_example_def node_rx_codes ctrl_of_def
      pdu_codes channels_used_def bits_set_def le16_at_def nth_append upt_rec bit_numeral_rec bit_0 Let_def)

lemma wf_examples [simp]: "wf_node connect_example" "wf_node (data_example h p)"
  by (simp_all add: wf_node_def connect_example_def data_example_def)

lemma boot_example:
  "\<exists>s. firewall_boot platform_example = Inr s \<and> ll_inv platform_example 0 s \<and> \<not> anchor (ll_abs s)"
  using firewall_boot_inv [of platform_example] by auto

theorem ll_rx_refines_spec_witness:
  "\<exists>s s'. firewall_boot platform_example = Inr s \<and>
     ll_rx_all platform_example [(connect_example, lll_example), (data_example 0x0C 0, lll_example)] s =
       Some (Inr ([False, True], s'))"
proof -
  obtain s where s: "firewall_boot platform_example = Inr s" using boot_example by blast
  then show ?thesis
    using ll_rx_refines_spec [OF s, of "[(connect_example, lll_example), (data_example 0x0C 0, lll_example)]"]
    by (auto simp: event_examples)
qed

theorem connect_ind_verdict_witness:
  "\<exists>s lll' s'. firewall_boot platform_example = Inr s \<and>
     ifw_ll_packet_parser_rx platform_example connect_example lll_example s = Some (Inr (False, lll', s'))"
proof -
  obtain s where s: "firewall_boot platform_example = Inr s" "ll_inv platform_example 0 s" using boot_example by blast
  have "rx_type connect_example = NODE_RX_TYPE_CONNECTION" "lll_role lll_example = 1"
    by (simp_all add: connect_example_def lll_example_def)
  from connect_ind_verdict [OF s(2) _ wf_examples(1) this] event_examples(1) s(1) this
  show ?thesis by (fastforce simp: event_of_def Let_def)
qed

theorem scan_rsp_verdict_witness:
  "\<exists>s s'. firewall_boot platform_example = Inr s \<and>
     ifw_ll_packet_parser_tx platform_example (Some [4, 80]) s = Some (Inr (False, s'))"
proof -
  obtain s where s: "firewall_boot platform_example = Inr s" "ll_inv platform_example 0 s" using boot_example by blast
  then show ?thesis using scan_rsp_verdict [of platform_example s "[4, 80]"] by (auto simp: ll_inv_def)
qed

end
