(* ===== verification/L2cap_Parser.thy ===== *)
theory L2cap_Parser
  imports Ll_Parser
begin

text \<open>
  The L2CAP hook of \<^verbatim>\<open>core/fsm_l2cap_pkt_parser.c\<close>, with the functions of the host it calls:
  \<open>bt_l2cap_le_lookup_rx_cid\<close> (\<^verbatim>\<open>host/l2cap.c\<close>), \<open>get_encryption_key_size\<close> (\<^verbatim>\<open>host/smp.c\<close>),
  \<open>bt_keys_find_addr\<close> (\<^verbatim>\<open>host/keys.c\<close>) and \<open>bt_addr_le_cmp\<close>. A buffer is the bytes from its data
  pointer to the end of its storage. A channel of another kind than the SMP channel that is read as
  one is undefined behaviour, and so is the null pointer.
\<close>

section \<open>Host structures\<close>

record bt_smp =
  smp_method :: u8
  preq :: "u8 list"
  prsp :: "u8 list"

datatype bt_l2cap_chan = Smp_chan bt_smp | Other_chan

record bt_conn =
  conn_id :: u8
  le_dst :: "u8 list"
  channels :: "(u16 \<times> bt_l2cap_chan) list"

record bt_keys =
  keys_id :: u8
  keys_addr :: "u8 list"
  enc_size :: u8
  keys_flags :: u8
  keys_keys :: u16

definition bt_l2cap_le_lookup_rx_cid :: "bt_conn \<Rightarrow> u16 \<Rightarrow> bt_l2cap_chan option" where
  "bt_l2cap_le_lookup_rx_cid conn cid = map_of (channels conn) cid"

definition get_encryption_key_size :: "bt_smp \<Rightarrow> u8" where
  "get_encryption_key_size smp = min (preq smp ! 4) (prsp smp ! 4)"

text \<open>Addresses are the seven bytes of \<open>bt_addr_le_t\<close>; the comparison is \<open>memcmp\<close>.\<close>

definition bt_addr_le_eq :: "u8 list \<Rightarrow> u8 list \<Rightarrow> bool" where
  "bt_addr_le_eq a b \<longleftrightarrow> a = b"

fun bt_keys_find_addr :: "bt_keys list \<Rightarrow> u8 \<Rightarrow> u8 list \<Rightarrow> bt_keys option" where
  "bt_keys_find_addr [] i addr = None"
| "bt_keys_find_addr (k # key_pool) i addr =
     (if keys_id k = i \<and> bt_addr_le_eq (keys_addr k) addr then Some k else bt_keys_find_addr key_pool i addr)"

text \<open>
  The host's own check of a new pairing against an existing bond. The bond is the one of the
  connection, looked up by the peer's address if it is not set; the Secure Connections flag of the
  pairing and the option that allows unauthenticated overwriting are arguments.
\<close>

definition update_keys_check :: "bool \<Rightarrow> bool \<Rightarrow> bt_smp \<Rightarrow> bt_keys option \<Rightarrow> bool" where
  "update_keys_check allow_unauth_overwrite flag_sc smp keys =
     (case keys of
        None \<Rightarrow> True
      | Some k \<Rightarrow>
          if keys_keys k AND ucast (BT_KEYS_LTK_P256 OR BT_KEYS_LTK) = 0 then True
          else if enc_size k > get_encryption_key_size smp then False
          else if keys_keys k AND ucast BT_KEYS_LTK_P256 \<noteq> 0 \<and> \<not> flag_sc then False
          else if keys_flags k AND ucast BT_KEYS_AUTHENTICATED \<noteq> 0 \<and> smp_method smp = ucast JUST_WORKS then False
          else if \<not> allow_unauth_overwrite \<and>
                  (keys_flags k AND ucast BT_KEYS_AUTHENTICATED = 0 \<and> smp_method smp = ucast JUST_WORKS) then False
          else True)"

section \<open>The hook\<close>

record l2cap_parser =
  l2_fw :: fw_state
  l2_result :: bool
  peek_len_total :: s32

definition l2cap_check :: "u16 \<Rightarrow> u16 \<Rightarrow> ifw_state_class \<Rightarrow> l2cap_parser \<Rightarrow> l2cap_parser cres option" where
  "l2cap_check v ty cls s =
     Some (c_bind (IFW_FSM_CHECK_UPDATE v ty (class_code cls) (l2_fw s)) (\<lambda>(_, f). Inr (s\<lparr>l2_fw := f\<rparr>)))"

definition l2cap_verify :: "platform \<Rightarrow> u16 \<Rightarrow> ifw_state_class \<Rightarrow> l2cap_parser \<Rightarrow> (bool \<times> l2cap_parser) cres option" where
  "l2cap_verify pl ty cls s =
     m_bind (IFW_RUN_VERIFIER pl ty (class_code cls) (l2_fw s)) (\<lambda>(b, f). Some (Inr (b, s\<lparr>l2_fw := f\<rparr>)))"

text \<open>The pointer returned is its offset from the start of the data.\<close>

definition ifw_net_buf_pull_mem :: "u32 \<Rightarrow> l2cap_parser \<Rightarrow> s32 \<times> l2cap_parser" where
  "ifw_net_buf_pull_mem len s = (peek_len_total s, s\<lparr>peek_len_total := peek_len_total s + len\<rparr>)"

definition read8_at :: "u8 list \<Rightarrow> s32 \<Rightarrow> nat \<Rightarrow> u8 cres" where
  "read8_at data off i = (if sint off < 0 then Inl Oob_read else read8 data (nat (sint off) + i))"

definition read_le16_at :: "u8 list \<Rightarrow> s32 \<Rightarrow> nat \<Rightarrow> u16 cres" where
  "read_le16_at data off i = (if sint off < 0 then Inl Oob_read else read_le16 data (nat (sint off) + i))"

text \<open>
  The identity address is read at the start of the data, \<open>(void *)buf->data\<close>. The connection of the
  channel is the one the packet came in on.
\<close>

definition ifw_smp_ident_addr_info ::
  "platform \<Rightarrow> bt_keys list \<Rightarrow> bt_conn \<Rightarrow> bt_smp \<Rightarrow> u8 list \<Rightarrow> l2cap_parser \<Rightarrow> l2cap_parser cres option" where
  "ifw_smp_ident_addr_info pl key_pool conn smp data s =
     (let enc_size_bond = get_encryption_key_size smp; method_bond = smp_method smp in
      m_bind (Some (read_mem data 0 7)) (\<lambda>addr.
      if \<not> bt_addr_le_eq (le_dst conn) addr then
        (case bt_keys_find_addr key_pool (conn_id conn) addr of
           None \<Rightarrow> Some (Inr s)
         | Some keys \<Rightarrow>
             m_bind (l2cap_check (ucast enc_size_bond) (dc_type SMP_ENC_SIZE_PREV) DC s) (\<lambda>s.
             m_bind (l2cap_check (ucast method_bond) (dc_type SMP_METHOD_PREV) DC s) (\<lambda>s.
             m_bind (l2cap_check (keys_keys keys) (dc_type SMP_KEYS) DC s) (\<lambda>s.
             m_bind (l2cap_check (ucast (enc_size keys)) (dc_type SMP_ENC_SIZE) DC s) (\<lambda>s.
             m_bind (l2cap_check (ucast (keys_flags keys)) (dc_type SMP_KEYS_FLAGS) DC s) (\<lambda>s.
             m_bind (l2cap_verify pl (dc_type SMP_KEYS) DC s) (\<lambda>(rej, s).
             Some (Inr (if rej then s\<lparr>l2_result := True\<rparr> else s)))))))))
      else Some (Inr s)))"

definition ifw_bt_smp_recv ::
  "platform \<Rightarrow> bt_keys list \<Rightarrow> bt_conn \<Rightarrow> bt_l2cap_chan option \<Rightarrow> u8 list \<Rightarrow> l2cap_parser \<Rightarrow>
   l2cap_parser cres option" where
  "ifw_bt_smp_recv pl key_pool conn chan data s =
     (let (hdr, s) = ifw_net_buf_pull_mem 1 s in
      m_bind (Some (read8_at data hdr 0)) (\<lambda>code.
      if code = 0x09 then
        (case chan of
           None \<Rightarrow> Some (Inl Null_deref)
         | Some Other_chan \<Rightarrow> Some (Inl Wrong_object)
         | Some (Smp_chan smp) \<Rightarrow> ifw_smp_ident_addr_info pl key_pool conn smp data s)
      else Some (Inr s)))"

text \<open>The parser of the signalling channel reads the header and acts on no code; its call is commented out.\<close>

definition ifw_l2cap_chan_recv :: "u8 list \<Rightarrow> l2cap_parser \<Rightarrow> l2cap_parser cres option" where
  "ifw_l2cap_chan_recv data s =
     (let (hdr, s) = ifw_net_buf_pull_mem 4 s in
      m_bind (Some (read_le16_at data hdr 2)) (\<lambda>len.
      m_bind (Some (read8_at data hdr 0)) (\<lambda>code.
      Some (Inr s))))"

definition ifw_l2cap_packet_parser_recv ::
  "platform \<Rightarrow> bt_keys list \<Rightarrow> bt_conn \<Rightarrow> u8 list \<Rightarrow> l2cap_parser \<Rightarrow> (bool \<times> l2cap_parser) cres option" where
  "ifw_l2cap_packet_parser_recv pl key_pool conn data s =
     (let (hdr, s) = ifw_net_buf_pull_mem 4 (s\<lparr>l2_result := False\<rparr>) in
      m_bind (Some (read_le16_at data hdr 2)) (\<lambda>cid.
      m_bind (ifw_bt_smp_recv pl key_pool conn (bt_l2cap_le_lookup_rx_cid conn cid) data s) (\<lambda>s.
      Some (Inr (l2_result s, s)))))"

section \<open>The identity check\<close>

lemma returns_l2_check [returns_rules]:
  assumes "fw_inv pl (l2_fw s)" "ty < dc_type IFW_DC_PARAM_NUM"
    and "\<And>f. \<lbrakk>fw_inv pl f; newFSMState f = put_dc (unat ty) v (newFSMState (l2_fw s))\<rbrakk> \<Longrightarrow> returns (k (s\<lparr>l2_fw := f\<rparr>)) P"
  shows "returns (m_bind (l2cap_check v ty DC s) k) P"
  using core.update_dc [OF assms(1,2), of v] assms(3) by (auto simp: l2cap_check_def)

lemma returns_l2_verify [returns_rules]:
  assumes "fw_inv pl (l2_fw s)" "slot_in_range (uint (class_code cls)) (uint ty)"
    and "\<And>f. \<lbrakk>fw_inv pl f; newFSMState f = newFSMState (l2_fw s)\<rbrakk> \<Longrightarrow>
      returns (k (source_verdict (uint (class_code cls)) (uint ty) (newFSMState (l2_fw s)) = IFW_OPERATION_REJECT,
                  s\<lparr>l2_fw := f\<rparr>)) P"
  shows "returns (m_bind (l2cap_verify pl ty cls s) k) P"
  using core.verify_verdict [OF assms(1,2)] assms(3) by (auto simp: l2cap_verify_def)

text \<open>A bond that the new pairing would weaken.\<close>

definition weakens_bond :: "bt_smp \<Rightarrow> bt_keys \<Rightarrow> bool" where
  "weakens_bond smp k \<longleftrightarrow>
     keys_keys k AND 36 \<noteq> 0 \<and>
     (enc_size k > get_encryption_key_size smp \<or>
      keys_flags k AND 1 \<noteq> 0 \<and> smp_method smp = 0)"

lemma ucast_and_zero:
  "(ucast (w :: u16) :: s32) AND 36 = 0 \<longleftrightarrow> w AND 36 = 0"
  "(ucast (ucast (b :: u8) :: u16) :: s32) AND 1 = 0 \<longleftrightarrow> b AND 1 = 0"
  "(ucast (ucast (b :: u8) :: u16) :: s32) = 0 \<longleftrightarrow> b = 0"
  "uint (ucast (a :: u8) :: u16) < uint (ucast (b :: u8) :: u16) \<longleftrightarrow> a < b"
proof -
  have y: "(ucast (y :: u16) :: s32) = 0 \<longleftrightarrow> y = 0" for y
    by (simp add: ucast_u16_eq unat_eq_zero)
  have z8: "(ucast (b :: u8) :: u16) = 0 \<longleftrightarrow> b = 0" for b
    using word_unat_eq_iff [of "ucast b :: u16" 0] word_unat_eq_iff [of b 0]
    by (simp add: unsigned_ucast_eq u8_take_bit)
  note zero = y z8
  have "(ucast w :: s32) AND 36 = ucast (w AND 36)" by (simp add: unsigned_and_eq)
  then show "(ucast w :: s32) AND 36 = 0 \<longleftrightarrow> w AND 36 = 0" by (simp only: zero)
  have "(ucast (ucast b :: u16) :: s32) AND 1 = ucast (ucast (b AND 1) :: u16)" by (simp add: unsigned_and_eq)
  then show "(ucast (ucast b :: u16) :: s32) AND 1 = 0 \<longleftrightarrow> b AND 1 = 0" by (simp only: zero)
  show "(ucast (ucast b :: u16) :: s32) = 0 \<longleftrightarrow> b = 0" by (simp only: zero)
  have "uint (ucast x :: u16) = uint x" for x :: u8
    using unsigned_less [of x, where 'a = int] by (simp add: unsigned_ucast_eq take_bit_int_eq_self)
  then show "uint (ucast a :: u16) < uint (ucast b :: u16) \<longleftrightarrow> a < b" by (simp add: word_less_def)
qed

lemma smp_filter_put:
  assumes "wf_fsm st"
  shows "smp_ident_check_filter (put_dc 13 (ucast (keys_flags k)) (put_dc 12 (ucast (enc_size k)) (put_dc 11 (keys_keys k)
     (put_dc 10 (ucast (smp_method smp)) (put_dc 9 (ucast (get_encryption_key_size smp)) st))))) = IFW_OPERATION_REJECT
     \<longleftrightarrow> weakens_bond smp k"
  using assms
  by (auto simp: wf_fsm_def policy_filter_defs ifw_codes weakens_bond_def JUST_WORKS_def ucast_and_zero)

lemma ident_addr_run:
  assumes "fw_inv pl (l2_fw s)" "7 \<le> length data" "length (le_dst conn) = 7"
  shows "returns (ifw_smp_ident_addr_info pl key_pool conn smp data s) (\<lambda>s'. fw_inv pl (l2_fw s') \<and>
     peek_len_total s' = peek_len_total s \<and>
     (l2_result s' \<longleftrightarrow> l2_result s \<or> take 7 data \<noteq> le_dst conn \<and>
        (case bt_keys_find_addr key_pool (conn_id conn) (take 7 data) of
           None \<Rightarrow> False | Some k \<Rightarrow> weakens_bond smp k)))"
proof -
  note wf = fw_inv_wf [OF assms(1)]
  show ?thesis
  proof (cases "take 7 data \<noteq> le_dst conn \<and> bt_keys_find_addr key_pool (conn_id conn) (take 7 data) \<noteq> None")
    case False
    then show ?thesis
      using assms by (auto simp: ifw_smp_ident_addr_info_def read_mem_def bt_addr_le_eq_def split: option.splits)
  next
    case True
    then obtain k where k: "take 7 data \<noteq> le_dst conn" "bt_keys_find_addr key_pool (conn_id conn) (take 7 data) = Some k"
      by auto
    show ?thesis
      unfolding ifw_smp_ident_addr_info_def Let_def
      apply (rule returns_read [of _ "take 7 data"], simp add: read_mem_def assms)
      using k apply (simp add: bt_addr_le_eq_def)
      apply (rule returns_l2_check [of pl], simp add: assms, simp)+
      apply (rule returns_l2_verify, simp, simp add: slot_in_range_def)
      apply (auto simp: source_verdicts smp_filter_put wf)
      done
  qed
qed

lemma read_at_zero [simp]: "read8_at data 0 i = read8 data i" "read_le16_at data 0 i = read_le16 data i"
  by (simp_all add: read8_at_def read_le16_at_def)

text \<open>The lookup can only succeed with an address of the pool.\<close>

lemma bt_keys_find_addr_SomeD:
  "bt_keys_find_addr pool i a = Some k \<Longrightarrow> k \<in> set pool \<and> keys_addr k = a"
  by (induction pool) (auto simp: bt_addr_le_eq_def split: if_splits)

text \<open>
  C30: what the identity check decides, given the address bytes it reads: it rejects exactly if the
  address differs from the peer's, a bond is stored for it, and the bond has a long-term key that the
  running pairing would weaken, in key size or from an authenticated key to Just Works.
\<close>

theorem ident_addr_verdict:
  assumes "fw_inv pl (l2_fw s)" "7 \<le> length data" "length (le_dst conn) = 7" "\<not> l2_result s"
  shows "\<exists>s'. ifw_smp_ident_addr_info pl key_pool conn smp data s = Some (Inr s') \<and>
     (l2_result s' \<longleftrightarrow> take 7 data \<noteq> le_dst conn \<and>
        (case bt_keys_find_addr key_pool (conn_id conn) (take 7 data) of
           None \<Rightarrow> False | Some k \<Rightarrow> weakens_bond smp k))"
  using ident_addr_run [OF assms(1-3)] assms(4) by (auto simp: returns_def)

text \<open>
  The policy against the host's own rule for overwriting a bond. The host refuses every overwriting
  the policy refuses, and two more kinds: replacing a Secure Connections key by a pairing without
  Secure Connections, and, unless the build allows it, any Just Works pairing over a long-term key.
  These two the identity check lets pass.
\<close>

theorem ident_policy_against_host:
  "update_keys_check allow sc smp (Some k) \<longleftrightarrow>
     \<not> weakens_bond smp k \<and>
     (keys_keys k AND 0x24 \<noteq> 0 \<longrightarrow>
        (keys_keys k AND 0x20 \<noteq> 0 \<longrightarrow> sc) \<and> (smp_method smp = 0 \<longrightarrow> allow))"
  by (auto simp: update_keys_check_def weakens_bond_def
      JUST_WORKS_def not_less split: if_splits)

section \<open>The read position\<close>

fun l2cap_recv_all ::
  "platform \<Rightarrow> bt_keys list \<Rightarrow> (bt_conn \<times> u8 list) list \<Rightarrow> l2cap_parser \<Rightarrow> (bool list \<times> l2cap_parser) cres option" where
  "l2cap_recv_all pl pool [] s = Some (Inr ([], s))"
| "l2cap_recv_all pl pool ((conn, data) # ps) s =
     m_bind (ifw_l2cap_packet_parser_recv pl pool conn data s) (\<lambda>(b, s).
     m_bind (l2cap_recv_all pl pool ps s) (\<lambda>(bs, s). Some (Inr (b # bs, s))))"

lemma sint_s32: "unat (w :: s32) < 2 ^ 31 \<Longrightarrow> sint w = int (unat w)"
proof -
  assume "unat w < 2 ^ 31"
  then have "unat w < 2147483648" by simp
  moreover have "uint w = int (unat w)" by simp
  ultimately have "uint w < 2147483648" by linarith
  then show ?thesis using sint_small [of w] by simp
qed

text \<open>One packet: undefined behaviour, or the position moves by five within the buffer.\<close>

lemma recv_progress:
  assumes "fw_inv pl (l2_fw s)" "length (le_dst conn) = 7" "unat (peek_len_total s) < 2 ^ 31 - 5"
  shows "(\<exists>e. ifw_l2cap_packet_parser_recv pl pool conn data s = Some (Inl e)) \<or>
    (\<exists>b s'. ifw_l2cap_packet_parser_recv pl pool conn data s = Some (Inr (b, s')) \<and> fw_inv pl (l2_fw s') \<and>
       unat (peek_len_total s') = unat (peek_len_total s) + 5 \<and> unat (peek_len_total s) + 5 \<le> length data)"
proof -
  let ?p = "peek_len_total s" and ?s = "s\<lparr>l2_result := False, peek_len_total := peek_len_total s + 5\<rparr>"
  have unat: "unat (?p + 4) = unat ?p + 4" "unat (?p + 5) = unat ?p + 5"
    using assms(3) by (simp_all add: unat_word_ariths)
  then have off: "sint ?p = int (unat ?p)" "sint (?p + 4) = int (unat ?p + 4)"
    using assms(3) sint_s32 [of ?p] sint_s32 [of "?p + 4"] by simp_all
  show ?thesis
  proof (cases "unat ?p + 5 \<le> length data")
    case False
    have "read8_at data (?p + 4) 0 = Inl Oob_read"
      unfolding read8_at_def read8_def off(2) nat_int using False by simp
    then show ?thesis
      by (cases "read_le16_at data ?p 2")
        (simp_all add: ifw_l2cap_packet_parser_recv_def ifw_net_buf_pull_mem_def ifw_bt_smp_recv_def Let_def)
  next
    case True
    have "\<exists>cid. read_le16_at data ?p 2 = Inr cid" "\<exists>code. read8_at data (?p + 4) 0 = Inr code"
      unfolding read_le16_at_def read_le16_def read8_at_def read8_def off nat_int
      using True by (simp_all add: not_less add_nonneg_nonneg)
    then obtain cid code where cid: "read_le16_at data ?p 2 = Inr cid" and code: "read8_at data (?p + 4) 0 = Inr code"
      by blast
    define m where "m = ifw_bt_smp_recv pl pool conn (bt_l2cap_le_lookup_rx_cid conn cid) data (s\<lparr>l2_result := False, peek_len_total := ?p + 4\<rparr>)"
    have "(\<exists>e. m = Some (Inl e)) \<or> returns m (\<lambda>s'. fw_inv pl (l2_fw s') \<and> peek_len_total s' = ?p + 5)"
    proof (cases "code = 9 \<and> (\<exists>smp. bt_l2cap_le_lookup_rx_cid conn cid = Some (Smp_chan smp)) \<and> 7 \<le> length data")
      case True
      then obtain smp where "bt_l2cap_le_lookup_rx_cid conn cid = Some (Smp_chan smp)" by auto
      then show ?thesis
        using True code ident_addr_run [of pl ?s data conn pool smp] assms(1,2)
        by (auto simp: m_def ifw_bt_smp_recv_def ifw_net_buf_pull_mem_def Let_def returns_def add.assoc)
    next
      case False
      then show ?thesis
        using code assms(1)
        by (auto simp: m_def ifw_bt_smp_recv_def ifw_net_buf_pull_mem_def ifw_smp_ident_addr_info_def read_mem_def
            Let_def add.assoc split: option.splits bt_l2cap_chan.splits)
    qed
    then show ?thesis
      using cid True unat(2) unfolding m_def
      by (auto simp: ifw_l2cap_packet_parser_recv_def ifw_net_buf_pull_mem_def Let_def returns_def)
  qed
qed

text \<open>
  C31: the identity check never fires. Wherever the read position is, if the headers it leads to are within
  the buffer, every packet whose length field has a low byte above three, as that of an
  identity address packet, which is eight, passes whatever bond it would overwrite: the hook takes the address from the start of
  the buffer, where the L2CAP length is, so that the address type it looks up is that byte, and no
  stored bond has such a type.
\<close>

theorem ident_addr_check_is_dead:
  assumes "fw_inv pl (l2_fw s)" "length (le_dst conn) = 7" "\<forall>k \<in> set pool. keys_addr k ! 0 \<le> 3"
    and "7 \<le> length data" "length data < 2 ^ 31" "3 < data ! 0" "unat (peek_len_total s) + 5 \<le> length data"
    and "bt_l2cap_le_lookup_rx_cid conn (word_of_nat (le16_at data (unat (peek_len_total s) + 2))) = Some (Smp_chan smp)"
  shows "\<exists>s'. ifw_l2cap_packet_parser_recv pl pool conn data s = Some (Inr (False, s')) \<and>
    unat (peek_len_total s') = unat (peek_len_total s) + 5"
proof -
  let ?p = "peek_len_total s" and ?s = "s\<lparr>l2_result := False, peek_len_total := peek_len_total s + 5\<rparr>"
  have unat: "unat (?p + 4) = unat ?p + 4" "unat (?p + 5) = unat ?p + 5"
    using assms(5,7) by (simp_all add: unat_word_ariths)
  have off: "sint ?p = int (unat ?p)" "sint (?p + 4) = int (unat ?p + 4)"
    using assms(5,7) unat(1) sint_s32 [of ?p] sint_s32 [of "?p + 4"] by simp_all
  obtain cid where c: "read_le16 data (unat ?p + 2) = Inr cid" "unat cid = le16_at data (unat ?p + 2)"
    using read_le16_ok [of "unat ?p + 2" data] assms(7) by auto
  have "word_of_nat (unat cid) = cid" by simp
  then have cid: "read_le16_at data ?p 2 = Inr cid" "bt_l2cap_le_lookup_rx_cid conn cid = Some (Smp_chan smp)"
    using assms(8) c off(1) unfolding c(2) [symmetric] by (simp_all add: read_le16_at_def)
  have code: "read8_at data (?p + 4) 0 = Inr (data ! (unat ?p + 4))"
    unfolding read8_at_def read8_def off(2) nat_int using assms(7) by (simp add: not_less add_nonneg_nonneg)
  have "bt_keys_find_addr pool (conn_id conn) (take 7 data) = None"
  proof (rule ccontr)
    assume "bt_keys_find_addr pool (conn_id conn) (take 7 data) \<noteq> None"
    then obtain k where "k \<in> set pool" "keys_addr k = take 7 data" using bt_keys_find_addr_SomeD by fastforce
    then show False using assms(3,4,6) by force
  qed
  then show ?thesis
    using ident_addr_run [of pl ?s data conn pool smp] assms(1,2,4) cid code unat(2)
    by (auto simp: ifw_l2cap_packet_parser_recv_def ifw_net_buf_pull_mem_def ifw_bt_smp_recv_def Let_def returns_def
        add.assoc)
qed

lemma recv_all_overrun:
  assumes "fw_inv pl (l2_fw s)" "unat (peek_len_total s) \<le> n" "n < 2 ^ 31 - 5"
    and "\<forall>(conn, data) \<in> set ps. length (le_dst conn) = 7 \<and> length data \<le> n"
    and "n < unat (peek_len_total s) + 5 * length ps"
  shows "\<exists>e. l2cap_recv_all pl pool ps s = Some (Inl e)"
  using assms
proof (induction ps arbitrary: s)
  case Nil
  then show ?case by simp
next
  case (Cons p ps)
  obtain conn data where p: "p = (conn, data)" by (cases p)
  have "unat (peek_len_total s) < 2 ^ 31 - 5" "length (le_dst conn) = 7" "length data \<le> n"
    using Cons.prems p by auto
  from recv_progress [OF Cons.prems(1) this(2,1), of pool data] this(3)
  show ?case
  proof (elim disjE exE conjE)
    fix b s'
    assume s': "ifw_l2cap_packet_parser_recv pl pool conn data s = Some (Inr (b, s'))" "fw_inv pl (l2_fw s')"
      "unat (peek_len_total s') = unat (peek_len_total s) + 5" "unat (peek_len_total s) + 5 \<le> length data"
    have "\<exists>e. l2cap_recv_all pl pool ps s' = Some (Inl e)"
      using Cons.IH [OF s'(2)] Cons.prems s'(3,4) \<open>length data \<le> n\<close> by auto
    then show ?thesis using s'(1) p by auto
  qed (use p in auto)
qed

text \<open>
  C32: the hook reads past the end of a buffer sooner or later. The read position is never reset, so
  for buffers of at most \<open>n\<close> bytes every sequence of more than \<open>n\<close> div 5 received packets ends in
  undefined behaviour.
\<close>

theorem l2cap_hook_overruns:
  assumes "fw_inv pl (l2_fw s)" "peek_len_total s = 0" "n < 2 ^ 31 - 5"
    and "\<forall>(conn, data) \<in> set ps. length (le_dst conn) = 7 \<and> length data \<le> n"
    and "n div 5 < length ps"
  shows "\<exists>e. l2cap_recv_all pl pool ps s = Some (Inl e)"
  using assms by (intro recv_all_overrun [of pl s n]) auto

section \<open>Instances\<close>

definition smp_example :: bt_smp where
  "smp_example = \<lparr>smp_method = 0, preq = [1, 3, 0, 1, 7, 1, 1], prsp = [2, 3, 0, 1, 16, 1, 1]\<rparr>"

definition conn_example :: bt_conn where
  "conn_example = \<lparr>conn_id = 0, le_dst = [1, 9, 9, 9, 9, 9, 9], channels = [(6, Smp_chan smp_example)]\<rparr>"

definition keys_example :: bt_keys where
  "keys_example = \<lparr>keys_id = 0, keys_addr = [0, 1, 2, 3, 4, 5, 6], enc_size = 16, keys_flags = 1, keys_keys = 4\<rparr>"

definition l2cap_example :: "ll_parser \<Rightarrow> l2cap_parser" where
  "l2cap_example s = \<lparr>l2_fw = fw s, l2_result = False, peek_len_total = 0\<rparr>"

lemma l2cap_example_inv:
  "\<exists>s. firewall_boot platform_example = Inr s \<and> fw_inv platform_example (l2_fw (l2cap_example s))"
  using boot_example by (auto simp: l2cap_example_def ll_inv_def)

theorem ident_addr_verdict_witness:
  "\<exists>s s'. firewall_boot platform_example = Inr s \<and>
     ifw_smp_ident_addr_info platform_example [keys_example] conn_example smp_example [0, 1, 2, 3, 4, 5, 6]
       (l2cap_example s) = Some (Inr s') \<and> l2_result s'"
proof -
  obtain s where s: "firewall_boot platform_example = Inr s" "fw_inv platform_example (l2_fw (l2cap_example s))"
    using l2cap_example_inv by blast
  have "weakens_bond smp_example keys_example"
    by (simp add: weakens_bond_def smp_example_def keys_example_def get_encryption_key_size_def)
  then show ?thesis
    using ident_addr_verdict [OF s(2), of "[0, 1, 2, 3, 4, 5, 6]" conn_example "[keys_example]" smp_example] s(1)
    by (auto simp: conn_example_def keys_example_def l2cap_example_def bt_addr_le_eq_def)
qed

text \<open>An unauthenticated bond of the same key size, overwritten by Just Works.\<close>

theorem ident_policy_against_host_witness:
  "\<not> weakens_bond smp_example (keys_example\<lparr>enc_size := 7, keys_flags := 0\<rparr>) \<and>
   \<not> update_keys_check False False smp_example (Some (keys_example\<lparr>enc_size := 7, keys_flags := 0\<rparr>))"
proof -
  have "\<not> weakens_bond smp_example (keys_example\<lparr>enc_size := 7, keys_flags := 0\<rparr>)"
    by (simp add: weakens_bond_def smp_example_def keys_example_def get_encryption_key_size_def)
  then show ?thesis
    using ident_policy_against_host [of False False smp_example "keys_example\<lparr>enc_size := 7, keys_flags := 0\<rparr>"]
    by (simp add: smp_example_def keys_example_def)
qed

text \<open>The second identity address packet is read from its fifth byte on, where this one has another header.\<close>

theorem ident_addr_check_is_dead_witness:
  "\<exists>s s' s''. firewall_boot platform_example = Inr s \<and>
     ifw_l2cap_packet_parser_recv platform_example [keys_example] conn_example
       ([8, 0, 6, 0, 9] @ [0, 1, 2, 3, 4, 5, 6]) (l2cap_example s) = Some (Inr (False, s')) \<and>
     ifw_l2cap_packet_parser_recv platform_example [keys_example] conn_example
       ([8, 0, 6, 0, 9] @ [0, 1, 6, 0, 9, 5, 6]) ((l2cap_example s)\<lparr>peek_len_total := 5\<rparr>) = Some (Inr (False, s''))"
proof -
  obtain s where s: "firewall_boot platform_example = Inr s" "fw_inv platform_example (l2_fw (l2cap_example s))"
    using l2cap_example_inv by blast
  then show ?thesis
    using ident_addr_check_is_dead [OF s(2), of conn_example "[keys_example]" "[8, 0, 6, 0, 9] @ [0, 1, 2, 3, 4, 5, 6]" smp_example]
      ident_addr_check_is_dead [of platform_example "(l2cap_example s)\<lparr>peek_len_total := 5\<rparr>" conn_example "[keys_example]"
        "[8, 0, 6, 0, 9] @ [0, 1, 6, 0, 9, 5, 6]" smp_example]
    by (auto simp: conn_example_def keys_example_def l2cap_example_def bt_l2cap_le_lookup_rx_cid_def le16_at_def)
qed

theorem l2cap_hook_overruns_witness:
  "\<exists>s e. firewall_boot platform_example = Inr s \<and>
     l2cap_recv_all platform_example [] (replicate 3 (conn_example, [3, 0, 4, 0, 2, 0, 0])) (l2cap_example s) = Some (Inl e)"
proof -
  obtain s where s: "firewall_boot platform_example = Inr s" "fw_inv platform_example (l2_fw (l2cap_example s))"
    using l2cap_example_inv by blast
  then show ?thesis
    using l2cap_hook_overruns [OF s(2), of 7 "replicate 3 (conn_example, [3, 0, 4, 0, 2, 0, 0])" "[]"]
    by (auto simp: conn_example_def l2cap_example_def)
qed

end
