(* ===== verification/Patch_Service.thy ===== *)
theory Patch_Service
  imports Policy_Cache
begin

text \<open>
  The patch service of \<^verbatim>\<open>peripheral/src/firewall_patch.c\<close>: three writable characteristics that stage a
  policy and install it, and one that reads the last result. A write callback gets the bytes of the
  write and its offset and returns the number of bytes taken or a negated attribute error.
\<close>

section \<open>State\<close>

definition BSWAT_STAGING_MAX :: nat where "BSWAT_STAGING_MAX = 256"

record patch_state =
  staging_buf :: "u8 list"
  staging_len :: u16
  target_class :: u8
  target_type :: u8
  last_install_rc :: s32
  patch_policies :: policy_state

definition patch_state_init :: "policy_state \<Rightarrow> patch_state" where
  "patch_state_init ps =
     \<lparr>staging_buf = replicate BSWAT_STAGING_MAX 0, staging_len = 0, target_class = 0, target_type = 0,
      last_install_rc = - 100, patch_policies = ps\<rparr>"

abbreviation (input) BT_ATT_ERR_INVALID_OFFSET :: int where "BT_ATT_ERR_INVALID_OFFSET \<equiv> 0x07"
abbreviation (input) BT_ATT_ERR_INVALID_ATTRIBUTE_LEN :: int where "BT_ATT_ERR_INVALID_ATTRIBUTE_LEN \<equiv> 0x0d"

definition BT_GATT_ERR :: "int \<Rightarrow> int" where "BT_GATT_ERR att_err = - att_err"

lemmas gatt_err_defs = BT_GATT_ERR_def

section \<open>Callbacks\<close>

definition write_header :: "u8 list \<Rightarrow> u16 \<Rightarrow> patch_state \<Rightarrow> int \<times> patch_state" where
  "write_header p offset s =
     (if offset \<noteq> 0 then (BT_GATT_ERR BT_ATT_ERR_INVALID_OFFSET, s)
      else if length p \<noteq> 2 then (BT_GATT_ERR BT_ATT_ERR_INVALID_ATTRIBUTE_LEN, s)
      else (int (length p), s\<lparr>target_class := p ! 0, target_type := p ! 1, staging_len := 0\<rparr>))"

definition write_body :: "u8 list \<Rightarrow> u16 \<Rightarrow> patch_state \<Rightarrow> (int \<times> patch_state) cres" where
  "write_body p offset s =
     (if offset \<noteq> 0 then Inr (BT_GATT_ERR BT_ATT_ERR_INVALID_OFFSET, s)
      else if unat (staging_len s) + length p > BSWAT_STAGING_MAX
      then Inr (BT_GATT_ERR BT_ATT_ERR_INVALID_ATTRIBUTE_LEN, s)
      else if unat (staging_len s) + length p > length (staging_buf s) then Inl Oob_write
      else Inr (int (length p),
             s\<lparr>staging_buf := splice (staging_buf s) (unat (staging_len s)) p,
               staging_len := staging_len s + word_of_nat (length p)\<rparr>))"

definition write_commit :: "platform \<Rightarrow> u8 list \<Rightarrow> u16 \<Rightarrow> patch_state \<Rightarrow> (int \<times> patch_state) cres" where
  "write_commit pl p offset s =
     (if offset \<noteq> 0 \<or> length p < 1 then Inr (BT_GATT_ERR BT_ATT_ERR_INVALID_OFFSET, s)
      else if unat (staging_len s) > length (staging_buf s) then Inl Oob_read
      else c_bind (ifw_install_policy pl (uint (target_class s)) (uint (target_type s))
                    (Some (take (unat (staging_len s)) (staging_buf s))) (patch_policies s)) (\<lambda>(rc, ps).
             Inr (int (length p),
               s\<lparr>last_install_rc := word_of_int rc, staging_len := 0, patch_policies := ps\<rparr>)))"

text \<open>\<open>bt_gatt_attr_read\<close> of \<^verbatim>\<open>host/gatt.c\<close>: the bytes of the value from the offset on, cut to the buffer.\<close>

definition bt_gatt_attr_read :: "nat \<Rightarrow> u16 \<Rightarrow> u8 list \<Rightarrow> int \<times> u8 list" where
  "bt_gatt_attr_read buf_len offset val =
     (if unat offset > length val then (BT_GATT_ERR BT_ATT_ERR_INVALID_OFFSET, [])
      else let n = min buf_len (length val - unat offset) in (int n, take n (drop (unat offset) val)))"

definition read_status :: "nat \<Rightarrow> u16 \<Rightarrow> patch_state \<Rightarrow> int \<times> u8 list" where
  "read_status buf_len offset s = bt_gatt_attr_read buf_len offset (le_bytes 4 (last_install_rc s))"

section \<open>Sessions\<close>

datatype patch_write = Header "u8 list" u16 | Body "u8 list" u16 | Commit "u8 list" u16

fun patch_step :: "platform \<Rightarrow> patch_write \<Rightarrow> patch_state \<Rightarrow> (int \<times> patch_state) cres" where
  "patch_step pl (Header p off) s = Inr (write_header p off s)"
| "patch_step pl (Body p off) s = write_body p off s"
| "patch_step pl (Commit p off) s = write_commit pl p off s"

fun patch_session :: "platform \<Rightarrow> patch_write list \<Rightarrow> patch_state \<Rightarrow> patch_state cres" where
  "patch_session pl [] s = Inr s"
| "patch_session pl (w # ws) s = c_bind (patch_step pl w s) (\<lambda>(_, s). patch_session pl ws s)"

section \<open>The protocol\<close>

text \<open>A sequence of state changes, any of which may be undefined.\<close>

fun c_fold :: "('x \<Rightarrow> 's \<Rightarrow> 's cres) \<Rightarrow> 'x list \<Rightarrow> 's \<Rightarrow> 's cres" where
  "c_fold f [] s = Inr s"
| "c_fold f (x # xs) s = c_bind (f x s) (c_fold f xs)"

lemma c_fold_append: "c_fold f (xs @ ys) s = c_bind (c_fold f xs s) (c_fold f ys)"
  by (induction xs arbitrary: s) (simp_all add: c_bind_assoc cong: c_bind_cong)

lemma c_bind_Inr [simp]: "c_bind m Inr = m"
  by (cases m) simp_all

lemma c_fold_map: "c_fold f (map g xs) s = c_fold (\<lambda>x. f (g x)) xs s"
  by (induction xs arbitrary: s) (simp_all cong: c_bind_cong)

text \<open>
  What a patch service promises, on either stack: a header selects a slot and empties the staging
  buffer, a body that fits is appended to it, and a commit installs what is staged and keeps the
  result. Pushing a policy in pieces is then the same as installing it at once.
\<close>

locale patch_protocol =
  fixes wf :: "'s \<Rightarrow> bool"
    and staged_bytes :: "'s \<Rightarrow> u8 list"
    and target :: "'s \<Rightarrow> u8 \<times> u8"
    and pols :: "'s \<Rightarrow> policy_state"
    and status :: "'s \<Rightarrow> s32"
    and header :: "u8 \<Rightarrow> u8 \<Rightarrow> 's \<Rightarrow> 's cres"
    and body :: "u8 list \<Rightarrow> 's \<Rightarrow> 's cres"
    and commit :: "'s \<Rightarrow> 's cres"
    and install :: "int \<Rightarrow> int \<Rightarrow> u8 list option \<Rightarrow> policy_state \<Rightarrow> (int \<times> policy_state) cres"
  assumes header_selects: "wf s \<Longrightarrow> \<exists>s'. header c t s = Inr s' \<and> wf s' \<and> staged_bytes s' = [] \<and>
      target s' = (c, t) \<and> pols s' = pols s"
    and body_appends: "wf s \<Longrightarrow> length (staged_bytes s) + length b \<le> BSWAT_STAGING_MAX \<Longrightarrow>
      \<exists>s'. body b s = Inr s' \<and> wf s' \<and> staged_bytes s' = staged_bytes s @ b \<and>
        target s' = target s \<and> pols s' = pols s"
    and commit_installs: "wf s \<Longrightarrow>
      install (uint (fst (target s))) (uint (snd (target s))) (Some (staged_bytes s)) (pols s) = Inr (rc, ps) \<Longrightarrow>
      \<exists>s'. commit s = Inr s' \<and> wf s' \<and> staged_bytes s' = [] \<and> pols s' = ps \<and> status s' = word_of_int rc"
begin

lemma bodies_append:
  assumes "wf s" "length (staged_bytes s) + length (concat bss) \<le> BSWAT_STAGING_MAX"
  shows "\<exists>s'. c_fold body bss s = Inr s' \<and> wf s' \<and> staged_bytes s' = staged_bytes s @ concat bss \<and>
    target s' = target s \<and> pols s' = pols s"
  using assms
proof (induction bss arbitrary: s)
  case (Cons b bss)
  obtain s1 where "body b s = Inr s1" "wf s1" "staged_bytes s1 = staged_bytes s @ b" "target s1 = target s" "pols s1 = pols s"
    using body_appends [of s b] Cons.prems by auto
  then show ?case using Cons.IH [of s1] Cons.prems by auto
qed simp

lemma push_installs:
  assumes "wf s" "length (concat bss) \<le> BSWAT_STAGING_MAX"
    and "install (uint c) (uint t) (Some (concat bss)) (pols s) = Inr (rc, ps)"
  shows "\<exists>s'. c_bind (header c t s) (\<lambda>s. c_bind (c_fold body bss s) commit) = Inr s' \<and>
    wf s' \<and> staged_bytes s' = [] \<and> pols s' = ps \<and> status s' = word_of_int rc"
proof -
  obtain s1 where 1: "header c t s = Inr s1" "wf s1" "staged_bytes s1 = []" "target s1 = (c, t)" "pols s1 = pols s"
    using header_selects [OF assms(1)] by blast
  obtain s2 where 2: "c_fold body bss s1 = Inr s2" "wf s2" "staged_bytes s2 = concat bss" "target s2 = (c, t)"
      "pols s2 = pols s"
    using bodies_append [OF 1(2), of bss] 1 assms(2) by auto
  show ?thesis using commit_installs [OF 2(2), of rc ps] 1(1) 2 assms(3) by simp
qed

end

section \<open>Staging\<close>

definition patch_wf :: "patch_state \<Rightarrow> bool" where
  "patch_wf s \<longleftrightarrow> length (staging_buf s) = BSWAT_STAGING_MAX \<and> unat (staging_len s) \<le> BSWAT_STAGING_MAX"

text \<open>The bytes staged so far.\<close>

definition staged :: "patch_state \<Rightarrow> u8 list" where
  "staged s = take (unat (staging_len s)) (staging_buf s)"

lemma length_staged: "patch_wf s \<Longrightarrow> length (staged s) = unat (staging_len s)"
  by (simp add: patch_wf_def staged_def)

lemma length_splice: "i + length xs \<le> length bs \<Longrightarrow> length (splice bs i xs) = length bs"
  by (simp add: splice_def)

lemma write_header_refines:
  assumes "patch_wf s"
  shows "patch_wf (snd (write_header p off s))"
    "off = 0 \<Longrightarrow> length p = 2 \<Longrightarrow> write_header p off s =
       (2, s\<lparr>target_class := p ! 0, target_type := p ! 1, staging_len := 0\<rparr>)"
    "\<not> (off = 0 \<and> length p = 2) \<Longrightarrow> snd (write_header p off s) = s \<and> fst (write_header p off s) < 0"
  using assms by (auto simp: write_header_def patch_wf_def gatt_err_defs)

text \<open>A body write appends its bytes to those staged, or is refused.\<close>

lemma write_body_refines:
  assumes "patch_wf s"
  obtains (appended) s' where "write_body p off s = Inr (int (length p), s')" "patch_wf s'"
      "staged s' = staged s @ p" "off = 0" "length (staged s) + length p \<le> BSWAT_STAGING_MAX"
      "target_class s' = target_class s" "target_type s' = target_type s" "patch_policies s' = patch_policies s"
      "last_install_rc s' = last_install_rc s"
  | (refused) e where "write_body p off s = Inr (e, s)" "e < 0"
      "off \<noteq> 0 \<or> length (staged s) + length p > BSWAT_STAGING_MAX"
proof -
  note len = length_staged [OF assms]
  show thesis
  proof (cases "off = 0 \<and> unat (staging_len s) + length p \<le> BSWAT_STAGING_MAX")
    case True
    let ?s = "s\<lparr>staging_buf := splice (staging_buf s) (unat (staging_len s)) p,
        staging_len := staging_len s + word_of_nat (length p)\<rparr>"
    have n: "unat (staging_len s + word_of_nat (length p)) = unat (staging_len s) + length p"
      using True by (simp add: BSWAT_STAGING_MAX_def unat_word_ariths unsigned_of_nat take_bit_eq_mod)
    have "patch_wf ?s" "staged ?s = staged s @ p"
      using assms True n by (auto simp: patch_wf_def staged_def length_splice) (simp add: splice_def)
    then show thesis
      using True assms len by (intro appended [of ?s]) (auto simp: write_body_def patch_wf_def)
  next
    case False
    then show thesis
      using assms len
      by (intro refused [of "if off \<noteq> 0 then BT_GATT_ERR BT_ATT_ERR_INVALID_OFFSET else BT_GATT_ERR BT_ATT_ERR_INVALID_ATTRIBUTE_LEN"])
        (auto simp: write_body_def gatt_err_defs)
  qed
qed

text \<open>The service implements the protocol.\<close>

definition step_state :: "platform \<Rightarrow> patch_write \<Rightarrow> patch_state \<Rightarrow> patch_state cres" where
  "step_state pl w s = c_bind (patch_step pl w s) (\<lambda>(_, s). Inr s)"

lemma patch_session_fold: "patch_session pl ws s = c_fold (step_state pl) ws s"
  by (induction ws arbitrary: s) (simp_all add: step_state_def c_bind_assoc case_prod_beta cong: c_bind_cong)

interpretation zephyr_patch: patch_protocol patch_wf staged "\<lambda>s. (target_class s, target_type s)" patch_policies
  last_install_rc "\<lambda>c t. step_state pl (Header [c, t] 0)" "\<lambda>b. step_state pl (Body b 0)"
  "step_state pl (Commit [x] 0)" "ifw_install_policy pl"
  for pl x
proof
  fix s :: patch_state and c t :: u8 and b rc ps
  assume wf: "patch_wf s"
  show "\<exists>s'. step_state pl (Header [c, t] 0) s = Inr s' \<and> patch_wf s' \<and> staged s' = [] \<and>
      (target_class s', target_type s') = (c, t) \<and> patch_policies s' = patch_policies s"
    using wf by (simp add: step_state_def write_header_def patch_wf_def staged_def)
  show "\<exists>s'. step_state pl (Body b 0) s = Inr s' \<and> patch_wf s' \<and> staged s' = staged s @ b \<and>
      (target_class s', target_type s') = (target_class s, target_type s) \<and> patch_policies s' = patch_policies s"
    if "length (staged s) + length b \<le> BSWAT_STAGING_MAX"
    using wf by (cases rule: write_body_refines [of s b 0]) (use that in \<open>auto simp: step_state_def\<close>)
  show "\<exists>s'. step_state pl (Commit [x] 0) s = Inr s' \<and> patch_wf s' \<and> staged s' = [] \<and>
      patch_policies s' = ps \<and> last_install_rc s' = word_of_int rc"
    if "ifw_install_policy pl (uint (fst (target_class s, target_type s))) (uint (snd (target_class s, target_type s)))
      (Some (staged s)) (patch_policies s) = Inr (rc, ps)"
    using wf that by (simp add: step_state_def write_commit_def patch_wf_def staged_def)
qed

lemma patch_push:
  assumes "patch_wf s" "length (concat bss) \<le> BSWAT_STAGING_MAX"
    and "ifw_install_policy pl (uint c) (uint t) (Some (concat bss)) (patch_policies s) = Inr (rc, ps)"
  shows "\<exists>s'. patch_session pl (Header [c, t] 0 # map (\<lambda>b. Body b 0) bss @ [Commit [x] 0]) s = Inr s' \<and>
    patch_wf s' \<and> staged s' = [] \<and> patch_policies s' = ps \<and> last_install_rc s' = word_of_int rc"
  using zephyr_patch.push_installs [OF assms, of x]
  by (simp add: patch_session_fold c_fold_append c_fold_map cong: c_bind_cong)

text \<open>
  C18: pushing a policy over the air. A header write, any number of body writes whose bytes fit the
  staging buffer, and a commit have exactly the effect of one call of \<open>ifw_install_policy\<close> with the
  concatenated bytes, however they were cut into writes; the status characteristic then reads back
  its return code.
\<close>

theorem patch_push_installs:
  assumes "patch_wf s" "length (concat bss) \<le> BSWAT_STAGING_MAX"
    and "ifw_install_policy pl (uint c) (uint t) (Some (concat bss)) (patch_policies s) = Inr (rc, ps)"
  shows "\<exists>s'. patch_session pl (Header [c, t] 0 # map (\<lambda>b. Body b 0) bss @ [Commit [x] 0]) s = Inr s' \<and>
    patch_policies s' = ps \<and> staged s' = [] \<and> read_status 4 0 s' = (4, le_bytes 4 (word_of_int rc :: s32))"
  using patch_push [OF assms, of x] by (auto simp: read_status_def bt_gatt_attr_read_def)

section \<open>Every session\<close>

text \<open>
  Writes come over time, while the heap fills and empties: here each has a platform of its own, whose
  allocator answers during that write.
\<close>

fun patch_run :: "(platform \<times> patch_write) list \<Rightarrow> patch_state \<Rightarrow> patch_state cres" where
  "patch_run [] s = Inr s"
| "patch_run ((pl, w) # ws) s = c_bind (patch_step pl w s) (\<lambda>(_, s). patch_run ws s)"

lemma patch_session_run: "patch_session pl ws s = patch_run (map (Pair pl) ws) s"
  by (induction ws arbitrary: s) (simp_all add: case_prod_beta cong: c_bind_cong)

lemma patch_run_append: "patch_run (ws @ ws') s = c_bind (patch_run ws s) (patch_run ws')"
  by (induction ws arbitrary: s) (auto simp: c_bind_assoc case_prod_beta cong: c_bind_cong)

text \<open>
  A commit of an acceptable policy for which the copy of the code can be allocated, but not the node
  of the list of policies.
\<close>

definition commit_starved :: "platform \<Rightarrow> patch_write \<Rightarrow> patch_state \<Rightarrow> bool" where
  "commit_starved pl w s =
     (case w of
        Commit p off \<Rightarrow> off = 0 \<and> p \<noteq> [] \<and> slot_in_range (uint (target_class s)) (uint (target_type s)) \<and>
          runtime_policy_count (patch_policies s) < IFW_MAX_RUNTIME_POLICIES \<and>
          ifw_verify_policy (Some (staged s)) sizeof_FsmState = 0 \<and>
          alloc_ok pl (length (staged s)) \<and> \<not> alloc_ok pl 8
      | _ \<Rightarrow> False)"

lemma install_undefined:
  "ifw_install_policy pl cls ty (Some code) st = Inl e \<longleftrightarrow>
     e = Null_deref \<and> slot_in_range cls ty \<and> runtime_policy_count st < IFW_MAX_RUNTIME_POLICIES \<and>
     ifw_verify_policy (Some code) sizeof_FsmState = 0 \<and> alloc_ok pl (length code) \<and> \<not> alloc_ok pl 8"
proof -
  have "ifw_verify_policy (Some code) sizeof_FsmState = 0 \<Longrightarrow> code \<noteq> [] \<and> length code mod 8 = 0"
    by (auto simp: ifw_verify_policy_def split: if_splits)
  then show ?thesis
    by (auto simp: ifw_install_policy_def register_policy_def set_policy_mask_def slot_in_range_def Let_def)
qed

lemma patch_step_wf:
  assumes "patch_wf s" "wf_policies (patch_policies s)"
  shows "if commit_starved pl w s then patch_step pl w s = Inl Null_deref
    else \<exists>r s'. patch_step pl w s = Inr (r, s') \<and> patch_wf s' \<and> wf_policies (patch_policies s')"
proof (cases w)
  case (Header p off)
  then show ?thesis
    using assms write_header_refines(1) [OF assms(1), of p off] by (auto simp: write_header_def commit_starved_def)
next
  case (Body p off)
  show ?thesis
    using assms(1)
  proof (cases rule: write_body_refines [of s p off])
    case (appended s')
    then show ?thesis using Body assms(2) by (auto simp: commit_starved_def)
  next
    case (refused e)
    then show ?thesis using Body assms by (auto simp: commit_starved_def)
  qed
next
  case (Commit p off)
  let ?i = "ifw_install_policy pl (uint (target_class s)) (uint (target_type s)) (Some (staged s)) (patch_policies s)"
  have step: "patch_step pl w s = (if off \<noteq> 0 \<or> p = [] then Inr (BT_GATT_ERR BT_ATT_ERR_INVALID_OFFSET, s)
      else c_bind ?i (\<lambda>(rc, ps). Inr (int (length p),
        s\<lparr>last_install_rc := word_of_int rc, staging_len := 0, patch_policies := ps\<rparr>)))"
    using Commit assms(1) by (auto simp: write_commit_def patch_wf_def staged_def Suc_le_eq)
  show ?thesis
  proof (cases ?i)
    case (Inl e)
    then have e: "e = Null_deref" "commit_starved pl w s \<longleftrightarrow> off = 0 \<and> p \<noteq> []"
      using Commit by (auto simp: install_undefined commit_starved_def)
    show ?thesis using e step Inl assms by auto
  next
    case (Inr r)
    then have "\<not> commit_starved pl w s"
      using Commit install_undefined [of pl "uint (target_class s)" "uint (target_type s)" "staged s" "patch_policies s" Null_deref]
      by (auto simp: commit_starved_def)
    then show ?thesis
      using step Inr assms install_policy_wf by (cases r) (auto simp: patch_wf_def)
  qed
qed

lemma patch_run_outcome:
  assumes "patch_wf s" "wf_policies (patch_policies s)"
  shows "(\<exists>s'. patch_run ws s = Inr s' \<and> patch_wf s' \<and> wf_policies (patch_policies s')) \<or>
    patch_run ws s = Inl Null_deref \<and>
      (\<exists>ws1 pl w ws2 s'. ws = ws1 @ (pl, w) # ws2 \<and> patch_run ws1 s = Inr s' \<and> commit_starved pl w s')"
  using assms
proof (induction ws arbitrary: s)
  case Nil
  then show ?case by simp
next
  case (Cons x ws)
  obtain pl w where x: "x = (pl, w)" by (cases x)
  show ?case
  proof (cases "commit_starved pl w s")
    case True
    then have "patch_run (x # ws) s = Inl Null_deref" using patch_step_wf [OF Cons.prems, of pl w] x by simp
    then show ?thesis using True x by (metis append_Nil patch_run.simps(1))
  next
    case False
    then obtain r s1 where s1: "patch_step pl w s = Inr (r, s1)" "patch_wf s1" "wf_policies (patch_policies s1)"
      using patch_step_wf [OF Cons.prems, of pl w] by auto
    have "patch_run ((pl, w) # ws') s = patch_run ws' s1" for ws' using s1(1) by simp
    then show ?thesis using Cons.IH [OF s1(2,3)] x by (metis append_Cons)
  qed
qed

text \<open>
  C33: sequences of writes to the service, well-formed or not, whatever the allocator answers during each.
  A sequence either returns, with the staging buffer intact and every installed policy accepted by the
  verifier, or dereferences a null pointer; and it does the latter exactly if it reaches a commit of an
  acceptable policy at which the copy of the code can be allocated but the list node cannot.
\<close>

theorem patch_session_safe:
  assumes "patch_wf s" "wf_policies (patch_policies s)"
  shows "((\<exists>s'. patch_run ws s = Inr s' \<and> patch_wf s' \<and> wf_policies (patch_policies s')) \<or>
      patch_run ws s = Inl Null_deref) \<and>
    (patch_run ws s = Inl Null_deref \<longleftrightarrow>
      (\<exists>ws1 pl w ws2 s'. ws = ws1 @ (pl, w) # ws2 \<and> patch_run ws1 s = Inr s' \<and> commit_starved pl w s'))"
proof -
  have "patch_run ws s = Inl Null_deref"
    if "ws = ws1 @ (pl, w) # ws2" "patch_run ws1 s = Inr s'" "commit_starved pl w s'" for ws1 pl w ws2 s'
    using that patch_run_outcome [OF assms, of ws1] patch_step_wf [of s' pl w] by (auto simp: patch_run_append)
  then show ?thesis using patch_run_outcome [OF assms, of ws] by auto
qed

section \<open>Instances\<close>

lemma install_example:
  "\<exists>st'. ifw_install_policy platform_example 4 1 (Some (butlast spi_acl_len)) policy_state_init = Inr (0, st')"
proof -
  have "ifw_verify_policy (Some (butlast spi_acl_len)) sizeof_FsmState = 0"
    using shipped_safe(9) by (simp add: policy_safe_def sizeof_FsmState_def)
  then show ?thesis
    by (auto simp: ifw_install_policy_def ifw_verify_policy_def register_policy_def set_policy_mask_def slot_in_range_def
        policy_state_init_def IFW_MAX_RUNTIME_POLICIES_def Let_def split: if_splits)
qed

lemma patch_init_wf: "patch_wf (patch_state_init ps)"
  by (simp add: patch_wf_def patch_state_init_def)

theorem patch_push_installs_witness:
  "\<exists>s'. patch_session platform_example [Header [4, 1] 0, Body (take 20 (butlast spi_acl_len)) 0,
       Body (drop 20 (butlast spi_acl_len)) 0, Commit [1] 0] (patch_state_init policy_state_init) = Inr s' \<and>
     read_status 4 0 s' = (4, [0, 0, 0, 0])"
proof -
  let ?bss = "[take 20 (butlast spi_acl_len), drop 20 (butlast spi_acl_len)]"
  obtain ps where ps: "ifw_install_policy platform_example (uint (4 :: u8)) (uint (1 :: u8)) (Some (concat ?bss))
      (patch_policies (patch_state_init policy_state_init)) = Inr (0, ps)"
    using install_example by (auto simp: patch_state_init_def)
  have "length (concat ?bss) \<le> BSWAT_STAGING_MAX" by (simp add: BSWAT_STAGING_MAX_def spi_acl_len_def)
  from patch_push_installs [OF patch_init_wf this ps, of 1]
  show ?thesis by (auto simp: le_bytes_def upt_rec)
qed

theorem patch_session_safe_witness:
  "(\<exists>s'. patch_run (map (Pair platform_example)
      [Body (replicate 200 1) 0, Body (replicate 200 1) 0, Commit [] 0, Commit [1] 3, Header [1] 0])
     (patch_state_init policy_state_init) = Inr s' \<and> patch_wf s') \<and>
   patch_run (map (Pair (platform_example\<lparr>alloc_ok := \<lambda>n. n \<noteq> 8\<rparr>))
      [Header [4, 1] 0, Body (butlast spi_acl_len) 0, Commit [1] 0]) (patch_state_init policy_state_init) = Inl Null_deref"
proof -
  let ?s = "patch_state_init policy_state_init" and ?pl = "platform_example\<lparr>alloc_ok := \<lambda>n. n \<noteq> 8\<rparr>"
  let ?ws = "map (Pair platform_example)
      [Body (replicate 200 1) 0, Body (replicate 200 1) 0, Commit [] 0, Commit [1] 3, Header [1] 0]"
  have wf: "wf_policies (patch_policies ?s)"
    using policy_reach_wf [OF policy_reach.init] by (simp add: patch_state_init_def)
  have "\<not> commit_starved platform_example w s'" for w s' by (simp add: commit_starved_def split: patch_write.split)
  then have returns: "\<exists>s'. patch_run ?ws ?s = Inr s' \<and> patch_wf s'"
    using patch_session_safe [OF patch_init_wf wf, of ?ws] by (auto simp: append_eq_Cons_conv Cons_eq_append_conv)
  obtain s' where s': "patch_run [(?pl, Header [4, 1] 0), (?pl, Body (butlast spi_acl_len) 0)] ?s = Inr s'"
      "staged s' = butlast spi_acl_len" "target_class s' = 4" "target_type s' = 1" "patch_policies s' = policy_state_init"
  proof -
    let ?s1 = "?s\<lparr>target_class := 4, target_type := 1\<rparr>"
    have run: "patch_run [(?pl, Header [4, 1] 0), (?pl, Body b 0)] ?s = c_bind (write_body b 0 ?s1) (\<lambda>(_, s). Inr s)" for b
      by (simp add: write_header_def patch_state_init_def case_prod_beta cong: c_bind_cong)
    have wf1: "patch_wf ?s1" and st1: "staged ?s1 = []" by (simp_all add: patch_wf_def patch_state_init_def staged_def)
    have len: "length (butlast spi_acl_len) \<le> BSWAT_STAGING_MAX" by (simp add: BSWAT_STAGING_MAX_def spi_acl_len_def)
    show thesis
      using wf1
    proof (cases rule: write_body_refines [of ?s1 "butlast spi_acl_len" 0])
      case (appended s')
      have "patch_run [(?pl, Header [4, 1] 0), (?pl, Body (butlast spi_acl_len) 0)] ?s = Inr s'"
        unfolding run appended(1) by simp
      moreover have "staged s' = butlast spi_acl_len" using appended(3) st1 by simp
      moreover have "target_class s' = 4" "target_type s' = 1" "patch_policies s' = policy_state_init"
        using appended(6-8) by (simp_all add: patch_state_init_def)
      ultimately show thesis by (rule that)
    next
      case (refused e)
      then show thesis using st1 len by simp
    qed
  qed
  have "commit_starved ?pl (Commit [1] 0) s'"
    using s'(2-5) shipped_safe(9)
    by (simp add: commit_starved_def policy_safe_def sizeof_FsmState_def slot_in_range_def policy_state_init_def
        IFW_MAX_RUNTIME_POLICIES_def spi_acl_len_def)
  moreover have "map (Pair ?pl) [Header [4, 1] 0, Body (butlast spi_acl_len) 0, Commit [1] 0] =
      [(?pl, Header [4, 1] 0), (?pl, Body (butlast spi_acl_len) 0)] @ (?pl, Commit [1] 0) # []" (is "?w = _")
    by simp
  ultimately have "patch_run ?w ?s = Inl Null_deref"
    using patch_session_safe [OF patch_init_wf wf, of ?w] s'(1) by blast
  with returns show ?thesis by blast
qed

end
