(* ===== verification/Allocator.thy ===== *)
theory Allocator
  imports Prelude
begin

text \<open>
  The allocator wrappers of \<^verbatim>\<open>libebpf/ebpf-src/ebpf_allocator.c\<close>, for blocks of 32-bit words: a
  block is the list of its words, a null pointer is \<open>None\<close>. The allocator of the system underneath,
  \<open>k_malloc\<close>, is a parameter that takes the size in bytes and gives the block with whatever words it
  holds; \<open>alloc_sizes\<close> says that a block has the size asked for. \<open>ebpf_free\<close> returns a block to the heap
  that \<^verbatim>\<open>ebpf_porting.h\<close> selects. The theory also holds the interface of a map with conditions on its
  operations, which the array map of the library provides, and what a client may conclude from it.
\<close>

section \<open>Blocks\<close>

type_synonym block = "u32 list option"
type_synonym allocator = "nat \<Rightarrow> block"

fun block_get :: "block \<Rightarrow> nat \<Rightarrow> u32 cres" where
  "block_get None i = Inl Null_deref"
| "block_get (Some b) i = c_array_get b i"

fun block_set :: "block \<Rightarrow> nat \<Rightarrow> u32 \<Rightarrow> block cres" where
  "block_set None i v = Inl Null_deref"
| "block_set (Some b) i v = c_bind (c_array_set b i v) (\<lambda>b. Inr (Some b))"

definition alloc_sizes :: "allocator \<Rightarrow> bool" where
  "alloc_sizes malloc \<longleftrightarrow> (\<forall>n b. malloc n = Some b \<longrightarrow> length b = n div 4)"

definition ebpf_malloc :: "allocator \<Rightarrow> nat \<Rightarrow> block" where
  "ebpf_malloc malloc sz = malloc sz"

text \<open>
  The \<open>memcpy\<close> of \<open>orisize\<close> bytes reads the old block and is undefined if that is longer than the block;
  the new block is longer. The old block is freed by the call unless it is returned or the allocation
  fails.
\<close>

definition ebpf_realloc :: "allocator \<Rightarrow> block \<Rightarrow> nat \<Rightarrow> nat \<Rightarrow> block cres" where
  "ebpf_realloc malloc rmem orisize newsize =
     (if newsize = 0 then Inr None
      else case rmem of
        None \<Rightarrow> Inr (ebpf_malloc malloc newsize)
      | Some b \<Rightarrow>
          if newsize \<le> orisize then Inr rmem
          else case ebpf_malloc malloc newsize of
            None \<Rightarrow> Inr None
          | Some pnew \<Rightarrow>
              if orisize > 4 * length b then Inl Oob_read
              else Inr (Some (take (orisize div 4) b @ drop (orisize div 4) pnew)))"

lemma ebpf_realloc_keeps:
  assumes "alloc_sizes malloc" "ebpf_realloc malloc (Some b) orisize newsize = Inr (Some b')"
    and "i < orisize div 4" "orisize \<le> 4 * length b"
  shows "b' ! i = b ! i"
  using assms by (auto simp: ebpf_realloc_def nth_append split: if_splits option.splits)

section \<open>Heaps\<close>

text \<open>
  The ports of \<^verbatim>\<open>ebpf_porting.h\<close> whose allocator is that of the C library or of the Zephyr kernel. The
  firewall is built with \<open>ZEPHYR_OS\<close>. \<open>k_free\<close> may only be given a block of \<open>k_malloc\<close> or \<open>k_calloc\<close>, and
  \<open>free\<close> only one of \<open>malloc\<close> or \<open>calloc\<close>.
\<close>

datatype port = LINUX_TEST | NRF52_NO_OS | DEV_QEMU | ZEPHYR_OS

datatype heap = Libc_heap | Kernel_heap

fun my_os_heap :: "port \<Rightarrow> heap" where
  "my_os_heap LINUX_TEST = Libc_heap"
| "my_os_heap NRF52_NO_OS = Libc_heap"
| "my_os_heap DEV_QEMU = Libc_heap"
| "my_os_heap ZEPHYR_OS = Kernel_heap"

text \<open>Freeing a block that was allocated from the given heap.\<close>

definition ebpf_free :: "port \<Rightarrow> heap \<Rightarrow> unit cres" where
  "ebpf_free p h = (if my_os_heap p = h then Inr () else Inl Invalid_free)"

section \<open>Maps with conditions\<close>

datatype 'k map_op = Map_get 'k | Map_set 'k u32 | Map_del 'k

fun map_spec :: "'k map_op list \<Rightarrow> ('k \<rightharpoonup> u32) \<Rightarrow> u32 list \<times> ('k \<rightharpoonup> u32)" where
  "map_spec [] m = ([], m)"
| "map_spec (Map_get k # ops) m =
     (let (vs, m') = map_spec ops m in ((case m k of None \<Rightarrow> 0 | Some v \<Rightarrow> v) # vs, m'))"
| "map_spec (Map_set k v # ops) m = map_spec ops (m(k \<mapsto> v))"
| "map_spec (Map_del k # ops) m = map_spec ops (m(k := None))"

fun map_run ::
  "('s \<Rightarrow> 'k \<Rightarrow> u32 cres) \<Rightarrow> ('s \<Rightarrow> 'k \<Rightarrow> u32 \<Rightarrow> 's cres) \<Rightarrow> ('s \<Rightarrow> 'k \<Rightarrow> 's cres) \<Rightarrow>
   'k map_op list \<Rightarrow> 's \<Rightarrow> (u32 list \<times> 's) cres" where
  "map_run lookup update remove [] s = Inr ([], s)"
| "map_run lookup update remove (Map_get k # ops) s =
     c_bind (lookup s k) (\<lambda>v. c_bind (map_run lookup update remove ops s) (\<lambda>(vs, s). Inr (v # vs, s)))"
| "map_run lookup update remove (Map_set k v # ops) s = c_bind (update s k v) (map_run lookup update remove ops)"
| "map_run lookup update remove (Map_del k # ops) s = c_bind (remove s k) (map_run lookup update remove ops)"

text \<open>The conditions, checked along the run.\<close>

fun map_allowed ::
  "('s \<Rightarrow> 'k \<Rightarrow> bool) \<Rightarrow> ('s \<Rightarrow> 'k \<Rightarrow> bool) \<Rightarrow> ('s \<Rightarrow> 'k \<Rightarrow> u32 \<Rightarrow> 's cres) \<Rightarrow> ('s \<Rightarrow> 'k \<Rightarrow> 's cres) \<Rightarrow>
   'k map_op list \<Rightarrow> 's \<Rightarrow> bool" where
  "map_allowed can_set can_del update remove [] s = True"
| "map_allowed can_set can_del update remove (Map_get k # ops) s = map_allowed can_set can_del update remove ops s"
| "map_allowed can_set can_del update remove (Map_set k v # ops) s =
     (can_set s k \<and> (case update s k v of Inl e \<Rightarrow> True | Inr s' \<Rightarrow> map_allowed can_set can_del update remove ops s'))"
| "map_allowed can_set can_del update remove (Map_del k # ops) s =
     (can_del s k \<and> (case remove s k of Inl e \<Rightarrow> True | Inr s' \<Rightarrow> map_allowed can_set can_del update remove ops s'))"

locale guarded_map =
  fixes inv :: "'s \<Rightarrow> bool"
    and abs :: "'s \<Rightarrow> 'k \<rightharpoonup> u32"
    and lookup :: "'s \<Rightarrow> 'k \<Rightarrow> u32 cres"
    and update :: "'s \<Rightarrow> 'k \<Rightarrow> u32 \<Rightarrow> 's cres"
    and remove :: "'s \<Rightarrow> 'k \<Rightarrow> 's cres"
    and can_set :: "'s \<Rightarrow> 'k \<Rightarrow> bool"
    and can_del :: "'s \<Rightarrow> 'k \<Rightarrow> bool"
  assumes get_law: "inv s \<Longrightarrow> lookup s k = Inr (case abs s k of None \<Rightarrow> 0 | Some v \<Rightarrow> v)"
    and set_law: "inv s \<Longrightarrow> can_set s k \<Longrightarrow> \<exists>s'. update s k v = Inr s' \<and> inv s' \<and> abs s' = (abs s)(k \<mapsto> v)"
    and del_law: "inv s \<Longrightarrow> can_del s k \<Longrightarrow> \<exists>s'. remove s k = Inr s' \<and> inv s' \<and> abs s' = (abs s)(k := None)"
begin

lemma run_refines:
  "inv s \<Longrightarrow> map_allowed can_set can_del update remove ops s \<Longrightarrow>
   \<exists>vs s'. map_run lookup update remove ops s = Inr (vs, s') \<and> inv s' \<and> (vs, abs s') = map_spec ops (abs s)"
proof (induction ops arbitrary: s)
  case Nil
  then show ?case by simp
next
  case (Cons op ops)
  show ?case
  proof (cases op)
    case (Map_get k)
    then have "map_allowed can_set can_del update remove ops s" using Cons.prems(2) by simp
    from Cons.IH [OF Cons.prems(1) this] Map_get show ?thesis
      by (auto simp: get_law [OF Cons.prems(1)] split_def Let_def prod_eq_iff)
  next
    case (Map_set k v)
    with Cons.prems set_law [of s k v] obtain s' where "update s k v = Inr s'" "inv s'" "abs s' = (abs s)(k \<mapsto> v)"
      by auto
    with Map_set Cons.prems(2) Cons.IH [of s'] show ?thesis by (simp add: fun_upd_def)
  next
    case (Map_del k)
    with Cons.prems del_law [of s k] obtain s' where "remove s k = Inr s'" "inv s'" "abs s' = (abs s)(k := None)"
      by auto
    with Map_del Cons.prems(2) Cons.IH [of s'] show ?thesis by (simp add: fun_upd_def)
  qed
qed

end

section \<open>Association lists as maps\<close>

lemma map_of_insert_mid:
  "k \<notin> fst ` set xs \<Longrightarrow> map_of (xs @ (k, v) # ys) = (map_of (xs @ ys))(k \<mapsto> v)"
  by (induction xs) (auto simp: fun_eq_iff)

lemma map_of_remove_nth:
  assumes "distinct (map fst xs)" "i < length xs" "fst (xs ! i) = k"
  shows "map_of (take i xs @ drop (Suc i) xs) = (map_of xs)(k := None)"
proof -
  have xs: "xs = take i xs @ (k, snd (xs ! i)) # drop (Suc i) xs"
    using assms(2,3) id_take_nth_drop [of i xs] by (metis prod.collapse)
  have d: "distinct (map fst (take i xs @ (k, snd (xs ! i)) # drop (Suc i) xs))"
    using assms(1) xs by simp
  then have nin: "k \<notin> fst ` set (take i xs)" "k \<notin> fst ` set (drop (Suc i) xs)" by auto
  have "map_of xs = (map_of (take i xs @ drop (Suc i) xs))(k \<mapsto> snd (xs ! i))"
    by (subst xs) (rule map_of_insert_mid [OF nin(1)])
  moreover have "map_of (take i xs @ drop (Suc i) xs) k = None"
    using nin by (auto simp: map_of_eq_None_iff)
  ultimately show ?thesis by (auto simp: fun_eq_iff)
qed

lemma map_of_zip_update:
  assumes "distinct ks" "length ks = length vs" "i < length ks"
  shows "map_of (zip ks (vs[i := v])) = (map_of (zip ks vs))(ks ! i \<mapsto> v)"
  using assms(2,1,3)
proof (induction ks vs arbitrary: i rule: list_induct2)
  case Nil
  then show ?case by simp
next
  case (Cons a ks b vs)
  then show ?case by (cases i) (auto simp: fun_eq_iff)
qed

end
