(* ===== verification/Array_Map.thy ===== *)
theory Array_Map
  imports Allocator
begin

text \<open>
  The containers of \<^verbatim>\<open>libebpf/ebpf-src/map.c\<close>: \<open>darray\<close>, a growing array of pointers, and
  \<open>arraymap\<close>, a map kept as two parallel arrays sorted by key. Keys and values are pointers, that is
  32-bit words; \<open>NULL\<close> is 0. The two arrays are the blocks allocated for them, so that a read or write
  past their ends is an error of the model, and fresh memory holds arbitrary words. The sizes and
  indices, \<open>int\<close> in C, stay below 2^16 + 1 for an \<open>arraymap\<close> whose sizes are 16-bit fields; they are
  natural numbers here, and integers where they may become negative.
\<close>

section \<open>Searching\<close>

abbreviation (input) MAP_GROW :: nat where "MAP_GROW \<equiv> 4"

text \<open>\<open>m\<close> is an \<open>int\<close>, but both comparisons convert it to \<open>uint32_t\<close>.\<close>

function binary_search_loop :: "block \<Rightarrow> u32 \<Rightarrow> int \<Rightarrow> int \<Rightarrow> int cres" where
  "binary_search_loop arr val start end' =
     (if start \<le> end' then
        let mid = (start + end') div 2 in
        c_bind (block_get arr (nat mid)) (\<lambda>m.
        if m = val then Inr mid
        else if m > val then binary_search_loop arr val start (mid - 1)
        else binary_search_loop arr val (mid + 1) end')
      else Inr (- 1))"
  by pat_completeness auto
termination
  by (relation "measure (\<lambda>(arr, val, start, end'). nat (end' - start + 1))") auto

declare binary_search_loop.simps [simp del]

definition binary_search :: "block \<Rightarrow> nat \<Rightarrow> u32 \<Rightarrow> int cres" where
  "binary_search arr sz val = binary_search_loop arr val 0 (int sz - 1)"

text \<open>The loop of \<open>lower_bound\<close> and \<open>upper_bound\<close>, which differ in the comparison that moves \<open>start\<close>.\<close>

function bound_loop :: "(u32 \<Rightarrow> bool) \<Rightarrow> block \<Rightarrow> nat \<Rightarrow> nat \<Rightarrow> nat cres" where
  "bound_loop before arr start end' =
     (if start + 1 < end' then
        let mid = (start + end') div 2 in
        c_bind (block_get arr mid) (\<lambda>m.
        if before m then bound_loop before arr mid end' else bound_loop before arr start mid)
      else Inr end')"
  by pat_completeness auto
termination
  by (relation "measure (\<lambda>(before, arr, start, end'). end' - start)") auto

declare bound_loop.simps [simp del]

definition lower_bound :: "block \<Rightarrow> nat \<Rightarrow> u32 \<Rightarrow> nat cres" where
  "lower_bound arr sz val = bound_loop (\<lambda>m. m < val) arr 0 sz"

definition upper_bound :: "block \<Rightarrow> nat \<Rightarrow> u32 \<Rightarrow> nat cres" where
  "upper_bound arr sz val = bound_loop (\<lambda>m. m \<le> val) arr 0 sz"

section \<open>Dynamic arrays\<close>

record darray =
  da_cur_size :: int
  da_max_size :: int
  da_vals :: "u32 list"

text \<open>\<open>vals\<close> is the tail of the same allocation as the two sizes, which take two words.\<close>

definition sizeof_darray :: nat where "sizeof_darray = 8"

definition darray_new :: "allocator \<Rightarrow> nat \<Rightarrow> darray cres" where
  "darray_new malloc initial_size =
     (case ebpf_malloc malloc (sizeof_darray + 4 * initial_size) of
        None \<Rightarrow> Inl Null_deref
      | Some b \<Rightarrow> Inr \<lparr>da_cur_size = 0, da_max_size = int initial_size, da_vals = replicate initial_size 0\<rparr>)"

text \<open>An index into \<open>vals\<close>, with the error of the access it is used for.\<close>

definition darray_index :: "ub \<Rightarrow> darray \<Rightarrow> int \<Rightarrow> nat cres" where
  "darray_index e arr i = (if 0 \<le> i \<and> i < int (length (da_vals arr)) then Inr (nat i) else Inl e)"

text \<open>The first free slot below \<open>cur_size\<close>.\<close>

fun darray_find_free :: "u32 list \<Rightarrow> nat \<Rightarrow> nat \<Rightarrow> nat option cres" where
  "darray_find_free vals i 0 = Inr None"
| "darray_find_free vals i (Suc n) =
     c_bind (c_array_get vals i) (\<lambda>v. if v = 0 then Inr (Some i) else darray_find_free vals (Suc i) n)"

text \<open>
  The array the caller's pointer still refers to is part of the result: growing moves the array to a
  new allocation that only the local variable \<open>arr\<close> refers to and frees the old one, which is \<open>None\<close>.
\<close>

definition darray_add :: "allocator \<Rightarrow> u32 \<Rightarrow> darray \<Rightarrow> (int \<times> darray option) cres" where
  "darray_add malloc val arr =
     c_bind (darray_find_free (da_vals arr) 0 (nat (da_cur_size arr))) (\<lambda>free.
     case free of
       Some i \<Rightarrow> c_bind (c_array_set (da_vals arr) i val) (\<lambda>vs. Inr (int i, Some (arr\<lparr>da_vals := vs\<rparr>)))
     | None \<Rightarrow>
         let idx = da_cur_size arr; arr = arr\<lparr>da_cur_size := da_cur_size arr + 1\<rparr> in
         if da_cur_size arr \<ge> da_max_size arr then
           let new_size = da_max_size arr + int MAP_GROW;
               ori_size = sizeof_darray + 4 * nat (da_max_size arr) in
           c_bind (ebpf_realloc malloc (Some (0 # 0 # da_vals arr)) ori_size (sizeof_darray + 4 * nat new_size)) (\<lambda>p.
           case p of
             None \<Rightarrow> Inl Null_deref
           | Some b \<Rightarrow> c_bind (c_array_set (drop 2 b) (nat idx) val) (\<lambda>_. Inr (idx, None)))
         else c_bind (c_array_set (da_vals arr) (nat idx) val) (\<lambda>vs. Inr (idx, Some (arr\<lparr>da_vals := vs\<rparr>))))"

definition darray_get :: "darray \<Rightarrow> int \<Rightarrow> u32 cres" where
  "darray_get arr key =
     (if key < da_cur_size arr then c_bind (darray_index Oob_read arr key) (\<lambda>i. Inr (da_vals arr ! i)) else Inr 0)"

definition darray_set :: "darray \<Rightarrow> int \<Rightarrow> u32 \<Rightarrow> darray cres" where
  "darray_set arr key val =
     (if key < da_max_size arr
      then c_bind (darray_index Oob_write arr key) (\<lambda>i. Inr (arr\<lparr>da_vals := (da_vals arr)[i := val]\<rparr>))
      else Inr arr)"

definition darray_del :: "darray \<Rightarrow> int \<Rightarrow> darray cres" where
  "darray_del arr key =
     (if key < da_cur_size arr
      then c_bind (darray_index Oob_write arr key) (\<lambda>i. Inr (arr\<lparr>da_vals := (da_vals arr)[i := 0]\<rparr>))
      else Inr arr)"

section \<open>Sorted array maps\<close>

record arraymap =
  am_max_size :: u16
  am_cur_size :: u16
  am_keys :: block
  am_vals :: block

text \<open>The three allocators are those of the map itself (only whether it succeeds matters), the keys and the values.\<close>

definition arraymap_new :: "allocator \<Rightarrow> allocator \<Rightarrow> allocator \<Rightarrow> nat \<Rightarrow> arraymap cres" where
  "arraymap_new ma mk mv initial_size =
     (case ebpf_malloc ma 12 of
        None \<Rightarrow> Inl Null_deref
      | Some _ \<Rightarrow> Inr \<lparr>am_max_size = word_of_nat initial_size, am_cur_size = 0,
                     am_keys = ebpf_malloc mk (4 * initial_size), am_vals = ebpf_malloc mv (4 * initial_size)\<rparr>)"

fun shift_up :: "nat \<Rightarrow> nat \<Rightarrow> block \<times> block \<Rightarrow> (block \<times> block) cres" where
  "shift_up ins i (keys, vals) =
     (if i > ins then
        c_bind (block_get keys (i - 1)) (\<lambda>k.
        c_bind (block_set keys i k) (\<lambda>keys.
        c_bind (block_get vals (i - 1)) (\<lambda>v.
        c_bind (block_set vals i v) (\<lambda>vals.
        shift_up ins (i - 1) (keys, vals)))))
      else Inr (keys, vals))"

declare shift_up.simps [simp del]

definition arraymap_set :: "allocator \<Rightarrow> allocator \<Rightarrow> arraymap \<Rightarrow> u32 \<Rightarrow> u32 \<Rightarrow> arraymap cres" where
  "arraymap_set mk mv mp key val =
     (if am_cur_size mp = 0 then
        c_bind (block_set (am_keys mp) 0 key) (\<lambda>keys.
        c_bind (block_set (am_vals mp) 0 val) (\<lambda>vals.
        Inr (mp\<lparr>am_keys := keys, am_vals := vals, am_cur_size := am_cur_size mp + 1\<rparr>)))
      else
        c_bind (lower_bound (am_keys mp) (unat (am_cur_size mp)) key) (\<lambda>ins.
        c_bind (block_get (am_keys mp) ins) (\<lambda>k.
        if k = key then c_bind (block_set (am_vals mp) ins val) (\<lambda>vals. Inr (mp\<lparr>am_vals := vals\<rparr>))
        else
          c_bind (if am_cur_size mp \<ge> am_max_size mp then
                    let new_size = unat (am_max_size mp) + MAP_GROW;
                        ori_size = sizeof_darray + 4 * unat (am_max_size mp) in
                    c_bind (ebpf_realloc mk (am_keys mp) ori_size (4 * new_size)) (\<lambda>keys.
                    c_bind (ebpf_realloc mv (am_vals mp) ori_size (4 * new_size)) (\<lambda>vals.
                    Inr (mp\<lparr>am_keys := keys, am_vals := vals, am_max_size := word_of_nat new_size\<rparr>)))
                  else Inr mp) (\<lambda>mp.
          c_bind (shift_up ins (unat (am_cur_size mp)) (am_keys mp, am_vals mp)) (\<lambda>(keys, vals).
          c_bind (block_set keys ins key) (\<lambda>keys.
          c_bind (block_set vals ins val) (\<lambda>vals.
          Inr (mp\<lparr>am_keys := keys, am_vals := vals, am_cur_size := am_cur_size mp + 1\<rparr>))))))))"

definition arraymap_get :: "arraymap \<Rightarrow> u32 \<Rightarrow> u32 cres" where
  "arraymap_get mp key =
     c_bind (binary_search (am_keys mp) (unat (am_cur_size mp)) key) (\<lambda>idx.
     if idx \<noteq> - 1 then block_get (am_vals mp) (nat idx) else Inr 0)"

fun shift_down :: "nat \<Rightarrow> nat \<Rightarrow> block \<times> block \<Rightarrow> (block \<times> block) cres" where
  "shift_down i 0 (keys, vals) = Inr (keys, vals)"
| "shift_down i (Suc n) (keys, vals) =
     c_bind (block_get keys (i + 1)) (\<lambda>k.
     c_bind (block_set keys i k) (\<lambda>keys.
     c_bind (block_get vals (i + 1)) (\<lambda>v.
     c_bind (block_set vals i v) (\<lambda>vals.
     shift_down (i + 1) n (keys, vals)))))"

text \<open>The loop runs \<open>cur_size\<close> - \<open>idx\<close> times.\<close>

definition arraymap_del :: "arraymap \<Rightarrow> u32 \<Rightarrow> arraymap cres" where
  "arraymap_del mp key =
     c_bind (binary_search (am_keys mp) (unat (am_cur_size mp)) key) (\<lambda>idx.
     if idx \<noteq> - 1 then
       c_bind (shift_down (nat idx) (unat (am_cur_size mp) - nat idx) (am_keys mp, am_vals mp)) (\<lambda>(keys, vals).
       let cur = am_cur_size mp - 1 in
       c_bind (block_set keys (unat cur) 0) (\<lambda>keys.
       c_bind (block_set vals (unat cur) 0) (\<lambda>vals.
       Inr (mp\<lparr>am_cur_size := cur, am_keys := keys, am_vals := vals\<rparr>))))
     else Inr mp)"

section \<open>Searching sorted keys\<close>

lemma sorted_filter_prefix:
  assumes "sorted_wrt (<) xs" "\<And>x y. x < y \<Longrightarrow> before y \<Longrightarrow> before x" "i < length xs"
  shows "before (xs ! i) \<longleftrightarrow> i < length (filter before xs)"
  using assms(1,3)
proof (induction xs arbitrary: i)
  case Nil
  then show ?case by simp
next
  case (Cons x xs)
  show ?case
  proof (cases "before x")
    case True
    then show ?thesis using Cons by (cases i) auto
  next
    case False
    then have "\<not> before y" if "y \<in> set xs" for y using Cons.prems(1) assms(2) that by auto
    then have "filter before xs = []" by (simp add: filter_empty_conv)
    then show ?thesis using False Cons.prems \<open>\<And>y. y \<in> set xs \<Longrightarrow> \<not> before y\<close> by (cases i) auto
  qed
qed

lemma bound_loop_eq:
  fixes before :: "u32 \<Rightarrow> bool"
  assumes "sorted_wrt (<) (take n ks)" "\<And>x y. x < y \<Longrightarrow> before y \<Longrightarrow> before x" "n \<le> length ks"
  defines "c \<equiv> length (filter before (take n ks))"
  shows "start < e \<Longrightarrow> e \<le> n \<Longrightarrow> start = 0 \<or> start < c \<Longrightarrow> c \<le> e \<Longrightarrow>
    bound_loop before (Some ks) start e = Inr (max 1 c)"
proof (induction "e - start" arbitrary: start e rule: less_induct)
  case less
  let ?mid = "(start + e) div 2"
  show ?case
  proof (cases "start + 1 < e")
    case True
    then have mid: "start < ?mid" "?mid < e" by auto
    have nth: "before (ks ! ?mid) \<longleftrightarrow> ?mid < c"
      using sorted_filter_prefix [where i = ?mid, OF assms(1,2)] mid less.prems(2) assms(3) by (simp add: c_def)
    show ?thesis
      using True mid nth less.prems assms(3) less.hyps [of e ?mid] less.hyps [of ?mid start]
      by (subst bound_loop.simps) (simp add: Let_def not_less)
  next
    case False
    then show ?thesis using less.prems by (subst bound_loop.simps) (auto simp: max_def)
  qed
qed

lemma lower_bound_eq:
  assumes "sorted_wrt (<) (take n ks)" "0 < n" "n \<le> length ks"
  shows "lower_bound (Some ks) n v = Inr (max 1 (length (filter (\<lambda>x. x < v) (take n ks))))"
  unfolding lower_bound_def
  using assms(2,3) le_trans [OF length_filter_le, of "take n ks" n]
  by (intro bound_loop_eq [OF assms(1)]) auto

lemma upper_bound_eq:
  assumes "sorted_wrt (<) (take n ks)" "0 < n" "n \<le> length ks"
  shows "upper_bound (Some ks) n v = Inr (max 1 (length (filter (\<lambda>x. x \<le> v) (take n ks))))"
  unfolding upper_bound_def
  using assms(2,3) le_trans [OF length_filter_le, of "take n ks" n]
  by (intro bound_loop_eq [OF assms(1)]) auto

lemma binary_search_loop_eq:
  assumes "sorted_wrt (<) (take n ks)" "n \<le> length ks"
  shows "0 \<le> s \<Longrightarrow> e < int n \<Longrightarrow> (\<And>i. i < n \<Longrightarrow> ks ! i = v \<Longrightarrow> s \<le> int i \<and> int i \<le> e) \<Longrightarrow>
    \<exists>j. binary_search_loop (Some ks) v s e = Inr j \<and>
      (if v \<in> set (take n ks) then 0 \<le> j \<and> nat j < n \<and> ks ! nat j = v else j = - 1)"
proof (induction "nat (e - s + 1)" arbitrary: s e rule: less_induct)
  case less
  let ?mid = "(s + e) div 2"
  have nth: "i < j \<Longrightarrow> j < n \<Longrightarrow> ks ! i < ks ! j" for i j
    using sorted_wrt_nth_less [OF assms(1), of i j] assms(2) by simp
  show ?case
  proof (cases "s \<le> e")
    case True
    then have mid: "s \<le> ?mid" "?mid \<le> e" "nat ?mid < n" "int (nat ?mid) = ?mid" using less.prems by auto
    have in_set: "nat ?mid < n \<Longrightarrow> ks ! nat ?mid \<in> set (take n ks)"
      using assms(2) by (auto simp: in_set_conv_nth intro!: exI [of _ "nat ?mid"])
    consider "ks ! nat ?mid = v" | "v < ks ! nat ?mid" | "ks ! nat ?mid < v" by fastforce
    then show ?thesis
    proof cases
      case 1
      then show ?thesis using True mid in_set assms(2) less.prems
        by (subst binary_search_loop.simps) (auto simp: Let_def)
    next
      case 2
      have "int i \<le> ?mid - 1" if "i < n" "ks ! i = v" for i
      proof -
        have "i < nat ?mid" using nth [of "nat ?mid" i] 2 that by (metis less_asym less_irrefl linorder_neqE_nat)
        then show ?thesis using mid(4) by linarith
      qed
      then show ?thesis
        using True mid 2 assms(2) less.prems less.hyps [of "?mid - 1" s]
        by (subst binary_search_loop.simps) (auto simp: Let_def)
    next
      case 3
      have "?mid + 1 \<le> int i" if "i < n" "ks ! i = v" for i
      proof -
        have "nat ?mid < i" using nth [of i "nat ?mid"] mid(3) 3 that by (metis less_asym less_irrefl linorder_neqE_nat)
        then show ?thesis using mid(4) by linarith
      qed
      then show ?thesis
        using True mid 3 assms(2) less.prems less.hyps [of e "?mid + 1"]
        by (subst binary_search_loop.simps) (auto simp: Let_def)
    qed
  next
    case False
    then have "v \<notin> set (take n ks)" using less.prems(3) by (fastforce simp: in_set_conv_nth)
    then show ?thesis using False by (subst binary_search_loop.simps) simp
  qed
qed

lemma binary_search_eq:
  assumes "sorted_wrt (<) (take n ks)" "n \<le> length ks"
  shows "\<exists>j. binary_search (Some ks) n v = Inr j \<and>
    (if v \<in> set (take n ks) then 0 \<le> j \<and> nat j < n \<and> ks ! nat j = v else j = - 1)"
  unfolding binary_search_def by (rule binary_search_loop_eq [OF assms]) auto

section \<open>The loops that move entries\<close>

definition insert_at :: "nat \<Rightarrow> nat \<Rightarrow> 'a \<Rightarrow> 'a list \<Rightarrow> 'a list" where
  "insert_at i n x xs = take i xs @ x # take (n - i) (drop i xs) @ drop (Suc n) xs"

definition close_gap :: "nat \<Rightarrow> nat \<Rightarrow> 'a list \<Rightarrow> 'a list" where
  "close_gap i n xs = take i xs @ take n (drop (Suc i) xs) @ drop (i + n) xs"

lemma insert_at_step:
  assumes "i \<le> n" "Suc n < length xs"
  shows "insert_at i n x (xs[Suc n := xs ! n]) = insert_at i (Suc n) x xs"
proof -
  have "drop (Suc n) (xs[Suc n := xs ! n]) = xs ! n # drop (Suc (Suc n)) xs"
    using assms by (simp add: Cons_nth_drop_Suc [symmetric])
  moreover have "take (Suc (n - i)) (drop i xs) = take (n - i) (drop i xs) @ [xs ! n]"
    using assms by (simp add: take_Suc_conv_app_nth)
  moreover have "take (n - i) (drop i (xs[Suc n := xs ! n])) = take (n - i) (drop i xs)"
    using assms by (simp add: drop_update_swap)
  ultimately show ?thesis using assms by (simp add: insert_at_def Suc_diff_le)
qed

lemma shift_up_eq:
  assumes "i \<le> n" "n < length ks" "n < length vs"
  shows "\<exists>ks' vs'. shift_up i n (Some ks, Some vs) = Inr (Some ks', Some vs') \<and>
    length ks' = length ks \<and> length vs' = length vs \<and>
    (\<forall>x. ks'[i := x] = insert_at i n x ks) \<and> (\<forall>x. vs'[i := x] = insert_at i n x vs)"
  using assms
proof (induction n arbitrary: ks vs rule: nat_induct_at_least)
  case base
  then show ?case by (subst shift_up.simps) (simp add: insert_at_def upd_conv_take_nth_drop)
next
  case (Suc n)
  from Suc.IH [of "ks[Suc n := ks ! n]" "vs[Suc n := vs ! n]"] Suc.prems Suc.hyps show ?case
    by (subst shift_up.simps) (simp add: insert_at_step)
qed

lemma close_gap_step:
  assumes "Suc i + n < length xs"
  shows "close_gap (Suc i) n (xs[i := xs ! Suc i]) = close_gap i (Suc n) xs"
proof -
  have "take (Suc i) (xs[i := xs ! Suc i]) = take i xs @ [xs ! Suc i]"
    using assms by (simp add: take_Suc_conv_app_nth)
  moreover have "take (Suc n) (drop (Suc i) xs) = xs ! Suc i # take n (drop (Suc (Suc i)) xs)"
    using assms by (simp add: Cons_nth_drop_Suc [symmetric])
  ultimately show ?thesis by (simp add: close_gap_def)
qed

lemma shift_down_eq:
  "i + n < length ks \<Longrightarrow> i + n < length vs \<Longrightarrow>
   shift_down i n (Some ks, Some vs) = Inr (Some (close_gap i n ks), Some (close_gap i n vs))"
proof (induction n arbitrary: i ks vs)
  case 0
  then show ?case by (simp add: close_gap_def)
next
  case (Suc n)
  then show ?case using Suc.IH [of "Suc i" "ks[i := ks ! Suc i]" "vs[i := vs ! Suc i]"] by (simp add: close_gap_step)
qed

lemma shift_down_full:
  "0 < n \<Longrightarrow> i + n = length ks \<Longrightarrow> length vs = length ks \<Longrightarrow> shift_down i n (Some ks, Some vs) = Inl Oob_read"
proof (induction n arbitrary: i ks vs)
  case (Suc n)
  then show ?case
    using Suc.IH [of "Suc i" "ks[i := ks ! Suc i]" "vs[i := vs ! Suc i]"] by (cases n) (auto simp: c_array_get_def)
qed simp

lemma take_insert_at:
  "i \<le> n \<Longrightarrow> n < length xs \<Longrightarrow> take (Suc n) (insert_at i n x xs) = take i (take n xs) @ x # drop i (take n xs)"
  by (auto simp: insert_at_def drop_take Suc_diff_le min_def)

lemma take_close_gap:
  "i < n \<Longrightarrow> n < length xs \<Longrightarrow>
   take (n - Suc 0) (close_gap i (n - i) xs) = take i (take n xs) @ drop (Suc i) (take n xs)"
  by (auto simp: close_gap_def drop_take dest!: less_imp_Suc_add)

lemma length_insert_at: "i \<le> n \<Longrightarrow> n < length xs \<Longrightarrow> length (insert_at i n x xs) = length xs"
  by (simp add: insert_at_def)

lemma length_close_gap: "i + n < length xs \<Longrightarrow> length (close_gap i n xs) = length xs"
  by (simp add: close_gap_def)

lemma sorted_insert:
  fixes k :: u32
  assumes "sorted_wrt (<) ks" "k \<notin> set ks"
  defines "i \<equiv> length (filter (\<lambda>x. x < k) ks)"
  shows "sorted_wrt (<) (take i ks @ k # drop i ks)"
proof -
  have nth: "j < length ks \<Longrightarrow> ks ! j < k \<longleftrightarrow> j < i" for j
    using sorted_filter_prefix [OF assms(1), of "\<lambda>x. x < k" j] by (simp add: i_def)
  have "x < k" if "x \<in> set (take i ks)" for x using that nth by (auto simp: in_set_conv_nth)
  moreover have "k < y" if y: "y \<in> set (drop i ks)" for y
  proof -
    obtain j where "y = ks ! (i + j)" "i + j < length ks"
      using y by (auto simp: in_set_conv_nth)
    then have "\<not> y < k" "y \<in> set ks" using nth [of "i + j"] by auto
    then show ?thesis using assms(2) by (metis linorder_neqE)
  qed
  moreover have "sorted_wrt (<) (take i ks @ drop i ks)" using assms(1) by simp
  ultimately show ?thesis by (auto simp: sorted_wrt_append simp del: append_take_drop_id intro: less_trans)
qed

lemma sorted_remove:
  assumes "sorted_wrt R xs" "i < length xs"
  shows "sorted_wrt R (take i xs @ drop (Suc i) xs)"
proof -
  have "sorted_wrt R (take i xs @ xs ! i # drop (Suc i) xs)" using assms by (simp add: id_take_nth_drop [symmetric])
  then show ?thesis by (simp add: sorted_wrt_append)
qed

lemma sorted_position:
  fixes k :: u32
  assumes "sorted_wrt (<) ks" "k \<in> set ks"
  shows "length (filter (\<lambda>x. x < k) ks) < length ks \<and> ks ! length (filter (\<lambda>x. x < k) ks) = k"
proof -
  let ?c = "length (filter (\<lambda>x. x < k) ks)"
  obtain j where j: "j < length ks" "ks ! j = k" using assms(2) by (auto simp: in_set_conv_nth)
  have nth: "l < length ks \<Longrightarrow> ks ! l < k \<longleftrightarrow> l < ?c" for l
    using sorted_filter_prefix [OF assms(1), of "\<lambda>x. x < k" l] by simp
  have "?c \<le> j" using nth [of j] j by simp
  moreover have "\<not> ?c < j" using nth [of ?c] sorted_wrt_nth_less [OF assms(1), of ?c j] j by auto
  ultimately show ?thesis using j by simp
qed

section \<open>The map an array map stands for\<close>

definition am_wf :: "arraymap \<Rightarrow> bool" where
  "am_wf m \<longleftrightarrow>
     (case (am_keys m, am_vals m) of
        (Some ks, Some vs) \<Rightarrow>
          length ks = unat (am_max_size m) \<and> length vs = unat (am_max_size m) \<and>
          unat (am_cur_size m) \<le> unat (am_max_size m) \<and> sorted_wrt (<) (take (unat (am_cur_size m)) ks)
      | _ \<Rightarrow> False)"

definition am_map :: "arraymap \<Rightarrow> u32 \<rightharpoonup> u32" where
  "am_map m =
     (case (am_keys m, am_vals m) of
        (Some ks, Some vs) \<Rightarrow> map_of (zip (take (unat (am_cur_size m)) ks) (take (unat (am_cur_size m)) vs))
      | _ \<Rightarrow> Map.empty)"

text \<open>
  When \<open>arraymap_set\<close> does what it means to: the first entry always; later the key must be above the
  first one, and a new key needs a free slot that does not happen to hold the key already.
\<close>

definition am_can_set :: "arraymap \<Rightarrow> u32 \<Rightarrow> bool" where
  "am_can_set m k \<longleftrightarrow>
     (case am_keys m of
        None \<Rightarrow> False
      | Some ks \<Rightarrow>
          if am_cur_size m = 0 then am_max_size m \<noteq> 0
          else ks ! 0 < k \<and>
            (am_map m k \<noteq> None \<or> unat (am_cur_size m) < unat (am_max_size m) \<and> ks ! unat (am_cur_size m) \<noteq> k))"

definition am_can_del :: "arraymap \<Rightarrow> u32 \<Rightarrow> bool" where
  "am_can_del m k \<longleftrightarrow> am_map m k = None \<or> unat (am_cur_size m) < unat (am_max_size m)"

lemma am_wfE:
  assumes "am_wf m"
  obtains ks vs where "am_keys m = Some ks" "am_vals m = Some vs"
    "length ks = unat (am_max_size m)" "length vs = unat (am_max_size m)"
    "unat (am_cur_size m) \<le> unat (am_max_size m)" "sorted_wrt (<) (take (unat (am_cur_size m)) ks)"
    "am_map m = map_of (zip (take (unat (am_cur_size m)) ks) (take (unat (am_cur_size m)) vs))"
  using assms by (auto simp: am_wf_def am_map_def split: option.splits)

lemma am_distinct: "sorted_wrt (<) (ks :: u32 list) \<Longrightarrow> distinct ks"
  by (simp add: strict_sorted_iff)

lemma am_map_dom:
  assumes "length ks = length (vs :: u32 list)"
  shows "map_of (zip ks vs) k = None \<longleftrightarrow> k \<notin> set ks"
  using assms by (simp add: map_of_zip_is_None)

lemma unat_Suc_less:
  fixes x y :: u16
  assumes "unat x < unat y"
  shows "unat (x + 1) = Suc (unat x)"
  using assms unsigned_less [where 'a = nat, of y] by (simp add: unat_word_ariths)

lemma am_get:
  assumes "am_wf m"
  shows "arraymap_get m k = Inr (case am_map m k of None \<Rightarrow> 0 | Some v \<Rightarrow> v)"
proof -
  let ?n = "unat (am_cur_size m)"
  obtain ks vs where m: "am_keys m = Some ks" "am_vals m = Some vs" "length ks = unat (am_max_size m)"
      "length vs = unat (am_max_size m)" "?n \<le> unat (am_max_size m)" "sorted_wrt (<) (take ?n ks)"
      "am_map m = map_of (zip (take ?n ks) (take ?n vs))"
    using assms by (rule am_wfE)
  obtain j where j: "binary_search (Some ks) ?n k = Inr j"
      "if k \<in> set (take ?n ks) then 0 \<le> j \<and> nat j < ?n \<and> ks ! nat j = k else j = - 1"
    using binary_search_eq [OF m(6), of k] m by auto
  show ?thesis
  proof (cases "k \<in> set (take ?n ks)")
    case True
    then have "map_of (zip (take ?n ks) (take ?n vs)) (take ?n ks ! nat j) = Some (take ?n vs ! nat j)"
      using j m am_distinct [OF m(6)] by (intro map_of_zip_nth) auto
    then show ?thesis using True j m by (simp add: arraymap_get_def)
  next
    case False
    then have "am_map m k = None" unfolding m(7) using m by (intro am_map_dom [THEN iffD2]) auto
    then show ?thesis using False j m(1-6) by (simp add: arraymap_get_def)
  qed
qed

lemma am_zip_insert:
  assumes "i \<le> n" "n \<le> length ks" "n \<le> length vs" "k \<notin> set (take n ks)"
  shows "map_of (zip (take i (take n ks) @ k # drop i (take n ks)) (take i (take n vs) @ v # drop i (take n vs))) =
    (map_of (zip (take n ks) (take n vs)))(k \<mapsto> v)"
proof -
  let ?K = "take n ks" and ?V = "take n vs"
  have len: "length (take i ?K) = length (take i ?V)" using assms by simp
  have "zip (take i ?K @ k # drop i ?K) (take i ?V @ v # drop i ?V) =
      zip (take i ?K) (take i ?V) @ (k, v) # zip (drop i ?K) (drop i ?V)"
    using len by (simp add: zip_append)
  moreover have "zip (take i ?K) (take i ?V) @ zip (drop i ?K) (drop i ?V) = zip ?K ?V"
    using len by (simp add: zip_append [symmetric] del: take_take)
  moreover have "k \<notin> fst ` set (zip (take i ?K) (take i ?V))"
    using assms(4) set_take_subset [of i ?K] by (auto simp del: take_take dest: set_zip_leftD)
  ultimately show ?thesis by (metis map_of_insert_mid)
qed

lemma am_set_new:
  assumes "am_wf m" "am_cur_size m \<noteq> 0" "am_keys m = Some ks" "ks ! 0 < k" "am_map m k = None"
    and "unat (am_cur_size m) < unat (am_max_size m)" "ks ! unat (am_cur_size m) \<noteq> k"
  shows "\<exists>m'. arraymap_set mk mv m k v = Inr m' \<and> am_wf m' \<and> am_map m' = (am_map m)(k \<mapsto> v)"
proof -
  let ?n = "unat (am_cur_size m)"
  let ?c = "length (filter (\<lambda>x. x < k) (take ?n ks))"
  obtain vs where m: "am_vals m = Some vs" "length ks = unat (am_max_size m)"
      "length vs = unat (am_max_size m)" "sorted_wrt (<) (take ?n ks)" "am_map m = map_of (zip (take ?n ks) (take ?n vs))"
    using assms(1,3) by (auto elim!: am_wfE)
  have n: "0 < ?n" "?n < length ks" "?n < length vs" using assms(2,6) m by (simp_all add: unat_gt_0)
  have nin: "k \<notin> set (take ?n ks)" using assms(5) m n am_map_dom [of "take ?n ks" "take ?n vs" k] by simp
  have c: "0 < ?c" "?c \<le> ?n"
    using sorted_filter_prefix [OF m(4), of "\<lambda>x. x < k" 0] n assms(4) length_filter_le [of "\<lambda>x. x < k" "take ?n ks"]
    by auto
  have lb: "lower_bound (Some ks) ?n k = Inr ?c"
    using lower_bound_eq [OF m(4) n(1), of k] n(2) c(1) by simp
  have "ks ! ?c \<noteq> k"
    using c(2) nin assms(7) n(2) by (cases "?c = ?n") (auto simp: in_set_conv_nth)
  moreover obtain ks' vs' where sh: "shift_up ?c ?n (Some ks, Some vs) = Inr (Some ks', Some vs')"
      "length ks' = length ks" "length vs' = length vs"
      "\<And>x. ks'[?c := x] = insert_at ?c ?n x ks" "\<And>x. vs'[?c := x] = insert_at ?c ?n x vs"
    using shift_up_eq [OF c(2) n(2,3)] by blast
  moreover have "unat (am_cur_size m + 1) = Suc ?n" using assms(6) by (rule unat_Suc_less)
  moreover have "sorted_wrt (<) (take ?c (take ?n ks) @ k # drop ?c (take ?n ks))"
    by (rule sorted_insert [OF m(4) nin])
  ultimately show ?thesis
    using assms(2,3,6) m n c lb
    by (simp add: arraymap_set_def am_wf_def am_map_def word_le_nat_alt take_insert_at length_insert_at
        am_zip_insert [OF c(2) _ _ nin, of vs v] del: take_take zip_append)
qed

lemma am_set_old:
  assumes "am_wf m" "am_cur_size m \<noteq> 0" "am_keys m = Some ks" "ks ! 0 < k" "am_map m k \<noteq> None"
  shows "\<exists>m'. arraymap_set mk mv m k v = Inr m' \<and> am_wf m' \<and> am_map m' = (am_map m)(k \<mapsto> v)"
proof -
  let ?n = "unat (am_cur_size m)"
  let ?c = "length (filter (\<lambda>x. x < k) (take ?n ks))"
  obtain vs where m: "am_vals m = Some vs" "length ks = unat (am_max_size m)"
      "length vs = unat (am_max_size m)" "sorted_wrt (<) (take ?n ks)" "am_map m = map_of (zip (take ?n ks) (take ?n vs))"
      "?n \<le> length ks" "?n \<le> length vs"
    using assms(1,3) by (auto elim!: am_wfE)
  have n: "0 < ?n" using assms(2) by (simp add: unat_gt_0)
  have "k \<in> set (take ?n ks)" using assms(5) m am_map_dom [of "take ?n ks" "take ?n vs" k] by simp
  from sorted_position [OF m(4) this] have c: "?c < ?n" "ks ! ?c = k" using m(6) by auto
  have "0 < ?c"
    using sorted_filter_prefix [OF m(4), of "\<lambda>x. x < k" 0] n m(6) assms(4) by auto
  then have "lower_bound (Some ks) ?n k = Inr ?c" using lower_bound_eq [OF m(4) n, of k] m(6)
    by (simp add: max_def Suc_le_eq)
  moreover have "map_of (zip (take ?n ks) (take ?n (vs[?c := v]))) = (am_map m)(k \<mapsto> v)"
    using map_of_zip_update [OF am_distinct [OF m(4)], of "take ?n vs" ?c v] c m by (simp add: take_update_swap)
  ultimately show ?thesis
    using assms(1-3) m(1-4,6,7) c by (simp add: arraymap_set_def am_wf_def) (simp add: am_map_def)
qed

lemma am_set_first:
  assumes "am_wf m" "am_cur_size m = 0" "am_max_size m \<noteq> 0"
  shows "\<exists>m'. arraymap_set mk mv m k v = Inr m' \<and> am_wf m' \<and> am_map m' = (am_map m)(k \<mapsto> v)"
proof -
  obtain ks vs where m: "am_keys m = Some ks" "am_vals m = Some vs"
      "length ks = unat (am_max_size m)" "length vs = unat (am_max_size m)"
    using assms(1) by (auto elim!: am_wfE)
  moreover have "0 < unat (am_max_size m)" using assms(3) by (simp add: unat_gt_0)
  ultimately show ?thesis
    using assms(2)
    by (cases ks; cases vs) (simp_all add: arraymap_set_def am_wf_def am_map_def)
qed

lemma am_set:
  assumes "am_wf m" "am_can_set m k"
  shows "\<exists>m'. arraymap_set mk mv m k v = Inr m' \<and> am_wf m' \<and> am_map m' = (am_map m)(k \<mapsto> v)"
proof -
  obtain ks where "am_keys m = Some ks" using assms(2) by (auto simp: am_can_set_def split: option.splits)
  then show ?thesis
    using assms(2) am_set_first [OF assms(1)] am_set_old [OF assms(1)] am_set_new [OF assms(1)]
    by (cases "am_cur_size m = 0"; cases "am_map m k = None") (auto simp: am_can_set_def)
qed

lemma am_zip_remove:
  assumes "i < n" "n \<le> length ks" "n \<le> length vs" "distinct (take n ks)" "ks ! i = k"
  shows "map_of (zip (take i (take n ks) @ drop (Suc i) (take n ks)) (take i (take n vs) @ drop (Suc i) (take n vs))) =
    (map_of (zip (take n ks) (take n vs)))(k := None)"
proof -
  let ?K = "take n ks" and ?V = "take n vs"
  have "zip (take i ?K @ drop (Suc i) ?K) (take i ?V @ drop (Suc i) ?V) =
      take i (zip ?K ?V) @ drop (Suc i) (zip ?K ?V)"
    using assms by (simp add: zip_append take_zip drop_zip del: take_take)
  then show ?thesis using assms map_of_remove_nth [of "zip ?K ?V" i k] by simp
qed

lemma am_del:
  assumes "am_wf m" "am_can_del m k"
  shows "\<exists>m'. arraymap_del m k = Inr m' \<and> am_wf m' \<and> am_map m' = (am_map m)(k := None)"
proof -
  let ?n = "unat (am_cur_size m)"
  obtain ks vs where m: "am_keys m = Some ks" "am_vals m = Some vs" "length ks = unat (am_max_size m)"
      "length vs = unat (am_max_size m)" "?n \<le> unat (am_max_size m)" "sorted_wrt (<) (take ?n ks)"
      "am_map m = map_of (zip (take ?n ks) (take ?n vs))"
    using assms(1) by (rule am_wfE)
  obtain j where j: "binary_search (Some ks) ?n k = Inr j"
      "if k \<in> set (take ?n ks) then 0 \<le> j \<and> nat j < ?n \<and> ks ! nat j = k else j = - 1"
    using binary_search_eq [OF m(6), of k] m by auto
  have dom: "am_map m k = None \<longleftrightarrow> k \<notin> set (take ?n ks)"
    unfolding m(7) using m(3-5) by (intro am_map_dom) simp
  show ?thesis
  proof (cases "k \<in> set (take ?n ks)")
    case True
    define i where "i = nat j"
    have i: "i < ?n" "ks ! i = k" "nat j = i" "j \<noteq> - 1" using True j(2) by (auto simp: i_def)
    have "am_cur_size m \<noteq> 0" using i(1) by auto
    then have n: "?n < length ks" "?n < length vs" "unat (am_cur_size m - 1) = ?n - 1"
      using True dom assms(2) m(3,4) unat_minus_one [of "am_cur_size m"] by (auto simp: am_can_del_def)
    have sd: "shift_down i (?n - i) (Some ks, Some vs) =
        Inr (Some (close_gap i (?n - i) ks), Some (close_gap i (?n - i) vs))"
      using i(1) n by (intro shift_down_eq) auto
    have "sorted_wrt (<) (take i (take ?n ks) @ drop (Suc i) (take ?n ks))"
      using sorted_remove [OF m(6), of i] i(1) n(1) by simp
    then show ?thesis
      using m(1-5) j(1) i n sd
      by (simp add: arraymap_del_def am_wf_def am_map_def Let_def take_close_gap length_close_gap
          am_zip_remove [OF i(1) _ _ am_distinct [OF m(6)] i(2), of vs] del: take_take zip_append)
  next
    case False
    then show ?thesis using j m(1) assms(1) dom by (simp add: arraymap_del_def fun_upd_idem)
  qed
qed

interpretation sorted_array: guarded_map am_wf am_map arraymap_get "arraymap_set mk mv" arraymap_del am_can_set am_can_del
  for mk mv
  by unfold_locales (fact am_get am_set am_del)+

section \<open>Adding to a dynamic array\<close>

definition da_wf :: "darray \<Rightarrow> bool" where
  "da_wf arr \<longleftrightarrow> 0 \<le> da_cur_size arr \<and> da_cur_size arr \<le> da_max_size arr \<and> da_max_size arr = int (length (da_vals arr))"

lemma darray_find_free_eq:
  assumes "i + n \<le> length vals"
  shows "\<exists>r. darray_find_free vals i n = Inr r \<and>
    (case r of None \<Rightarrow> \<forall>j. i \<le> j \<and> j < i + n \<longrightarrow> vals ! j \<noteq> 0 | Some j \<Rightarrow> i \<le> j \<and> j < i + n \<and> vals ! j = 0)"
  using assms
proof (induction n arbitrary: i)
  case 0
  then show ?case by auto
next
  case (Suc n)
  have "vals ! j \<noteq> 0" if "vals ! i \<noteq> 0" "\<forall>j. Suc i \<le> j \<and> j < Suc (i + n) \<longrightarrow> vals ! j \<noteq> 0" "i \<le> j" "j < Suc (i + n)" for j
    using that by (cases "j = i") auto
  then show ?case using Suc.IH [of "Suc i"] Suc.prems by (fastforce split: option.splits)
qed

lemma darray_get_nth:
  "da_wf arr \<Longrightarrow> darray_get arr k = (if k < 0 then Inl Oob_read else Inr (if k < da_cur_size arr then da_vals arr ! nat k else 0))"
  by (auto simp: da_wf_def darray_get_def darray_index_def)

lemma darray_grow:
  assumes "da_wf arr" "alloc_sizes malloc" "malloc (8 + 4 * (length (da_vals arr) + 4)) = Some b"
  shows "ebpf_realloc malloc (Some (0 # 0 # da_vals arr)) (8 + 4 * length (da_vals arr)) (8 + 4 * (length (da_vals arr) + 4)) =
    Inr (Some (0 # 0 # da_vals arr @ drop (2 + length (da_vals arr)) b))"
proof -
  have "(8 + 4 * length (da_vals arr)) div 4 = 2 + length (da_vals arr)" by simp
  then show ?thesis using assms(3) by (simp add: ebpf_realloc_def ebpf_malloc_def)
qed

lemma darray_add_cases:
  assumes "da_wf arr" "alloc_sizes malloc" "malloc (8 + 4 * (length (da_vals arr) + 4)) = Some b"
  defines "cur \<equiv> nat (da_cur_size arr)"
  obtains (hole) i where "i < cur" "da_vals arr ! i = 0"
      "darray_add malloc val arr = Inr (int i, Some (arr\<lparr>da_vals := (da_vals arr)[i := val]\<rparr>))"
  | (append) "0 \<notin> set (take cur (da_vals arr))" "cur + 1 < length (da_vals arr)"
      "darray_add malloc val arr =
         Inr (int cur, Some (arr\<lparr>da_cur_size := int cur + 1, da_vals := (da_vals arr)[cur := val]\<rparr>))"
  | (grow) "0 \<notin> set (take cur (da_vals arr))" "length (da_vals arr) \<le> cur + 1"
      "darray_add malloc val arr = Inr (int cur, None)"
proof -
  have wf: "cur \<le> length (da_vals arr)" "da_max_size arr = int (length (da_vals arr))" "da_cur_size arr = int cur"
    using assms(1) by (auto simp: da_wf_def cur_def)
  obtain r where r: "darray_find_free (da_vals arr) 0 cur = Inr r"
      "case r of None \<Rightarrow> \<forall>j. 0 \<le> j \<and> j < cur \<longrightarrow> da_vals arr ! j \<noteq> 0 | Some j \<Rightarrow> j < cur \<and> da_vals arr ! j = 0"
    using darray_find_free_eq [of 0 cur "da_vals arr"] wf(1) by (auto split: option.splits)
  show thesis
  proof (cases r)
    case (Some i)
    then show ?thesis using r wf by (intro hole [of i]) (auto simp: darray_add_def)
  next
    case None
    then have full: "0 \<notin> set (take cur (da_vals arr))" using r(2) wf(1) by (auto simp: in_set_conv_nth)
    show ?thesis
    proof (cases "cur + 1 < length (da_vals arr)")
      case True
      then show ?thesis using None r wf full by (intro append) (auto simp: darray_add_def Let_def)
    next
      case False
      have "nat (int (length (da_vals arr)) + 4) = length (da_vals arr) + 4" by simp
      then show ?thesis
        using None r wf full False darray_grow [OF assms(1-3)] assms(2,3)
        by (intro grow) (auto simp: darray_add_def Let_def sizeof_darray_def alloc_sizes_def)
    qed
  qed
qed

section \<open>Properties\<close>

text \<open>
  C21: an array map is a map as long as every key set is above its first key and there is room. Every
  sequence of lookups, updates and deletions that respects these conditions, the free slot not holding
  the new key by chance among them, runs without undefined behaviour and returns what the
  mathematical map returns.
\<close>

theorem arraymap_refines_map:
  assumes "am_wf m" "map_allowed am_can_set am_can_del (arraymap_set mk mv) arraymap_del ops m"
  shows "\<exists>vs m'. map_run arraymap_get (arraymap_set mk mv) arraymap_del ops m = Inr (vs, m') \<and>
    am_wf m' \<and> (vs, am_map m') = map_spec ops (am_map m)"
  using assms by (rule sorted_array.run_refines)

text \<open>
  What the two searches for an insertion point return on sorted keys: the number of keys below
  (for \<open>upper_bound\<close>, not above) the target, which is the first position not less than it as the
  comment says, except that they never return 0.
\<close>

theorem bounds_never_zero:
  assumes "sorted_wrt (<) (take n ks)" "0 < n" "n \<le> length ks"
  shows "lower_bound (Some ks) n v = Inr (max 1 (length (filter (\<lambda>x. x < v) (take n ks)))) \<and>
    upper_bound (Some ks) n v = Inr (max 1 (length (filter (\<lambda>x. x \<le> v) (take n ks))))"
  using lower_bound_eq [OF assms] upper_bound_eq [OF assms] by simp

text \<open>
  Setting a key that is not above the only key of a map does not set it. A smaller key is stored
  behind the larger one and not found again; setting the key that is there stores a second entry, and
  the lookup still returns the old value.
\<close>

theorem arraymap_set_is_lost:
  assumes "am_keys m = Some (k0 # k1 # ks)" "am_vals m = Some (v0 # v1 # vs)"
    and "am_cur_size m = 1" "1 < am_max_size m" "k \<le> k0" "k1 \<noteq> k"
  shows "\<exists>m'. arraymap_set mk mv m k v = Inr m' \<and> am_keys m' = Some (k0 # k # ks) \<and>
    arraymap_get m' k = Inr (if k = k0 then v0 else 0)"
proof -
  have "lower_bound (Some (k0 # k1 # ks)) 1 k = Inr 1"
    by (simp add: lower_bound_def bound_loop.simps [of _ _ 0 "Suc 0"])
  moreover have "shift_up 1 1 b = Inr b" for b by (cases b) (simp add: shift_up.simps)
  moreover have "binary_search (Some (k0 # k # ks)) 2 k = Inr (if k = k0 then 0 else - 1)"
    using assms(5)
    by (simp add: binary_search_def binary_search_loop.simps [of _ _ 0 1] binary_search_loop.simps [of _ _ 0 "- 1"])
  ultimately show ?thesis
    using assms by (auto simp: arraymap_set_def arraymap_get_def)
qed

text \<open>
  A full array map cannot be changed: setting a key it does not have, where it should grow, and
  deleting a key it has are undefined behaviour, whatever the allocator returns. Growing copies eight
  bytes more than the old block has, and deleting reads the entry behind the last one.
\<close>

theorem full_arraymap_undefined:
  assumes "am_wf m" "am_cur_size m = am_max_size m" "am_cur_size m \<noteq> 0"
  shows "if am_map m k = None then \<exists>e. arraymap_set mk mv m k v = Inl e else arraymap_del m k = Inl Oob_read"
proof -
  let ?n = "unat (am_cur_size m)"
  obtain ks vs where m: "am_keys m = Some ks" "am_vals m = Some vs" "length ks = ?n" "length vs = ?n"
      "sorted_wrt (<) (take ?n ks)" "am_map m = map_of (zip ks vs)"
    using am_wfE [OF assms(1)] assms(2) by (metis order_refl take_all)
  have n: "0 < ?n" using assms(3) by (simp add: unat_gt_0)
  show ?thesis
  proof (cases "k \<in> set ks")
    case True
    then obtain j where "binary_search (Some ks) ?n k = Inr j" "0 \<le> j" "nat j < ?n"
      using binary_search_eq [OF m(5), of k] m(3) by auto
    then show ?thesis
      using True m am_map_dom [of ks vs k] shift_down_full [of "?n - nat j" "nat j" ks vs]
      by (auto simp: arraymap_del_def)
  next
    case False
    let ?c = "max 1 (length (filter (\<lambda>x. x < k) ks))"
    have "lower_bound (Some ks) ?n k = Inr ?c" using lower_bound_eq [OF m(5) n, of k] m(3) by simp
    moreover have "ks ! ?c \<noteq> k" if "?c < ?n" using False that m(3) by (auto simp: in_set_conv_nth)
    moreover have "shift_up i ?n (None, b) = Inl Null_deref" if "i < ?n" for i b
      using that by (simp add: shift_up.simps)
    moreover have "ebpf_realloc a (Some b) (8 + 4 * ?n) (4 * ?n + 16) =
        (case a (4 * ?n + 16) of None \<Rightarrow> Inr None | Some _ \<Rightarrow> Inl Oob_read)" if "length b = ?n" for a b
      using that by (simp add: ebpf_realloc_def ebpf_malloc_def split: option.split)
    ultimately show ?thesis
      using False m assms am_map_dom [of ks vs k]
      by (cases "?c < ?n"; cases "mk (4 * ?n + 16)"; cases "mv (4 * ?n + 16)")
        (simp_all add: arraymap_set_def c_array_get_def Let_def sizeof_darray_def)
  qed
qed

text \<open>
  Adding to a dynamic array returns the index of a slot that was empty, where the value is then
  found, and leaves the other entries alone; but when no slot is free and the array has to grow, the
  array the caller holds has been freed.
\<close>

theorem darray_add_spec:
  assumes "da_wf arr" "alloc_sizes malloc" "malloc (8 + 4 * (length (da_vals arr) + 4)) = Some b"
  shows "\<exists>i r. darray_add malloc val arr = Inr (int i, r) \<and> darray_get arr (int i) = Inr 0 \<and>
    (r = None \<longleftrightarrow> 0 \<notin> set (take (nat (da_cur_size arr)) (da_vals arr)) \<and> da_max_size arr \<le> da_cur_size arr + 1) \<and>
    (\<forall>arr'. r = Some arr' \<longrightarrow> da_wf arr' \<and> darray_get arr' (int i) = Inr val \<and>
       (\<forall>k. k \<noteq> i \<longrightarrow> darray_get arr' (int k) = darray_get arr (int k)))"
  using assms
proof (cases rule: darray_add_cases [where val = val])
  case (hole i)
  moreover have "0 \<in> set (take (nat (da_cur_size arr)) (da_vals arr))"
    using hole(1,2) assms(1) by (auto simp: in_set_conv_nth da_wf_def intro!: exI [of _ i])
  ultimately show ?thesis using assms(1) by (auto simp: darray_get_nth da_wf_def)
next
  case append
  then show ?thesis
    using assms(1) by (intro exI [of _ "nat (da_cur_size arr)"]) (auto simp: darray_get_nth da_wf_def nth_list_update)
next
  case grow
  then show ?thesis
    using assms(1) by (intro exI [of _ "nat (da_cur_size arr)"]) (auto simp: darray_get_nth da_wf_def)
qed

section \<open>Instances\<close>

definition am_example :: arraymap where
  "am_example = \<lparr>am_max_size = 4, am_cur_size = 1, am_keys = Some [10, 0, 0, 0], am_vals = Some [7, 0, 0, 0]\<rparr>"

lemma am_example_wf: "am_wf am_example" "am_map am_example = [10 \<mapsto> 7]"
  by (simp_all add: am_wf_def am_map_def am_example_def)

theorem arraymap_refines_map_witness:
  "\<exists>m'. map_run arraymap_get (arraymap_set (\<lambda>_. None) (\<lambda>_. None)) arraymap_del
      [Map_set 30 1, Map_set 20 2, Map_get 20, Map_del 30, Map_get 30] am_example = Inr ([2, 0], m')"
proof -
  have "map_allowed am_can_set am_can_del (arraymap_set (\<lambda>_. None) (\<lambda>_. None)) arraymap_del
      [Map_set 30 1, Map_set 20 2, Map_get 20, Map_del 30, Map_get 30] am_example"
    by code_simp
  from arraymap_refines_map [OF am_example_wf(1) this] show ?thesis
    by (auto simp: am_example_wf(2))
qed

theorem bounds_never_zero_witness:
  "lower_bound (Some [10, 20, 30]) 3 5 = Inr 1 \<and> upper_bound (Some [10, 20, 30]) 3 20 = Inr 2"
  using bounds_never_zero [of 3 "[10, 20, 30]" 5] bounds_never_zero [of 3 "[10, 20, 30]" 20] by simp

theorem arraymap_set_is_lost_witness:
  "\<exists>m'. arraymap_set (\<lambda>_. None) (\<lambda>_. None) am_example 9 1 = Inr m' \<and> am_keys m' = Some [10, 9, 0, 0] \<and> arraymap_get m' 9 = Inr 0"
  using arraymap_set_is_lost [of am_example 10 0 "[0, 0]" 7 0 "[0, 0]" 9 "\<lambda>_. None" "\<lambda>_. None" 1]
  by (simp add: am_example_def)

theorem full_arraymap_undefined_witness:
  "arraymap_del \<lparr>am_max_size = 1, am_cur_size = 1, am_keys = Some [10], am_vals = Some [7]\<rparr> 10 = Inl Oob_read"
  using full_arraymap_undefined
    [of "\<lparr>am_max_size = 1, am_cur_size = 1, am_keys = Some [10], am_vals = Some [7]\<rparr>" 10]
  by (simp add: am_wf_def am_map_def)

theorem darray_add_spec_witness:
  "\<exists>i r. darray_add (\<lambda>n. Some (replicate (n div 4) 1)) 5 \<lparr>da_cur_size = 1, da_max_size = 2, da_vals = [3, 0]\<rparr> =
     Inr (int i, r) \<and> r = None"
  using darray_add_spec [of "\<lparr>da_cur_size = 1, da_max_size = 2, da_vals = [3, 0]\<rparr>" "\<lambda>n. Some (replicate (n div 4) 1)" _ 5]
  by (auto simp: da_wf_def alloc_sizes_def)

end
