(* ===== verification/Hash_Map.thy ===== *)
theory Hash_Map
  imports Allocator
begin

text \<open>
  The dynamic array and the hash map of \<^verbatim>\<open>libebpf/ebpf-src/ebpf_map.c\<close>. A \<open>DArray\<close> holds pointers:
  its contents are a block of optional elements, \<open>None\<close> for \<open>NULL\<close>. The eight buckets of a \<open>Hashmap\<close> are
  dynamic arrays of nodes, each reachable from the table only, so that a write through a bucket
  pointer is an update of the table. A node keeps the pointer to the caller's key, not the key: what
  it compares is the C string at that address when the operation runs. The operations take the
  strings in memory as an argument, a map from addresses to the bytes up to the terminator that is
  undefined where no string can be read; plain \<open>char\<close> is unsigned on the target. Values are pointers.
  Whether an allocation of a size succeeds is a parameter.
\<close>

section \<open>Dynamic arrays\<close>

record 'a DArray =
  d_end :: int
  d_max :: int
  d_el_sz :: nat
  d_contents :: "'a option list option"

definition DArray_create :: "(nat \<Rightarrow> bool) \<Rightarrow> nat \<Rightarrow> nat \<Rightarrow> 'a DArray cres" where
  "DArray_create ok el_sz initial_max =
     (if \<not> ok 16 then Inl Null_deref
      else Inr \<lparr>d_end = 0, d_max = int initial_max, d_el_sz = el_sz,
                d_contents = if ok (4 * initial_max) then Some (replicate initial_max None) else None\<rparr>)"

text \<open>Access to the contents at an \<open>int\<close> index.\<close>

definition contents_get :: "'a DArray \<Rightarrow> int \<Rightarrow> 'a option cres" where
  "contents_get arr i =
     (case d_contents arr of
        None \<Rightarrow> Inl Null_deref
      | Some c \<Rightarrow> if i < 0 then Inl Oob_read else c_array_get c (nat i))"

definition contents_set :: "'a DArray \<Rightarrow> int \<Rightarrow> 'a option \<Rightarrow> 'a DArray cres" where
  "contents_set arr i v =
     (case d_contents arr of
        None \<Rightarrow> Inl Null_deref
      | Some c \<Rightarrow> if i < 0 then Inl Oob_write
                 else c_bind (c_array_set c (nat i) v) (\<lambda>c. Inr (arr\<lparr>d_contents := Some c\<rparr>)))"

definition DArray_set :: "'a DArray \<Rightarrow> int \<Rightarrow> 'a option \<Rightarrow> 'a DArray cres" where
  "DArray_set arr index val =
     (if index \<ge> d_max arr then Inr arr
      else let arr = (if index > d_end arr then arr\<lparr>d_end := index\<rparr> else arr) in contents_set arr index val)"

definition DArray_get :: "'a DArray \<Rightarrow> int \<Rightarrow> 'a option cres" where
  "DArray_get arr index = (if index < d_max arr then contents_get arr index else Inr None)"

text \<open>The call of \<open>DArray_expand\<close> is commented out.\<close>

definition DArray_push :: "'a DArray \<Rightarrow> 'a option \<Rightarrow> 'a DArray cres" where
  "DArray_push arr el = c_bind (contents_set arr (d_end arr) el) (\<lambda>arr. Inr (arr\<lparr>d_end := d_end arr + 1\<rparr>))"

definition DArray_pop :: "'a DArray \<Rightarrow> ('a option \<times> 'a DArray) cres" where
  "DArray_pop arr =
     (if d_end arr > 0 then
        c_bind (contents_get arr (d_end arr - 1)) (\<lambda>el.
        c_bind (contents_set arr (d_end arr - 1) None) (\<lambda>arr.
        Inr (el, arr\<lparr>d_end := d_end arr - 1\<rparr>)))
      else Inr (None, arr))"

text \<open>
  Resizing, with the block a successful allocation returns as a parameter. \<open>max\<close> is set before the
  result of the allocation is looked at.
\<close>

definition DArray_resize :: "'a option list option \<Rightarrow> 'a DArray \<Rightarrow> nat \<Rightarrow> (int \<times> 'a DArray) cres" where
  "DArray_resize fresh arr new_sz =
     (let old = nat (d_max arr); arr' = arr\<lparr>d_max := int new_sz\<rparr> in
      if new_sz = 0 then Inr (- 1, arr')
      else case d_contents arr of
        None \<Rightarrow> Inr (if fresh = None then (- 1, arr') else (0, arr'\<lparr>d_contents := fresh\<rparr>))
      | Some c \<Rightarrow>
          if new_sz \<le> old then Inr (0, arr')
          else case fresh of
            None \<Rightarrow> Inr (- 1, arr')
          | Some b \<Rightarrow> if length c < old then Inl Oob_read
                     else Inr (0, arr'\<lparr>d_contents := Some (take old c @ drop old b)\<rparr>))"

definition DArray_expand :: "'a option list option \<Rightarrow> 'a DArray \<Rightarrow> (int \<times> 'a DArray) cres" where
  "DArray_expand fresh arr =
     (let old_max = d_max arr;
          step = (if old_max > 100 then 5 * 2 else 5);
          step = (if step > 1000 then 1000 else step) in
      DArray_resize fresh arr (nat (old_max + step)))"

section \<open>The hash map\<close>

fun hash_chars :: "u8 list \<Rightarrow> u32 \<Rightarrow> u32" where
  "hash_chars [] hash = hash"
| "hash_chars (c # skey) hash =
     (let hash = hash + ucast c;
          hash = hash + push_bit 10 hash;
          hash = hash XOR drop_bit 6 hash in hash_chars skey hash)"

type_synonym strings = "u32 \<rightharpoonup> u8 list"

definition str_hash_fn :: "strings \<Rightarrow> u32 \<Rightarrow> u32 cres" where
  "str_hash_fn sm key =
     (case sm key of
        None \<Rightarrow> Inl Oob_read
      | Some skey \<Rightarrow>
          let hash = hash_chars skey 0;
              hash = hash + push_bit 3 hash;
              hash = hash XOR drop_bit 11 hash in Inr (hash + push_bit 15 hash))"

definition str_equal_fn :: "strings \<Rightarrow> u32 \<Rightarrow> u32 \<Rightarrow> bool cres" where
  "str_equal_fn sm a b =
     (case (sm a, sm b) of (Some x, Some y) \<Rightarrow> Inr (x = y) | _ \<Rightarrow> Inl Oob_read)"

record HashmapNode =
  n_key :: u32
  n_value :: u32
  n_hash :: u32

record Hashmap =
  hm_buckets :: "HashmapNode DArray DArray"
  bucket_num :: u32

definition Hashmap_create :: "(nat \<Rightarrow> bool) \<Rightarrow> Hashmap cres" where
  "Hashmap_create ok =
     (if \<not> ok 16 then Inl Null_deref
      else c_bind (DArray_create ok 4 8) (\<lambda>buckets.
           Inr \<lparr>hm_buckets = buckets\<lparr>d_end := 8\<rparr>, bucket_num = 8\<rparr>))"

definition Hashmap_node_create :: "(nat \<Rightarrow> bool) \<Rightarrow> u32 \<Rightarrow> u32 \<Rightarrow> u32 \<Rightarrow> HashmapNode cres" where
  "Hashmap_node_create ok hash key val =
     (if \<not> ok 12 then Inl Null_deref else Inr \<lparr>n_key = key, n_value = val, n_hash = hash\<rparr>)"

text \<open>
  The bucket comes with its index in the table, which stands for the pointer; \<open>put_bucket\<close> is a write
  through that pointer.
\<close>

definition put_bucket :: "Hashmap \<Rightarrow> nat \<Rightarrow> HashmapNode DArray \<Rightarrow> Hashmap" where
  "put_bucket mp i b =
     mp\<lparr>hm_buckets := (hm_buckets mp)\<lparr>d_contents := map_option (\<lambda>c. c[i := Some b]) (d_contents (hm_buckets mp))\<rparr>\<rparr>"

definition Hashmap_find_bucket ::
  "(nat \<Rightarrow> bool) \<Rightarrow> strings \<Rightarrow> Hashmap \<Rightarrow> u32 \<Rightarrow> bool \<Rightarrow>
   (HashmapNode DArray option \<times> nat \<times> u32 \<times> Hashmap) cres" where
  "Hashmap_find_bucket ok sm mp key create =
     c_bind (str_hash_fn sm key) (\<lambda>hash.
      if bucket_num mp = 0 then Inl Div_zero
      else
        let bucket_index = unat (hash mod bucket_num mp) in
        c_bind (DArray_get (hm_buckets mp) (int bucket_index)) (\<lambda>bucket.
        if bucket = None \<and> create then
          c_bind (DArray_create ok 4 10) (\<lambda>b.
          c_bind (DArray_set (hm_buckets mp) (int bucket_index) (Some b)) (\<lambda>bs.
          Inr (Some b, bucket_index, hash, mp\<lparr>hm_buckets := bs\<rparr>)))
        else Inr (bucket, bucket_index, hash, mp)))"

definition Hashmap_set :: "(nat \<Rightarrow> bool) \<Rightarrow> strings \<Rightarrow> Hashmap \<Rightarrow> u32 \<Rightarrow> u32 \<Rightarrow> Hashmap cres" where
  "Hashmap_set ok sm mp key data =
     c_bind (Hashmap_find_bucket ok sm mp key True) (\<lambda>(bucket, i, hash, mp).
     c_bind (Hashmap_node_create ok hash key data) (\<lambda>node.
     case bucket of
       None \<Rightarrow> Inl Null_deref
     | Some b \<Rightarrow> c_bind (DArray_push b (Some node)) (\<lambda>b. Inr (put_bucket mp i b))))"

text \<open>The loop from \<open>i\<close> on, with the number of rounds left. Keys are only compared if the hashes agree.\<close>

fun get_node_loop :: "strings \<Rightarrow> HashmapNode DArray \<Rightarrow> u32 \<Rightarrow> u32 \<Rightarrow> nat \<Rightarrow> nat \<Rightarrow> int cres" where
  "get_node_loop sm bucket hash key i 0 = Inr (- 1)"
| "get_node_loop sm bucket hash key i (Suc n) =
     c_bind (DArray_get bucket (int i)) (\<lambda>node.
     case node of
       None \<Rightarrow> Inl Null_deref
     | Some nd \<Rightarrow>
         c_bind (if n_hash nd = hash then str_equal_fn sm (n_key nd) key else Inr False) (\<lambda>same.
         if same then Inr (int i) else get_node_loop sm bucket hash key (Suc i) n))"

definition Hashmap_get_node :: "strings \<Rightarrow> u32 \<Rightarrow> HashmapNode DArray option \<Rightarrow> u32 \<Rightarrow> int cres" where
  "Hashmap_get_node sm hash bucket key =
     (case bucket of None \<Rightarrow> Inl Null_deref | Some b \<Rightarrow> get_node_loop sm b hash key 0 (nat (d_end b)))"

definition Hashmap_get :: "strings \<Rightarrow> Hashmap \<Rightarrow> u32 \<Rightarrow> u32 cres" where
  "Hashmap_get sm mp key =
     c_bind (Hashmap_find_bucket (\<lambda>_. False) sm mp key False) (\<lambda>(bucket, _, hash, _).
     case bucket of
       None \<Rightarrow> Inr 0
     | Some b \<Rightarrow>
         c_bind (Hashmap_get_node sm hash bucket key) (\<lambda>i.
         if i = - 1 then Inr 0
         else c_bind (DArray_get b i) (\<lambda>node. case node of None \<Rightarrow> Inl Null_deref | Some nd \<Rightarrow> Inr (n_value nd))))"

text \<open>
  No two slots hold the same node, so the node popped is \<open>cur\<close> exactly if \<open>cur\<close> was in the last slot.
  The node was allocated by \<open>calloc\<close> and is returned by \<open>ebpf_free\<close>.
\<close>

definition Hashmap_delete :: "port \<Rightarrow> strings \<Rightarrow> Hashmap \<Rightarrow> u32 \<Rightarrow> (u32 \<times> Hashmap) cres" where
  "Hashmap_delete p sm mp key =
     c_bind (Hashmap_find_bucket (\<lambda>_. False) sm mp key False) (\<lambda>(bucket, bi, hash, _).
     c_bind (Hashmap_get_node sm hash bucket key) (\<lambda>i.
     if i = - 1 then Inr (0, mp)
     else case bucket of
       None \<Rightarrow> Inl Null_deref
     | Some b \<Rightarrow>
         c_bind (DArray_get b i) (\<lambda>cur.
         case cur of
           None \<Rightarrow> Inl Null_deref
         | Some nd \<Rightarrow>
             c_bind (DArray_pop b) (\<lambda>(tail, b').
             c_bind (if i \<noteq> d_end b - 1 then DArray_set b' i tail else Inr b') (\<lambda>b'.
             c_bind (ebpf_free p Libc_heap) (\<lambda>_.
             Inr (n_value nd, put_bucket mp bi b')))))))"

section \<open>Buckets\<close>

definition bucket_nodes :: "HashmapNode DArray \<Rightarrow> HashmapNode list" where
  "bucket_nodes b = (case d_contents b of None \<Rightarrow> [] | Some c \<Rightarrow> map the (take (nat (d_end b)) c))"

text \<open>The hash of a string, and the string a node's key pointer leads to.\<close>

definition string_hash :: "u8 list \<Rightarrow> u32" where
  "string_hash s =
     (let hash = hash_chars s 0;
          hash = hash + push_bit 3 hash;
          hash = hash XOR drop_bit 11 hash in hash + push_bit 15 hash)"

lemma str_hash_fn_eq: "sm k = Some s \<Longrightarrow> str_hash_fn sm k = Inr (string_hash s)"
  by (simp add: str_hash_fn_def string_hash_def Let_def)

definition node_str :: "strings \<Rightarrow> HashmapNode \<Rightarrow> u8 list" where
  "node_str sm nd = the (sm (n_key nd))"

definition node_kv :: "strings \<Rightarrow> HashmapNode \<Rightarrow> u8 list \<times> u32" where
  "node_kv sm nd = (node_str sm nd, n_value nd)"

definition node_hashed :: "strings \<Rightarrow> HashmapNode \<Rightarrow> bool" where
  "node_hashed sm nd = (case sm (n_key nd) of None \<Rightarrow> False | Some s \<Rightarrow> n_hash nd = string_hash s)"

lemma node_hashed_iff: "node_hashed sm nd \<longleftrightarrow> sm (n_key nd) = Some (node_str sm nd) \<and> n_hash nd = string_hash (node_str sm nd)"
  by (auto simp: node_hashed_def node_str_def split: option.split)

text \<open>The bucket an index of the table may hold, with its nodes.\<close>

definition nodes_ok :: "strings \<Rightarrow> nat \<Rightarrow> HashmapNode list \<Rightarrow> bool" where
  "nodes_ok sm i ns \<longleftrightarrow>
     (\<forall>nd \<in> set ns. node_hashed sm nd \<and> unat (n_hash nd) mod 8 = i) \<and> distinct (map (node_str sm) ns)"

definition bucket_is :: "HashmapNode list \<Rightarrow> HashmapNode DArray \<Rightarrow> bool" where
  "bucket_is ns b \<longleftrightarrow> d_max b = 10 \<and> d_end b = int (length ns) \<and>
     (\<exists>rest. d_contents b = Some (map Some ns @ rest) \<and> length ns + length rest = 10)"

lemma bucket_is_nodes: "bucket_is ns b \<Longrightarrow> bucket_nodes b = ns"
  by (auto simp: bucket_is_def bucket_nodes_def)

lemma bucket_get:
  "bucket_is ns b \<Longrightarrow> i < length ns \<Longrightarrow> DArray_get b (int i) = Inr (Some (ns ! i))"
  by (auto simp: bucket_is_def DArray_get_def contents_get_def nth_append)

lemma get_node_loop_eq:
  assumes "bucket_is ns b" "\<forall>nd \<in> set ns. node_hashed sm nd" "sm k = Some s"
  shows "i + n = length ns \<Longrightarrow>
    \<exists>r. get_node_loop sm b (string_hash s) k i n = Inr r \<and>
      (if s \<in> node_str sm ` set (drop i ns)
       then \<exists>j. r = int j \<and> j < length ns \<and> node_str sm (ns ! j) = s \<and> (\<forall>l. i \<le> l \<and> l < j \<longrightarrow> node_str sm (ns ! l) \<noteq> s)
       else r = - 1)"
proof (induction n arbitrary: i)
  case 0
  then show ?case by simp
next
  case (Suc n)
  then have i: "i < length ns" by simp
  then have dr: "drop i ns = ns ! i # drop (Suc i) ns" by (simp add: Cons_nth_drop_Suc)
  have node: "sm (n_key (ns ! i)) = Some (node_str sm (ns ! i))" "n_hash (ns ! i) = string_hash (node_str sm (ns ! i))"
    using assms(2) i by (simp_all add: node_hashed_iff)
  note simps = bucket_get [OF assms(1) i] node assms(3)
  show ?case
  proof (cases "node_str sm (ns ! i) = s")
    case True
    then show ?thesis
      using i dr by (auto simp: simps str_equal_fn_def intro!: exI [of _ i])
  next
    case False
    obtain r where r: "get_node_loop sm b (string_hash s) k (Suc i) n = Inr r"
        "if s \<in> node_str sm ` set (drop (Suc i) ns)
         then \<exists>j. r = int j \<and> j < length ns \<and> node_str sm (ns ! j) = s \<and>
           (\<forall>l. Suc i \<le> l \<and> l < j \<longrightarrow> node_str sm (ns ! l) \<noteq> s)
         else r = - 1"
      using Suc.IH [of "Suc i"] Suc.prems by auto
    have "\<forall>l. i \<le> l \<and> l < j \<longrightarrow> node_str sm (ns ! l) \<noteq> s" if "\<forall>l. Suc i \<le> l \<and> l < j \<longrightarrow> node_str sm (ns ! l) \<noteq> s" for j
      using that False by (metis le_antisym not_less_eq_eq)
    then show ?thesis
      using False r dr by (auto simp: simps str_equal_fn_def)
  qed
qed

lemma map_of_first:
  "r < length xs \<Longrightarrow> fst (xs ! r) = k \<Longrightarrow> \<forall>l < r. fst (xs ! l) \<noteq> k \<Longrightarrow> map_of xs k = Some (snd (xs ! r))"
proof (induction xs arbitrary: r)
  case (Cons x xs)
  show ?case
  proof (cases r)
    case 0
    then show ?thesis using Cons.prems by (cases x) simp
  next
    case (Suc r')
    then have "fst x \<noteq> k" "\<forall>l < r'. fst (xs ! l) \<noteq> k" using Cons.prems(3) by (auto dest: spec [of _ 0] spec [of _ "Suc _"])
    then show ?thesis using Suc Cons by (cases x) auto
  qed
qed simp

lemma get_node_bucket:
  assumes "bucket_is ns b" "\<forall>nd \<in> set ns. node_hashed sm nd" "sm k = Some s"
  shows "(map_of (map (node_kv sm) ns) s = None \<and> Hashmap_get_node sm (string_hash s) (Some b) k = Inr (- 1)) \<or>
    (\<exists>j. Hashmap_get_node sm (string_hash s) (Some b) k = Inr (int j) \<and> j < length ns \<and> node_str sm (ns ! j) = s \<and>
       map_of (map (node_kv sm) ns) s = Some (n_value (ns ! j)))"
proof -
  have len: "nat (d_end b) = length ns" using assms(1) by (simp add: bucket_is_def)
  have dom: "s \<in> node_str sm ` set ns \<longleftrightarrow> map_of (map (node_kv sm) ns) s \<noteq> None"
    by (simp add: map_of_eq_None_iff node_kv_def image_image)
  have "map_of (map (node_kv sm) ns) s = Some (n_value (ns ! j))"
    if "j < length ns" "node_str sm (ns ! j) = s" "\<forall>l < j. node_str sm (ns ! l) \<noteq> s" for j
    using map_of_first [of j "map (node_kv sm) ns" s] that by (auto simp: node_kv_def)
  then show ?thesis
    using get_node_loop_eq [OF assms, of 0 "length ns"] dom by (auto simp: Hashmap_get_node_def len split: if_splits)
qed

lemma bucket_push:
  assumes "bucket_is ns b" "length ns < 10"
  shows "\<exists>b'. DArray_push b (Some nd) = Inr b' \<and> bucket_is (ns @ [nd]) b'"
proof -
  obtain rest where b: "d_max b = 10" "d_end b = int (length ns)" "d_contents b = Some (map Some ns @ rest)"
      "length ns + length rest = 10"
    using assms(1) by (auto simp: bucket_is_def)
  then obtain r rest' where "rest = r # rest'" using assms(2) by (cases rest) auto
  then show ?thesis
    using b by (auto simp: DArray_push_def contents_set_def bucket_is_def list_update_append)
qed

lemma bucket_push_full: "bucket_is ns b \<Longrightarrow> length ns = 10 \<Longrightarrow> DArray_push b x = Inl Oob_write"
  by (auto simp: bucket_is_def DArray_push_def contents_set_def c_array_set_def)

definition swap_remove :: "nat \<Rightarrow> 'a list \<Rightarrow> 'a list" where
  "swap_remove i xs = (if Suc i = length xs then butlast xs else (butlast xs)[i := last xs])"

lemma bucket_pop:
  assumes "bucket_is (xs @ [x]) b"
  shows "\<exists>b'. DArray_pop b = Inr (Some x, b') \<and> bucket_is xs b'"
  using assms
  by (auto simp: bucket_is_def DArray_pop_def contents_get_def contents_set_def nth_append list_update_append)

lemma bucket_store:
  assumes "bucket_is xs b" "i < length xs"
  shows "\<exists>b'. DArray_set b (int i) (Some x) = Inr b' \<and> bucket_is (xs[i := x]) b'"
  using assms by (auto simp: bucket_is_def DArray_set_def contents_set_def list_update_append map_update)

lemma bucket_remove:
  assumes "bucket_is ns b" "i < length ns"
  shows "\<exists>tail b1 b2. DArray_pop b = Inr (tail, b1) \<and>
    (if int i \<noteq> d_end b - 1 then DArray_set b1 (int i) tail else Inr b1) = Inr b2 \<and> bucket_is (swap_remove i ns) b2"
proof -
  obtain xs x where ns: "ns = xs @ [x]" using assms(2) by (cases ns rule: rev_cases) auto
  then have "d_end b = int (length xs) + 1" using assms(1) by (simp add: bucket_is_def)
  moreover obtain b1 where "DArray_pop b = Inr (Some x, b1)" "bucket_is xs b1" using bucket_pop assms(1) ns by blast
  ultimately show ?thesis
    using ns assms(2) bucket_store [of xs b1 i x] by (cases "i = length xs") (auto simp: swap_remove_def)
qed

lemma distinct_remove_nth:
  assumes "distinct xs" "i < length xs"
  shows "distinct (take i xs @ drop (Suc i) xs)"
proof -
  have "distinct (take i xs @ xs ! i # drop (Suc i) xs)" using assms by (simp add: id_take_nth_drop [symmetric])
  then show ?thesis by simp
qed

lemma swap_remove_kv:
  assumes "nodes_ok sm t ns" "i < length ns"
  shows "nodes_ok sm t (swap_remove i ns)"
    "map_of (map (node_kv sm) (swap_remove i ns)) = (map_of (map (node_kv sm) ns))(node_str sm (ns ! i) := None)"
proof -
  have "\<exists>xs. ns = xs @ [last ns]" using assms(2) by (metis append_butlast_last_id length_0_conv less_zeroE)
  then obtain xs x where ns: "ns = xs @ [x]" by blast
  have d: "distinct (map fst (map (node_kv sm) ns))" using assms(1) by (simp add: nodes_ok_def node_kv_def comp_def)
  have sw: "swap_remove i ns = (if i = length xs then xs else take i xs @ x # drop (Suc i) xs)"
    using assms(2) by (simp add: swap_remove_def ns upd_conv_take_nth_drop)
  have rm: "take i ns @ drop (Suc i) ns = (if i = length xs then xs else take i xs @ drop (Suc i) xs @ [x])"
    using assms(2) by (simp add: ns)
  have set: "set (swap_remove i ns) = set (take i ns @ drop (Suc i) ns)" unfolding sw rm by auto
  have dk: "distinct (map (node_str sm) (take i ns @ drop (Suc i) ns))"
    using distinct_remove_nth [of "map (node_str sm) ns" i] assms by (simp add: nodes_ok_def take_map drop_map)
  then have dk': "distinct (map (node_str sm) (swap_remove i ns))" unfolding sw rm by (auto split: if_splits)
  have sub: "set (take i ns @ drop (Suc i) ns) \<subseteq> set ns" by (auto dest: in_set_takeD in_set_dropD)
  show "nodes_ok sm t (swap_remove i ns)" using assms(1) dk' set sub by (auto simp: nodes_ok_def)
  have "map_of (map (node_kv sm) (swap_remove i ns)) = map_of (map (node_kv sm) (take i ns @ drop (Suc i) ns))"
    using dk dk' set by (intro map_of_inject_set [THEN iffD2]) (auto simp: node_kv_def comp_def)
  also have "\<dots> = (map_of (map (node_kv sm) ns))(node_str sm (ns ! i) := None)"
    using map_of_remove_nth [OF d, of i "node_str sm (ns ! i)"] assms(2) by (simp add: take_map drop_map node_kv_def)
  finally show "map_of (map (node_kv sm) (swap_remove i ns)) = (map_of (map (node_kv sm) ns))(node_str sm (ns ! i) := None)" .
qed

section \<open>The map a hash map stands for\<close>

definition hash_index :: "u8 list \<Rightarrow> nat" where
  "hash_index s = unat (string_hash s) mod 8"

definition bucket_at :: "Hashmap \<Rightarrow> nat \<Rightarrow> HashmapNode DArray option" where
  "bucket_at mp i =
     (case d_contents (hm_buckets mp) of None \<Rightarrow> None | Some c \<Rightarrow> if i < length c then c ! i else None)"

definition table_ok :: "Hashmap \<Rightarrow> bool" where
  "table_ok mp \<longleftrightarrow> bucket_num mp = 8 \<and> d_max (hm_buckets mp) = 8 \<and> d_end (hm_buckets mp) = 8 \<and>
     (case d_contents (hm_buckets mp) of None \<Rightarrow> False | Some c \<Rightarrow> length c = 8)"

definition hm_wf :: "strings \<Rightarrow> Hashmap \<Rightarrow> bool" where
  "hm_wf sm mp \<longleftrightarrow> table_ok mp \<and>
     (\<forall>i b. bucket_at mp i = Some b \<longrightarrow> bucket_is (bucket_nodes b) b \<and> nodes_ok sm i (bucket_nodes b))"

definition hm_map :: "strings \<Rightarrow> Hashmap \<Rightarrow> u8 list \<rightharpoonup> u32" where
  "hm_map sm mp s =
     (case bucket_at mp (hash_index s) of None \<Rightarrow> None | Some b \<Rightarrow> map_of (map (node_kv sm) (bucket_nodes b)) s)"

lemma hash_index_less: "hash_index s < 8"
  by (simp add: hash_index_def)

lemma hash_index_mod: "unat (string_hash s mod 8) = hash_index s"
  by (simp add: hash_index_def unat_mod_distrib)

lemma bucket_at_put:
  "table_ok mp \<Longrightarrow> i < 8 \<Longrightarrow> bucket_at (put_bucket mp i b) j = (if j = i then Some b else bucket_at mp j)"
  by (auto simp: table_ok_def bucket_at_def put_bucket_def split: option.splits)

lemma table_ok_put: "table_ok mp \<Longrightarrow> table_ok (put_bucket mp i b)"
  by (auto simp: table_ok_def put_bucket_def split: option.splits)

lemma hm_put:
  assumes "hm_wf sm mp" "i < 8" "bucket_is ns b" "nodes_ok sm i ns"
  shows "hm_wf sm (put_bucket mp i b)"
    "hm_map sm (put_bucket mp i b) =
       (\<lambda>s. if hash_index s = i then map_of (map (node_kv sm) ns) s else hm_map sm mp s)"
  using assms bucket_is_nodes [OF assms(3)]
  by (auto simp: hm_wf_def bucket_at_put table_ok_put hm_map_def split: option.splits)

lemma find_bucket_eq:
  assumes "table_ok mp" "sm k = Some s"
  shows "Hashmap_find_bucket ok sm mp k False = Inr (bucket_at mp (hash_index s), hash_index s, string_hash s, mp)"
proof -
  obtain c where "d_contents (hm_buckets mp) = Some c" "length c = 8" "bucket_num mp = 8" "d_max (hm_buckets mp) = 8"
    using assms by (auto simp: table_ok_def split: option.splits)
  then show ?thesis
    using hash_index_less [of s] assms(2)
    by (simp add: Hashmap_find_bucket_def str_hash_fn_eq DArray_get_def contents_get_def bucket_at_def hash_index_mod Let_def)
qed

definition empty_bucket :: "HashmapNode DArray" where
  "empty_bucket = \<lparr>d_end = 0, d_max = 10, d_el_sz = 4, d_contents = Some (replicate 10 None)\<rparr>"

lemma bucket_is_empty: "bucket_is [] empty_bucket"
  by (simp add: bucket_is_def empty_bucket_def)

lemma find_bucket_create:
  assumes "table_ok mp" "ok 16" "ok 40" "sm k = Some s"
  shows "Hashmap_find_bucket ok sm mp k True =
    (case bucket_at mp (hash_index s) of
       None \<Rightarrow> Inr (Some empty_bucket, hash_index s, string_hash s, put_bucket mp (hash_index s) empty_bucket)
     | Some b \<Rightarrow> Inr (Some b, hash_index s, string_hash s, mp))"
proof -
  obtain c where "d_contents (hm_buckets mp) = Some c" "length c = 8" "bucket_num mp = 8" "d_max (hm_buckets mp) = 8"
      "d_end (hm_buckets mp) = 8"
    using assms(1) by (auto simp: table_ok_def split: option.splits)
  then show ?thesis
    using assms(2-4) hash_index_less [of s]
    by (auto simp: Hashmap_find_bucket_def str_hash_fn_eq DArray_get_def contents_get_def bucket_at_def hash_index_mod
        Let_def DArray_create_def DArray_set_def contents_set_def put_bucket_def empty_bucket_def split: option.split)
qed

lemma put_bucket_twice: "put_bucket (put_bucket mp i b) i b' = put_bucket mp i b'"
  by (cases "d_contents (hm_buckets mp)") (simp_all add: put_bucket_def)

definition new_node :: "strings \<Rightarrow> u32 \<Rightarrow> u32 \<Rightarrow> HashmapNode" where
  "new_node sm k v = \<lparr>n_key = k, n_value = v, n_hash = string_hash (the (sm k))\<rparr>"

lemma new_node_simps [simp]:
  "n_key (new_node sm k v) = k" "n_value (new_node sm k v) = v"
  "n_hash (new_node sm k v) = string_hash (the (sm k))" "node_str sm (new_node sm k v) = the (sm k)"
  "node_kv sm (new_node sm k v) = (the (sm k), v)"
  by (simp_all add: new_node_def node_str_def node_kv_def)

lemma Hashmap_set_eq:
  assumes "table_ok mp" "ok 12" "ok 16" "ok 40" "sm k = Some s"
    and "case bucket_at mp (hash_index s) of None \<Rightarrow> ns = [] | Some b \<Rightarrow> bucket_is ns b"
  shows "if length ns < 10
    then \<exists>b. Hashmap_set ok sm mp k v = Inr (put_bucket mp (hash_index s) b) \<and> bucket_is (ns @ [new_node sm k v]) b
    else Hashmap_set ok sm mp k v = Inl Oob_write"
proof -
  define b where "b = (case bucket_at mp (hash_index s) of None \<Rightarrow> empty_bucket | Some b \<Rightarrow> b)"
  have b: "bucket_is ns b" using assms(6) by (auto simp: b_def bucket_is_empty split: option.splits)
  then have "length ns \<le> 10" by (auto simp: bucket_is_def)
  moreover have "Hashmap_set ok sm mp k v =
      c_bind (DArray_push b (Some (new_node sm k v))) (\<lambda>b. Inr (put_bucket mp (hash_index s) b))"
    by (auto simp: Hashmap_set_def find_bucket_create [where ok = ok and sm = sm and k = k, OF assms(1,3,4,5)] Hashmap_node_create_def assms(2,5)
        b_def put_bucket_twice new_node_def split: option.split)
  ultimately show ?thesis
    using bucket_push [OF b, of "new_node sm k v"] bucket_push_full [OF b] by (cases "length ns < 10") auto
qed

lemma hm_bucketE:
  assumes "hm_wf sm mp" "bucket_at mp (hash_index s) = Some b"
  obtains ns where "bucket_is ns b" "nodes_ok sm (hash_index s) ns"
    "\<And>s'. hash_index s' = hash_index s \<Longrightarrow> hm_map sm mp s' = map_of (map (node_kv sm) ns) s'"
  using assms by (auto simp: hm_wf_def hm_map_def)

definition found :: "u32 option \<Rightarrow> u32" where
  "found v = (case v of None \<Rightarrow> 0 | Some v \<Rightarrow> v)"

lemma hm_get:
  assumes "hm_wf sm mp" "sm k = Some s"
  shows "Hashmap_get sm mp k = Inr (found (hm_map sm mp s))"
proof (cases "bucket_at mp (hash_index s)")
  case None
  then show ?thesis using assms by (simp add: Hashmap_get_def find_bucket_eq [where sm = sm and k = k, OF _ assms(2)] hm_wf_def hm_map_def found_def)
next
  case (Some b)
  obtain ns where ns: "bucket_is ns b" "nodes_ok sm (hash_index s) ns" "hm_map sm mp s = map_of (map (node_kv sm) ns) s"
    using hm_bucketE [OF assms(1) Some] by blast
  then have "\<forall>nd \<in> set ns. node_hashed sm nd" by (simp add: nodes_ok_def)
  from get_node_bucket [where sm = sm and k = k, OF ns(1) this assms(2)] show ?thesis
    using Some assms ns bucket_get [OF ns(1)]
    by (auto simp: Hashmap_get_def find_bucket_eq [where sm = sm and k = k, OF _ assms(2)] hm_wf_def found_def)
qed

lemma hm_set:
  assumes "hm_wf sm mp" "ok 12" "ok 16" "ok 40" "sm k = Some s" "hm_map sm mp s = None"
    and "case bucket_at mp (hash_index s) of None \<Rightarrow> True | Some b \<Rightarrow> d_end b < 10"
  shows "\<exists>mp'. Hashmap_set ok sm mp k v = Inr mp' \<and> hm_wf sm mp' \<and> hm_map sm mp' = (hm_map sm mp)(s \<mapsto> v)"
proof -
  let ?i = "hash_index s" and ?nd = "new_node sm k v"
  obtain ns where ns: "case bucket_at mp ?i of None \<Rightarrow> ns = [] | Some b \<Rightarrow> bucket_is ns b" "nodes_ok sm ?i ns"
      "\<And>s'. hash_index s' = ?i \<Longrightarrow> hm_map sm mp s' = map_of (map (node_kv sm) ns) s'"
  proof (cases "bucket_at mp ?i")
    case None
    then show ?thesis using that [of "[]"] by (simp add: nodes_ok_def hm_map_def)
  next
    case (Some b)
    then show ?thesis using hm_bucketE [OF assms(1) Some] that by auto
  qed
  have len: "length ns < 10" using ns(1) assms(7) by (auto simp: bucket_is_def split: option.splits)
  have tab: "table_ok mp" using assms(1) by (simp add: hm_wf_def)
  obtain b where b: "Hashmap_set ok sm mp k v = Inr (put_bucket mp ?i b)" "bucket_is (ns @ [?nd]) b"
    using Hashmap_set_eq [where ok = ok and sm = sm and k = k, OF tab assms(2-5) ns(1)] len by auto
  have "map_of (map (node_kv sm) ns) s = None" using ns(3) [of s] assms(6) by simp
  then have new: "s \<notin> fst ` set (map (node_kv sm) ns)" by (simp add: map_of_eq_None_iff)
  then have ok': "nodes_ok sm ?i (ns @ [?nd])"
    using ns(2) assms(5) by (auto simp: nodes_ok_def hash_index_def node_kv_def image_image node_hashed_def)
  have "map_of (map (node_kv sm) (ns @ [?nd])) = (map_of (map (node_kv sm) ns))(s \<mapsto> v)"
    using map_of_insert_mid [OF new, of v "[]"] assms(5) by simp
  then have "hm_map sm (put_bucket mp ?i b) = (hm_map sm mp)(s \<mapsto> v)"
    using hm_put(2) [OF assms(1) hash_index_less b(2) ok'] ns(3) by (auto simp: fun_eq_iff)
  then show ?thesis using b(1) hm_put(1) [OF assms(1) hash_index_less b(2) ok'] by simp
qed

text \<open>Deletion of an absent key does nothing; that of a present one frees its node.\<close>

lemma hm_delete:
  assumes "hm_wf sm mp" "sm k = Some s" "bucket_at mp (hash_index s) \<noteq> None"
  shows "if hm_map sm mp s = None then Hashmap_delete p sm mp k = Inr (0, mp)
    else \<exists>mp'. Hashmap_delete p sm mp k = c_bind (ebpf_free p Libc_heap) (\<lambda>_. Inr (found (hm_map sm mp s), mp')) \<and>
      hm_wf sm mp' \<and> hm_map sm mp' = (hm_map sm mp)(s := None)"
proof -
  let ?i = "hash_index s"
  obtain b where at: "bucket_at mp ?i = Some b" using assms(3) by auto
  obtain ns where ns: "bucket_is ns b" "nodes_ok sm ?i ns"
      "\<And>s'. hash_index s' = ?i \<Longrightarrow> hm_map sm mp s' = map_of (map (node_kv sm) ns) s'"
    using hm_bucketE [OF assms(1) at] by blast
  have "\<forall>nd \<in> set ns. node_hashed sm nd" using ns(2) by (simp add: nodes_ok_def)
  from get_node_bucket [where sm = sm and k = k, OF ns(1) this assms(2)] show ?thesis
  proof (elim disjE exE conjE)
    assume "map_of (map (node_kv sm) ns) s = None" "Hashmap_get_node sm (string_hash s) (Some b) k = Inr (- 1)"
    then show ?thesis
      using at assms(1) ns(3) [of s] by (simp add: Hashmap_delete_def find_bucket_eq [where sm = sm and k = k, OF _ assms(2)] hm_wf_def)
  next
    fix j
    assume j: "Hashmap_get_node sm (string_hash s) (Some b) k = Inr (int j)" "j < length ns" "node_str sm (ns ! j) = s"
      "map_of (map (node_kv sm) ns) s = Some (n_value (ns ! j))"
    obtain tail b1 b2 where rm: "DArray_pop b = Inr (tail, b1)"
        "(if int j \<noteq> d_end b - 1 then DArray_set b1 (int j) tail else Inr b1) = Inr b2" "bucket_is (swap_remove j ns) b2"
      using bucket_remove [OF ns(1) j(2)] by blast
    note sw = swap_remove_kv [OF ns(2) j(2)]
    have "Hashmap_delete p sm mp k = c_bind (ebpf_free p Libc_heap) (\<lambda>_. Inr (n_value (ns ! j), put_bucket mp ?i b2))"
      using at assms(1) j(1) bucket_get [OF ns(1) j(2)] rm(1,2)
      by (simp add: Hashmap_delete_def find_bucket_eq [where sm = sm and k = k, OF _ assms(2)] hm_wf_def del: if_split)
    moreover have "hm_map sm (put_bucket mp ?i b2) = (hm_map sm mp)(s := None)"
      using hm_put(2) [OF assms(1) hash_index_less rm(3) sw(1)] sw(2) j(3) ns(3) by (auto simp: fun_eq_iff)
    ultimately show ?thesis
      using hm_put(1) [OF assms(1) hash_index_less rm(3) sw(1)] ns(3) [of s] j(4) by (auto simp: found_def)
  qed
qed

section \<open>Sequences of operations\<close>

text \<open>
  A client calls the operations with pointers to its keys, and may change its memory between two
  calls. An operation comes with the strings in memory at that time.
\<close>

fun hm_step :: "port \<Rightarrow> (nat \<Rightarrow> bool) \<Rightarrow> strings \<Rightarrow> u32 map_op \<Rightarrow> Hashmap \<Rightarrow> (u32 list \<times> Hashmap) cres" where
  "hm_step p ok sm (Map_get k) mp = c_bind (Hashmap_get sm mp k) (\<lambda>v. Inr ([v], mp))"
| "hm_step p ok sm (Map_set k v) mp = c_bind (Hashmap_set ok sm mp k v) (\<lambda>mp. Inr ([], mp))"
| "hm_step p ok sm (Map_del k) mp = c_bind (Hashmap_delete p sm mp k) (\<lambda>(v, mp). Inr ([v], mp))"

fun hm_run :: "port \<Rightarrow> (nat \<Rightarrow> bool) \<Rightarrow> (strings \<times> u32 map_op) list \<Rightarrow> Hashmap \<Rightarrow> (u32 list \<times> Hashmap) cres" where
  "hm_run p ok [] mp = Inr ([], mp)"
| "hm_run p ok ((sm, op) # ops) mp =
     c_bind (hm_step p ok sm op mp) (\<lambda>(vs, mp). c_bind (hm_run p ok ops mp) (\<lambda>(ws, mp). Inr (vs @ ws, mp)))"

text \<open>The same operations on a map from strings to values.\<close>

fun hm_spec_step :: "strings \<Rightarrow> u32 map_op \<Rightarrow> (u8 list \<rightharpoonup> u32) \<Rightarrow> u32 list \<times> (u8 list \<rightharpoonup> u32)" where
  "hm_spec_step sm (Map_get k) m = ([found (m (the (sm k)))], m)"
| "hm_spec_step sm (Map_set k v) m = ([], m(the (sm k) \<mapsto> v))"
| "hm_spec_step sm (Map_del k) m = ([found (m (the (sm k)))], m(the (sm k) := None))"

fun hm_spec :: "(strings \<times> u32 map_op) list \<Rightarrow> (u8 list \<rightharpoonup> u32) \<Rightarrow> u32 list \<times> (u8 list \<rightharpoonup> u32)" where
  "hm_spec [] m = ([], m)"
| "hm_spec ((sm, op) # ops) m =
     (let (vs, m) = hm_spec_step sm op m; (ws, m) = hm_spec ops m in (vs @ ws, m))"

text \<open>
  What the operations need: readable keys; for a new key a free slot in its bucket and memory; for a
  deletion a bucket that was used and, if the key is there, a heap that takes the node back. Between two
  operations the strings that stored keys point to stay as they are.
\<close>

fun hm_allowed_step :: "port \<Rightarrow> (nat \<Rightarrow> bool) \<Rightarrow> strings \<Rightarrow> u32 map_op \<Rightarrow> Hashmap \<Rightarrow> bool" where
  "hm_allowed_step p ok sm (Map_get k) mp \<longleftrightarrow> sm k \<noteq> None"
| "hm_allowed_step p ok sm (Map_set k v) mp \<longleftrightarrow> ok 12 \<and> ok 16 \<and> ok 40 \<and>
     (case sm k of
        None \<Rightarrow> False
      | Some s \<Rightarrow> hm_map sm mp s = None \<and>
          (case bucket_at mp (hash_index s) of None \<Rightarrow> True | Some b \<Rightarrow> d_end b < 10))"
| "hm_allowed_step p ok sm (Map_del k) mp \<longleftrightarrow>
     (case sm k of
        None \<Rightarrow> False
      | Some s \<Rightarrow> bucket_at mp (hash_index s) \<noteq> None \<and> (hm_map sm mp s = None \<or> my_os_heap p = Libc_heap))"

definition stored_nodes :: "Hashmap \<Rightarrow> HashmapNode list" where
  "stored_nodes mp =
     (case d_contents (hm_buckets mp) of
        None \<Rightarrow> []
      | Some c \<Rightarrow> concat (map (\<lambda>b. case b of None \<Rightarrow> [] | Some b \<Rightarrow> bucket_nodes b) c))"

definition keys_kept :: "strings \<Rightarrow> strings \<Rightarrow> Hashmap \<Rightarrow> bool" where
  "keys_kept sm sm' mp \<longleftrightarrow> list_all (\<lambda>nd. sm' (n_key nd) = sm (n_key nd)) (stored_nodes mp)"

fun hm_allowed :: "port \<Rightarrow> (nat \<Rightarrow> bool) \<Rightarrow> strings \<Rightarrow> (strings \<times> u32 map_op) list \<Rightarrow> Hashmap \<Rightarrow> bool" where
  "hm_allowed p ok sm0 [] mp \<longleftrightarrow> True"
| "hm_allowed p ok sm0 ((sm, op) # ops) mp \<longleftrightarrow>
     keys_kept sm0 sm mp \<and> hm_allowed_step p ok sm op mp \<and>
     (case hm_step p ok sm op mp of Inl e \<Rightarrow> True | Inr (_, mp) \<Rightarrow> hm_allowed p ok sm ops mp)"

lemma keys_kept_node:
  assumes "keys_kept sm sm' mp" "bucket_at mp i = Some b" "nd \<in> set (bucket_nodes b)"
  shows "sm' (n_key nd) = sm (n_key nd)"
proof -
  obtain c where c: "d_contents (hm_buckets mp) = Some c" "i < length c" "c ! i = Some b"
    using assms(2) by (auto simp: bucket_at_def split: option.splits if_splits)
  then have "Some b \<in> set c" by (metis nth_mem)
  then have "nd \<in> set (stored_nodes mp)" using assms(3) c(1) by (force simp: stored_nodes_def)
  then show ?thesis using assms(1) by (simp add: keys_kept_def list_all_iff)
qed

lemma hm_kept:
  assumes "hm_wf sm mp" "keys_kept sm sm' mp"
  shows "hm_wf sm' mp" "hm_map sm' mp = hm_map sm mp"
proof -
  have str: "node_str sm' nd = node_str sm nd" "node_hashed sm' nd = node_hashed sm nd"
    if "bucket_at mp i = Some b" "nd \<in> set (bucket_nodes b)" for i b nd
    using keys_kept_node [OF assms(2) that] by (simp_all add: node_str_def node_hashed_def)
  then show "hm_wf sm' mp"
    using assms(1) by (auto simp: hm_wf_def nodes_ok_def distinct_map inj_on_def)
  show "hm_map sm' mp = hm_map sm mp"
    using str by (auto simp: fun_eq_iff hm_map_def node_kv_def split: option.split intro!: arg_cong2 [of _ _ _ _ map_of])
qed

lemma hm_step_refines:
  assumes "hm_wf sm mp" "hm_allowed_step p ok sm op mp"
  shows "\<exists>vs mp'. hm_step p ok sm op mp = Inr (vs, mp') \<and> hm_wf sm mp' \<and>
    hm_spec_step sm op (hm_map sm mp) = (vs, hm_map sm mp')"
proof (cases op)
  case (Map_get k)
  then show ?thesis using assms hm_get [OF assms(1), of k] by auto
next
  case (Map_set k v)
  then obtain s where "sm k = Some s" "hm_map sm mp s = None"
      "case bucket_at mp (hash_index s) of None \<Rightarrow> True | Some b \<Rightarrow> d_end b < 10" "ok 12" "ok 16" "ok 40"
    using assms(2) by (auto split: option.splits)
  then show ?thesis
    using Map_set hm_set [where ok = ok and k = k and s = s and v = v, OF assms(1)] by auto
next
  case (Map_del k)
  then obtain s where s: "sm k = Some s" "bucket_at mp (hash_index s) \<noteq> None"
      "hm_map sm mp s = None \<or> my_os_heap p = Libc_heap"
    using assms(2) by (auto split: option.splits)
  show ?thesis
  proof (cases "hm_map sm mp s")
    case None
    then show ?thesis
      using Map_del s(1) assms(1) hm_delete [where p = p, OF assms(1) s(1,2)] by (auto simp: found_def fun_upd_idem)
  next
    case (Some v)
    then show ?thesis
      using Map_del s hm_delete [where p = p, OF assms(1) s(1,2)] by (auto simp: ebpf_free_def)
  qed
qed

lemma hm_run_refines:
  assumes "hm_wf sm0 mp" "hm_allowed p ok sm0 ops mp"
  shows "\<exists>vs mp'. hm_run p ok ops mp = Inr (vs, mp') \<and>
    (let sm = (if ops = [] then sm0 else fst (last ops)) in
     hm_wf sm mp' \<and> hm_spec ops (hm_map sm0 mp) = (vs, hm_map sm mp'))"
  using assms
proof (induction ops arbitrary: sm0 mp)
  case Nil
  then show ?case by simp
next
  case (Cons o' ops)
  obtain sm op where o': "o' = (sm, op)" by (cases o')
  have kept: "keys_kept sm0 sm mp" and ok: "hm_allowed_step p ok sm op mp" using Cons.prems(2) o' by simp_all
  note wf = hm_kept [OF Cons.prems(1) kept]
  obtain vs mp1 where 1: "hm_step p ok sm op mp = Inr (vs, mp1)" "hm_wf sm mp1"
      "hm_spec_step sm op (hm_map sm mp) = (vs, hm_map sm mp1)"
    using hm_step_refines [OF wf(1) ok] by blast
  have "hm_allowed p ok sm ops mp1" using Cons.prems(2) o' 1(1) by simp
  from Cons.IH [OF 1(2) this] show ?case using o' 1 wf(2) by (auto simp: Let_def split: if_splits)
qed

section \<open>Properties\<close>

lemma Hashmap_create_wf:
  assumes "Hashmap_create ok = Inr mp" "ok 32"
  shows "hm_wf sm mp" "hm_map sm mp = Map.empty" "bucket_at mp i = None"
  using assms
  by (auto simp: Hashmap_create_def DArray_create_def hm_wf_def table_ok_def bucket_at_def hm_map_def fun_eq_iff
      split: if_splits)

text \<open>
  C22: a new hash map is a map on strings as long as no key is set twice, no bucket gets an eleventh
  node, no key is deleted whose bucket was never used, a present key is only deleted on a port
  whose heap takes the node back, and the strings that stored keys point to do not change: every sequence
  of lookups, insertions and deletions that respects this runs without undefined behaviour and
  returns what the mathematical map returns, whatever else happens to the caller's memory.
\<close>

theorem hashmap_refines_map:
  assumes "Hashmap_create ok = Inr mp" "ok 32" "hm_allowed p ok Map.empty ops mp"
  shows "\<exists>vs mp' m. hm_run p ok ops mp = Inr (vs, mp') \<and> hm_spec ops Map.empty = (vs, m) \<and>
    (ops \<noteq> [] \<longrightarrow> m = hm_map (fst (last ops)) mp')"
  using hm_run_refines [OF Hashmap_create_wf(1) [OF assms(1,2)] assms(3)] Hashmap_create_wf(2) [OF assms(1,2)]
  by (auto simp: Let_def split: if_splits)

text \<open>
  C35: in the build of the firewall a hash map cannot delete what it holds. After any such sequence, deleting
  a key that is in the map, through any pointer to it, gives the node, which \<open>calloc\<close> allocated, to \<open>k_free\<close>.
\<close>

theorem hashmap_delete_invalid_free:
  assumes "Hashmap_create ok = Inr mp" "ok 32" "hm_allowed ZEPHYR_OS ok Map.empty ops mp"
    and "hm_run ZEPHYR_OS ok ops mp = Inr (vs, mp')" "keys_kept (fst (last ops)) sm mp'"
    and "sm k = Some s" "snd (hm_spec ops Map.empty) s = Some v"
  shows "Hashmap_delete ZEPHYR_OS sm mp' k = Inl Invalid_free"
proof -
  have "ops \<noteq> []" using assms(7) by auto
  then have last: "hm_wf (fst (last ops)) mp'" "hm_map (fst (last ops)) mp' s = Some v"
    using hm_run_refines [OF Hashmap_create_wf(1) [OF assms(1,2)] assms(3)] Hashmap_create_wf(2) [OF assms(1,2)] assms(4,7)
    by (auto simp: Let_def)
  note wf = hm_kept [OF last(1) assms(5)]
  then have v: "hm_map sm mp' s = Some v" using last(2) by simp
  then have "bucket_at mp' (hash_index s) \<noteq> None" by (auto simp: hm_map_def split: option.splits)
  then show ?thesis
    using hm_delete [where p = ZEPHYR_OS, OF wf(1) assms(6)] v by (auto simp: ebpf_free_def)
qed

text \<open>
  Setting a key again does not change what is looked up: the new node is stored behind the old
  one, and the old one is found first.
\<close>

theorem hashmap_set_keeps_old:
  assumes "hm_wf sm mp" "sm k = Some s" "hm_map sm mp s = Some v0" "bucket_at mp (hash_index s) = Some b" "d_end b < 10"
    and "ok 12" "ok 16" "ok 40"
  shows "\<exists>mp'. Hashmap_set ok sm mp k v = Inr mp' \<and> Hashmap_get sm mp' k = Inr v0"
proof -
  let ?i = "hash_index s" and ?nd = "new_node sm k v"
  obtain ns where ns: "bucket_is ns b" "nodes_ok sm ?i ns" "map_of (map (node_kv sm) ns) s = Some v0"
    using hm_bucketE [OF assms(1,4)] assms(3) by metis
  have tab: "table_ok mp" using assms(1) by (simp add: hm_wf_def)
  have at: "case bucket_at mp ?i of None \<Rightarrow> ns = [] | Some b \<Rightarrow> bucket_is ns b" using assms(4) ns(1) by simp
  obtain b' where b': "Hashmap_set ok sm mp k v = Inr (put_bucket mp ?i b')" "bucket_is (ns @ [?nd]) b'"
  proof -
    have "length ns < 10" using ns(1) assms(5) by (simp add: bucket_is_def)
    then show ?thesis
      using Hashmap_set_eq [where ok = ok and sm = sm and k = k and v = v, OF tab assms(6-8,2) at] that by auto
  qed
  have "\<forall>nd \<in> set (ns @ [?nd]). node_hashed sm nd" using ns(2) assms(2) by (simp add: nodes_ok_def node_hashed_def)
  from get_node_bucket [where sm = sm and k = k, OF b'(2) this assms(2)] ns(3)
  obtain j where "Hashmap_get_node sm (string_hash s) (Some b') k = Inr (int j)" "j < length (ns @ [?nd])"
      "n_value ((ns @ [?nd]) ! j) = v0"
    by (auto simp: map_add_Some_iff)
  then have "Hashmap_get sm (put_bucket mp ?i b') k = Inr v0"
    using bucket_get [OF b'(2)]
    by (simp add: Hashmap_get_def find_bucket_eq [where sm = sm and k = k, OF _ assms(2)] table_ok_put tab bucket_at_put
        hash_index_less)
  then show ?thesis using b'(1) by blast
qed

fun hm_set_all :: "(nat \<Rightarrow> bool) \<Rightarrow> strings \<Rightarrow> (u32 \<times> u32) list \<Rightarrow> Hashmap \<Rightarrow> Hashmap cres" where
  "hm_set_all ok sm [] mp = Inr mp"
| "hm_set_all ok sm ((k, v) # kvs) mp = c_bind (Hashmap_set ok sm mp k v) (hm_set_all ok sm kvs)"

lemma hm_set_all_overflow:
  assumes "ok 12" "ok 16" "ok 40"
  shows "table_ok mp \<Longrightarrow> \<forall>(k, v) \<in> set kvs. \<exists>s. sm k = Some s \<and> hash_index s = i \<Longrightarrow> length ns + length kvs = 11 \<Longrightarrow>
    length ns \<le> 10 \<Longrightarrow> case bucket_at mp i of None \<Rightarrow> ns = [] | Some b \<Rightarrow> bucket_is ns b \<Longrightarrow>
    hm_set_all ok sm kvs mp = Inl Oob_write"
proof (induction kvs arbitrary: mp ns)
  case Nil
  then show ?case by simp
next
  case (Cons kv kvs)
  obtain k v s where kv: "kv = (k, v)" "sm k = Some s" "hash_index s = i" using Cons.prems(2) by (cases kv) auto
  note step = Hashmap_set_eq [where ok = ok and sm = sm and k = k and ns = ns and v = v, OF Cons.prems(1) assms kv(2)]
  show ?case
  proof (cases "length ns < 10")
    case True
    then obtain b where b: "Hashmap_set ok sm mp k v = Inr (put_bucket mp i b)" "bucket_is (ns @ [new_node sm k v]) b"
      using step kv(3) Cons.prems(5) by auto
    have "hm_set_all ok sm kvs (put_bucket mp i b) = Inl Oob_write"
      using Cons.prems True b(2) kv(3) hash_index_less [of s]
      by (intro Cons.IH [OF table_ok_put, of mp "ns @ [new_node sm k v]"]) (auto simp: bucket_at_put)
    then show ?thesis using b(1) kv(1) by simp
  next
    case False
    then show ?thesis using step kv Cons.prems(5) by simp
  qed
qed

text \<open>
  The eleventh insertion into a bucket writes past its end: setting any eleven keys with the same
  hash modulo eight, equal or not, in a new map is undefined behaviour, since a bucket never grows.
\<close>

theorem hashmap_bucket_overflow:
  assumes "Hashmap_create ok = Inr mp" "ok 12" "ok 16" "ok 32" "ok 40"
    and "length kvs = 11" "\<forall>(k, v) \<in> set kvs. \<exists>s. sm k = Some s \<and> hash_index s = i"
  shows "hm_set_all ok sm kvs mp = Inl Oob_write"
  using hm_set_all_overflow [where ok = ok and ns = "[]" and i = i and sm = sm, OF assms(2,3,5)] assms(6,7)
    Hashmap_create_wf [OF assms(1,4)]
  by (simp add: hm_wf_def)

text \<open>
  Deleting a key from a new hash map, or any key whose bucket was never used, dereferences a null
  pointer: only \<open>Hashmap_get\<close> looks whether there is a bucket.
\<close>

theorem hashmap_delete_unused_bucket:
  assumes "hm_wf sm mp" "sm k = Some s" "bucket_at mp (hash_index s) = None"
  shows "Hashmap_delete p sm mp k = Inl Null_deref \<and> Hashmap_get sm mp k = Inr 0"
  using assms
  by (simp add: Hashmap_delete_def find_bucket_eq [where sm = sm and k = k, OF _ assms(2)] hm_wf_def
      Hashmap_get_node_def Hashmap_get_def)

section \<open>Instances\<close>

definition hm_example :: Hashmap where
  "hm_example = \<lparr>hm_buckets = \<lparr>d_end = 8, d_max = 8, d_el_sz = 4, d_contents = Some (replicate 8 None)\<rparr>, bucket_num = 8\<rparr>"

text \<open>Two buffers with the same key, and one with another.\<close>

definition strings_example :: strings where
  "strings_example = [0x20000100 \<mapsto> [107], 0x20000200 \<mapsto> [107], 0x20000300 \<mapsto> [107, 50]]"

lemma hm_example: "Hashmap_create (\<lambda>_. True) = Inr hm_example"
  by (simp add: Hashmap_create_def DArray_create_def hm_example_def)

lemma hm_example_set:
  obtains mp b where "Hashmap_set (\<lambda>_. True) strings_example hm_example 0x20000100 5 = Inr mp" "hm_wf strings_example mp"
    "hm_map strings_example mp = [[107] \<mapsto> 5]" "bucket_at mp (hash_index [107]) = Some b" "d_end b = 1"
proof -
  let ?sm = strings_example
  note wf = Hashmap_create_wf [OF hm_example]
  have k: "?sm 0x20000100 = Some [107]" by (simp add: strings_example_def)
  obtain mp where mp: "Hashmap_set (\<lambda>_. True) ?sm hm_example 0x20000100 5 = Inr mp" "hm_wf ?sm mp"
      "hm_map ?sm mp = [[107] \<mapsto> 5]"
    using hm_set [where mp = hm_example and ok = "\<lambda>_. True" and sm = ?sm, OF _ _ _ _ k, of 5] wf by auto
  moreover obtain b where "mp = put_bucket hm_example (hash_index [107]) b" "d_end b = 1"
    using Hashmap_set_eq [where mp = hm_example and ok = "\<lambda>_. True" and sm = ?sm and ns = "[]" and v = 5, OF _ _ _ _ k] wf mp(1)
    by (auto simp: hm_wf_def bucket_is_def)
  ultimately show thesis using that wf(1) by (simp add: bucket_at_put hash_index_less hm_wf_def)
qed

theorem hashmap_refines_map_witness:
  "\<exists>mp'. hm_run LINUX_TEST (\<lambda>_. True)
     [(strings_example, Map_set 0x20000100 5), (strings_example, Map_get 0x20000200),
      (strings_example, Map_del 0x20000200)] hm_example = Inr ([5, 5], mp')"
proof -
  obtain mp b where mp: "Hashmap_set (\<lambda>_. True) strings_example hm_example 0x20000100 5 = Inr mp" "hm_wf strings_example mp"
      "hm_map strings_example mp = [[107] \<mapsto> 5]" "bucket_at mp (hash_index [107]) = Some b"
    by (rule hm_example_set)
  have k: "strings_example 0x20000100 = Some [107]" "strings_example 0x20000200 = Some [107]"
    by (simp_all add: strings_example_def)
  have "Hashmap_get strings_example mp 0x20000200 = Inr 5" using hm_get [OF mp(2) k(2)] mp(3) by (simp add: found_def)
  moreover have "keys_kept Map.empty strings_example hm_example"
    by (simp add: keys_kept_def stored_nodes_def hm_example_def)
  moreover have "keys_kept sm sm mp" for sm mp by (simp add: keys_kept_def list_all_iff)
  ultimately have "hm_allowed LINUX_TEST (\<lambda>_. True) Map.empty
     [(strings_example, Map_set 0x20000100 5), (strings_example, Map_get 0x20000200),
      (strings_example, Map_del 0x20000200)] hm_example"
    using Hashmap_create_wf [OF hm_example] mp k by (simp split: sum.split)
  from hashmap_refines_map [OF hm_example _ this] show ?thesis using k by (auto simp: found_def)
qed

theorem hashmap_delete_invalid_free_witness:
  "\<exists>mp. Hashmap_set (\<lambda>_. True) strings_example hm_example 0x20000100 5 = Inr mp \<and>
     Hashmap_delete ZEPHYR_OS strings_example mp 0x20000200 = Inl Invalid_free"
proof -
  obtain mp b where mp: "Hashmap_set (\<lambda>_. True) strings_example hm_example 0x20000100 5 = Inr mp"
    by (rule hm_example_set)
  have k: "strings_example 0x20000100 = Some [107]" "strings_example 0x20000200 = Some [107]"
    by (simp_all add: strings_example_def)
  have "keys_kept Map.empty strings_example hm_example"
    by (simp add: keys_kept_def stored_nodes_def hm_example_def)
  then have "hm_allowed ZEPHYR_OS (\<lambda>_. True) Map.empty [(strings_example, Map_set 0x20000100 5)] hm_example"
    using Hashmap_create_wf [OF hm_example] mp k by simp
  from hashmap_delete_invalid_free [OF hm_example _ this, of "[]" mp strings_example "0x20000200" "[107]" 5]
  show ?thesis using mp k by (auto simp: keys_kept_def list_all_iff)
qed

theorem hashmap_set_keeps_old_witness:
  "\<exists>mp mp'. Hashmap_set (\<lambda>_. True) strings_example hm_example 0x20000100 5 = Inr mp \<and>
     Hashmap_set (\<lambda>_. True) strings_example mp 0x20000200 6 = Inr mp' \<and>
     Hashmap_get strings_example mp' 0x20000200 = Inr 5"
proof -
  obtain mp b where mp: "Hashmap_set (\<lambda>_. True) strings_example hm_example 0x20000100 5 = Inr mp" "hm_wf strings_example mp"
      "hm_map strings_example mp = [[107] \<mapsto> 5]" "bucket_at mp (hash_index [107]) = Some b" "d_end b = 1"
    by (rule hm_example_set)
  have k: "strings_example 0x20000200 = Some [107]" by (simp add: strings_example_def)
  from hashmap_set_keeps_old [OF mp(2) k _ mp(4), of 5 "\<lambda>_. True" 6] mp(1,3,5) show ?thesis by auto
qed

theorem hashmap_bucket_overflow_witness:
  "hm_set_all (\<lambda>_. True) strings_example (replicate 11 (0x20000100, 5)) hm_example = Inl Oob_write"
  using hashmap_bucket_overflow [OF hm_example, of "replicate 11 (0x20000100, 5)" strings_example "hash_index [107]"]
  by (simp add: strings_example_def)

theorem hashmap_delete_unused_bucket_witness:
  "Hashmap_delete ZEPHYR_OS strings_example hm_example 0x20000100 = Inl Null_deref"
  using hashmap_delete_unused_bucket [of strings_example hm_example "0x20000100" "[107]" ZEPHYR_OS]
    Hashmap_create_wf [OF hm_example]
  by (simp add: strings_example_def)

end
