(* ===== verification/Ebpf_Env.thy ===== *)
theory Ebpf_Env
  imports Ebpf_Vm
begin

text \<open>
  The program environment of \<^verbatim>\<open>libebpf/ebpf-src/ebpf_env.c\<close>: a singly linked list of programs, each
  with its virtual machine. Programs are heap objects; an address is the number of the allocation, so
  that a pointer to a freed program never becomes valid again. Whether the three allocations of an
  addition succeed are parameters.
\<close>

section \<open>State\<close>

record ebpf_prog =
  prog_id :: int
  prog_next :: "nat option"
  prog_vm :: ebpf_vm

record ebpf_env =
  prog_list :: "nat option"
  prog_tail :: "nat option"
  cur_size :: int
  progs :: "nat \<rightharpoonup> ebpf_prog"
  next_alloc :: nat
  env_helpers :: helper_store

definition init_ubpf_env :: "ebpf_env \<Rightarrow> ebpf_env" where
  "init_ubpf_env env = env\<lparr>prog_list := None, prog_tail := None, cur_size := 0\<rparr>"

section \<open>Operations\<close>

text \<open>
  The result of \<open>ebpf_vm_load\<close> is ignored. The identifier of the new program is not read before it is
  set at the end.
\<close>

definition ebpf_add_prog :: "bool \<Rightarrow> bool \<Rightarrow> bool \<Rightarrow> u8 list \<Rightarrow> u32 \<Rightarrow> ebpf_env \<Rightarrow> (nat \<times> ebpf_env) cres" where
  "ebpf_add_prog ok_prog ok_vm ok_code code code_len env =
     (if \<not> ok_prog then Inl Null_deref
      else case ebpf_create ok_vm of
        None \<Rightarrow> Inl Null_deref
      | Some vm \<Rightarrow>
          c_bind (ebpf_vm_load ok_code vm code code_len) (\<lambda>(vm, ret).
          let prog = next_alloc env;
              env = env\<lparr>progs := (progs env)(prog \<mapsto> \<lparr>prog_id = 0, prog_next = None, prog_vm = vm\<rparr>),
                        next_alloc := next_alloc env + 1\<rparr>;
              env = (if prog_list env = None then env\<lparr>prog_list := Some prog\<rparr> else env) in
          c_bind (case prog_tail env of
                    None \<Rightarrow> Inr env
                  | Some t \<Rightarrow>
                      (case progs env t of
                         None \<Rightarrow> Inl Use_after_free
                       | Some p \<Rightarrow> Inr (env\<lparr>progs := (progs env)(t \<mapsto> p\<lparr>prog_next := Some prog\<rparr>)\<rparr>))) (\<lambda>env.
          let env = env\<lparr>prog_tail := Some prog, cur_size := cur_size env + 1\<rparr> in
          Inr (prog, env\<lparr>progs := (progs env)(prog \<mapsto> (the (progs env prog))\<lparr>prog_id := cur_size env\<rparr>)\<rparr>))))"

definition ebpf_remove_prog :: "nat \<Rightarrow> ebpf_env \<Rightarrow> (int \<times> ebpf_env) cres" where
  "ebpf_remove_prog prog env =
     (case progs env prog of
        None \<Rightarrow> Inl Use_after_free
      | Some p \<Rightarrow>
          c_bind (ebpf_vm_destroy (env_helpers env) (prog_vm p)) (\<lambda>h.
          Inr (0, env\<lparr>env_helpers := h, progs := (progs env)(prog := None)\<rparr>)))"

section \<open>The list\<close>

text \<open>Following the list for at most \<open>n\<close> programs.\<close>

fun walk :: "nat \<Rightarrow> (nat \<rightharpoonup> ebpf_prog) \<Rightarrow> nat option \<Rightarrow> (int \<times> ebpf_vm) list cres" where
  "walk 0 h p = Inr []"
| "walk (Suc n) h None = Inr []"
| "walk (Suc n) h (Some a) =
     (case h a of
        None \<Rightarrow> Inl Use_after_free
      | Some p \<Rightarrow> c_bind (walk n h (prog_next p)) (\<lambda>ps. Inr ((prog_id p, prog_vm p) # ps)))"

fun add_all :: "u8 list list \<Rightarrow> ebpf_env \<Rightarrow> (nat list \<times> ebpf_env) cres" where
  "add_all [] env = Inr ([], env)"
| "add_all (code # codes) env =
     c_bind (ebpf_add_prog True True True code (word_of_nat (length code)) env) (\<lambda>(a, env).
     c_bind (add_all codes env) (\<lambda>(as, env). Inr (a # as, env)))"

definition loaded_vm :: "u8 list \<Rightarrow> ebpf_vm" where
  "loaded_vm code =
     ebpf_vm_zero\<lparr>insts := Some (insts_of_code code), num_insts := num_insts_of (word_of_nat (length code))\<rparr>"

text \<open>The list from a pointer on holds the programs at the given addresses, with the given contents.\<close>

fun chain :: "(nat \<rightharpoonup> ebpf_prog) \<Rightarrow> nat option \<Rightarrow> (nat \<times> int \<times> ebpf_vm) list \<Rightarrow> bool" where
  "chain h p [] \<longleftrightarrow> p = None"
| "chain h p ((a, i, vm) # xs) \<longleftrightarrow>
     p = Some a \<and> (case h a of None \<Rightarrow> False | Some pr \<Rightarrow> prog_id pr = i \<and> prog_vm pr = vm \<and> chain h (prog_next pr) xs)"

definition env_ok :: "(nat \<times> int \<times> ebpf_vm) list \<Rightarrow> ebpf_env \<Rightarrow> bool" where
  "env_ok xs env \<longleftrightarrow> chain (progs env) (prog_list env) xs \<and> cur_size env = int (length xs) \<and>
     prog_tail env = (if xs = [] then None else Some (fst (last xs))) \<and>
     distinct (map fst xs) \<and> (\<forall>a \<in> fst ` set xs. a < next_alloc env)"

lemma walk_chain: "chain h p xs \<Longrightarrow> length xs \<le> n \<Longrightarrow> walk n h p = Inr (map snd xs)"
proof (induction xs arbitrary: n p)
  case Nil
  then show ?case by (cases n) auto
next
  case (Cons x xs)
  then show ?case by (cases x; cases n) (auto split: option.splits)
qed

lemma walk_freed:
  "chain h p xs \<Longrightarrow> a \<in> fst ` set xs \<Longrightarrow> length xs \<le> n \<Longrightarrow> walk n (h(a := None)) p = Inl Use_after_free"
proof (induction xs arbitrary: n p)
  case (Cons x xs)
  obtain b i vm m where x: "x = (b, i, vm)" "n = Suc m" using Cons.prems(3) by (cases x; cases n) auto
  then obtain pr where pr: "p = Some b" "h b = Some pr" "chain h (prog_next pr) xs"
    using Cons.prems(1) by (auto split: option.splits)
  show ?case
  proof (cases "b = a")
    case False
    then have "walk m (h(a := None)) (prog_next pr) = Inl Use_after_free"
      using Cons.prems(2,3) x pr(3) by (intro Cons.IH) auto
    then show ?thesis using False x pr by (simp add: fun_upd_def)
  qed (use x pr in simp)
qed simp

lemma chain_dom: "chain h p xs \<Longrightarrow> a \<in> fst ` set xs \<Longrightarrow> h a \<noteq> None"
  by (induction xs arbitrary: p) (force split: option.splits)+

lemma chain_other: "a \<notin> fst ` set xs \<Longrightarrow> chain (h(a := x)) p xs = chain h p xs"
  by (induction xs arbitrary: p) (auto split: option.splits)

lemma chain_extend:
  assumes "chain h p xs" "xs \<noteq> []" "distinct (map fst xs)" "b \<notin> fst ` set xs" "h b = Some pb" "prog_next pb = None"
  shows "chain (h(fst (last xs) \<mapsto> (the (h (fst (last xs))))\<lparr>prog_next := Some b\<rparr>)) p (xs @ [(b, prog_id pb, prog_vm pb)])"
  using assms
proof (induction xs arbitrary: p)
  case (Cons x xs)
  obtain a i vm where x: "x = (a, i, vm)" by (cases x) auto
  show ?case
  proof (cases "xs = []")
    case True
    then show ?thesis using Cons.prems x by (auto split: option.splits)
  next
    case False
    then have "a \<noteq> fst (last xs)" using Cons.prems(3) x by (auto dest: last_in_set)
    then show ?thesis using Cons x False by (auto split: option.splits)
  qed
qed simp

lemma add_prog_ok:
  assumes "env_ok xs env" "length code < 2 ^ 32"
  defines "a \<equiv> next_alloc env"
  shows "\<exists>env'. ebpf_add_prog True True True code (word_of_nat (length code)) env = Inr (a, env') \<and>
    env_ok (xs @ [(a, int (length xs) + 1, loaded_vm code)]) env' \<and> env_helpers env' = env_helpers env"
proof -
  have "unat (word_of_nat (length code) :: u32) = length code"
    using assms(2) by (simp add: unsigned_of_nat take_bit_eq_mod)
  then have load: "ebpf_vm_load True ebpf_vm_zero code (word_of_nat (length code)) = Inr (loaded_vm code, 0)"
    by (simp add: ebpf_vm_load_def ebpf_vm_zero_def loaded_vm_def)
  have new: "a \<notin> fst ` set xs" using assms(1) by (auto simp: env_ok_def a_def)
  show ?thesis
  proof (cases "xs = []")
    case True
    then show ?thesis using assms(1) load by (auto simp: env_ok_def ebpf_add_prog_def ebpf_create_def a_def Let_def)
  next
    case False
    let ?t = "fst (last xs)" and ?n = "\<lparr>prog_id = int (length xs) + 1, prog_next = None, prog_vm = loaded_vm code\<rparr>"
    let ?h = "(progs env)(a \<mapsto> ?n)"
    have t: "?t \<in> fst ` set xs" "?t \<noteq> a" using False new by auto
    have ch: "chain ?h (prog_list env) xs" using assms(1) new by (simp add: env_ok_def chain_other)
    have "progs env ?t \<noteq> None"
      using assms(1) t(1) chain_dom [of "progs env" "prog_list env" xs ?t] by (simp add: env_ok_def)
    then obtain pt where pt: "progs env ?t = Some pt" by auto
    have "chain (?h(?t \<mapsto> pt\<lparr>prog_next := Some a\<rparr>)) (prog_list env) (xs @ [(a, int (length xs) + 1, loaded_vm code)])"
      using chain_extend [OF ch False, of a ?n] assms(1) new t(2) pt by (simp add: env_ok_def)
    moreover have "prog_list env \<noteq> None" using ch False by (cases xs) auto
    ultimately show ?thesis
      using assms(1) load False t(2) pt new
      by (auto simp: env_ok_def ebpf_add_prog_def ebpf_create_def a_def Let_def fun_upd_twist)
  qed
qed

lemma add_all_ok:
  "env_ok xs env \<Longrightarrow> \<forall>code \<in> set codes. length code < 2 ^ 32 \<Longrightarrow>
   \<exists>as env'. add_all codes env = Inr (as, env') \<and> length as = length codes \<and> env_helpers env' = env_helpers env \<and>
     env_ok (xs @ zip as (zip (map (\<lambda>i. int (length xs + i)) [1..<Suc (length codes)]) (map loaded_vm codes))) env'"
proof (induction codes arbitrary: xs env)
  case Nil
  then show ?case by simp
next
  case (Cons code codes)
  let ?ys = "xs @ [(next_alloc env, int (length xs) + 1, loaded_vm code)]"
  obtain env1 where e1: "ebpf_add_prog True True True code (word_of_nat (length code)) env = Inr (next_alloc env, env1)"
      "env_ok ?ys env1" "env_helpers env1 = env_helpers env"
    using add_prog_ok [OF Cons.prems(1), of code] Cons.prems(2) by auto
  obtain as env' where e2: "add_all codes env1 = Inr (as, env')" "length as = length codes" "env_helpers env' = env_helpers env1"
      "env_ok (?ys @ zip as (zip (map (\<lambda>i. int (length ?ys + i)) [1..<Suc (length codes)]) (map loaded_vm codes))) env'"
    using Cons.IH [OF e1(2)] Cons.prems(2) by auto
  have "map (\<lambda>i. int (length xs + i)) [1..<Suc (length (code # codes))] =
      (int (length xs) + 1) # map (\<lambda>i. int (length ?ys + i)) [1..<Suc (length codes)]"
    by (simp add: upt_conv_Cons map_Suc_upt [symmetric] comp_def del: upt_Suc)
  then show ?case using e1(1,3) e2 by (simp del: upt_Suc)
qed

section \<open>Properties\<close>

text \<open>
  After \<open>init_ubpf_env\<close>, adding programs one after the other lists them in that order, numbered from
  1 on, each with a machine that holds its code.
\<close>

theorem added_progs_listed:
  assumes "\<forall>code \<in> set codes. length code < 2 ^ 32"
  shows "\<exists>as env'. add_all codes (init_ubpf_env env) = Inr (as, env') \<and> cur_size env' = int (length codes) \<and>
    walk (Suc (length codes)) (progs env') (prog_list env') = Inr (zip (map int [1..<Suc (length codes)]) (map loaded_vm codes))"
proof -
  have "env_ok [] (init_ubpf_env env)" by (simp add: env_ok_def init_ubpf_env_def)
  from add_all_ok [OF this assms] show ?thesis
    by (auto simp: env_ok_def walk_chain map_snd_zip simp del: upt_Suc)
qed

text \<open>
  Removing a program frees it but leaves it in the list: afterwards following the list to its end
  reads the freed program, and if the program was the last one, adding another writes to it.
\<close>

theorem remove_prog_dangles:
  assumes "\<forall>code \<in> set codes. length code < 2 ^ 32" "g_helepr_func (env_helpers env) = None"
    and "add_all codes (init_ubpf_env env) = Inr (as, env1)" "i < length codes"
  shows "\<exists>env2. ebpf_remove_prog (as ! i) env1 = Inr (0, env2) \<and>
    walk (Suc (length codes)) (progs env2) (prog_list env2) = Inl Use_after_free \<and>
    (Suc i = length codes \<longrightarrow> ebpf_add_prog True True True [] 0 env2 = Inl Use_after_free)"
proof -
  define xs where "xs = zip as (zip (map int [1..<Suc (length codes)]) (map loaded_vm codes))"
  have "env_ok [] (init_ubpf_env env)" by (simp add: env_ok_def init_ubpf_env_def)
  from add_all_ok [OF this assms(1)] assms(3)
  have ok: "env_ok xs env1" "length as = length codes" "env_helpers env1 = env_helpers (init_ubpf_env env)"
    by (auto simp: xs_def)
  have xs: "length xs = length codes" "map fst xs = as" using ok(2) by (simp_all add: xs_def del: upt_Suc)
  then have a: "as ! i \<in> fst ` set xs" using assms(4) ok(2) by (metis list.set_map nth_mem)
  have ch: "chain (progs env1) (prog_list env1) xs" using ok(1) by (simp add: env_ok_def)
  obtain p where p: "progs env1 (as ! i) = Some p" using chain_dom [OF ch a] by auto
  let ?env2 = "env1\<lparr>progs := (progs env1)(as ! i := None)\<rparr>"
  have "ebpf_remove_prog (as ! i) env1 = Inr (0, ?env2)"
    using p assms(2) ok(3) by (simp add: ebpf_remove_prog_def ebpf_vm_destroy_def init_ubpf_env_def)
  moreover have "walk (Suc (length codes)) (progs ?env2) (prog_list ?env2) = Inl Use_after_free"
    using walk_freed [OF ch a] xs(1) by simp
  moreover have "ebpf_add_prog True True True [] 0 ?env2 = Inl Use_after_free" if "Suc i = length codes"
  proof -
    have "xs \<noteq> []" using that xs(1) by auto
    moreover have "length xs - 1 = i" using that xs(1) by simp
    ultimately have "xs \<noteq> []" "fst (last xs) = as ! i"
      using that xs by (auto simp: last_conv_nth)
    moreover have "as ! i \<noteq> next_alloc env1" "prog_list env1 \<noteq> None"
      using ok(1) a \<open>xs \<noteq> []\<close> ch by (auto simp: env_ok_def neq_Nil_conv)
    ultimately show ?thesis
      using ok(1) by (simp add: env_ok_def ebpf_add_prog_def ebpf_create_def ebpf_vm_load_def ebpf_vm_zero_def Let_def)
  qed
  ultimately show ?thesis by blast
qed

section \<open>Instances\<close>

definition env_example :: ebpf_env where
  "env_example = \<lparr>prog_list = None, prog_tail = None, cur_size = 0, progs = Map.empty, next_alloc = 0,
     env_helpers = \<lparr>g_helepr_func = None, helper_objs = Map.empty, helper_next = 0\<rparr>\<rparr>"

theorem added_progs_listed_witness:
  "\<exists>as env'. add_all [replicate 8 0x95, []] (init_ubpf_env env_example) = Inr (as, env') \<and>
     walk 3 (progs env') (prog_list env') = Inr [(1, loaded_vm (replicate 8 0x95)), (2, loaded_vm [])]"
  using added_progs_listed [of "[replicate 8 0x95, []]" env_example] by (auto simp: upt_rec numeral_3_eq_3)

theorem remove_prog_dangles_witness:
  "\<exists>env1 env2. add_all [[]] (init_ubpf_env env_example) = Inr ([0], env1) \<and>
     ebpf_remove_prog 0 env1 = Inr (0, env2) \<and> ebpf_add_prog True True True [] 0 env2 = Inl Use_after_free"
proof -
  have "\<exists>env1. add_all [[]] (init_ubpf_env env_example) = Inr ([0], env1)"
    by (simp add: ebpf_add_prog_def ebpf_create_def ebpf_vm_load_def ebpf_vm_zero_def init_ubpf_env_def env_example_def Let_def)
  then obtain env1 where e: "add_all [[]] (init_ubpf_env env_example) = Inr ([0], env1)" ..
  from remove_prog_dangles [of "[[]]" env_example "[0]" env1 0] e show ?thesis by (auto simp: env_example_def)
qed

end
