(* ===== verification/Channel_Sel.thy ===== *)
theory Channel_Sel
  imports Ll_Parser
begin

text \<open>
  What the connection checks of the firewall protect: the data channel selection of the controller,
  \<^verbatim>\<open>controller/ll_sw/lll_chan.c\<close>, with the channel count of \<^verbatim>\<open>controller/util/util.c\<close> that the slave role
  stores for it and the call in \<^verbatim>\<open>nordic/lll/lll_slave.c\<close>. The channel map has five octets; 37 of its 40
  bits stand for data channels.
\<close>

section \<open>Definitions\<close>

definition util_ones_count_get :: "u8 list \<Rightarrow> u8 \<Rightarrow> u8 cres" where
  "util_ones_count_get octets octets_len = count_octets (unat octets_len) octets 0"

text \<open>
  The loops of \<open>chan_sel_remap\<close>. The counter of the inner one wraps to 255 when it runs to its end
  and stays below 8 when it is left early, which is what the outer one tests.
\<close>

fun remap_bits :: "nat \<Rightarrow> u8 \<Rightarrow> u8 \<Rightarrow> u8 \<Rightarrow> u8 \<times> u8 \<times> u8" where
  "remap_bits 0 bite chan_index chan_next = (255, chan_index, chan_next)"
| "remap_bits (Suc bit_count) bite chan_index chan_next =
     (if bite AND 0x01 \<noteq> 0 then
        (if chan_index = 0 then (word_of_nat bit_count, chan_index, chan_next)
         else remap_bits bit_count (drop_bit 1 bite) (chan_index - 1) (chan_next + 1))
      else remap_bits bit_count (drop_bit 1 bite) chan_index (chan_next + 1))"

fun remap_bytes :: "nat \<Rightarrow> u8 list \<Rightarrow> u8 \<Rightarrow> u8 \<Rightarrow> u8 cres" where
  "remap_bytes 0 chan_map chan_index chan_next = Inr chan_next"
| "remap_bytes (Suc byte_count) [] chan_index chan_next = Inl Oob_read"
| "remap_bytes (Suc byte_count) (bite # chan_map) chan_index chan_next =
     (let (bit_count, chan_index, chan_next) = remap_bits 8 bite chan_index chan_next in
      if bit_count < 8 then Inr chan_next else remap_bytes byte_count chan_map chan_index chan_next)"

definition chan_sel_remap :: "u8 list \<Rightarrow> u8 \<Rightarrow> u8 cres" where
  "chan_sel_remap chan_map chan_index = remap_bytes 5 chan_map chan_index 0"

definition chan_enabled :: "u8 list \<Rightarrow> u8 \<Rightarrow> bool cres" where
  "chan_enabled chan_map chan_next =
     (let i = unat (drop_bit 3 chan_next) in
      if i \<ge> length chan_map then Inl Oob_read
      else Inr ((ucast (chan_map ! i) :: s32) AND push_bit (unat (chan_next mod 8)) 1 \<noteq> 0))"

text \<open>The channel, and the new value of the last unmapped channel. The sum is computed in \<open>int\<close>.\<close>

definition lll_chan_sel_1 :: "u8 \<Rightarrow> u8 \<Rightarrow> u16 \<Rightarrow> u8 list \<Rightarrow> u8 \<Rightarrow> (u8 \<times> u8) cres" where
  "lll_chan_sel_1 chan_use hop latency chan_map chan_count =
     (let chan_next = word_of_int ((uint chan_use + uint hop * (1 + uint latency)) mod 37) in
      c_bind (chan_enabled chan_map chan_next) (\<lambda>enabled.
        if \<not> enabled
        then (if chan_count = 0 then Inl Div_zero
              else c_bind (chan_sel_remap chan_map (chan_next mod chan_count)) (\<lambda>c. Inr (c, chan_next)))
        else Inr (chan_next, chan_next)))"

definition chan_rev_8 :: "u8 \<Rightarrow> u8" where
  "chan_rev_8 b =
     ucast (drop_bit 16 ((((ucast b :: u32) * 0x0802 AND 0x22110) OR ((ucast b :: u32) * 0x8020 AND 0x88440)) * 0x10101))"

definition chan_perm :: "u16 \<Rightarrow> u16" where
  "chan_perm i = push_bit 8 (ucast (chan_rev_8 (ucast (drop_bit 8 i AND 0xFF)))) OR ucast (chan_rev_8 (ucast (i AND 0xFF)))"

definition chan_mam :: "u16 \<Rightarrow> u16 \<Rightarrow> u16" where
  "chan_mam a b = ucast (((ucast a :: u32) * 17 + ucast b) AND 0xFFFF)"

definition chan_prn :: "u16 \<Rightarrow> u16 \<Rightarrow> u16" where
  "chan_prn counter chan_id =
     (let prn_e = counter XOR chan_id;
          prn_e = ((\<lambda>prn_e. chan_mam (chan_perm prn_e) chan_id) ^^ 3) prn_e
      in prn_e XOR chan_id)"

definition lll_chan_sel_2 :: "u16 \<Rightarrow> u16 \<Rightarrow> u8 list \<Rightarrow> u8 \<Rightarrow> u8 cres" where
  "lll_chan_sel_2 counter chan_id chan_map chan_count =
     (let prn_e = chan_prn counter chan_id;
          chan_next = ucast (prn_e mod 37) in
      c_bind (chan_enabled chan_map chan_next) (\<lambda>enabled.
        if \<not> enabled
        then chan_sel_remap chan_map (ucast (drop_bit 16 ((ucast chan_count :: u32) * ucast prn_e)))
        else Inr chan_next))"

text \<open>The choice of the channel of a connection event in the slave role.\<close>

definition slave_chan_use ::
  "bool \<Rightarrow> u16 \<Rightarrow> u16 \<Rightarrow> u8 \<Rightarrow> u8 \<Rightarrow> u16 \<Rightarrow> u8 list \<Rightarrow> u8 \<Rightarrow> (u8 \<times> u8) cres" where
  "slave_chan_use chan_sel event_counter chan_id chan_use hop latency_event chan_map chan_count =
     (if chan_sel
      then c_bind (lll_chan_sel_2 (event_counter - 1) chan_id chan_map chan_count) (\<lambda>c. Inr (c, chan_use))
      else lll_chan_sel_1 chan_use hop latency_event chan_map chan_count)"

section \<open>Remapping selects an enabled channel\<close>

text \<open>The enabled channels of a map, in order.\<close>

fun channels_of :: "u8 list \<Rightarrow> nat list" where
  "channels_of [] = []"
| "channels_of (b # m) = filter (bit b) [0..<8] @ map (\<lambda>i. i + 8) (channels_of m)"

lemma length_channels_of: "length (channels_of m) = channels_used m"
  by (induction m) (simp_all add: channels_used_def bits_set_def)

lemma set_channels_of: "i \<in> set (channels_of m) \<longleftrightarrow> i < 8 * length m \<and> bit (m ! (i div 8)) (i mod 8)"
proof (induction m arbitrary: i)
  case (Cons b m)
  show ?case
  proof (cases "i < 8")
    case False
    then obtain j where "i = j + 8" by (metis add.commute le_Suc_ex linorder_not_less)
    moreover have "(j + 8) div 8 = Suc (j div 8)" by simp
    ultimately show ?thesis using Cons.IH [of j] by auto
  qed auto
qed simp

lemma remap_bits_filter:
  "n \<le> 8 \<Longrightarrow> remap_bits n b ci cn =
     (let ps = filter (bit b) [0..<n] in
      if unat ci < length ps
      then (word_of_nat (n - 1 - ps ! unat ci), 0, cn + word_of_nat (ps ! unat ci))
      else (255, ci - word_of_nat (length ps), cn + word_of_nat n))"
proof (induction n arbitrary: b ci cn)
  case (Suc n)
  let ?b = "drop_bit 1 b"
  have ps: "filter (bit b) [0..<Suc n] = (if bit b 0 then [0] else []) @ map Suc (filter (bit ?b) [0..<n])"
    by (simp add: upt_conv_Cons map_Suc_upt [symmetric] filter_map comp_def bit_drop_bit_eq del: upt_Suc)
  have odd: "b AND 1 \<noteq> 0 \<longleftrightarrow> bit b 0" by (simp add: and_one_eq odd_iff_mod_2_eq_one bit_0)
  show ?case
  proof (cases "bit b 0 \<and> ci = 0")
    case True
    then show ?thesis using odd by (simp add: ps del: upt_Suc)
  next
    case False
    have pos: "unat ci = Suc (unat (ci - 1))" if "ci \<noteq> 0"
      using that unat_minus_one [OF that] by (simp add: unat_gt_0)
    show ?thesis
      using Suc.prems Suc.IH [of ?b] False odd pos by (auto simp: ps Let_def simp del: upt_Suc)
  qed
qed simp

lemma remap_bytes_channels:
  "n \<le> length m \<Longrightarrow> remap_bytes n m ci cn =
     Inr (cn + word_of_nat (let cs = channels_of (take n m) in if unat ci < length cs then cs ! unat ci else 8 * n))"
proof (induction n m ci cn rule: remap_bytes.induct)
  case (3 n b m ci cn)
  let ?ps = "filter (bit b) [0..<8]"
  show ?case
  proof (cases "unat ci < length ?ps")
    case True
    then have "?ps ! unat ci < 8" using nth_mem [of "unat ci" ?ps] by auto
    then have "unat (word_of_nat (7 - ?ps ! unat ci) :: u8) = 7 - ?ps ! unat ci"
      by (simp add: unsigned_of_nat take_bit_eq_mod del: of_nat_diff)
    then have "word_of_nat (7 - ?ps ! unat ci) < (8 :: u8)"
      by (simp add: word_less_nat_alt del: of_nat_diff)
    then show ?thesis using True by (simp add: remap_bits_filter Let_def nth_append)
  next
    case False
    have le: "length ?ps \<le> 8" using length_filter_le [of "bit b" "[0..<8]"] by simp
    then have "(word_of_nat (length ?ps) :: u8) \<le> ci" "unat (word_of_nat (length ?ps) :: u8) = length ?ps"
      using False by (simp_all add: word_le_nat_alt unsigned_of_nat take_bit_eq_mod)
    then have "unat (ci - word_of_nat (length ?ps)) = unat ci - length ?ps" by (simp add: unat_sub)
    then show ?thesis
      using False 3 by (auto simp: remap_bits_filter Let_def nth_append)
  qed
qed simp_all

lemma chan_sel_remap_channels:
  "5 \<le> length m \<Longrightarrow> chan_sel_remap m ci =
     Inr (word_of_nat (let cs = channels_of (take 5 m) in if unat ci < length cs then cs ! unat ci else 40))"
  by (simp add: chan_sel_remap_def remap_bytes_channels Let_def)

lemma chan_enabled_bit:
  assumes "unat c < 40" "5 \<le> length m"
  shows "chan_enabled m c = Inr (unat c \<in> set (channels_of (take 5 m)))"
proof -
  have "unat (drop_bit 3 c) = unat c div 8" "unat (c mod 8) = unat c mod 8"
    by (simp_all add: drop_bit_eq_div unat_div unat_mod)
  moreover have "(ucast w :: s32) AND push_bit k 1 \<noteq> 0 \<longleftrightarrow> bit w k" if "k < 8" for w :: u8 and k
    using that bit_iff_and_push_bit_not_eq_0 [of "ucast w :: s32" k] by (simp add: bit_ucast_iff)
  moreover have "unat c div 8 < 5" using assms(1) by (intro div_less_iff_less_mult [THEN iffD2]) simp_all
  ultimately show ?thesis
    using assms by (simp add: chan_enabled_def set_channels_of Let_def)
qed

section \<open>Selection\<close>

lemma channel_word:
  assumes "c \<in> set (channels_of (take 5 m))"
  shows "unat (word_of_nat c :: u8) = c"
proof -
  have "c < 40" using assms by (auto simp: set_channels_of)
  then show ?thesis by (simp add: unsigned_of_nat take_bit_eq_mod)
qed

text \<open>Both algorithms start from a channel below 37 and remap with an index below the count.\<close>

lemma remap_enabled:
  assumes "5 \<le> length m" "unat i < length (channels_of (take 5 m))"
  shows "\<exists>c. chan_sel_remap m i = Inr c \<and> unat c \<in> set (channels_of (take 5 m))"
  using assms nth_mem [OF assms(2)] channel_word [of "channels_of (take 5 m) ! unat i" m]
  by (simp add: chan_sel_remap_channels)

lemma sel_1_start: "unat (word_of_int ((uint u + uint h * (1 + uint l)) mod 37) :: u8) < 37"
proof -
  have "(uint u + uint h * (1 + uint l)) mod 37 < 37" "0 \<le> (uint u + uint h * (1 + uint l)) mod 37" by simp_all
  then show ?thesis by (simp add: unat_eq_nat_uint uint_word_of_int nat_less_iff)
qed

lemma sel_1_enabled:
  assumes "5 \<le> length m" "unat n = length (channels_of (take 5 m))" "n \<noteq> 0"
  shows "\<exists>c u'. lll_chan_sel_1 u h l m n = Inr (c, u') \<and> unat c \<in> set (channels_of (take 5 m))"
proof -
  let ?c = "word_of_int ((uint u + uint h * (1 + uint l)) mod 37) :: u8"
  have c: "unat ?c < 40" using sel_1_start [of u h l] by simp
  have "unat (?c mod n) < unat n" using assms(3) by (simp add: unat_mod unat_gt_0)
  then show ?thesis
    using remap_enabled [OF assms(1), of "?c mod n"] chan_enabled_bit [OF c assms(1)] assms(2,3)
    by (auto simp: lll_chan_sel_1_def Let_def)
qed

lemma sel_2_index:
  fixes n :: u8 and p :: u16
  assumes "n \<noteq> 0"
  shows "unat (ucast (drop_bit 16 ((ucast n :: u32) * ucast p)) :: u8) < unat n"
proof -
  have n: "0 < unat n" "unat n < 2 ^ 8" and p: "unat p < 2 ^ 16"
    using assms unsigned_less [of n] unsigned_less [of p] by (simp_all add: unat_gt_0)
  have "unat n * unat p < 2 ^ 8 * 2 ^ 16"
    using n(2) p by (intro mult_strict_mono) simp_all
  then have "unat ((ucast n :: u32) * ucast p) = unat n * unat p"
    using n(2) p by (simp add: unat_word_ariths unsigned_ucast_eq take_bit_eq_mod)
  moreover have "unat n * unat p div 2 ^ 16 < unat n"
    using n(1) p by (simp add: div_less_iff_less_mult)
  ultimately show ?thesis
    using n by (simp add: unsigned_ucast_eq drop_bit_eq_div unat_div take_bit_eq_mod)
qed

lemma sel_2_enabled:
  assumes "5 \<le> length m" "unat n = length (channels_of (take 5 m))" "n \<noteq> 0"
  shows "\<exists>c. lll_chan_sel_2 ctr i m n = Inr c \<and> unat c \<in> set (channels_of (take 5 m))"
proof -
  let ?c = "ucast (chan_prn ctr i mod 37) :: u8"
  have "unat (chan_prn ctr i mod 37) < 37" by (simp add: unat_mod)
  then have c: "unat ?c < 40" by (simp add: unsigned_ucast_eq take_bit_eq_mod)
  show ?thesis
    using remap_enabled [OF assms(1)] sel_2_index [OF assms(3), of "chan_prn ctr i"] chan_enabled_bit [OF c assms(1)] assms(2)
    by (auto simp: lll_chan_sel_2_def Let_def)
qed

text \<open>The reversal of a byte by multiplication.\<close>

definition rev_bits :: "u8 \<Rightarrow> u8" where
  "rev_bits b = horner_sum of_bool 2 (rev (map (bit b) [0..<8]))"

lemma chan_rev_8_table: "list_all (\<lambda>n. chan_rev_8 (word_of_nat n) = rev_bits (word_of_nat n)) [0..<256]"
  unfolding chan_rev_8_def rev_bits_def by code_simp

lemma bit_rev_bits: "bit (rev_bits b) i \<longleftrightarrow> i < 8 \<and> bit b (7 - i)"
proof (cases "i < 8")
  case True
  then show ?thesis by (simp add: rev_bits_def bit_horner_sum_bit_word_iff rev_nth)
next
  case False
  then show ?thesis using bit_imp_le_length [of "rev_bits b" i] by auto
qed

lemma chan_rev_8_bits: "bit (chan_rev_8 b) i \<longleftrightarrow> i < 8 \<and> bit b (7 - i)"
proof -
  have "unat b < 256" using unsigned_less [of b] by simp
  then have "chan_rev_8 b = rev_bits b"
    using chan_rev_8_table by (auto simp: list_all_iff dest: bspec [of _ _ "unat b"])
  then show ?thesis by (simp add: bit_rev_bits)
qed

section \<open>Properties\<close>

text \<open>
  The pseudo-random number of channel selection algorithm 2 as the Bluetooth Core Specification
  defines it: three rounds of a permutation, which reverses the bits of each octet, and of a
  multiplication by 17, an addition and a reduction modulo 2^16.
\<close>

definition perm_ref :: "u16 \<Rightarrow> u16" where
  "perm_ref w = horner_sum of_bool 2 (map (bit w) (rev [0..<8] @ rev [8..<16]))"

definition prn_ref :: "u16 \<Rightarrow> u16 \<Rightarrow> u16" where
  "prn_ref counter chan_id = (((\<lambda>w. 17 * perm_ref w + chan_id) ^^ 3) (counter XOR chan_id)) XOR chan_id"

lemma bit_all_ones: "bit (0xFF :: int) k \<longleftrightarrow> k < 8" "bit (0xFFFF :: int) k \<longleftrightarrow> k < 16"
proof -
  have "(0xFF :: int) = mask 8" "(0xFFFF :: int) = mask 16" by (simp_all add: mask_eq_exp_minus_1)
  then show "bit (0xFF :: int) k \<longleftrightarrow> k < 8" "bit (0xFFFF :: int) k \<longleftrightarrow> k < 16"
    by (auto simp only: bit_mask_iff possible_bit_int)
qed

lemma chan_perm_ref: "chan_perm w = perm_ref w"
proof (rule bit_word_eqI)
  fix i
  assume i: "i < LENGTH(16)"
  have "bit (chan_perm w) i \<longleftrightarrow> bit w (if i < 8 then 7 - i else 23 - i)"
    using i by (auto simp: chan_perm_def bit_simps chan_rev_8_bits bit_all_ones)
  also have "\<dots> \<longleftrightarrow> bit (perm_ref w) i"
    using i by (simp add: perm_ref_def bit_horner_sum_bit_word_iff nth_append rev_nth del: upt_rec_numeral)
  finally show "bit (chan_perm w) i = bit (perm_ref w) i" .
qed

lemma chan_mam_ref: "chan_mam a b = 17 * a + b"
proof -
  have ab: "unat a < 2 ^ 16" "unat b < 2 ^ 16" using unsigned_less [of a] unsigned_less [of b] by simp_all
  have "ucast (x AND 0xFFFF) = (ucast x :: u16)" for x :: u32
    by (auto intro!: bit_word_eqI simp: bit_simps bit_all_ones)
  then have "unat (chan_mam a b) = (unat a * 17 + unat b) mod 2 ^ 16"
    using ab by (simp add: chan_mam_def unsigned_ucast_eq unat_word_ariths take_bit_eq_mod mod_mod_cancel)
  also have "\<dots> = unat (17 * a + b)"
    by (simp add: unat_word_ariths mult.commute mod_simps)
  finally show ?thesis by (simp only: word_unat_eq_iff)
qed

text \<open>
  The controller's pseudo-random number, computed with byte reversals by multiplication and 32-bit
  products, is the one of the specification for every event counter and channel identifier.
\<close>

theorem chan_prn_ref: "chan_prn counter chan_id = prn_ref counter chan_id"
  by (simp add: chan_prn_def prn_ref_def chan_perm_ref chan_mam_ref)

text \<open>The values of the unit test in the source.\<close>

lemma chan_sel_2_vectors:
  "lll_chan_sel_2 1 0x305F [0xFF, 0xFF, 0xFF, 0xFF, 0x1F] 37 = Inr 20"
  "lll_chan_sel_2 2 0x305F [0xFF, 0xFF, 0xFF, 0xFF, 0x1F] 37 = Inr 6"
  "lll_chan_sel_2 3 0x305F [0xFF, 0xFF, 0xFF, 0xFF, 0x1F] 37 = Inr 21"
  "lll_chan_sel_2 6 0x305F [0x00, 0x06, 0xE0, 0x00, 0x1E] 9 = Inr 23"
  "lll_chan_sel_2 7 0x305F [0x00, 0x06, 0xE0, 0x00, 0x1E] 9 = Inr 9"
  "lll_chan_sel_2 8 0x305F [0x00, 0x06, 0xE0, 0x00, 0x1E] 9 = Inr 34"
  by code_simp+

text \<open>The count the controller stores is the number of enabled channels.\<close>

lemma util_ones_count:
  "5 \<le> length m \<Longrightarrow> util_ones_count_get m 5 = Inr (word_of_nat (channels_used (take 5 m)))"
  "unat (word_of_nat (channels_used (take 5 m)) :: u8) = length (channels_of (take 5 m))"
  using channels_used_take [of m]
  by (simp_all add: util_ones_count_get_def count_octets_add length_channels_of unsigned_of_nat take_bit_eq_mod)

lemma slave_chan_enabled:
  assumes "5 \<le> length m" "util_ones_count_get m 5 = Inr n" "channels_used (take 5 m) \<noteq> 0"
  shows "\<exists>c u'. slave_chan_use sel ctr i u h l m n = Inr (c, u') \<and> unat c \<in> set (channels_of (take 5 m))"
proof -
  have n: "unat n = length (channels_of (take 5 m))" "n \<noteq> 0"
    using util_ones_count [of m] assms length_channels_of [of "take 5 m"] by auto
  show ?thesis
    using sel_1_enabled [OF assms(1) n, of u h l] sel_2_enabled [OF assms(1) n, of "ctr - 1" i]
    by (auto simp: slave_chan_use_def)
qed

text \<open>
  C38: what goes wrong without the channel map check, and what it leaves open. With no channel enabled,
  the first algorithm divides by zero in every event and the second returns channel 40. With
  channels enabled, but only beyond the 37 data channels, both algorithms return such a channel in
  every event.
\<close>

theorem bad_channel_maps:
  assumes "5 \<le> length m" "util_ones_count_get m 5 = Inr n"
  shows "(channels_used (take 5 m) = 0 \<longrightarrow>
      lll_chan_sel_1 u h l m n = Inl Div_zero \<and> lll_chan_sel_2 ctr i m n = Inr 40) \<and>
    (channels_used (take 5 m) \<noteq> 0 \<and> (\<forall>c < 37. \<not> bit (m ! (c div 8)) (c mod 8)) \<longrightarrow>
      (\<exists>c u'. slave_chan_use sel ctr i u h l m n = Inr (c, u') \<and> 37 \<le> unat c))"
proof (intro conjI impI)
  have n: "unat n = length (channels_of (take 5 m))"
    using util_ones_count [of m] assms by auto
  assume none: "channels_used (take 5 m) = 0"
  then have z: "channels_of (take 5 m) = []" "n = 0"
    using n length_channels_of [of "take 5 m"] by (simp_all add: unat_eq_zero)
  have "unat (chan_prn ctr i mod 37) < 37" by (simp add: unat_mod)
  then have c2: "unat (ucast (chan_prn ctr i mod 37) :: u8) < 40" by (simp add: unsigned_ucast_eq take_bit_eq_mod)
  have c1: "unat (word_of_int ((uint u + uint h * (1 + uint l)) mod 37) :: u8) < 40" using sel_1_start [of u h l] by simp
  show "lll_chan_sel_1 u h l m n = Inl Div_zero" "lll_chan_sel_2 ctr i m n = Inr 40"
    using z chan_enabled_bit [OF c1 assms(1)] chan_enabled_bit [OF c2 assms(1)] chan_sel_remap_channels [OF assms(1)]
    by (simp_all add: lll_chan_sel_1_def lll_chan_sel_2_def Let_def)
next
  assume "channels_used (take 5 m) \<noteq> 0 \<and> (\<forall>c < 37. \<not> bit (m ! (c div 8)) (c mod 8))"
  then obtain c u' where "slave_chan_use sel ctr i u h l m n = Inr (c, u')" "unat c \<in> set (channels_of (take 5 m))"
      "\<forall>c < 37. \<not> bit (m ! (c div 8)) (c mod 8)"
    using slave_chan_enabled [OF assms] by blast
  then show "\<exists>c u'. slave_chan_use sel ctr i u h l m n = Inr (c, u') \<and> 37 \<le> unat c"
    using assms(1) by (auto simp: set_channels_of not_less [symmetric])
qed

theorem bad_channel_maps_witness:
  "lll_chan_sel_1 3 7 0 [0, 0, 0, 0, 0] 0 = Inl Div_zero \<and>
   (\<exists>c u'. slave_chan_use False 1 0 3 7 0 [0, 0, 0, 0, 0xE0] 3 = Inr (c, u') \<and> 37 \<le> unat c) \<and>
   2 \<le> channels_used [0, 0, 0, 0, 0xE0]"
proof -
  have used: "channels_used [0, 0, 0, 0, 0] = 0" "channels_used [0, 0, 0, 0, 0xE0] = 3"
    by (simp_all add: channels_used_def bits_set_def upt_rec)
  have count: "util_ones_count_get [0, 0, 0, 0, 0] 5 = Inr 0" "util_ones_count_get [0, 0, 0, 0, 0xE0] 5 = Inr 3"
    using util_ones_count(1) [of "[0, 0, 0, 0, 0]"] util_ones_count(1) [of "[0, 0, 0, 0, 0xE0]"] used by simp_all
  have none: "\<not> bit ([0, 0, 0, 0, 0xE0 :: u8] ! (c div 8)) (c mod 8)" if "c < 37" for c :: nat
  proof -
    have "\<forall>c \<in> set [0..<37]. \<not> bit ([0, 0, 0, 0, 0xE0 :: u8] ! (c div 8)) (c mod 8)" by code_simp
    then show ?thesis using that by simp
  qed
  show ?thesis
    using bad_channel_maps [OF _ count(1), of 3 7 0] bad_channel_maps [OF _ count(2), of 3 7 0 1 0 False] used none
    by simp
qed

end
