(* ===== verification/Slave_Setup.thy ===== *)
theory Slave_Setup
  imports Channel_Sel
begin

text \<open>
  What the controller does with a connection request the firewall lets pass: the set-up of the slave
  role (in \<open>ull_slave_setup\<close> of \<^verbatim>\<open>controller/ll_sw/ull_slave.c\<close>, the parameters of the connection and the
  choice of the channel selection algorithm; not the notification of the host and the scheduling), the channel of each connection event (\<open>prepare_cb\<close> in \<^verbatim>\<open>nordic/lll/lll_slave.c\<close>), and the
  timeouts that end a connection (the part of \<open>ull_conn_done\<close> in \<^verbatim>\<open>controller/ll_sw/ull_conn.c\<close> from the
  elapsed events to the procedure timeout, for the slave role, with no control procedure under way). The accuracy of the local clock is a
  build option and so a parameter.
\<close>

section \<open>Set-up\<close>

definition sca_ppm_lut :: "u16 list" where
  "sca_ppm_lut = [500, 250, 150, 100, 75, 50, 30, 20]"

definition lll_conn_ppm_get :: "u8 \<Rightarrow> u32 cres" where
  "lll_conn_ppm_get sca = c_bind (c_array_get sca_ppm_lut (unat sca)) (\<lambda>p. Inr (ucast p))"

abbreviation (input) EVENT_IFS_US :: u32 where "EVENT_IFS_US \<equiv> 150"

text \<open>The number of connection events a time takes, rounded up and cut to sixteen bits.\<close>

definition RADIO_CONN_EVENTS :: "u32 \<Rightarrow> u32 \<Rightarrow> u16 cres" where
  "RADIO_CONN_EVENTS x y = (if y = 0 then Inl Div_zero else Inr (ucast ((x + y - 1) div y)))"

definition ci_win_size :: "u8 list \<Rightarrow> u8 cres" where "ci_win_size pdu = read8 pdu 21"
definition ci_latency :: "u8 list \<Rightarrow> u16 cres" where "ci_latency pdu = read_le16 pdu 26"
definition ci_timeout :: "u8 list \<Rightarrow> u16 cres" where "ci_timeout pdu = read_le16 pdu 28"
definition ci_sca :: "u8 list \<Rightarrow> 3 word cres" where
  "ci_sca pdu = c_bind (read8 pdu 35) (\<lambda>b. Inr (ucast (drop_bit 5 b)))"
definition pdu_chan_sel :: "u8 list \<Rightarrow> 1 word cres" where
  "pdu_chan_sel pdu = c_bind (read8 pdu 0) (\<lambda>b. Inr (ucast (drop_bit 5 b)))"

text \<open>
  The other fields of \<open>struct lll_conn\<close> and \<open>struct ll_conn\<close> the set-up writes. The identifier of the second
  channel selection algorithm shares its two bytes with the hop increment and the last channel of
  the first.
\<close>

record slave_conn = lll_conn +
  data_chan_sel :: bool
  data_chan_use :: u8
  conn_latency :: u16
  slave_sca :: "3 word"
  window_widening_periodic_us :: u32
  window_widening_max_us :: u32
  window_size_event_us :: u32
  supervision_reload :: u16
  procedure_reload :: u16
  apto_reload :: u16
  appto_reload :: u16
  slave_force :: u32

definition data_chan_id :: "slave_conn \<Rightarrow> u16" where
  "data_chan_id conn = push_bit 8 (ucast (data_chan_use conn)) OR ucast (data_chan_hop conn)"

text \<open>The channel parameters, the timing parameters, and the channel selection algorithm.\<close>

definition setup_channels :: "u8 list \<Rightarrow> slave_conn \<Rightarrow> slave_conn cres" where
  "setup_channels pdu conn =
     c_bind (ci_crc_init pdu) (\<lambda>crc.
     c_bind (ci_access_addr pdu) (\<lambda>aa.
     c_bind (ci_chan_map pdu) (\<lambda>chan_map.
     c_bind (util_ones_count_get chan_map 5) (\<lambda>count.
     c_bind (ci_hop pdu) (\<lambda>hop.
     Inr (conn\<lparr>crc_init := crc, access_addr := aa, data_chan_map := chan_map,
               data_chan_count := ucast count, data_chan_hop := ucast hop\<rparr>))))))"

definition setup_window :: "u8 \<Rightarrow> u32 \<Rightarrow> u8 list \<Rightarrow> slave_conn \<Rightarrow> slave_conn cres" where
  "setup_window local_sca conn_interval_us pdu conn =
     c_bind (ci_sca pdu) (\<lambda>sca.
     c_bind (lll_conn_ppm_get local_sca) (\<lambda>ppm_local.
     c_bind (lll_conn_ppm_get (ucast sca)) (\<lambda>ppm_peer.
     c_bind (ci_win_size pdu) (\<lambda>win_size.
     Inr (conn\<lparr>slave_sca := sca,
          window_widening_periodic_us :=
            ((ppm_local + ppm_peer) * conn_interval_us + (1000000 - 1)) div 1000000,
          window_widening_max_us := drop_bit 1 conn_interval_us - EVENT_IFS_US,
          window_size_event_us := ucast win_size * 1250\<rparr>)))))"

definition setup_timeouts :: "u32 \<Rightarrow> u8 list \<Rightarrow> slave_conn \<Rightarrow> slave_conn cres" where
  "setup_timeouts conn_interval_us pdu conn =
     c_bind (ci_timeout pdu) (\<lambda>timeout.
     c_bind (RADIO_CONN_EVENTS (ucast timeout * 10 * 1000) conn_interval_us) (\<lambda>supervision.
     c_bind (RADIO_CONN_EVENTS (40 * 1000 * 1000) conn_interval_us) (\<lambda>procedure.
     c_bind (RADIO_CONN_EVENTS (30 * 1000 * 1000) conn_interval_us) (\<lambda>apto.
     Inr (conn\<lparr>supervision_reload := supervision, procedure_reload := procedure, apto_reload := apto,
          appto_reload :=
            (if uint apto > uint (conn_latency conn) + 6
             then word_of_int (uint apto - (uint (conn_latency conn) + 6)) else apto)\<rparr>)))))"

definition setup_chan_sel :: "u8 list \<Rightarrow> slave_conn \<Rightarrow> slave_conn cres" where
  "setup_chan_sel pdu conn =
     c_bind (pdu_chan_sel pdu) (\<lambda>chan_sel.
     if chan_sel = 0 then Inr conn
     else
       (let aa = access_addr conn;
            aa_ls = push_bit 8 (ucast (aa ! 1)) OR ucast (aa ! 0);
            aa_ms = push_bit 8 (ucast (aa ! 3)) OR ucast (aa ! 2);
            chan_id = aa_ms XOR aa_ls :: u16
        in Inr (conn\<lparr>data_chan_sel := True, data_chan_hop := ucast chan_id,
                     data_chan_use := ucast (drop_bit 8 chan_id)\<rparr>)))"

definition slave_setup :: "u8 \<Rightarrow> u8 list \<Rightarrow> slave_conn \<Rightarrow> slave_conn cres" where
  "slave_setup local_sca pdu conn =
     c_bind (setup_channels pdu conn) (\<lambda>conn.
     c_bind (ci_interval pdu) (\<lambda>iv.
     c_bind (ci_latency pdu) (\<lambda>latency.
     let conn = conn\<lparr>interval := iv, conn_latency := latency\<rparr>;
         conn_interval_us = ucast iv * 1250 :: u32
     in c_bind (setup_window local_sca conn_interval_us pdu conn) (\<lambda>conn.
        c_bind (setup_timeouts conn_interval_us pdu conn) (\<lambda>conn.
        setup_chan_sel pdu (conn\<lparr>slave_force := ucast (le_join (access_addr conn))\<rparr>))))))"

section \<open>Connection events\<close>

text \<open>The channel of an event, from the event counter and the events skipped before it.\<close>

definition slave_event :: "u16 \<times> u16 \<Rightarrow> slave_conn \<Rightarrow> (u8 \<times> slave_conn) cres" where
  "slave_event ev conn =
     c_bind (slave_chan_use (data_chan_sel conn) (fst ev) (data_chan_id conn) (data_chan_use conn)
               (data_chan_hop conn) (snd ev) (data_chan_map conn) (ucast (data_chan_count conn)))
       (\<lambda>(c, u). Inr (c, conn\<lparr>data_chan_use := u\<rparr>))"

fun slave_hops :: "(u16 \<times> u16) list \<Rightarrow> slave_conn \<Rightarrow> u8 list cres" where
  "slave_hops [] conn = Inr []"
| "slave_hops (ev # evs) conn =
     c_bind (slave_event ev conn) (\<lambda>(c, conn). c_bind (slave_hops evs conn) (\<lambda>cs. Inr (c # cs)))"

text \<open>
  The end of an event: what the radio reports, whether data waits to be sent, whether the peripheral
  may skip events, and the events skipped before this one, which \<open>prepare_cb\<close> has stored in
  \<open>latency_event\<close>.
\<close>

record conn_done =
  trx_cnt :: u16
  crc_valid :: bool
  tx_waiting :: bool
  latency_enabled :: bool
  latency_prepare :: u16

record conn_timers =
  connect_expire :: u16
  supervision_expire :: u16
  procedure_expire :: u16
  latency_event :: u16
  force_bits :: u32

datatype conn_outcome = Closed u8 | Open bool conn_timers

abbreviation (input) BT_HCI_ERR_CONN_TIMEOUT :: u8 where "BT_HCI_ERR_CONN_TIMEOUT \<equiv> 0x08"
abbreviation (input) BT_HCI_ERR_LL_RESP_TIMEOUT :: u8 where "BT_HCI_ERR_LL_RESP_TIMEOUT \<equiv> 0x22"
abbreviation (input) BT_HCI_ERR_CONN_FAIL_TO_ESTAB :: u8 where "BT_HCI_ERR_CONN_FAIL_TO_ESTAB \<equiv> 0x3e"

definition check_established :: "conn_done \<Rightarrow> u16 \<Rightarrow> u16 \<Rightarrow> conn_timers \<Rightarrow> conn_timers option" where
  "check_established ev elapsed reload t =
     (if crc_valid ev then Some (t\<lparr>supervision_expire := 0\<rparr>)
      else if connect_expire t \<noteq> 0 then
        (if connect_expire t > elapsed then Some (t\<lparr>connect_expire := connect_expire t - elapsed\<rparr>) else None)
      else if supervision_expire t = 0 then Some (t\<lparr>supervision_expire := reload\<rparr>)
      else Some t)"

definition check_supervision :: "u16 \<Rightarrow> u16 \<Rightarrow> conn_timers \<Rightarrow> (bool \<times> conn_timers) option" where
  "check_supervision latency elapsed t =
     (if supervision_expire t \<noteq> 0 then
        (if supervision_expire t > elapsed then
           (let t = t\<lparr>supervision_expire := supervision_expire t - elapsed, latency_event := 0\<rparr> in
            if supervision_expire t \<le> 6 then Some (True, t)
            else if latency \<noteq> 0 then Some (True, t)
            else
              (let force = (force_bits t AND 1 \<noteq> 0);
                   bits = drop_bit 1 (force_bits t)
               in Some (force, t\<lparr>force_bits := (if force then bits OR push_bit 31 1 else bits)\<rparr>)))
         else None)
      else Some (False, t))"

definition check_procedure :: "u16 \<Rightarrow> conn_timers \<Rightarrow> conn_timers option" where
  "check_procedure elapsed t =
     (if procedure_expire t \<noteq> 0 then
        (if procedure_expire t > elapsed then Some (t\<lparr>procedure_expire := procedure_expire t - elapsed\<rparr>) else None)
      else Some t)"

definition conn_done_timeouts :: "slave_conn \<Rightarrow> conn_done \<Rightarrow> conn_timers \<Rightarrow> conn_outcome" where
  "conn_done_timeouts conn ev t =
     (let latency = latency_event t;
          elapsed = latency + 1;
          t = (if trx_cnt ev \<noteq> 0
               then t\<lparr>latency_event := (if tx_waiting ev then 0
                                        else if latency_enabled ev then conn_latency conn else latency_event t),
                      connect_expire := 0\<rparr>
               else t)
      in case check_established ev elapsed (supervision_reload conn) t of
           None \<Rightarrow> Closed BT_HCI_ERR_CONN_FAIL_TO_ESTAB
         | Some t \<Rightarrow>
             (case check_supervision latency elapsed t of
                None \<Rightarrow> Closed BT_HCI_ERR_CONN_TIMEOUT
              | Some (force, t) \<Rightarrow>
                  (case check_procedure elapsed t of
                     None \<Rightarrow> Closed BT_HCI_ERR_LL_RESP_TIMEOUT
                   | Some t \<Rightarrow> Open force t)))"

text \<open>A connection over its events; \<open>prepare_cb\<close> stores the skipped events before each.\<close>

fun conn_run :: "slave_conn \<Rightarrow> conn_done list \<Rightarrow> bool \<Rightarrow> conn_timers \<Rightarrow> conn_outcome" where
  "conn_run conn [] force t = Open force t"
| "conn_run conn (ev # evs) force t =
     (case conn_done_timeouts conn ev (t\<lparr>latency_event := latency_prepare ev\<rparr>) of
        Closed reason \<Rightarrow> Closed reason
      | Open force t \<Rightarrow> conn_run conn evs force t)"

text \<open>The timers as the advertiser leaves them for a new connection.\<close>

definition new_timers :: "slave_conn \<Rightarrow> conn_timers" where
  "new_timers conn =
     \<lparr>connect_expire = 6, supervision_expire = 0, procedure_expire = 0, latency_event = 0,
      force_bits = slave_force conn\<rparr>"

section \<open>Accepted requests are set up\<close>

lemma reads_defined:
  assumes "36 \<le> length bs"
  shows "\<exists>w. ci_latency bs = Inr w" "\<exists>w. ci_timeout bs = Inr w \<and> unat w = le16_at bs 28"
    "\<exists>w. ci_interval bs = Inr w \<and> unat w = le16_at bs 24" "ci_win_size bs = Inr (bs ! 21)"
    "ci_sca bs = Inr (ucast (drop_bit 5 (bs ! 35)))" "pdu_chan_sel bs = Inr (ucast (drop_bit 5 (bs ! 0)))"
    "ci_access_addr bs = Inr (take 4 (drop 14 bs))" "ci_chan_map bs = Inr (take 5 (drop 30 bs))"
    "ci_hop bs = Inr (ucast (bs ! 35))" "ci_crc_init bs = Inr (take 3 (drop 18 bs))"
  using assms read_le16_ok [of 26 bs] read_le16_ok [of 28 bs] read_le16_ok [of 24 bs]
  by (auto simp: ci_latency_def ci_timeout_def ci_interval_def ci_win_size_def ci_sca_def pdu_chan_sel_def
      ci_access_addr_def ci_chan_map_def ci_hop_def ci_crc_init_def read8_def read_mem_def)

lemma ppm_defined: "unat sca < 8 \<Longrightarrow> \<exists>p. lll_conn_ppm_get sca = Inr p \<and> unat p \<le> 500"
proof -
  assume "unat sca < 8"
  then have i: "unat sca < length sca_ppm_lut" by (simp add: sca_ppm_lut_def)
  have "\<forall>p \<in> set sca_ppm_lut. unat p \<le> 500" by (simp add: sca_ppm_lut_def)
  then have "unat (sca_ppm_lut ! unat sca) \<le> 500" using nth_mem [OF i] by blast
  then show ?thesis using i by (simp add: lll_conn_ppm_get_def c_array_get_def unsigned_ucast_eq take_bit_eq_mod)
qed

lemma peer_sca: "unat (ucast (sca :: 3 word) :: u8) < 8"
proof -
  have "unat sca < 8" using unsigned_less [of sca] by simp
  then show ?thesis by (simp add: unsigned_ucast_eq take_bit_eq_mod)
qed

lemma interval_us:
  fixes iv :: u16
  shows "unat (ucast iv * 1250 :: u32) = unat iv * 1250"
proof -
  have "unat iv < 65536" using unsigned_less [of iv] by simp
  then show ?thesis by (simp add: unat_word_ariths unsigned_ucast_eq take_bit_eq_mod)
qed

lemma ceil_scaled: "(1250 * n + 1250 * i - 1) div (1250 * i) = (n + i - 1) div (i :: nat)" if "i \<noteq> 0"
proof -
  have "(1250 * n + 1250 * i - 1) div 1250 = n + i - 1" using that by simp
  then show ?thesis by (metis div_mult2_eq)
qed

lemma conn_events:
  fixes iv :: u16
  assumes "iv \<noteq> 0" "unat x = 1250 * n" "unat x \<le> 10 ^ 9"
  shows "RADIO_CONN_EVENTS x (ucast iv * 1250) = Inr (word_of_nat ((n + unat iv - 1) div unat iv))"
proof -
  let ?y = "ucast iv * 1250 :: u32"
  have iv: "unat iv \<noteq> 0" "unat iv < 65536" using assms(1) unsigned_less [of iv] by (simp_all add: unat_eq_zero)
  have y: "unat ?y = 1250 * unat iv" "?y \<noteq> 0" using interval_us [of iv] iv(1) by (auto simp: word_unat_eq_iff)
  have "unat (x + ?y) = 1250 * n + 1250 * unat iv"
    using assms(2,3) iv(2) y(1) by (simp add: unat_word_ariths)
  moreover have "unat (x + ?y - 1) = unat (x + ?y) - 1"
    using calculation iv(1) by (intro unat_minus_one) (auto simp: word_unat_eq_iff)
  ultimately have "unat ((x + ?y - 1) div ?y) = (n + unat iv - 1) div unat iv"
    using ceil_scaled [OF iv(1)] y(1) by (simp add: unat_div)
  then show ?thesis using y(2) by (simp add: RADIO_CONN_EVENTS_def word_unat_eq_iff unsigned_ucast_eq unsigned_of_nat)
qed

text \<open>The time a connection may stay silent, in connection events.\<close>

definition supervision_events :: "nat \<Rightarrow> nat \<Rightarrow> nat" where
  "supervision_events timeout iv = (8 * timeout + iv - 1) div iv"

lemma setup_channels_ok:
  assumes "36 \<le> length bs"
  shows "setup_channels bs conn = Inr (conn\<lparr>crc_init := take 3 (drop 18 bs), access_addr := take 4 (drop 14 bs),
    data_chan_map := take 5 (drop 30 bs), data_chan_count := word_of_nat (channels_used (take 5 (drop 30 bs))),
    data_chan_hop := bs ! 35 AND 31\<rparr>)"
proof -
  have "ucast (ucast (bs ! 35) :: 5 word) = bs ! 35 AND 31"
    by (simp add: word_unat_eq_iff unsigned_ucast_eq unsigned_and_eq take_bit_eq_mask mask_eq_exp_minus_1 ac_simps)
  moreover have "ucast (word_of_nat n :: u8) = (word_of_nat n :: 6 word)" for n
    by (simp add: word_unat_eq_iff unsigned_ucast_eq unsigned_of_nat)
  ultimately show ?thesis
    using assms util_ones_count(1) [of "take 5 (drop 30 bs)"] by (simp add: setup_channels_def reads_defined)
qed

lemma setup_window_ok:
  assumes "36 \<le> length bs" "unat local_sca < 8"
  shows "\<exists>pl pp. unat pl \<le> 500 \<and> unat pp \<le> 500 \<and> lll_conn_ppm_get local_sca = Inr pl \<and>
    lll_conn_ppm_get (drop_bit 5 (bs ! 35)) = Inr pp \<and>
    setup_window local_sca us bs conn = Inr (conn\<lparr>slave_sca := ucast (drop_bit 5 (bs ! 35)),
      window_widening_periodic_us := ((pl + pp) * us + 999999) div 1000000,
      window_widening_max_us := drop_bit 1 us - EVENT_IFS_US,
      window_size_event_us := ucast (bs ! 21) * 1250\<rparr>)"
proof -
  have sca: "ucast (ucast (drop_bit 5 b) :: 3 word) = drop_bit 5 b" for b :: u8
    by (rule bit_word_eqI) (auto simp: bit_simps dest: bit_imp_le_length)
  obtain pl pp where "lll_conn_ppm_get local_sca = Inr pl" "unat pl \<le> 500"
      "lll_conn_ppm_get (ucast (ucast (drop_bit 5 (bs ! 35)) :: 3 word)) = Inr pp" "unat pp \<le> 500"
    using ppm_defined [OF assms(2)] ppm_defined [OF peer_sca] by blast
  then show ?thesis using assms(1) by (auto simp: setup_window_def reads_defined sca)
qed

lemma setup_timeouts_ok:
  assumes "36 \<le> length bs" "iv \<noteq> 0"
  shows "\<exists>p a q. setup_timeouts (ucast (iv :: u16) * 1250) bs conn = Inr (conn\<lparr>
     supervision_reload := word_of_nat (supervision_events (le16_at bs 28) (unat iv)),
     procedure_reload := p, apto_reload := a, appto_reload := q\<rparr>)"
proof -
  obtain t where t: "ci_timeout bs = Inr t" "unat t = le16_at bs 28" using reads_defined [OF assms(1)] by blast
  have "unat t < 65536" using unsigned_less [of t] by simp
  then have x: "unat (ucast t * 10 * 1000 :: u32) = 1250 * (8 * unat t)" "unat (ucast t * 10 * 1000 :: u32) \<le> 10 ^ 9"
    by (simp_all add: unat_word_ariths unsigned_ucast_eq take_bit_eq_mod)
  have "unat (40 * 1000 * 1000 :: u32) = 1250 * 32000" "unat (30 * 1000 * 1000 :: u32) = 1250 * 24000" by simp_all
  then obtain p a where "RADIO_CONN_EVENTS (40 * 1000 * 1000) (ucast iv * 1250) = Inr p"
      "RADIO_CONN_EVENTS (30 * 1000 * 1000) (ucast iv * 1250) = Inr a"
    using conn_events [OF assms(2), of "40 * 1000 * 1000" 32000] conn_events [OF assms(2), of "30 * 1000 * 1000" 24000]
    by auto
  then show ?thesis
    using conn_events [OF assms(2) x] t by (simp add: setup_timeouts_def supervision_events_def) blast
qed

lemma setup_chan_sel_ok:
  assumes "36 \<le> length bs"
  shows "\<exists>sel h u. setup_chan_sel bs conn = Inr (conn\<lparr>data_chan_sel := sel, data_chan_hop := h, data_chan_use := u\<rparr>)"
proof (cases "(ucast (drop_bit 5 (bs ! 0)) :: 1 word) = 0")
  case True
  then have "setup_chan_sel bs conn = Inr (conn\<lparr>data_chan_sel := data_chan_sel conn,
      data_chan_hop := data_chan_hop conn, data_chan_use := data_chan_use conn\<rparr>)"
    using assms by (simp add: setup_chan_sel_def reads_defined)
  then show ?thesis by blast
next
  case False
  then show ?thesis using assms by (simp add: setup_chan_sel_def reads_defined Let_def) blast
qed

lemma setup_ok:
  assumes "36 \<le> length bs" "unat local_sca < 8" "le16_at bs 24 \<noteq> 0"
  shows "\<exists>conn' iv pl pp. slave_setup local_sca bs conn = Inr conn' \<and>
    unat iv = le16_at bs 24 \<and> unat pl \<le> 500 \<and> unat pp \<le> 500 \<and>
    lll_conn_ppm_get local_sca = Inr pl \<and> lll_conn_ppm_get (drop_bit 5 (bs ! 35)) = Inr pp \<and>
    data_chan_map conn' = take 5 (drop 30 bs) \<and>
    data_chan_count conn' = word_of_nat (channels_used (take 5 (drop 30 bs))) \<and>
    supervision_reload conn' = word_of_nat (supervision_events (le16_at bs 28) (le16_at bs 24)) \<and>
    window_widening_periodic_us conn' = ((pl + pp) * (ucast (iv :: u16) * 1250) + 999999) div 1000000 \<and>
    window_widening_max_us conn' = drop_bit 1 (ucast iv * 1250) - EVENT_IFS_US \<and> interval conn' = iv"
proof -
  obtain iv latency where iv: "ci_interval bs = Inr iv" "unat iv = le16_at bs 24" "ci_latency bs = Inr latency"
    using reads_defined [OF assms(1)] by blast
  then have "iv \<noteq> 0" using assms(3) by auto
  define c1 where "c1 = (conn\<lparr>crc_init := take 3 (drop 18 bs), access_addr := take 4 (drop 14 bs),
    data_chan_map := take 5 (drop 30 bs), data_chan_count := word_of_nat (channels_used (take 5 (drop 30 bs))),
    data_chan_hop := bs ! 35 AND 31, interval := iv, conn_latency := latency\<rparr>)"
  obtain pl pp c2 where w: "unat pl \<le> 500" "unat pp \<le> 500" "lll_conn_ppm_get local_sca = Inr pl"
      "lll_conn_ppm_get (drop_bit 5 (bs ! 35)) = Inr pp" "setup_window local_sca (ucast iv * 1250) bs c1 = Inr c2"
      "data_chan_map c2 = data_chan_map c1" "data_chan_count c2 = data_chan_count c1"
      "window_widening_periodic_us c2 = ((pl + pp) * (ucast iv * 1250) + 999999) div 1000000"
      "window_widening_max_us c2 = drop_bit 1 (ucast iv * 1250) - EVENT_IFS_US" "interval c2 = interval c1"
    using setup_window_ok [OF assms(1,2), of "ucast iv * 1250" c1] by auto
  obtain p a q where t: "setup_timeouts (ucast iv * 1250) bs c2 = Inr (c2\<lparr>
      supervision_reload := word_of_nat (supervision_events (le16_at bs 28) (unat iv)),
      procedure_reload := p, apto_reload := a, appto_reload := q\<rparr>)" (is "_ = Inr ?c3")
    using setup_timeouts_ok [OF assms(1) \<open>iv \<noteq> 0\<close>, of c2] by blast
  obtain sel h u where "setup_chan_sel bs (?c3\<lparr>slave_force := ucast (le_join (access_addr ?c3))\<rparr>) =
      Inr (?c3\<lparr>slave_force := ucast (le_join (access_addr ?c3)), data_chan_sel := sel, data_chan_hop := h, data_chan_use := u\<rparr>)"
    using setup_chan_sel_ok [OF assms(1)] by blast
  then have "slave_setup local_sca bs conn =
      Inr (?c3\<lparr>slave_force := ucast (le_join (access_addr ?c3)), data_chan_sel := sel, data_chan_hop := h, data_chan_use := u\<rparr>)"
      (is "_ = Inr ?c4")
    using setup_channels_ok [OF assms(1), of conn] iv w(5) t
    by (simp add: slave_setup_def Let_def c1_def del: le_join.simps)
  moreover have "data_chan_map ?c4 = take 5 (drop 30 bs)"
      "data_chan_count ?c4 = word_of_nat (channels_used (take 5 (drop 30 bs)))"
      "supervision_reload ?c4 = word_of_nat (supervision_events (le16_at bs 28) (le16_at bs 24))"
      "window_widening_periodic_us ?c4 = window_widening_periodic_us c2"
      "window_widening_max_us ?c4 = window_widening_max_us c2" "interval ?c4 = iv"
    using w(6,7,10) iv(2) by (simp_all add: c1_def)
  ultimately show ?thesis using w iv(2) by (intro exI [of _ ?c4] exI [of _ iv] exI [of _ pl] exI [of _ pp] conjI) simp_all
qed

text \<open>Only the last channel changes from event to event.\<close>

lemma slave_event_enabled:
  assumes "5 \<le> length (data_chan_map conn)" "channels_used (take 5 (data_chan_map conn)) \<noteq> 0"
    and "data_chan_count conn = word_of_nat (channels_used (take 5 (data_chan_map conn)))"
  shows "\<exists>c u. slave_event ev conn = Inr (c, conn\<lparr>data_chan_use := u\<rparr>) \<and> unat c \<in> set (channels_of (take 5 (data_chan_map conn)))"
proof -
  let ?m = "data_chan_map conn"
  have "channels_used (take 5 ?m) \<le> 40" using channels_used_take [of ?m] .
  then have "ucast (data_chan_count conn) = (word_of_nat (channels_used (take 5 ?m)) :: u8)"
    using assms(3) by (simp add: word_unat_eq_iff unsigned_ucast_eq unsigned_of_nat take_bit_eq_mod)
  moreover obtain c u where "slave_chan_use (data_chan_sel conn) (fst ev) (data_chan_id conn) (data_chan_use conn)
      (data_chan_hop conn) (snd ev) ?m (word_of_nat (channels_used (take 5 ?m))) = Inr (c, u)"
      "unat c \<in> set (channels_of (take 5 ?m))"
    using slave_chan_enabled [OF assms(1) util_ones_count(1) [OF assms(1)] assms(2)] by blast
  ultimately have "slave_event ev conn = Inr (c, conn\<lparr>data_chan_use := u\<rparr>)" "unat c \<in> set (channels_of (take 5 ?m))"
    by (simp_all add: slave_event_def)
  then show ?thesis by blast
qed

lemma slave_hops_enabled:
  assumes "5 \<le> length (data_chan_map conn)" "channels_used (take 5 (data_chan_map conn)) \<noteq> 0"
    and "data_chan_count conn = word_of_nat (channels_used (take 5 (data_chan_map conn)))"
  shows "\<exists>cs. slave_hops evs conn = Inr cs \<and> length cs = length evs \<and>
    (\<forall>c \<in> set cs. unat c \<in> set (channels_of (take 5 (data_chan_map conn))))"
  using assms
proof (induction evs arbitrary: conn)
  case (Cons ev evs)
  obtain c u where "slave_event ev conn = Inr (c, conn\<lparr>data_chan_use := u\<rparr>)"
      "unat c \<in> set (channels_of (take 5 (data_chan_map conn)))"
    using slave_event_enabled [OF Cons.prems] by blast
  then show ?case using Cons.IH [of "conn\<lparr>data_chan_use := u\<rparr>"] Cons.prems by auto
qed simp

section \<open>Silent connections end\<close>

text \<open>
  The events left to a connection that hears nothing, the bounds of the timers, and the timers of a
  connection that is not supervised.
\<close>

definition events_left :: "u16 \<Rightarrow> conn_timers \<Rightarrow> nat" where
  "events_left reload t =
     unat (connect_expire t) + unat (if supervision_expire t = 0 then reload else supervision_expire t)"

definition timers_inv :: "u16 \<Rightarrow> conn_timers \<Rightarrow> bool" where
  "timers_inv reload t \<longleftrightarrow> connect_expire t \<le> 6 \<and> supervision_expire t \<le> reload \<and> procedure_expire t = 0"

definition unsupervised :: "conn_timers \<Rightarrow> bool" where
  "unsupervised t \<longleftrightarrow> connect_expire t = 0 \<and> supervision_expire t = 0 \<and> procedure_expire t = 0"

definition silent :: "conn_done \<Rightarrow> bool" where
  "silent ev \<longleftrightarrow> \<not> crc_valid ev \<and> latency_prepare ev \<noteq> 0xFFFF"

lemmas done_defs = conn_done_timeouts_def check_established_def check_supervision_def check_procedure_def Let_def

lemma expire_less:
  fixes e :: u16
  assumes "e < x"
  shows "unat (x - e) = unat x - unat e" "x - e \<noteq> 0" "x - e \<le> x"
  using assms by (auto simp: unat_sub_if' word_less_nat_alt word_le_nat_alt)

lemma elapsed_pos: "(l :: u16) \<noteq> 0xFFFF \<Longrightarrow> 0 < unat (l + 1)"
proof -
  assume "l \<noteq> 0xFFFF"
  moreover have "(0xFFFF :: u16) = - 1" by simp
  ultimately have "l + 1 \<noteq> 0" by (simp only: eq_neg_iff_add_eq_0 not_False_eq_True)
  then show ?thesis by (simp add: unat_gt_0)
qed

lemma done_silent:
  assumes "conn_done_timeouts conn ev t = Open f t'" "\<not> crc_valid ev" "latency_event t \<noteq> 0xFFFF" "supervision_reload conn \<noteq> 0"
  shows "events_left (supervision_reload conn) t' < events_left (supervision_reload conn) t"
  using assms elapsed_pos [OF assms(3)]
  by (auto simp: done_defs events_left_def expire_less word_less_nat_alt split: if_splits)

lemma done_inv:
  assumes "conn_done_timeouts conn ev t = Open f t'" "timers_inv (supervision_reload conn) t"
  shows "timers_inv (supervision_reload conn) t'"
  using assms by (auto simp: done_defs timers_inv_def split: if_splits dest: expire_less(3) order_trans)

lemma done_reason:
  assumes "conn_done_timeouts conn ev t = Closed r" "procedure_expire t = 0"
  shows "r \<in> {BT_HCI_ERR_CONN_FAIL_TO_ESTAB, BT_HCI_ERR_CONN_TIMEOUT}"
  using assms by (auto simp: done_defs split: if_splits)

lemma done_unsupervised:
  assumes "supervision_reload conn = 0" "unsupervised (t\<lparr>connect_expire := 0\<rparr>)" "connect_expire t = 0 \<or> trx_cnt ev \<noteq> 0"
  shows "\<exists>f t'. conn_done_timeouts conn ev t = Open f t' \<and> unsupervised t'"
  using assms by (auto simp: done_defs unsupervised_def)

text \<open>A connection as a whole.\<close>

lemma run_inv:
  "conn_run conn evs f t = Open f' t' \<Longrightarrow> timers_inv (supervision_reload conn) t \<Longrightarrow>
   timers_inv (supervision_reload conn) t'"
proof (induction evs arbitrary: f t)
  case (Cons ev evs)
  then show ?case
    using done_inv [of conn ev "t\<lparr>latency_event := latency_prepare ev\<rparr>"]
    by (fastforce simp: timers_inv_def split: conn_outcome.splits)
qed simp

lemma run_silent:
  "conn_run conn evs f t = Open f' t' \<Longrightarrow> list_all silent evs \<Longrightarrow> supervision_reload conn \<noteq> 0 \<Longrightarrow>
   events_left (supervision_reload conn) t' + length evs \<le> events_left (supervision_reload conn) t"
proof (induction evs arbitrary: f t)
  case (Cons ev evs)
  let ?t = "t\<lparr>latency_event := latency_prepare ev\<rparr>"
  obtain g u where u: "conn_done_timeouts conn ev ?t = Open g u" "conn_run conn evs g u = Open f' t'"
    using Cons.prems(1) by (auto split: conn_outcome.splits)
  have "events_left (supervision_reload conn) u < events_left (supervision_reload conn) ?t"
    using done_silent [OF u(1)] Cons.prems(2,3) by (simp add: silent_def)
  moreover have "events_left (supervision_reload conn) ?t = events_left (supervision_reload conn) t"
    by (simp add: events_left_def)
  ultimately show ?case using Cons.IH [OF u(2)] Cons.prems(2,3) by simp
qed simp

lemma run_reason:
  "conn_run conn evs f t = Closed r \<Longrightarrow> timers_inv (supervision_reload conn) t \<Longrightarrow>
   r \<in> {BT_HCI_ERR_CONN_FAIL_TO_ESTAB, BT_HCI_ERR_CONN_TIMEOUT}"
proof (induction evs arbitrary: f t)
  case (Cons ev evs)
  let ?t = "t\<lparr>latency_event := latency_prepare ev\<rparr>"
  have "timers_inv (supervision_reload conn) ?t" "procedure_expire ?t = 0"
    using Cons.prems(2) by (simp_all add: timers_inv_def)
  then show ?case
    using Cons.prems(1) Cons.IH done_inv [of conn ev ?t] done_reason [of conn ev ?t]
    by (auto split: conn_outcome.splits simp del: insert_iff)
qed simp

lemma run_append:
  "conn_run conn (evs @ evs') f t =
   (case conn_run conn evs f t of Closed r \<Rightarrow> Closed r | Open f t \<Rightarrow> conn_run conn evs' f t)"
  by (induction evs arbitrary: f t) (simp_all split: conn_outcome.split)

lemma run_unsupervised:
  "supervision_reload conn = 0 \<Longrightarrow> unsupervised t \<Longrightarrow> \<exists>f' t'. conn_run conn evs f t = Open f' t' \<and> unsupervised t'"
proof (induction evs arbitrary: f t)
  case (Cons ev evs)
  let ?t = "t\<lparr>latency_event := latency_prepare ev\<rparr>"
  obtain g u where "conn_done_timeouts conn ev ?t = Open g u" "unsupervised u"
    using done_unsupervised [of conn ?t ev] Cons.prems by (auto simp: unsupervised_def)
  then show ?case using Cons.IH [of u g] Cons.prems(1) by simp
qed simp

lemma silence_ends:
  assumes "supervision_reload conn \<noteq> 0" "timers_inv (supervision_reload conn) t" "list_all silent evs'"
    and "6 + unat (supervision_reload conn) \<le> length evs'"
  shows "\<exists>r \<in> {BT_HCI_ERR_CONN_FAIL_TO_ESTAB, BT_HCI_ERR_CONN_TIMEOUT}. conn_run conn (evs @ evs') f t = Closed r"
proof (cases "conn_run conn (evs @ evs') f t")
  case (Closed r)
  then show ?thesis using run_reason [OF Closed assms(2)] by auto
next
  case (Open f' t')
  then obtain g u where u: "conn_run conn evs f t = Open g u" "conn_run conn evs' g u = Open f' t'"
    by (auto simp: run_append split: conn_outcome.splits)
  have "timers_inv (supervision_reload conn) u" using run_inv [OF u(1) assms(2)] .
  then have "events_left (supervision_reload conn) u \<le> 6 + unat (supervision_reload conn)"
    by (simp add: timers_inv_def events_left_def word_le_nat_alt)
  moreover have "0 < events_left (supervision_reload conn) t'"
    using assms(1) by (simp add: events_left_def unat_gt_0)
  ultimately show ?thesis using run_silent [OF u(2) assms(3,1)] assms(4) by simp
qed

section \<open>The receive window\<close>

lemma widening_exact:
  fixes v :: u16
  assumes "unat p \<le> 500" "unat q \<le> 500" "unat v \<le> 3435"
  shows "unat (((p + q) * (ucast v * 1250) + 999999) div 1000000 :: u32) =
    ((unat p + unat q) * unat v * 1250 + 999999) div 1000000"
proof -
  let ?d = "(unat p + unat q) * (unat v * 1250)"
  have "?d \<le> 1000 * (3435 * 1250)" using assms by (intro mult_mono) simp_all
  then have "?d + 999999 \<le> 1000 * (3435 * 1250) + 999999" by (rule add_right_mono)
  also have "\<dots> < 2 ^ 32" by simp
  finally have d: "?d + 999999 < 2 ^ 32" "?d < 2 ^ 32" by (simp_all only: add_lessD1)
  have "unat (p + q) = unat p + unat q" using assms by (simp add: unat_word_ariths)
  then have "unat ((p + q) * (ucast v * 1250)) = ?d mod 2 ^ 32"
    using interval_us [of v] by (simp only: unat_word_ariths) simp
  then have "unat ((p + q) * (ucast v * 1250)) = ?d" using d(2) by simp
  then have "unat ((p + q) * (ucast v * 1250) + 999999) = ?d + 999999"
    using d(1) by (simp only: unat_word_ariths) simp
  then show ?thesis by (simp add: unat_div mult.assoc)
qed

lemma widening_max:
  fixes v :: u16
  assumes "unat v \<noteq> 0"
  shows "unat (drop_bit 1 (ucast v * 1250) - EVENT_IFS_US) = unat v * 625 - 150"
proof -
  have "unat (drop_bit 1 (ucast v * 1250 :: u32)) = unat v * 625"
    using interval_us [of v] by (simp add: drop_bit_eq_div unat_div)
  then show ?thesis using assms by (simp add: unat_sub_if')
qed

lemma widening_within:
  fixes p q iv :: nat
  assumes "p \<le> 500" "q \<le> 500" "iv \<noteq> 0"
  shows "((p + q) * iv * 1250 + 999999) div 1000000 \<le> iv * 625 - 150"
proof -
  have "(p + q) * iv \<le> 1000 * iv" using assms by (intro mult_right_mono) simp_all
  then have "(p + q) * iv * 1250 + 999999 \<le> 1250000 * iv + 999999" by linarith
  then have "((p + q) * iv * 1250 + 999999) div 1000000 \<le> (1250000 * iv + 999999) div 1000000" by (rule div_le_mono)
  also have "\<dots> \<le> 2 * iv" using assms(3) by simp
  also have "\<dots> \<le> iv * 625 - 150" using assms(3) by simp
  finally show ?thesis .
qed

section \<open>Properties\<close>

definition conn_example :: slave_conn where
  "conn_example =
     \<lparr>crc_init = [0, 0, 0], access_addr = [0, 0, 0, 0], data_chan_map = [0, 0, 0, 0, 0], data_chan_count = 0,
      data_chan_hop = 0, lll_role = 1, interval = 0, data_chan_sel = False, data_chan_use = 0, conn_latency = 0,
      slave_sca = 0, window_widening_periodic_us = 0, window_widening_max_us = 0, window_size_event_us = 0,
      supervision_reload = 0, procedure_reload = 0, apto_reload = 0, appto_reload = 0, slave_force = 0\<rparr>"

lemma accepted_fields:
  assumes "ll_inv pl n s" "n < 2 ^ 31 - 1" "wf_node rx"
    and "rx_type rx = NODE_RX_TYPE_CONNECTION" "lll_role lll = 1"
    and "ifw_ll_packet_parser_rx pl rx lll s = Some (Inr (False, lll', s'))"
  shows "36 \<le> length (rx_pdu rx)" "channels_used (take 5 (drop 30 (rx_pdu rx))) \<noteq> 0" "le16_at (rx_pdu rx) 24 \<noteq> 0"
  using ll_rx_step [OF assms(1-3), of lll] assms(3-6)
  by (auto simp: returns_def event_of_def Let_def wf_node_def)

definition timeout_example :: "u8 \<Rightarrow> node_rx_pdu" where
  "timeout_example timeout = \<lparr>rx_type = NODE_RX_TYPE_CONNECTION,
     rx_pdu = replicate 24 0 @ [24, 0, 0, 0, timeout, 0] @ [0xFF, 0, 0, 0, 0, 7]\<rparr>"

definition silent_example :: conn_done where
  "silent_example = \<lparr>trx_cnt = 0, crc_valid = False, tx_waiting = False, latency_enabled = False, latency_prepare = 0\<rparr>"

lemma accepted_example:
  "\<exists>s lll' s'. firewall_boot platform_example = Inr s \<and> ll_inv platform_example 0 s \<and>
     ifw_ll_packet_parser_rx platform_example (timeout_example timeout) lll_example s = Some (Inr (False, lll', s')) \<and>
     rx_type (timeout_example timeout) = NODE_RX_TYPE_CONNECTION \<and> lll_role lll_example = 1 \<and> wf_node (timeout_example timeout)"
proof -
  have wf: "wf_node (timeout_example timeout)" by (simp add: wf_node_def timeout_example_def)
  have "event_of (timeout_example timeout) lll_example = Connect 8 7 24"
    by (simp add: event_of_def timeout_example_def lll_example_def node_rx_codes
        channels_used_def bits_set_def le16_at_def nth_append upt_rec bit_numeral_rec bit_0 Let_def)
  moreover obtain s where s: "firewall_boot platform_example = Inr s" "ll_inv platform_example 0 s" using boot_example by blast
  ultimately obtain lll' s' where
      "ifw_ll_packet_parser_rx platform_example (timeout_example timeout) lll_example s = Some (Inr (False, lll', s'))"
    using ll_rx_step [OF s(2) _ wf, of lll_example] by (auto simp: returns_def)
  moreover have "rx_type (timeout_example timeout) = NODE_RX_TYPE_CONNECTION" "lll_role lll_example = 1"
    by (simp_all add: timeout_example_def lll_example_def)
  ultimately show ?thesis using s wf by blast
qed

text \<open>
  C9: connections the firewall accepts hop safely. If the receive hook lets a connection request to
  the peripheral pass, the set-up of the connection returns without undefined behaviour, whatever the
  connection context held before; and over every sequence of connection events after it, with any event
  counters and any skipped events, channel selection returns without undefined behaviour, and every
  channel is one the map of the request enables.
\<close>

theorem accepted_connection_hops:
  assumes "ll_inv pl n s" "n < 2 ^ 31 - 1" "wf_node rx"
    and "rx_type rx = NODE_RX_TYPE_CONNECTION" "lll_role lll = 1"
    and "ifw_ll_packet_parser_rx pl rx lll s = Some (Inr (False, lll', s'))" "unat local_sca < 8"
  shows "\<exists>conn' cs. slave_setup local_sca (rx_pdu rx) conn = Inr conn' \<and>
    slave_hops evs conn' = Inr cs \<and> length cs = length evs \<and>
    (\<forall>c \<in> set cs. unat c < 40 \<and> bit (rx_pdu rx ! (30 + unat c div 8)) (unat c mod 8))"
proof -
  let ?m = "take 5 (drop 30 (rx_pdu rx))"
  note acc = accepted_fields [OF assms(1-6)]
  obtain conn' where conn: "slave_setup local_sca (rx_pdu rx) conn = Inr conn'" "data_chan_map conn' = ?m"
      "data_chan_count conn' = word_of_nat (channels_used ?m)"
    using setup_ok [OF acc(1) assms(7) acc(3), of conn] by blast
  obtain cs where "slave_hops evs conn' = Inr cs" "length cs = length evs"
      "\<forall>c \<in> set cs. unat c \<in> set (channels_of (take 5 ?m))"
    using slave_hops_enabled [of conn' evs] conn acc by auto
  moreover have "unat c < 40 \<and> bit (rx_pdu rx ! (30 + unat c div 8)) (unat c mod 8)"
    if "unat c \<in> set (channels_of (take 5 ?m))" for c :: u8
    using that acc(1) by (auto simp: set_channels_of)
  ultimately show ?thesis using conn(1) by blast
qed

theorem accepted_connection_hops_witness:
  "\<exists>s lll' s' conn' cs. firewall_boot platform_example = Inr s \<and>
     ifw_ll_packet_parser_rx platform_example (timeout_example 100) lll_example s = Some (Inr (False, lll', s')) \<and>
     slave_setup 0 (rx_pdu (timeout_example 100)) conn_example = Inr conn' \<and>
     slave_hops [(0, 0), (1, 0), (5, 3)] conn' = Inr cs \<and> length cs = 3"
proof -
  obtain s lll' s' where s: "firewall_boot platform_example = Inr s" "ll_inv platform_example 0 s"
      "ifw_ll_packet_parser_rx platform_example (timeout_example 100) lll_example s = Some (Inr (False, lll', s'))"
      "rx_type (timeout_example 100) = NODE_RX_TYPE_CONNECTION" "lll_role lll_example = 1" "wf_node (timeout_example 100)"
    using accepted_example by blast
  then show ?thesis
    using accepted_connection_hops [OF s(2) _ s(6,4,5,3), of 0 conn_example "[(0, 0), (1, 0), (5, 3)]"] by auto
qed

text \<open>
  C12: connections the firewall accepts are supervised, or not. The set-up turns the timeout of the
  request into a number of connection events, kept in sixteen bits. Where that number is not zero, a
  connection that receives no valid packet for six more events than that ends, whatever happened before,
  with a supervision timeout or as never established. Where it is zero, as for a timeout of zero,
  which the firewall accepts, a connection that heard one packet in its first event never ends that way.
\<close>

theorem accepted_connection_supervised:
  assumes "ll_inv pl n s" "n < 2 ^ 31 - 1" "wf_node rx"
    and "rx_type rx = NODE_RX_TYPE_CONNECTION" "lll_role lll = 1"
    and "ifw_ll_packet_parser_rx pl rx lll s = Some (Inr (False, lll', s'))" "unat local_sca < 8"
    and "R = supervision_events (le16_at (rx_pdu rx) 28) (le16_at (rx_pdu rx) 24) mod 2 ^ 16"
  shows "\<exists>conn'. slave_setup local_sca (rx_pdu rx) conn = Inr conn' \<and>
    (R \<noteq> 0 \<longrightarrow> list_all silent evs' \<and> 6 + R \<le> length evs' \<longrightarrow>
      (\<exists>r \<in> {BT_HCI_ERR_CONN_FAIL_TO_ESTAB, BT_HCI_ERR_CONN_TIMEOUT}.
         conn_run conn' (evs @ evs') False (new_timers conn') = Closed r)) \<and>
    (R = 0 \<longrightarrow> trx_cnt ev \<noteq> 0 \<longrightarrow> (\<exists>f t. conn_run conn' (ev # evs) False (new_timers conn') = Open f t))"
proof -
  note acc = accepted_fields [OF assms(1-6)]
  obtain conn' where conn: "slave_setup local_sca (rx_pdu rx) conn = Inr conn'"
      "supervision_reload conn' = word_of_nat (supervision_events (le16_at (rx_pdu rx) 28) (le16_at (rx_pdu rx) 24))"
    using setup_ok [OF acc(1) assms(7) acc(3), of conn] by blast
  then have R: "unat (supervision_reload conn') = R" by (simp add: assms(8) unsigned_of_nat take_bit_eq_mod)
  have "timers_inv (supervision_reload conn') (new_timers conn')" by (simp add: timers_inv_def new_timers_def)
  then have ends: "\<exists>r \<in> {BT_HCI_ERR_CONN_FAIL_TO_ESTAB, BT_HCI_ERR_CONN_TIMEOUT}.
      conn_run conn' (evs @ evs') False (new_timers conn') = Closed r"
    if "R \<noteq> 0" "list_all silent evs'" "6 + R \<le> length evs'"
    using silence_ends [of conn' "new_timers conn'" evs' evs False] that R by (metis unat_0)
  have "\<exists>f t. conn_run conn' (ev # evs) False (new_timers conn') = Open f t" if off: "R = 0" "trx_cnt ev \<noteq> 0"
  proof -
    have z: "supervision_reload conn' = 0" using R off(1) by (simp add: unat_eq_zero)
    obtain g u where "conn_done_timeouts conn' ev (new_timers conn'\<lparr>latency_event := latency_prepare ev\<rparr>) = Open g u" "unsupervised u"
      using done_unsupervised [OF z, of "new_timers conn'\<lparr>latency_event := latency_prepare ev\<rparr>" ev] off(2)
      by (auto simp: unsupervised_def new_timers_def)
    then show ?thesis using run_unsupervised [OF z, of u evs g] by auto
  qed
  then show ?thesis using conn(1) ends by blast
qed

theorem accepted_connection_supervised_witness:
  "(\<exists>conn' r. slave_setup 0 (rx_pdu (timeout_example 100)) conn_example = Inr conn' \<and>
      conn_run conn' (replicate 40 silent_example) False (new_timers conn') = Closed r) \<and>
   (\<exists>conn' f t. slave_setup 0 (rx_pdu (timeout_example 0)) conn_example = Inr conn' \<and>
      conn_run conn' (silent_example\<lparr>trx_cnt := 1\<rparr> # replicate 1000000 silent_example) False (new_timers conn') = Open f t)"
proof -
  have R: "34 = supervision_events (le16_at (rx_pdu (timeout_example 100)) 28) (le16_at (rx_pdu (timeout_example 100)) 24) mod 2 ^ 16"
      "0 = supervision_events (le16_at (rx_pdu (timeout_example 0)) 28) (le16_at (rx_pdu (timeout_example 0)) 24) mod 2 ^ 16"
    by (simp_all add: supervision_events_def timeout_example_def le16_at_def nth_append)
  have quiet: "list_all silent (replicate 40 silent_example)" by (simp add: list_all_iff silent_def silent_example_def)
  obtain s lll' s' u mmm u' where s: "ll_inv platform_example 0 s"
      "ifw_ll_packet_parser_rx platform_example (timeout_example 100) lll_example s = Some (Inr (False, lll', s'))"
      "ll_inv platform_example 0 u"
      "ifw_ll_packet_parser_rx platform_example (timeout_example 0) lll_example u = Some (Inr (False, mmm, u'))"
    using accepted_example [of 100] accepted_example [of 0] by blast
  have ok: "wf_node (timeout_example x)" "rx_type (timeout_example x) = NODE_RX_TYPE_CONNECTION" "lll_role lll_example = 1" for x
    using accepted_example [of x] by blast+
  show ?thesis
    using accepted_connection_supervised [OF s(1) _ ok s(2) _ R(1), of 0 conn_example "replicate 40 silent_example" "[]"]
      accepted_connection_supervised [OF s(3) _ ok s(4) _ R(2), of 0 conn_example "[]" "replicate 1000000 silent_example"
        "silent_example\<lparr>trx_cnt := 1\<rparr>"] quiet
    by (auto simp del: conn_run.simps)
qed

text \<open>
  C37: the receive window of an accepted connection. For a connection interval of up to 3435 units
  of 1.25 ms, more than the 3200 the specification allows, the window widening of an event is exactly the
  drift of both clocks over the interval in microseconds, rounded up, and lies within the
  maximum, which never wraps around.
\<close>

theorem accepted_connection_window:
  assumes "ll_inv pl n s" "n < 2 ^ 31 - 1" "wf_node rx"
    and "rx_type rx = NODE_RX_TYPE_CONNECTION" "lll_role lll = 1"
    and "ifw_ll_packet_parser_rx pl rx lll s = Some (Inr (False, lll', s'))" "unat local_sca < 8"
    and "iv = le16_at (rx_pdu rx) 24" "iv \<le> 3435"
  shows "\<exists>conn' ppm_local ppm_peer. slave_setup local_sca (rx_pdu rx) conn = Inr conn' \<and>
    lll_conn_ppm_get local_sca = Inr ppm_local \<and> lll_conn_ppm_get (drop_bit 5 (rx_pdu rx ! 35)) = Inr ppm_peer \<and>
    unat (window_widening_periodic_us conn') = ((unat ppm_local + unat ppm_peer) * iv * 1250 + 999999) div 1000000 \<and>
    unat (window_widening_max_us conn') = iv * 625 - 150 \<and>
    window_widening_periodic_us conn' \<le> window_widening_max_us conn'"
proof -
  note acc = accepted_fields [OF assms(1-6)]
  obtain conn' v p q where c: "slave_setup local_sca (rx_pdu rx) conn = Inr conn'" "unat v = iv"
      "unat p \<le> 500" "unat q \<le> 500" "lll_conn_ppm_get local_sca = Inr p" "lll_conn_ppm_get (drop_bit 5 (rx_pdu rx ! 35)) = Inr q"
      "window_widening_periodic_us conn' = ((p + q) * (ucast (v :: u16) * 1250) + 999999) div 1000000"
      "window_widening_max_us conn' = drop_bit 1 (ucast v * 1250) - EVENT_IFS_US"
    using setup_ok [OF acc(1) assms(7) acc(3), of conn] assms(8) by metis
  have "unat (window_widening_periodic_us conn') = ((unat p + unat q) * iv * 1250 + 999999) div 1000000"
    using widening_exact [OF c(3,4)] c(2,7) assms(9) by simp
  moreover have "unat (window_widening_max_us conn') = iv * 625 - 150"
    using widening_max [of v] c(2,8) acc(3) assms(8) by simp
  moreover have "((unat p + unat q) * iv * 1250 + 999999) div 1000000 \<le> iv * 625 - 150"
    using widening_within [of "unat p" "unat q" iv] c(3,4) acc(3) assms(8) by simp
  ultimately show ?thesis using c by (auto simp: word_le_nat_alt)
qed

theorem accepted_connection_window_witness:
  "\<exists>conn'. slave_setup 0 (rx_pdu (timeout_example 100)) conn_example = Inr conn' \<and>
     unat (window_widening_periodic_us conn') = 30 \<and> unat (window_widening_max_us conn') = 14850"
proof -
  obtain s lll' s' where s: "ll_inv platform_example 0 s"
      "ifw_ll_packet_parser_rx platform_example (timeout_example 100) lll_example s = Some (Inr (False, lll', s'))"
      "rx_type (timeout_example 100) = NODE_RX_TYPE_CONNECTION" "lll_role lll_example = 1" "wf_node (timeout_example 100)"
    using accepted_example by blast
  have iv: "24 = le16_at (rx_pdu (timeout_example 100)) 24" "drop_bit 5 (rx_pdu (timeout_example 100) ! 35) = 0"
    by (simp_all add: timeout_example_def le16_at_def nth_append)
  have "lll_conn_ppm_get 0 = Inr 500" by (simp add: lll_conn_ppm_get_def c_array_get_def sca_ppm_lut_def)
  then show ?thesis
    using accepted_connection_window [OF s(1) _ s(5,3,4,2) _ iv(1), of 0 conn_example] iv(2) by auto
qed

text \<open>
  Beyond that the product wraps around: at 3437 units with two clocks of 500 ppm the widening comes
  out as 2 microseconds, where the drift is 4297.
\<close>

lemma window_widening_wraps:
  "((500 + 500) * (ucast (3437 :: u16) * 1250) + 999999) div 1000000 = (2 :: u32)"
  by simp

end
