(* ===== verification/Ll_Control.thy ===== *)
theory Ll_Control
  imports Slave_Setup
begin

text \<open>
  The control packets of a connection in the controller, \<^verbatim>\<open>controller/ll_sw/ull_conn.c\<close>: the handlers of every
  opcode, the dispatch \<open>ctrl_rx\<close>, the entry \<open>ull_conn_rx\<close> and the demultiplexer \<open>rx_demux_rx\<close> of \<^verbatim>\<open>ull.c\<close> with
  the firewall's hook in front. The connection is in the peripheral role (\<open>lll.role = 1\<close>), the one
  the firewall checks, so conditions on the role are resolved. The build options are the default
  ones of the target: encryption, connection parameter requests, ping, data length, PHY updates
  with 2M, no coded PHY, no fast encryption set-up.

  A queued transmission is the opcode followed by its parameters; its place in the transmit queue is
  not modelled. The pools of transmit and receive nodes are the numbers of their free nodes. A failed
  \<open>LL_ASSERT\<close> is the error \<open>Assert_failed\<close>.
\<close>

section \<open>State\<close>

datatype llcp =
    LLCP_NONE | LLCP_CONN_UPD | LLCP_CHAN_MAP | LLCP_ENCRYPTION | LLCP_CONNECTION_PARAM_REQ | LLCP_PING | LLCP_PHY_UPD

datatype cui_state = LLCP_CUI_STATE_INPROG | LLCP_CUI_STATE_USE | LLCP_CUI_STATE_SELECT

datatype cpr_state =
    LLCP_CPR_STATE_REQ | LLCP_CPR_STATE_RSP | LLCP_CPR_STATE_APP_REQ | LLCP_CPR_STATE_APP_WAIT
  | LLCP_CPR_STATE_RSP_WAIT | LLCP_CPR_STATE_UPD

datatype length_state =
    LLCP_LENGTH_STATE_REQ | LLCP_LENGTH_STATE_REQ_ACK_WAIT | LLCP_LENGTH_STATE_RSP_WAIT | LLCP_LENGTH_STATE_RSP_ACK_WAIT
  | LLCP_LENGTH_STATE_RESIZE | LLCP_LENGTH_STATE_RESIZE_RSP | LLCP_LENGTH_STATE_RESIZE_RSP_ACK_WAIT

datatype phy_state = LLCP_PHY_STATE_REQ | LLCP_PHY_STATE_ACK_WAIT | LLCP_PHY_STATE_RSP_WAIT | LLCP_PHY_STATE_UPD

text \<open>The connection whose update procedure holds the mutex \<open>conn_upd_curr\<close>.\<close>

datatype upd_owner = No_conn | This_conn | Other_conn

record llcp_cu =
  cu_req :: u8
  cu_ack :: u8
  cu_state :: cui_state
  cu_cmd :: bool
  cu_new_interval :: u16
  cu_latency :: u16
  cu_timeout :: u16
  cu_win_offset_us :: u32
  cu_win_size :: u8

record llcp_conn_param =
  cpr_req :: u8
  cpr_ack :: u8
  cpr_state :: cpr_state
  cpr_cmd :: bool
  cpr_disabled :: bool
  cpr_status :: u8
  cpr_interval_min :: u16
  cpr_interval_max :: u16
  cpr_latency :: u16
  cpr_timeout :: u16
  cpr_preferred_periodicity :: u8
  cpr_reference_conn_event_count :: u16
  cpr_offsets :: "u16 list"
  cpr_ticks_to_offset_next :: u32

record llcp_length =
  len_req :: u8
  len_ack :: u8
  len_state :: length_state
  len_rx_octets :: u16
  len_tx_octets :: u16
  len_rx_time :: u16
  len_tx_time :: u16
  len_cache_tx_octets :: u16
  len_cache_tx_time :: u16

record llcp_phy =
  phy_req :: u8
  phy_ack :: u8
  phy_state :: phy_state
  phy_tx :: "3 word"
  phy_rx :: "3 word"
  phy_pause_tx :: bool
  phy_flags :: bool
  phy_cmd :: bool

record llcp_enc =
  enc_pause_rx :: bool
  enc_pause_tx :: bool
  enc_refresh :: bool
  enc_ediv :: "u8 list"
  enc_rand :: "u8 list"
  enc_ltk :: "u8 list"

record llcp_version =
  ver_req :: u8
  ver_ack :: u8
  ver_tx :: bool
  ver_rx :: bool
  ver_version_number :: u8
  ver_company_id :: u16
  ver_sub_version_number :: u16

record ccm =
  ccm_key :: "u8 list"
  ccm_counter :: "64 word"
  ccm_direction :: bool
  ccm_iv :: "u8 list"

text \<open>The fields of \<open>struct lll_conn\<close> the data length, PHY and encryption procedures and the receive window use.\<close>

record lll_link =
  max_tx_octets :: u16
  max_rx_octets :: u16
  max_tx_time :: u16
  max_rx_time :: u16
  lll_phy_tx :: "3 word"
  lll_phy_rx :: "3 word"
  lll_phy_tx_time :: "3 word"
  lll_phy_flags :: bool
  lll_enc_rx :: bool
  lll_enc_tx :: bool
  ccm_rx :: ccm
  ccm_tx :: ccm
  window_widening_prepare_us :: u32
  window_widening_event_us :: u32
  window_size_prepare_us :: u32

text \<open>
  The union \<open>llcp\<close> of the procedures with an instant is its bytes: \<open>conn_upd.instant\<close> at 0;
  \<open>chan_map.initiate\<close> in the lowest bit of 0, \<open>chm\<close> from 1, \<open>instant\<close> at 6; \<open>phy_upd_ind\<close> with its bit
  fields in 0 and \<open>instant\<close> at 2; \<open>encryption.state\<close> in the two lowest bits of 0, \<open>error_code\<close> at 1, \<open>skd\<close> from 2.
  \<open>llcp_rx\<close> is the list of nodes kept for later notification. The last fields are globals, queues and build options; a queued
  notification of the host is its type and the fields written to it.
\<close>

record ll_conn =
  conn_lll :: slave_conn
  conn_tm :: conn_timers
  conn_link :: lll_link
  event_counter :: u16
  latency_prepare_acc :: u16
  llcp_req :: u8
  llcp_ack :: u8
  llcp_type :: llcp
  llcp_union :: "u8 list"
  llcp_rx :: "node_rx_pdu list"
  llcp_cu :: llcp_cu
  llcp_conn_param :: llcp_conn_param
  llcp_length :: llcp_length
  llcp_phy :: llcp_phy
  llcp_enc :: llcp_enc
  llcp_version :: llcp_version
  feature_req :: u8
  feature_ack :: u8
  features :: u32
  fex_valid :: bool
  term_req :: u8
  term_ack :: u8
  reason_own :: u8
  reason_peer :: u8
  apto_expire :: u16
  appto_expire :: u16
  ticks_to_offset :: u32
  chm_updated :: bool
  default_tx_octets :: u16
  default_tx_time :: u16
  phy_pref_tx :: "3 word"
  phy_pref_rx :: "3 word"
  phy_pref_flags :: bool
  conn_upd_curr :: upd_owner
  tx_free :: nat
  tx_queue :: "u8 list list"
  rx_free :: nat
  rx_queue :: "(u8 \<times> u8 list) list"
  octets_rx_max :: u16
  version_local :: "u8 list"
  ll_feat :: u32

section \<open>Codes\<close>

abbreviation (input) PDU_DATA_LLCTRL_TYPE_TERMINATE_IND :: u8 where "PDU_DATA_LLCTRL_TYPE_TERMINATE_IND \<equiv> 0x02"
abbreviation (input) PDU_DATA_LLCTRL_TYPE_ENC_REQ :: u8 where "PDU_DATA_LLCTRL_TYPE_ENC_REQ \<equiv> 0x03"
abbreviation (input) PDU_DATA_LLCTRL_TYPE_START_ENC_RSP :: u8 where "PDU_DATA_LLCTRL_TYPE_START_ENC_RSP \<equiv> 0x06"
abbreviation (input) PDU_DATA_LLCTRL_TYPE_UNKNOWN_RSP :: u8 where "PDU_DATA_LLCTRL_TYPE_UNKNOWN_RSP \<equiv> 0x07"
abbreviation (input) PDU_DATA_LLCTRL_TYPE_FEATURE_REQ :: u8 where "PDU_DATA_LLCTRL_TYPE_FEATURE_REQ \<equiv> 0x08"
abbreviation (input) PDU_DATA_LLCTRL_TYPE_FEATURE_RSP :: u8 where "PDU_DATA_LLCTRL_TYPE_FEATURE_RSP \<equiv> 0x09"
abbreviation (input) PDU_DATA_LLCTRL_TYPE_PAUSE_ENC_REQ :: u8 where "PDU_DATA_LLCTRL_TYPE_PAUSE_ENC_REQ \<equiv> 0x0A"
abbreviation (input) PDU_DATA_LLCTRL_TYPE_PAUSE_ENC_RSP :: u8 where "PDU_DATA_LLCTRL_TYPE_PAUSE_ENC_RSP \<equiv> 0x0B"
abbreviation (input) PDU_DATA_LLCTRL_TYPE_VERSION_IND :: u8 where "PDU_DATA_LLCTRL_TYPE_VERSION_IND \<equiv> 0x0C"
abbreviation (input) PDU_DATA_LLCTRL_TYPE_REJECT_IND :: u8 where "PDU_DATA_LLCTRL_TYPE_REJECT_IND \<equiv> 0x0D"
abbreviation (input) PDU_DATA_LLCTRL_TYPE_REJECT_EXT_IND :: u8 where "PDU_DATA_LLCTRL_TYPE_REJECT_EXT_IND \<equiv> 0x11"
abbreviation (input) PDU_DATA_LLCTRL_TYPE_PING_REQ :: u8 where "PDU_DATA_LLCTRL_TYPE_PING_REQ \<equiv> 0x12"
abbreviation (input) PDU_DATA_LLCTRL_TYPE_PING_RSP :: u8 where "PDU_DATA_LLCTRL_TYPE_PING_RSP \<equiv> 0x13"
abbreviation (input) PDU_DATA_LLCTRL_TYPE_PHY_REQ :: u8 where "PDU_DATA_LLCTRL_TYPE_PHY_REQ \<equiv> 0x16"
abbreviation (input) PDU_DATA_LLCTRL_TYPE_PHY_RSP :: u8 where "PDU_DATA_LLCTRL_TYPE_PHY_RSP \<equiv> 0x17"
abbreviation (input) PDU_DATA_LLCTRL_TYPE_PHY_UPD_IND :: u8 where "PDU_DATA_LLCTRL_TYPE_PHY_UPD_IND \<equiv> 0x18"

abbreviation (input) BT_HCI_ERR_UNSUPP_REMOTE_FEATURE :: u8 where "BT_HCI_ERR_UNSUPP_REMOTE_FEATURE \<equiv> 0x1A"
abbreviation (input) BT_HCI_ERR_INVALID_LL_PARAM :: u8 where "BT_HCI_ERR_INVALID_LL_PARAM \<equiv> 0x1E"
abbreviation (input) BT_HCI_ERR_UNSUPP_LL_PARAM_VAL :: u8 where "BT_HCI_ERR_UNSUPP_LL_PARAM_VAL \<equiv> 0x20"
abbreviation (input) BT_HCI_ERR_LL_PROC_COLLISION :: u8 where "BT_HCI_ERR_LL_PROC_COLLISION \<equiv> 0x23"
abbreviation (input) BT_HCI_ERR_INSTANT_PASSED :: u8 where "BT_HCI_ERR_INSTANT_PASSED \<equiv> 0x28"
abbreviation (input) BT_HCI_ERR_DIFF_TRANS_COLLISION :: u8 where "BT_HCI_ERR_DIFF_TRANS_COLLISION \<equiv> 0x2A"
abbreviation (input) BT_HCI_ERR_TERM_DUE_TO_MIC_FAIL :: u8 where "BT_HCI_ERR_TERM_DUE_TO_MIC_FAIL \<equiv> 0x3D"

abbreviation (input) NODE_RX_TYPE_CONN_UPDATE :: u8 where "NODE_RX_TYPE_CONN_UPDATE \<equiv> 0x0A"
abbreviation (input) NODE_RX_TYPE_ENC_REFRESH :: u8 where "NODE_RX_TYPE_ENC_REFRESH \<equiv> 0x0B"
abbreviation (input) NODE_RX_TYPE_PHY_UPDATE :: u8 where "NODE_RX_TYPE_PHY_UPDATE \<equiv> 0x0E"

abbreviation (input) ENOBUFS :: int where "ENOBUFS \<equiv> 55"

section \<open>Helpers\<close>

text \<open>The result of a handler: the value it returns, the node it leaves in \<open>*rx\<close> (none for a null pointer), the state.\<close>

type_synonym ctrl_res = "(int \<times> node_rx_pdu option \<times> ll_conn) cres"

definition LL_ASSERT :: "bool \<Rightarrow> 'a cres \<Rightarrow> 'a cres" where
  "LL_ASSERT b m = (if b then m else Inl Assert_failed)"

definition release :: "node_rx_pdu \<Rightarrow> node_rx_pdu" where
  "release rx = rx\<lparr>rx_type := NODE_RX_TYPE_DC_PDU_RELEASE\<rparr>"

definition put_bytes :: "nat \<Rightarrow> u8 list \<Rightarrow> u8 list \<Rightarrow> u8 list" where
  "put_bytes i bs u = take i u @ bs @ drop (i + length bs) u"

text \<open>A procedure with an instant, or the encryption procedure, is requested or active.\<close>

definition llcp_active :: "ll_conn \<Rightarrow> bool" where
  "llcp_active c \<longleftrightarrow> (llcp_req c - llcp_ack c) AND 3 = 2"

definition llcp_start :: "llcp \<Rightarrow> ll_conn \<Rightarrow> ll_conn" where
  "llcp_start ty c = c\<lparr>llcp_type := ty, llcp_ack := llcp_ack c - 2\<rparr>"

definition set_procedure_expire :: "u16 \<Rightarrow> ll_conn \<Rightarrow> ll_conn" where
  "set_procedure_expire n c = c\<lparr>conn_tm := (conn_tm c)\<lparr>procedure_expire := n\<rparr>\<rparr>"

text \<open>A free transmit node, and queueing it.\<close>

definition mem_acquire :: "ll_conn \<Rightarrow> ll_conn option" where
  "mem_acquire c = (if tx_free c = 0 then None else Some (c\<lparr>tx_free := tx_free c - 1\<rparr>))"

definition ctrl_tx_enqueue :: "u8 list \<Rightarrow> ll_conn \<Rightarrow> ll_conn" where
  "ctrl_tx_enqueue pdu c = c\<lparr>tx_queue := tx_queue c @ [pdu]\<rparr>"

definition send_ctrl :: "(ll_conn \<Rightarrow> ll_conn) \<Rightarrow> (ll_conn \<Rightarrow> u8 list) \<Rightarrow> node_rx_pdu \<Rightarrow> ll_conn \<Rightarrow> ctrl_res" where
  "send_ctrl upd pdu rx c =
     (case mem_acquire c of
        None \<Rightarrow> Inr (- ENOBUFS, Some rx, c)
      | Some c \<Rightarrow> let c = upd c in Inr (0, Some (release rx), ctrl_tx_enqueue (pdu c) c))"

definition pdu_data_len :: "u8 list \<Rightarrow> u8 cres" where "pdu_data_len pdu = read8 pdu 1"

definition ctrl_len_lut :: "u8 list" where
  "ctrl_len_lut = [12, 8, 2, 23, 13, 1, 1, 2, 9, 9, 1, 1, 6, 2, 9, 24, 24, 3, 1, 1, 9, 9, 3, 3, 5, 3]"

definition pdu_len_cmp :: "u8 \<Rightarrow> u8 \<Rightarrow> bool cres" where
  "pdu_len_cmp opcode len = c_bind (c_array_get ctrl_len_lut (unat opcode)) (\<lambda>l. Inr (l = len))"

text \<open>The packets not expected while an encryption procedure pauses reception.\<close>

definition ctrl_is_unexpected :: "ll_conn \<Rightarrow> u8 \<Rightarrow> bool" where
  "ctrl_is_unexpected c opcode \<longleftrightarrow>
     (if enc_refresh (llcp_enc c)
      then opcode \<notin> {PDU_DATA_LLCTRL_TYPE_TERMINATE_IND, PDU_DATA_LLCTRL_TYPE_PAUSE_ENC_RSP, PDU_DATA_LLCTRL_TYPE_ENC_REQ,
                     PDU_DATA_LLCTRL_TYPE_START_ENC_RSP, PDU_DATA_LLCTRL_TYPE_REJECT_IND, PDU_DATA_LLCTRL_TYPE_REJECT_EXT_IND}
      else opcode \<notin> {PDU_DATA_LLCTRL_TYPE_UNKNOWN_RSP, PDU_DATA_LLCTRL_TYPE_TERMINATE_IND,
                     PDU_DATA_LLCTRL_TYPE_START_ENC_RSP, PDU_DATA_LLCTRL_TYPE_REJECT_IND, PDU_DATA_LLCTRL_TYPE_REJECT_EXT_IND})"

section \<open>Handlers\<close>

subsection \<open>Procedures with an instant\<close>

definition conn_upd_recv :: "node_rx_pdu \<Rightarrow> ll_conn \<Rightarrow> (u8 \<times> node_rx_pdu option \<times> ll_conn) cres" where
  "conn_upd_recv rx c =
     c_bind (read_le16 (rx_pdu rx) 13) (\<lambda>instant.
     if instant - event_counter c > 0x7FFF then Inr (BT_HCI_ERR_INSTANT_PASSED, Some (release rx), c)
     else if llcp_active c then Inr (BT_HCI_ERR_DIFF_TRANS_COLLISION, Some (release rx), c)
     else
       c_bind (read8 (rx_pdu rx) 4) (\<lambda>win_size.
       c_bind (read_le16 (rx_pdu rx) 5) (\<lambda>win_offset.
       c_bind (cu_interval (rx_pdu rx)) (\<lambda>iv.
       c_bind (read_le16 (rx_pdu rx) 9) (\<lambda>latency.
       c_bind (read_le16 (rx_pdu rx) 11) (\<lambda>timeout.
       let cpr = llcp_conn_param c;
           cpr = (if cpr_req cpr \<noteq> cpr_ack cpr \<and> cpr_state cpr = LLCP_CPR_STATE_RSP_WAIT
                  then cpr\<lparr>cpr_ack := cpr_req cpr\<rparr> else cpr)
       in Inr (0, None,
            c\<lparr>conn_upd_curr := (if conn_upd_curr c = No_conn then This_conn else conn_upd_curr c),
              llcp_cu := (llcp_cu c)\<lparr>cu_win_size := win_size, cu_win_offset_us := ucast win_offset * 1250,
                cu_new_interval := iv, cu_latency := latency, cu_timeout := timeout,
                cu_state := LLCP_CUI_STATE_INPROG, cu_cmd := True, cu_ack := cu_ack (llcp_cu c) - 1\<rparr>,
              llcp_union := put_bytes 0 (le_bytes 2 instant) (llcp_union c),
              llcp_rx := rx # llcp_rx c,
              llcp_conn_param := cpr\<rparr>)))))))"

definition chan_map_upd_recv :: "node_rx_pdu \<Rightarrow> ll_conn \<Rightarrow> (u8 \<times> node_rx_pdu \<times> ll_conn) cres" where
  "chan_map_upd_recv rx c =
     c_bind (read_le16 (rx_pdu rx) 9) (\<lambda>instant.
     if instant - event_counter c > 0x7FFF then Inr (BT_HCI_ERR_INSTANT_PASSED, release rx, c)
     else if llcp_active c then Inr (BT_HCI_ERR_DIFF_TRANS_COLLISION, release rx, c)
     else
       c_bind (cm_chm (rx_pdu rx)) (\<lambda>chm.
       let u = put_bytes 6 (le_bytes 2 instant) (put_bytes 1 chm (llcp_union c))
       in Inr (0, release rx, llcp_start LLCP_CHAN_MAP (c\<lparr>llcp_union := u[0 := u ! 0 AND NOT 1]\<rparr>))))"

definition terminate_ind_recv :: "node_rx_pdu \<Rightarrow> ll_conn \<Rightarrow> ctrl_res" where
  "terminate_ind_recv rx c =
     c_bind (read8 (rx_pdu rx) 4) (\<lambda>error_code. Inr (0, Some (release rx), c\<lparr>reason_peer := error_code\<rparr>))"

text \<open>The PHY procedure is complete, with the notification if the host had asked for it.\<close>

definition phy_complete :: "ll_conn \<Rightarrow> ll_conn" where
  "phy_complete c =
     c\<lparr>llcp_phy := (llcp_phy c)\<lparr>phy_ack := phy_req (llcp_phy c), phy_pause_tx := False\<rparr>,
       conn_link := (conn_link c)\<lparr>lll_phy_tx_time := lll_phy_tx (conn_link c)\<rparr>\<rparr>"

definition pu_notify :: "u8 \<Rightarrow> node_rx_pdu \<Rightarrow> ll_conn \<Rightarrow> node_rx_pdu" where
  "pu_notify status rx c =
     rx\<lparr>rx_type := NODE_RX_TYPE_PHY_UPDATE,
        rx_pdu := put_bytes 0 [status, ucast (lll_phy_tx (conn_link c)), ucast (lll_phy_rx (conn_link c))] (rx_pdu rx)\<rparr>"

definition phy_upd_ind_recv :: "node_rx_pdu \<Rightarrow> ll_conn \<Rightarrow> (u8 \<times> node_rx_pdu option \<times> ll_conn) cres" where
  "phy_upd_ind_recv rx c =
     c_bind (read8 (rx_pdu rx) 4) (\<lambda>m_to_s_phy.
     c_bind (read8 (rx_pdu rx) 5) (\<lambda>s_to_m_phy.
     let phy = llcp_phy c in
     if (m_to_s_phy OR s_to_m_phy) AND 7 = 0 then
       (if phy_ack phy = phy_req phy \<or> phy_state phy \<noteq> LLCP_PHY_STATE_RSP_WAIT then Inr (0, Some (release rx), c)
        else
          (let c = set_procedure_expire 0 (phy_complete c)
           in Inr (0, Some (if phy_cmd phy then pu_notify 0 rx c else release rx), c)))
     else
       c_bind (read_le16 (rx_pdu rx) 6) (\<lambda>instant.
       if instant - event_counter c > 0x7FFF then Inr (BT_HCI_ERR_INSTANT_PASSED, Some (release rx), c)
       else if llcp_active c then Inr (BT_HCI_ERR_DIFF_TRANS_COLLISION, Some (release rx), c)
       else
         (let b = llcp_union c ! 0;
              done = (phy_ack phy \<noteq> phy_req phy \<and> phy_state phy = LLCP_PHY_STATE_RSP_WAIT);
              cmd = (if done then (if phy_cmd phy then 2 else 0) else b AND 2);
              b = push_bit 5 (m_to_s_phy AND 7) OR push_bit 2 (s_to_m_phy AND 7) OR cmd;
              c = (if done then set_procedure_expire 0 (c\<lparr>llcp_phy := phy\<lparr>phy_ack := phy_req phy, phy_pause_tx := False\<rparr>\<rparr>)
                   else c);
              c = c\<lparr>llcp_union := put_bytes 2 (le_bytes 2 instant) ((llcp_union c)[0 := b]), llcp_rx := rx # llcp_rx c\<rparr>
          in LL_ASSERT (rx_free c \<noteq> 0)
               (let c = llcp_start LLCP_PHY_UPD (c\<lparr>rx_free := rx_free c - 1, llcp_rx := \<lparr>rx_type = 0, rx_pdu = []\<rparr> # llcp_rx c\<rparr>)
                in Inr (0, None,
                     if s_to_m_phy AND 7 \<noteq> 0
                     then c\<lparr>conn_link := (conn_link c)\<lparr>lll_phy_tx_time := ucast s_to_m_phy\<rparr>\<rparr> else c))))))"

subsection \<open>Encryption\<close>

definition enc_req_recv :: "node_rx_pdu \<Rightarrow> ll_conn \<Rightarrow> ctrl_res" where
  "enc_req_recv rx c =
     c_bind (read_mem (rx_pdu rx) 4 8) (\<lambda>rand.
     c_bind (read_mem (rx_pdu rx) 12 2) (\<lambda>ediv.
     c_bind (read_mem (rx_pdu rx) 14 8) (\<lambda>skdm.
     c_bind (read_mem (rx_pdu rx) 22 4) (\<lambda>ivm.
     let u = (llcp_union c)[0 := (llcp_union c ! 0 AND NOT 3) OR 1];
         c = c\<lparr>llcp_enc := (llcp_enc c)\<lparr>enc_rand := rand, enc_ediv := ediv, enc_pause_rx := True\<rparr>,
               llcp_union := put_bytes 2 skdm u,
               conn_link := (conn_link c)\<lparr>ccm_rx := (ccm_rx (conn_link c))\<lparr>ccm_iv := put_bytes 0 ivm (ccm_iv (ccm_rx (conn_link c)))\<rparr>\<rparr>\<rparr>
     in Inr (0, Some (release rx),
          set_procedure_expire (procedure_reload (conn_lll c)) (llcp_start LLCP_ENCRYPTION c))))))"

definition start_enc_rsp_recv :: "node_rx_pdu \<Rightarrow> ll_conn \<Rightarrow> node_rx_pdu \<times> ll_conn" where
  "start_enc_rsp_recv rx c =
     (let c = c\<lparr>llcp_union := (llcp_union c)[0 := llcp_union c ! 0 AND NOT 3]\<rparr>;
          c = (if llcp_req c = llcp_ack c then llcp_start LLCP_ENCRYPTION c else c);
          refresh = enc_refresh (llcp_enc c)
      in (if refresh then rx\<lparr>rx_type := NODE_RX_TYPE_ENC_REFRESH\<rparr> else rx,
          set_procedure_expire 0 (c\<lparr>llcp_enc := (llcp_enc c)\<lparr>enc_refresh := False\<rparr>\<rparr>)))"

definition pause_enc_rsp_send :: "bool \<Rightarrow> node_rx_pdu \<Rightarrow> ll_conn \<Rightarrow> ctrl_res" where
  "pause_enc_rsp_send req rx c =
     (if req then
        send_ctrl (\<lambda>c. c\<lparr>llcp_enc := (llcp_enc c)\<lparr>enc_refresh := True, enc_pause_rx := True\<rparr>,
                         conn_link := (conn_link c)\<lparr>lll_enc_rx := False\<rparr>\<rparr>)
          (\<lambda>_. [PDU_DATA_LLCTRL_TYPE_PAUSE_ENC_RSP]) rx c
      else Inr (0, Some (release rx), c\<lparr>conn_link := (conn_link c)\<lparr>lll_enc_tx := False\<rparr>\<rparr>))"

text \<open>The encryption procedure is given up.\<close>

definition enc_reject :: "ll_conn \<Rightarrow> ll_conn" where
  "enc_reject c =
     set_procedure_expire 0 (c\<lparr>llcp_enc := (llcp_enc c)\<lparr>enc_pause_rx := False, enc_pause_tx := False\<rparr>, llcp_ack := llcp_req c\<rparr>)"

subsection \<open>Features, versions, ping, unknown packets\<close>

definition unknown_rsp_send :: "u8 \<Rightarrow> node_rx_pdu \<Rightarrow> ll_conn \<Rightarrow> ctrl_res" where
  "unknown_rsp_send ty rx c = send_ctrl (\<lambda>c. c) (\<lambda>_. [PDU_DATA_LLCTRL_TYPE_UNKNOWN_RSP, ty]) rx c"

definition feat_get :: "u8 list \<Rightarrow> u32" where
  "feat_get fs = (NOT 0x1CF2F OR ucast (fs ! 0) OR push_bit 8 (ucast (fs ! 1)) OR push_bit 16 (ucast (fs ! 2))) AND 0x1FFFF"

definition feature_rsp_send :: "node_rx_pdu \<Rightarrow> ll_conn \<Rightarrow> ctrl_res" where
  "feature_rsp_send rx c =
     c_bind (read_mem (rx_pdu rx) 4 3) (\<lambda>fs.
     send_ctrl (\<lambda>c. c\<lparr>features := features c AND feat_get fs, fex_valid := True\<rparr>)
       (\<lambda>c. PDU_DATA_LLCTRL_TYPE_FEATURE_RSP # le_bytes 3 (features c) @ replicate 5 0) rx c)"

definition feature_rsp_recv :: "node_rx_pdu \<Rightarrow> ll_conn \<Rightarrow> ll_conn cres" where
  "feature_rsp_recv rx c =
     c_bind (read_mem (rx_pdu rx) 4 3) (\<lambda>fs.
     Inr (set_procedure_expire 0 (c\<lparr>features := features c AND feat_get fs, fex_valid := True, feature_ack := feature_req c\<rparr>)))"

definition version_ind_send :: "node_rx_pdu \<Rightarrow> ll_conn \<Rightarrow> ctrl_res" where
  "version_ind_send rx c =
     c_bind (read8 (rx_pdu rx) 4) (\<lambda>number.
     c_bind (read_le16 (rx_pdu rx) 5) (\<lambda>company.
     c_bind (read_le16 (rx_pdu rx) 7) (\<lambda>sub.
     let store = (\<lambda>c. c\<lparr>llcp_version := (llcp_version c)\<lparr>ver_version_number := number, ver_company_id := company,
           ver_sub_version_number := sub, ver_rx := True\<rparr>\<rparr>)
     in if \<not> ver_tx (llcp_version c) then
          send_ctrl (\<lambda>c. store (c\<lparr>llcp_version := (llcp_version c)\<lparr>ver_tx := True\<rparr>\<rparr>))
            (\<lambda>c. PDU_DATA_LLCTRL_TYPE_VERSION_IND # version_local c) rx c
        else if \<not> ver_rx (llcp_version c) then
          Inr (0, Some rx, store (set_procedure_expire 0 (c\<lparr>llcp_version := (llcp_version c)\<lparr>ver_ack := ver_req (llcp_version c)\<rparr>\<rparr>)))
        else Inr (0, Some (release rx), c))))"

definition ping_resp_send :: "node_rx_pdu \<Rightarrow> ll_conn \<Rightarrow> ctrl_res" where
  "ping_resp_send rx c = send_ctrl (\<lambda>c. c) (\<lambda>_. [PDU_DATA_LLCTRL_TYPE_PING_RSP]) rx c"

definition reject_ext_ind_send :: "u8 \<Rightarrow> u8 \<Rightarrow> node_rx_pdu \<Rightarrow> ll_conn \<Rightarrow> ctrl_res" where
  "reject_ext_ind_send reject_opcode error_code rx c =
     send_ctrl (\<lambda>c. c) (\<lambda>_. [PDU_DATA_LLCTRL_TYPE_REJECT_EXT_IND, reject_opcode, error_code]) rx c"

definition phy_rsp_send :: "node_rx_pdu \<Rightarrow> ll_conn \<Rightarrow> ctrl_res" where
  "phy_rsp_send rx c =
     c_bind (read8 (rx_pdu rx) 4) (\<lambda>tx_phys.
     c_bind (read8 (rx_pdu rx) 5) (\<lambda>rx_phys.
     send_ctrl
       (\<lambda>c. let phy = (llcp_phy c)\<lparr>phy_state := LLCP_PHY_STATE_RSP_WAIT\<rparr>;
                idle = (phy_ack phy = phy_req phy);
                phy = (if idle then phy\<lparr>phy_ack := phy_ack phy - 1, phy_cmd := False, phy_tx := phy_pref_tx c, phy_rx := phy_pref_rx c\<rparr>
                       else phy);
                c = (if idle then set_procedure_expire (procedure_reload (conn_lll c)) c else c)
            in c\<lparr>llcp_phy := phy\<lparr>phy_tx := phy_tx phy AND ucast rx_phys, phy_rx := phy_rx phy AND ucast tx_phys\<rparr>\<rparr>)
       (\<lambda>c. [PDU_DATA_LLCTRL_TYPE_PHY_RSP, ucast (phy_pref_tx c), ucast (phy_pref_rx c)]) rx c))"

subsection \<open>Connection parameters\<close>

definition cpr_invalid :: "u16 \<Rightarrow> u16 \<Rightarrow> u16 \<Rightarrow> u16 \<Rightarrow> u8 \<Rightarrow> bool" where
  "cpr_invalid interval_min interval_max latency timeout periodicity \<longleftrightarrow>
     interval_min < 6 \<or> interval_max > 3200 \<or> interval_min > interval_max \<or> latency > 499 \<or>
     timeout < 10 \<or> timeout > 3200 \<or> unat timeout * 4 \<le> (unat latency + 1) * unat interval_max \<or>
     ucast periodicity > interval_max"

fun read_offsets :: "u8 list \<Rightarrow> nat list \<Rightarrow> u16 list cres" where
  "read_offsets pdu [] = Inr []"
| "read_offsets pdu (i # is) = c_bind (read_le16 pdu i) (\<lambda>w. c_bind (read_offsets pdu is) (\<lambda>ws. Inr (w # ws)))"

text \<open>The parameters differ from those in use.\<close>

definition cpr_changed :: "llcp_conn_param \<Rightarrow> ll_conn \<Rightarrow> bool cres" where
  "cpr_changed cpr c =
     (if cpr_interval_max cpr \<noteq> interval (conn_lll c) \<or> cpr_latency cpr \<noteq> conn_latency (conn_lll c) then Inr True
      else c_bind (RADIO_CONN_EVENTS (ucast (cpr_timeout cpr) * 10000) (ucast (interval (conn_lll c)) * 1250))
             (\<lambda>n. Inr (n \<noteq> supervision_reload (conn_lll c))))"

definition conn_param_req_recv :: "node_rx_pdu \<Rightarrow> ll_conn \<Rightarrow> ctrl_res" where
  "conn_param_req_recv rx c =
     (let pdu = rx_pdu rx; cpr = llcp_conn_param c in
      if conn_upd_curr c = Other_conn then
        reject_ext_ind_send PDU_DATA_LLCTRL_TYPE_CONN_PARAM_REQ BT_HCI_ERR_UNSUPP_LL_PARAM_VAL rx c
      else
        LL_ASSERT (cpr_req cpr = cpr_ack cpr \<or> cpr_state cpr = LLCP_CPR_STATE_REQ \<or> cpr_state cpr = LLCP_CPR_STATE_RSP_WAIT)
          (c_bind (read_le16 pdu 4) (\<lambda>interval_min.
           c_bind (read_le16 pdu 6) (\<lambda>interval_max.
           c_bind (read_le16 pdu 8) (\<lambda>latency.
           c_bind (read_le16 pdu 10) (\<lambda>timeout.
           c_bind (read8 pdu 12) (\<lambda>periodicity.
           if cpr_invalid interval_min interval_max latency timeout periodicity then
             reject_ext_ind_send PDU_DATA_LLCTRL_TYPE_CONN_PARAM_REQ BT_HCI_ERR_INVALID_LL_PARAM rx c
           else
             c_bind (read_le16 pdu 13) (\<lambda>reference.
             c_bind (read_offsets pdu [15, 17, 19, 21, 23, 25]) (\<lambda>offsets.
             let cpr = cpr\<lparr>cpr_interval_min := interval_min, cpr_interval_max := interval_max, cpr_latency := latency,
                   cpr_timeout := timeout, cpr_preferred_periodicity := periodicity,
                   cpr_reference_conn_event_count := reference, cpr_offsets := offsets\<rparr>
             in c_bind (cpr_changed cpr c) (\<lambda>changed.
                let cpr = (if changed then cpr\<lparr>cpr_state := LLCP_CPR_STATE_APP_WAIT\<rparr>
                           else cpr\<lparr>cpr_status := 0, cpr_cmd := False, cpr_state := LLCP_CPR_STATE_RSP\<rparr>)
                in Inr (0, Some (if changed then rx else release rx),
                     c\<lparr>llcp_conn_param := cpr\<lparr>cpr_ack := cpr_ack cpr - 1\<rparr>,
                       conn_upd_curr := (if conn_upd_curr c = No_conn then This_conn else conn_upd_curr c)\<rparr>)))))))))))"

text \<open>The notification of a completed update, written over the packet.\<close>

definition cu_notify :: "u8 \<Rightarrow> node_rx_pdu \<Rightarrow> ll_conn \<Rightarrow> node_rx_pdu cres" where
  "cu_notify status rx c =
     (let n = uint (supervision_reload (conn_lll c)) * uint (interval (conn_lll c)) in
      if n \<ge> 2 ^ 31 then Inl Signed_overflow
      else
        (let timeout = word_of_int n * 125 div 1000 :: u32 in
         Inr (rx\<lparr>rx_type := NODE_RX_TYPE_CONN_UPDATE,
                 rx_pdu := put_bytes 2 (le_bytes 2 (interval (conn_lll c)) @ le_bytes 2 (conn_latency (conn_lll c)) @ le_bytes 2 timeout)
                   (put_bytes 0 [status] (rx_pdu rx))\<rparr>)))"

definition reject_ind_conn_upd_recv :: "u8 \<Rightarrow> node_rx_pdu \<Rightarrow> ll_conn \<Rightarrow> (bool \<times> node_rx_pdu \<times> ll_conn) cres" where
  "reject_ind_conn_upd_recv error_code rx c =
     (let c = (if error_code \<noteq> BT_HCI_ERR_LL_PROC_COLLISION
               then c\<lparr>ticks_to_offset := cpr_ticks_to_offset_next (llcp_conn_param c)\<rparr> else c);
          wait = (cpr_state (llcp_conn_param c) = LLCP_CPR_STATE_RSP_WAIT)
      in LL_ASSERT (\<not> wait \<or> conn_upd_curr c = This_conn)
        (let c = (if wait
                  then set_procedure_expire 0 (c\<lparr>conn_upd_curr := No_conn,
                         llcp_conn_param := (llcp_conn_param c)\<lparr>cpr_ack := cpr_req (llcp_conn_param c)\<rparr>\<rparr>)
                  else c)
         in if \<not> cpr_cmd (llcp_conn_param c) then Inr (False, rx, c)
            else c_bind (cu_notify error_code rx c) (\<lambda>rx. Inr (True, rx, c))))"

subsection \<open>Data length\<close>

definition PKT_US :: "nat \<Rightarrow> nat \<Rightarrow> nat" where
  "PKT_US octets phy = ((1 + 4 + 6 + octets + 3) * 8) div 2 ^ ((phy mod 4) div 2)"

definition dle_max_time_get :: "ll_conn \<Rightarrow> u16 \<times> u16" where
  "dle_max_time_get c =
     (let m = unat (octets_rx_max c); d = unat (default_tx_time c);
          (rx_time, tx_time) =
            (if \<not> fex_valid c \<or> \<not> bit (features c) 8
             then (PKT_US m 0, max (min (PKT_US m 0) d) (PKT_US 27 0))
             else (max (PKT_US m 2) (PKT_US 27 2), max (PKT_US 27 0) (min (PKT_US m 2) d)))
      in (max 328 (word_of_nat rx_time), max 328 (word_of_nat tx_time)))"

definition length_pdu :: "u16 \<Rightarrow> u16 \<Rightarrow> u16 \<Rightarrow> u16 \<Rightarrow> u8 list" where
  "length_pdu rx_octets rx_time tx_octets tx_time =
     le_bytes 2 rx_octets @ le_bytes 2 rx_time @ le_bytes 2 tx_octets @ le_bytes 2 tx_time"

definition length_resp_send :: "u16 \<Rightarrow> u16 \<Rightarrow> u16 \<Rightarrow> u16 \<Rightarrow> ll_conn \<Rightarrow> ll_conn" where
  "length_resp_send rx_octets rx_time tx_octets tx_time c =
     ctrl_tx_enqueue (PDU_DATA_LLCTRL_TYPE_LENGTH_RSP # length_pdu rx_octets rx_time tx_octets tx_time) c"

text \<open>Whether the packet is one to be answered, or to be taken as the answer.\<close>

definition length_expected :: "bool \<Rightarrow> llcp_length \<Rightarrow> bool" where
  "length_expected req l \<longleftrightarrow>
     (len_req l = len_ack l \<and> req) \<or>
     (len_req l \<noteq> len_ack l \<and>
       ((len_state l = LLCP_LENGTH_STATE_REQ \<or> len_state l = LLCP_LENGTH_STATE_REQ_ACK_WAIT) \<and> req \<or>
        len_state l = LLCP_LENGTH_STATE_RSP_WAIT))"

text \<open>The effective lengths and times: received octets and time, transmitted octets and time.\<close>

definition length_effective :: "u8 list \<Rightarrow> ll_conn \<Rightarrow> (u16 \<times> u16 \<times> u16 \<times> u16) cres" where
  "length_effective pdu c =
     c_bind (read_le16 pdu 4) (\<lambda>max_rx_octets'.
     c_bind (read_le16 pdu 6) (\<lambda>lr_rx_time.
     c_bind (read_le16 pdu 8) (\<lambda>max_tx_octets'.
     c_bind (read_le16 pdu 10) (\<lambda>lr_tx_time.
     let l = conn_link c; (max_rx_time', max_tx_time') = dle_max_time_get c in
     Inr (if max_tx_octets' \<ge> 27 then min max_tx_octets' (octets_rx_max c) else max_rx_octets l,
          if unat lr_tx_time \<ge> PKT_US 27 0 then min lr_tx_time max_rx_time' else max_rx_time l,
          if max_rx_octets' \<ge> 27 then min max_rx_octets' (default_tx_octets c) else max_tx_octets l,
          if unat lr_rx_time \<ge> PKT_US 27 0 then min lr_rx_time max_tx_time' else max_tx_time l)))))"

definition length_req_rsp_recv :: "node_rx_pdu \<Rightarrow> ll_conn \<Rightarrow> ctrl_res" where
  "length_req_rsp_recv rx c =
     c_bind (llctrl_opcode (rx_pdu rx)) (\<lambda>opcode.
     let req = (opcode = PDU_DATA_LLCTRL_TYPE_LENGTH_REQ) in
     case if req then mem_acquire c else Some c of
       None \<Rightarrow> Inr (- ENOBUFS, Some rx, c)
     | Some c \<Rightarrow>
         (let l = llcp_length c; link = conn_link c in
          if length_expected req l then
            c_bind (length_effective (rx_pdu rx) c) (\<lambda>(rx_octets, rx_time, tx_octets, tx_time).
            let respond = (\<lambda>c. if req then length_resp_send rx_octets rx_time tx_octets tx_time c else c);
                stored = l\<lparr>len_rx_octets := rx_octets, len_tx_octets := tx_octets, len_rx_time := rx_time, len_tx_time := tx_time,
                           len_ack := len_req l - 1\<rparr>
            in if rx_octets \<noteq> max_rx_octets link then
                 Inr (0, None, respond (c\<lparr>
                   llcp_length := stored\<lparr>len_state := (if req then LLCP_LENGTH_STATE_RESIZE_RSP else LLCP_LENGTH_STATE_RESIZE)\<rparr>,
                   conn_link := (if req then link else link\<lparr>max_tx_octets := tx_octets, max_tx_time := tx_time\<rparr>),
                   llcp_rx := rx # llcp_rx c\<rparr>))
               else
                 (let c = set_procedure_expire 0 (c\<lparr>llcp_length := l\<lparr>len_ack := len_req l\<rparr>\<rparr>) in
                  if tx_octets = max_tx_octets link \<and> tx_time = max_tx_time link \<and> rx_time = max_rx_time link
                  then Inr (0, Some (release rx), respond c)
                  else
                    (let link = link\<lparr>max_rx_time := rx_time\<rparr>;
                         c = (if req then c\<lparr>conn_link := link, llcp_length := stored\<lparr>len_state := LLCP_LENGTH_STATE_RSP_ACK_WAIT\<rparr>\<rparr>
                              else c\<lparr>conn_link := link\<lparr>max_tx_octets := tx_octets, max_tx_time := tx_time\<rparr>\<rparr>)
                     in Inr (0, Some (rx\<lparr>rx_pdu := put_bytes 4 (length_pdu rx_octets rx_time tx_octets tx_time) (rx_pdu rx)\<rparr>),
                          respond c))))
          else LL_ASSERT (opcode = PDU_DATA_LLCTRL_TYPE_LENGTH_RSP) (Inr (0, Some rx, c))))"

subsection \<open>Rejections and unknown responses\<close>

definition reject_ind_dle_recv :: "node_rx_pdu \<Rightarrow> ll_conn \<Rightarrow> node_rx_pdu \<times> ll_conn" where
  "reject_ind_dle_recv rx c =
     (let l = conn_link c in
      (rx\<lparr>rx_pdu := put_bytes 1 [9] (put_bytes 3 (PDU_DATA_LLCTRL_TYPE_LENGTH_RSP #
            length_pdu (max_rx_octets l) (max_rx_time l) (max_tx_octets l) (max_tx_time l)) (rx_pdu rx))\<rparr>,
       set_procedure_expire 0 (c\<lparr>llcp_length := (llcp_length c)\<lparr>len_ack := len_req (llcp_length c)\<rparr>\<rparr>)))"

definition reject_ind_phy_upd_recv :: "u8 \<Rightarrow> node_rx_pdu \<Rightarrow> ll_conn \<Rightarrow> bool \<times> node_rx_pdu \<times> ll_conn" where
  "reject_ind_phy_upd_recv error_code rx c =
     (let c = (if error_code \<noteq> BT_HCI_ERR_LL_PROC_COLLISION then set_procedure_expire 0 (phy_complete c) else c)
      in if \<not> phy_cmd (llcp_phy c) then (False, rx, c) else (True, pu_notify error_code rx c, c))"

definition reject_ext_ind_recv :: "node_rx_pdu \<Rightarrow> ll_conn \<Rightarrow> ctrl_res" where
  "reject_ext_ind_recv rx c =
     c_bind (read8 (rx_pdu rx) 4) (\<lambda>reject_opcode.
     c_bind (read8 (rx_pdu rx) 5) (\<lambda>error_code.
     c_bind
       (if reject_opcode = PDU_DATA_LLCTRL_TYPE_ENC_REQ \<and> llcp_ack c \<noteq> llcp_req c \<and> llcp_type c = LLCP_ENCRYPTION then
          Inr (True, rx\<lparr>rx_pdu := put_bytes 3 [PDU_DATA_LLCTRL_TYPE_REJECT_IND, error_code] (rx_pdu rx)\<rparr>, enc_reject c)
        else if reject_opcode = PDU_DATA_LLCTRL_TYPE_PHY_REQ \<and> phy_ack (llcp_phy c) \<noteq> phy_req (llcp_phy c) then
          Inr (reject_ind_phy_upd_recv error_code rx c)
        else if reject_opcode = PDU_DATA_LLCTRL_TYPE_CONN_PARAM_REQ \<and>
                cpr_ack (llcp_conn_param c) \<noteq> cpr_req (llcp_conn_param c) then
          reject_ind_conn_upd_recv error_code rx c
        else if reject_opcode = PDU_DATA_LLCTRL_TYPE_LENGTH_REQ \<and> len_ack (llcp_length c) \<noteq> len_req (llcp_length c) then
          Inr (True, reject_ind_dle_recv rx c)
        else Inr (False, rx, c))
       (\<lambda>(ok, rx, c). Inr (0, Some (if ok then rx else release rx), c))))"

definition unknown_rsp_recv :: "node_rx_pdu \<Rightarrow> ll_conn \<Rightarrow> ctrl_res" where
  "unknown_rsp_recv rx c =
     (let cpr = llcp_conn_param c; l = llcp_length c in
      if cpr_ack cpr \<noteq> cpr_req cpr then
        LL_ASSERT (conn_upd_curr c = This_conn)
          (let c = c\<lparr>conn_upd_curr := No_conn, llcp_conn_param := cpr\<lparr>cpr_disabled := True, cpr_ack := cpr_req cpr\<rparr>\<rparr>
           in if \<not> cpr_cmd cpr then Inr (0, Some (release rx), c)
              else c_bind (cu_notify BT_HCI_ERR_UNSUPP_REMOTE_FEATURE rx c) (\<lambda>rx. Inr (0, Some rx, set_procedure_expire 0 c)))
      else if len_req l \<noteq> len_ack l then
        Inr (0, Some rx, set_procedure_expire 0 (c\<lparr>llcp_length := l\<lparr>len_ack := len_req l\<rparr>\<rparr>))
      else if phy_req (llcp_phy c) \<noteq> phy_ack (llcp_phy c) then
        (let c = phy_complete c
         in Inr (0, Some (if phy_cmd (llcp_phy c) then pu_notify 0 rx c else release rx), set_procedure_expire 0 c))
      else
        c_bind (read8 (rx_pdu rx) 4) (\<lambda>ty.
        Inr (0, Some (if ty = PDU_DATA_LLCTRL_TYPE_PING_REQ then release rx else rx), set_procedure_expire 0 c)))"

section \<open>Dispatch\<close>

text \<open>A handler runs if the length of the packet is the one of its opcode; the answer is \<open>UNKNOWN_RSP\<close> otherwise.\<close>

definition with_len :: "u8 \<Rightarrow> u8 \<Rightarrow> node_rx_pdu \<Rightarrow> ll_conn \<Rightarrow> ctrl_res \<Rightarrow> ctrl_res" where
  "with_len ty opcode rx c m =
     c_bind (pdu_data_len (rx_pdu rx)) (\<lambda>len.
     c_bind (pdu_len_cmp ty len) (\<lambda>ok. if ok then m else unknown_rsp_send opcode rx c))"

text \<open>The reason a handler returns ends the connection, unless it is zero.\<close>

definition with_reason :: "u8 \<Rightarrow> (ll_conn \<Rightarrow> ll_conn) \<Rightarrow> node_rx_pdu option \<Rightarrow> ll_conn \<Rightarrow> ctrl_res" where
  "with_reason e ok rxo c = Inr (0, rxo, if e \<noteq> 0 then c\<lparr>reason_peer := e\<rparr> else ok c)"

definition ctrl_rx :: "node_rx_pdu \<Rightarrow> ll_conn \<Rightarrow> ctrl_res" where
  "ctrl_rx rx c =
     c_bind (llctrl_opcode (rx_pdu rx)) (\<lambda>opcode.
     if enc_pause_rx (llcp_enc c) \<and> ctrl_is_unexpected c opcode then
       Inr (0, Some (release rx), c\<lparr>reason_peer := BT_HCI_ERR_TERM_DUE_TO_MIC_FAIL\<rparr>)
     else if opcode = PDU_DATA_LLCTRL_TYPE_CONN_UPDATE_IND then
       with_len opcode opcode rx c (c_bind (conn_upd_recv rx c) (\<lambda>(e, rxo, c). with_reason e (set_procedure_expire 0) rxo c))
     else if opcode = PDU_DATA_LLCTRL_TYPE_CHAN_MAP_IND then
       with_len opcode opcode rx c (c_bind (chan_map_upd_recv rx c) (\<lambda>(e, rx, c). with_reason e (\<lambda>c. c) (Some rx) c))
     else if opcode = PDU_DATA_LLCTRL_TYPE_TERMINATE_IND then with_len opcode opcode rx c (terminate_ind_recv rx c)
     else if opcode = PDU_DATA_LLCTRL_TYPE_ENC_REQ then with_len opcode opcode rx c (enc_req_recv rx c)
     else if opcode = PDU_DATA_LLCTRL_TYPE_START_ENC_RSP then
       with_len opcode opcode rx c
         (if llcp_req c \<noteq> llcp_ack c \<and> llcp_type c \<noteq> LLCP_ENCRYPTION then unknown_rsp_send opcode rx c
          else (let (rx, c) = start_enc_rsp_recv rx c in Inr (0, Some rx, c)))
     else if opcode = PDU_DATA_LLCTRL_TYPE_FEATURE_REQ then with_len opcode opcode rx c (feature_rsp_send rx c)
     else if opcode = PDU_DATA_LLCTRL_TYPE_FEATURE_RSP then
       with_len opcode opcode rx c (c_bind (feature_rsp_recv rx c) (\<lambda>c. Inr (0, Some rx, c)))
     else if opcode = PDU_DATA_LLCTRL_TYPE_PAUSE_ENC_REQ then with_len opcode opcode rx c (pause_enc_rsp_send True rx c)
     else if opcode = PDU_DATA_LLCTRL_TYPE_PAUSE_ENC_RSP then with_len opcode opcode rx c (pause_enc_rsp_send False rx c)
     else if opcode = PDU_DATA_LLCTRL_TYPE_VERSION_IND then with_len opcode opcode rx c (version_ind_send rx c)
     else if opcode = PDU_DATA_LLCTRL_TYPE_REJECT_IND then with_len opcode opcode rx c (Inr (0, Some rx, enc_reject c))
     else if opcode = PDU_DATA_LLCTRL_TYPE_CONN_PARAM_REQ then with_len opcode opcode rx c (conn_param_req_recv rx c)
     else if opcode = PDU_DATA_LLCTRL_TYPE_REJECT_EXT_IND then with_len opcode opcode rx c (reject_ext_ind_recv rx c)
     else if opcode = PDU_DATA_LLCTRL_TYPE_PING_REQ then with_len opcode opcode rx c (ping_resp_send rx c)
     else if opcode = PDU_DATA_LLCTRL_TYPE_PING_RSP then
       with_len opcode opcode rx c (Inr (0, Some (release rx), set_procedure_expire 0 c))
     else if opcode = PDU_DATA_LLCTRL_TYPE_UNKNOWN_RSP then with_len opcode opcode rx c (unknown_rsp_recv rx c)
     else if opcode = PDU_DATA_LLCTRL_TYPE_LENGTH_RSP \<or> opcode = PDU_DATA_LLCTRL_TYPE_LENGTH_REQ then
       with_len PDU_DATA_LLCTRL_TYPE_LENGTH_REQ opcode rx c (length_req_rsp_recv rx c)
     else if opcode = PDU_DATA_LLCTRL_TYPE_PHY_REQ then with_len opcode opcode rx c (phy_rsp_send rx c)
     else if opcode = PDU_DATA_LLCTRL_TYPE_PHY_UPD_IND then
       with_len opcode opcode rx c (c_bind (phy_upd_ind_recv rx c) (\<lambda>(e, rxo, c). with_reason e (\<lambda>c. c) rxo c))
     else unknown_rsp_send opcode rx c)"

text \<open>
  The entry for data channel packets, for a node of this connection. After a control packet the node is marked for release
  through \<open>*rx\<close>, which some handlers have set to null.
\<close>

definition ull_conn_rx :: "node_rx_pdu \<Rightarrow> ll_conn \<Rightarrow> (int \<times> node_rx_pdu \<times> ll_conn) cres" where
  "ull_conn_rx rx c =
     c_bind (pdu_ll_id (rx_pdu rx)) (\<lambda>ll_id.
     let paused = enc_pause_rx (llcp_enc c); failed = c\<lparr>reason_peer := BT_HCI_ERR_TERM_DUE_TO_MIC_FAIL\<rparr> in
     if ll_id = PDU_DATA_LLID_CTRL then
       c_bind (ctrl_rx rx c) (\<lambda>(nack, rxo, c).
       case rxo of None \<Rightarrow> Inl Null_deref | Some rx \<Rightarrow> Inr (nack, release rx, c))
     else if ll_id = 1 \<or> ll_id = 2 then Inr (0, if paused then release rx else rx, if paused then failed else c)
     else Inr (0, release rx, if paused then failed else c))"

text \<open>The hook and the demultiplexer, for the nodes of a connection.\<close>

definition rx_demux_rx :: "platform \<Rightarrow> node_rx_pdu \<Rightarrow> ll_conn \<Rightarrow> ll_parser \<Rightarrow> (int \<times> node_rx_pdu \<times> ll_conn \<times> ll_parser) cres option" where
  "rx_demux_rx pl rx c s =
     m_bind (rx_demux_filter pl rx (lll_conn.truncate (conn_lll c)) s) (\<lambda>(rx, lll, s).
     if rx_type rx = NODE_RX_TYPE_DC_PDU
     then m_bind (Some (ull_conn_rx rx c)) (\<lambda>(nack, rx, c). Some (Inr (nack, rx, c, s)))
     else Some (Inr (0, rx, c, s)))"

end
