(* ===== verification/Ll_Events.thy ===== *)
theory Ll_Events
  imports Ll_Control
begin

text \<open>
  What the controller does with the control procedures of a connection at its events, after them and for the host:
  \<open>ull_conn_llcp\<close> and the preparations of every procedure, the acknowledgement of control packets, the end of an event
  and the commands of the host, all of \<^verbatim>\<open>controller/ll_sw/ull_conn.c\<close>; the ticker callback and the key reply of
  \<^verbatim>\<open>ull_slave.c\<close>, the connection context \<^verbatim>\<open>ull_adv.c\<close> prepares, and the start of \<open>prepare_cb\<close> in
  \<^verbatim>\<open>nordic/lll/lll_slave.c\<close>. The role is the peripheral's. The encryption of a block and the random
  bytes come from the hardware and so are parameters. The times given to the ticker and the jobs that choose window offsets
  are not modelled.
\<close>

section \<open>Procedures at an event\<close>

abbreviation (input) PDU_DATA_LLCTRL_TYPE_ENC_RSP :: u8 where "PDU_DATA_LLCTRL_TYPE_ENC_RSP \<equiv> 0x04"
abbreviation (input) PDU_DATA_LLCTRL_TYPE_START_ENC_REQ :: u8 where "PDU_DATA_LLCTRL_TYPE_START_ENC_REQ \<equiv> 0x05"
abbreviation (input) PDU_DATA_LLCTRL_TYPE_SLAVE_FEATURE_REQ :: u8 where "PDU_DATA_LLCTRL_TYPE_SLAVE_FEATURE_REQ \<equiv> 0x0E"
abbreviation (input) NODE_RX_TYPE_APTO :: u8 where "NODE_RX_TYPE_APTO \<equiv> 0x0C"
abbreviation (input) BT_HCI_ERR_CMD_DISALLOWED :: u8 where "BT_HCI_ERR_CMD_DISALLOWED \<equiv> 0x0C"
abbreviation (input) BT_HCI_ERR_REMOTE_USER_TERM_CONN :: u8 where "BT_HCI_ERR_REMOTE_USER_TERM_CONN \<equiv> 0x13"
abbreviation (input) BT_HCI_ERR_LOCALHOST_TERM_CONN :: u8 where "BT_HCI_ERR_LOCALHOST_TERM_CONN \<equiv> 0x16"

text \<open>A free receive node, filled and queued for the host.\<close>

definition ll_rx_put :: "u8 \<Rightarrow> u8 list \<Rightarrow> ll_conn \<Rightarrow> ll_conn" where
  "ll_rx_put ty pdu c = c\<lparr>rx_queue := rx_queue c @ [(ty, pdu)]\<rparr>"

definition rx_notify :: "u8 \<Rightarrow> u8 list \<Rightarrow> ll_conn \<Rightarrow> ll_conn option" where
  "rx_notify ty pdu c = (if rx_free c = 0 then None else Some (ll_rx_put ty pdu (c\<lparr>rx_free := rx_free c - 1\<rparr>)))"

subsection \<open>Channel map\<close>

text \<open>The pending channel map at an event: it is sent, if this device chose it, or taken over from its instant on.\<close>

definition event_ch_map_prep :: "u16 \<Rightarrow> ll_conn \<Rightarrow> ll_conn cres" where
  "event_ch_map_prep ctr c =
     (if llcp_union c ! 0 AND 1 \<noteq> 0 then
        (case mem_acquire c of
           None \<Rightarrow> Inr c
         | Some c \<Rightarrow>
             (let instant = ctr + conn_latency (conn_lll c) + 6;
                  u = put_bytes 6 (le_bytes 2 instant) ((llcp_union c)[0 := llcp_union c ! 0 AND NOT 1])
              in Inr (ctrl_tx_enqueue (PDU_DATA_LLCTRL_TYPE_CHAN_MAP_IND # take 5 (drop 1 u) @ le_bytes 2 instant) (c\<lparr>llcp_union := u\<rparr>))))
      else
        c_bind (read_le16 (llcp_union c) 6) (\<lambda>instant.
        if ctr - instant \<le> 0x7FFF then
          c_bind (read_mem (llcp_union c) 1 5) (\<lambda>chm.
          c_bind (util_ones_count_get chm 5) (\<lambda>count.
          Inr (c\<lparr>llcp_ack := llcp_req c, chm_updated := True,
                 conn_lll := (conn_lll c)\<lparr>data_chan_map := chm, data_chan_count := ucast count\<rparr>\<rparr>)))
        else Inr c))"

subsection \<open>Encryption\<close>

definition event_enc_reject_prep :: "ll_conn \<Rightarrow> u8 list \<times> ll_conn" where
  "event_enc_reject_prep c =
     (let error_code = llcp_union c ! 1
      in (if fex_valid c \<and> bit (features c) 2
          then [PDU_DATA_LLCTRL_TYPE_REJECT_EXT_IND, PDU_DATA_LLCTRL_TYPE_ENC_REQ, error_code]
          else [PDU_DATA_LLCTRL_TYPE_REJECT_IND, error_code],
          c\<lparr>llcp_union := (llcp_union c)[1 := 0]\<rparr>))"

text \<open>The twelve random bytes are the peripheral's parts of the session key diversifier and of the initialization vector.\<close>

definition enc_rsp_send :: "u8 list \<Rightarrow> ll_conn \<Rightarrow> ll_conn option" where
  "enc_rsp_send random c =
     (case mem_acquire c of
        None \<Rightarrow> None
      | Some c \<Rightarrow>
          (let skds = take 8 random; ivs = take 4 (drop 8 random); link = conn_link c
           in Some (ctrl_tx_enqueue (PDU_DATA_LLCTRL_TYPE_ENC_RSP # skds @ ivs)
                (c\<lparr>llcp_union := put_bytes 10 skds (llcp_union c),
                   conn_link := link\<lparr>ccm_rx := (ccm_rx link)\<lparr>ccm_iv := put_bytes 4 ivs (ccm_iv (ccm_rx link))\<rparr>\<rparr>\<rparr>))))"

definition start_encryption :: "(u8 list \<Rightarrow> u8 list \<Rightarrow> u8 list) \<Rightarrow> ll_conn \<Rightarrow> ll_conn" where
  "start_encryption ecb c =
     (let link = conn_link c; key = ecb (enc_ltk (llcp_enc c)) (take 16 (drop 2 (llcp_union c)))
      in ctrl_tx_enqueue [PDU_DATA_LLCTRL_TYPE_START_ENC_REQ]
           (c\<lparr>conn_link := link\<lparr>
               ccm_rx := (ccm_rx link)\<lparr>ccm_key := key, ccm_counter := 0, ccm_direction := True\<rparr>,
               ccm_tx := (ccm_tx link)\<lparr>ccm_key := key, ccm_iv := ccm_iv (ccm_rx link), ccm_counter := 0, ccm_direction := False\<rparr>,
               lll_enc_rx := True\<rparr>\<rparr>))"

definition start_enc_rsp_send :: "ll_conn \<Rightarrow> u8 list \<times> ll_conn" where
  "start_enc_rsp_send c = ([PDU_DATA_LLCTRL_TYPE_START_ENC_RSP], c\<lparr>conn_link := (conn_link c)\<lparr>lll_enc_tx := True\<rparr>\<rparr>)"

definition event_enc_prep :: "(u8 list \<Rightarrow> u8 list \<Rightarrow> u8 list) \<Rightarrow> u8 list \<Rightarrow> ll_conn \<Rightarrow> ll_conn" where
  "event_enc_prep ecb random c =
     (if llcp_union c ! 0 AND 3 \<noteq> 0 then
        (if llcp_union c ! 0 AND 3 = 1 then
           (case enc_rsp_send random c of
              None \<Rightarrow> c
            | Some c \<Rightarrow>
                (case rx_notify NODE_RX_TYPE_DC_PDU
                        (PDU_DATA_LLCTRL_TYPE_ENC_REQ # enc_rand (llcp_enc c) @ enc_ediv (llcp_enc c)) c of
                   None \<Rightarrow> c
                 | Some c \<Rightarrow> c\<lparr>llcp_union := (llcp_union c)[0 := (llcp_union c ! 0 AND NOT 3) OR 2]\<rparr>))
         else c)
      else
        (case mem_acquire c of
           None \<Rightarrow> c
         | Some c \<Rightarrow>
             (let c = (if \<not> lll_enc_rx (conn_link c) then
                         (if llcp_union c ! 1 \<noteq> 0
                          then (let (pdu, c) = event_enc_reject_prep c in ctrl_tx_enqueue pdu c)
                          else start_encryption ecb c)
                       else
                         (let (pdu, c) = start_enc_rsp_send c
                          in ctrl_tx_enqueue pdu (c\<lparr>llcp_enc := (llcp_enc c)\<lparr>enc_pause_rx := False, enc_pause_tx := False\<rparr>\<rparr>)))
              in c\<lparr>llcp_ack := llcp_req c\<rparr>)))"

subsection \<open>Features and versions\<close>

definition event_fex_prep :: "ll_conn \<Rightarrow> ll_conn" where
  "event_fex_prep c =
     (if (feature_ack c - feature_req c) AND 1 = 0 then c
      else if fex_valid c then
        (case rx_notify NODE_RX_TYPE_DC_PDU (PDU_DATA_LLCTRL_TYPE_FEATURE_RSP # le_bytes 3 (features c) @ replicate 5 0) c of
           None \<Rightarrow> c
         | Some c \<Rightarrow> c\<lparr>feature_ack := feature_req c\<rparr>)
      else
        (case mem_acquire c of
           None \<Rightarrow> c
         | Some c \<Rightarrow>
             (let c = c\<lparr>feature_ack := feature_ack c - 1, features := ll_feat c\<rparr>
              in set_procedure_expire (procedure_reload (conn_lll c))
                   (ctrl_tx_enqueue (PDU_DATA_LLCTRL_TYPE_SLAVE_FEATURE_REQ # le_bytes 3 (features c) @ replicate 5 0) c))))"

definition event_vex_prep :: "ll_conn \<Rightarrow> ll_conn cres" where
  "event_vex_prep c =
     (let v = llcp_version c in
      if (ver_ack v - ver_req v) AND 1 = 0 then Inr c
      else if \<not> ver_tx v then
        (case mem_acquire c of
           None \<Rightarrow> Inr c
         | Some c \<Rightarrow>
             Inr (set_procedure_expire (procedure_reload (conn_lll c))
               (ctrl_tx_enqueue (PDU_DATA_LLCTRL_TYPE_VERSION_IND # version_local c)
                 (c\<lparr>llcp_version := v\<lparr>ver_ack := ver_ack v - 1, ver_tx := True\<rparr>\<rparr>))))
      else if ver_rx v then
        (case rx_notify NODE_RX_TYPE_DC_PDU (PDU_DATA_LLCTRL_TYPE_VERSION_IND # ver_version_number v #
                le_bytes 2 (ver_company_id v) @ le_bytes 2 (ver_sub_version_number v)) c of
           None \<Rightarrow> Inr c
         | Some c \<Rightarrow> Inr (c\<lparr>llcp_version := v\<lparr>ver_ack := ver_req v\<rparr>\<rparr>))
      else Inl Assert_failed)"

subsection \<open>Connection parameters\<close>

definition cpr_pdu :: "u8 \<Rightarrow> llcp_conn_param \<Rightarrow> u8 list" where
  "cpr_pdu opcode cpr =
     opcode # le_bytes 2 (cpr_interval_min cpr) @ le_bytes 2 (cpr_interval_max cpr) @ le_bytes 2 (cpr_latency cpr) @
     le_bytes 2 (cpr_timeout cpr)"

definition event_conn_param_req :: "u16 \<Rightarrow> ll_conn \<Rightarrow> ll_conn" where
  "event_conn_param_req ctr c =
     (case mem_acquire c of
        None \<Rightarrow> c
      | Some c \<Rightarrow>
          set_procedure_expire (procedure_reload (conn_lll c))
            (ctrl_tx_enqueue (cpr_pdu PDU_DATA_LLCTRL_TYPE_CONN_PARAM_REQ (llcp_conn_param c) @
                [0] @ le_bytes 2 ctr @ [0, 0] @ replicate 10 0xFF)
              (c\<lparr>llcp_conn_param := (llcp_conn_param c)\<lparr>cpr_state := LLCP_CPR_STATE_RSP_WAIT\<rparr>, conn_upd_curr := This_conn\<rparr>)))"

definition event_conn_param_rsp :: "ll_conn \<Rightarrow> ll_conn" where
  "event_conn_param_rsp c =
     (case mem_acquire c of
        None \<Rightarrow> c
      | Some c \<Rightarrow>
          (let cpr = llcp_conn_param c
           in ctrl_tx_enqueue
                (if cpr_status cpr \<noteq> 0
                 then [PDU_DATA_LLCTRL_TYPE_REJECT_EXT_IND, PDU_DATA_LLCTRL_TYPE_CONN_PARAM_REQ, cpr_status cpr]
                 else cpr_pdu PDU_DATA_LLCTRL_TYPE_CONN_PARAM_RSP cpr @ [cpr_preferred_periodicity cpr] @
                      le_bytes 2 (cpr_reference_conn_event_count cpr) @ concat (map (le_bytes 2) (cpr_offsets cpr)))
                (c\<lparr>llcp_conn_param := cpr\<lparr>cpr_ack := cpr_req cpr\<rparr>, conn_upd_curr := No_conn\<rparr>)))"

definition event_conn_param_app_req :: "ll_conn \<Rightarrow> ll_conn" where
  "event_conn_param_app_req c =
     (if enc_pause_tx (llcp_enc c) then c
      else
        (case rx_notify NODE_RX_TYPE_DC_PDU (cpr_pdu PDU_DATA_LLCTRL_TYPE_CONN_PARAM_REQ (llcp_conn_param c)) c of
           None \<Rightarrow> c
         | Some c \<Rightarrow> c\<lparr>llcp_conn_param := (llcp_conn_param c)\<lparr>cpr_state := LLCP_CPR_STATE_APP_WAIT\<rparr>\<rparr>))"

definition event_conn_param_prep :: "u16 \<Rightarrow> ll_conn \<Rightarrow> ll_conn" where
  "event_conn_param_prep ctr c =
     (if conn_upd_curr c = Other_conn then c
      else
        (case cpr_state (llcp_conn_param c) of
           LLCP_CPR_STATE_REQ \<Rightarrow> event_conn_param_req ctr c
         | LLCP_CPR_STATE_RSP \<Rightarrow> event_conn_param_rsp c
         | LLCP_CPR_STATE_APP_REQ \<Rightarrow> event_conn_param_app_req c
         | _ \<Rightarrow> c))"

subsection \<open>Ping\<close>

definition event_ping_prep :: "ll_conn \<Rightarrow> ll_conn" where
  "event_ping_prep c =
     (case mem_acquire c of
        None \<Rightarrow> c
      | Some c \<Rightarrow> set_procedure_expire (procedure_reload (conn_lll c))
          (ctrl_tx_enqueue [PDU_DATA_LLCTRL_TYPE_PING_REQ] (c\<lparr>llcp_ack := llcp_req c\<rparr>)))"

subsection \<open>Data length\<close>

text \<open>The procedure is complete, unless the host asked for another one meanwhile.\<close>

definition length_next :: "ll_conn \<Rightarrow> ll_conn" where
  "length_next c =
     (let l = llcp_length c in
      if len_cache_tx_octets l = 0
      then set_procedure_expire 0 (c\<lparr>llcp_length := l\<lparr>len_ack := len_req l\<rparr>\<rparr>)
      else c\<lparr>llcp_length := l\<lparr>len_tx_octets := len_cache_tx_octets l, len_cache_tx_octets := 0, len_tx_time := len_cache_tx_time l,
                              len_state := LLCP_LENGTH_STATE_REQ\<rparr>\<rparr>)"

definition length_request :: "ll_conn \<Rightarrow> ll_conn" where
  "length_request c =
     (case mem_acquire c of
        None \<Rightarrow> c
      | Some c \<Rightarrow>
          (let l = llcp_length c;
               c = c\<lparr>llcp_length := l\<lparr>len_state := LLCP_LENGTH_STATE_REQ_ACK_WAIT\<rparr>,
                     default_tx_octets := len_tx_octets l, default_tx_time := len_tx_time l\<rparr>;
               (rx_time, tx_time) = dle_max_time_get c
           in set_procedure_expire (procedure_reload (conn_lll c))
                (ctrl_tx_enqueue (PDU_DATA_LLCTRL_TYPE_LENGTH_REQ #
                   length_pdu (octets_rx_max c) rx_time (default_tx_octets c) tx_time) c)))"

definition length_resize :: "ll_conn \<Rightarrow> ll_conn cres" where
  "length_resize c =
     (let l = llcp_length c;
          c = c\<lparr>conn_link := (conn_link c)\<lparr>max_rx_octets := len_rx_octets l, max_rx_time := len_rx_time l\<rparr>\<rparr>;
          c = (if len_state l = LLCP_LENGTH_STATE_RESIZE then length_next c
               else c\<lparr>llcp_length := l\<lparr>len_state := LLCP_LENGTH_STATE_RESIZE_RSP_ACK_WAIT\<rparr>\<rparr>)
      in LL_ASSERT (llcp_rx c \<noteq> [])
           (Inr (ll_rx_put NODE_RX_TYPE_DC_PDU
              (PDU_DATA_LLCTRL_TYPE_LENGTH_RSP #
                 length_pdu (max_rx_octets (conn_link c)) (max_rx_time (conn_link c)) (len_tx_octets l) (len_tx_time l))
              (c\<lparr>llcp_rx := tl (llcp_rx c)\<rparr>))))"

definition event_len_prep :: "ll_conn \<Rightarrow> ll_conn cres" where
  "event_len_prep c =
     (case len_state (llcp_length c) of
        LLCP_LENGTH_STATE_REQ \<Rightarrow> Inr (length_request c)
      | LLCP_LENGTH_STATE_RESIZE \<Rightarrow> length_resize c
      | LLCP_LENGTH_STATE_RESIZE_RSP \<Rightarrow> length_resize c
      | _ \<Rightarrow> Inr c)"

definition calc_eff_time :: "u8 \<Rightarrow> 3 word \<Rightarrow> u16 \<Rightarrow> u16" where
  "calc_eff_time max_octets phy default_time = min (max 328 (word_of_nat (PKT_US (unat max_octets) (unat phy)))) default_time"

subsection \<open>PHY\<close>

definition select_phy :: "3 word \<Rightarrow> 3 word" where
  "select_phy w = (if bit w 1 then 2 else if bit w 0 then 1 else if bit w 2 then 4 else 0)"

text \<open>The fields of \<open>phy_upd_ind\<close> in the first byte of the union.\<close>

abbreviation (input) pu_tx :: "u8 list \<Rightarrow> 3 word" where "pu_tx u \<equiv> ucast (drop_bit 2 (u ! 0))"
abbreviation (input) pu_rx :: "u8 list \<Rightarrow> 3 word" where "pu_rx u \<equiv> ucast (drop_bit 5 (u ! 0))"

abbreviation (input) pu_byte :: "bool \<Rightarrow> bool \<Rightarrow> 3 word \<Rightarrow> 3 word \<Rightarrow> u8" where
  "pu_byte initiate cmd tx rx \<equiv> of_bool initiate OR push_bit 1 (of_bool cmd) OR push_bit 2 (ucast tx) OR push_bit 5 (ucast rx)"

definition event_phy_req_prep :: "ll_conn \<Rightarrow> ll_conn" where
  "event_phy_req_prep c =
     (let phy = llcp_phy c; link = conn_link c in
      case phy_state phy of
        LLCP_PHY_STATE_REQ \<Rightarrow>
          (case mem_acquire c of
             None \<Rightarrow> c
           | Some c \<Rightarrow>
               set_procedure_expire (procedure_reload (conn_lll c))
                 (ctrl_tx_enqueue [PDU_DATA_LLCTRL_TYPE_PHY_REQ, ucast (phy_tx phy), ucast (phy_rx phy)]
                   (c\<lparr>llcp_phy := phy\<lparr>phy_state := LLCP_PHY_STATE_ACK_WAIT\<rparr>,
                      phy_pref_tx := phy_tx phy, phy_pref_rx := phy_rx phy, phy_pref_flags := phy_flags phy\<rparr>)))
      | LLCP_PHY_STATE_UPD \<Rightarrow>
          if llcp_ack c \<noteq> llcp_req c then c
          else
            (let tx = select_phy (phy_tx phy); rx = select_phy (phy_rx phy)
             in llcp_start LLCP_PHY_UPD
                  (c\<lparr>llcp_phy := phy\<lparr>phy_ack := phy_req phy, phy_tx := tx, phy_rx := rx\<rparr>,
                     llcp_union := (llcp_union c)[0 := pu_byte True (phy_cmd phy)
                       (if tx \<noteq> lll_phy_tx link then tx else 0) (if rx \<noteq> lll_phy_rx link then rx else 0)]\<rparr>))
      | _ \<Rightarrow> c)"

text \<open>This device chose the PHYs: it tells the peer, and reserves the nodes for the notifications at the instant.\<close>

definition phy_upd_initiate :: "u16 \<Rightarrow> ll_conn \<Rightarrow> ll_conn" where
  "phy_upd_initiate ctr c =
     (if rx_free c < 2 then c
      else
        (case mem_acquire c of
           None \<Rightarrow> c
         | Some c \<Rightarrow>
             (let u = (llcp_union c)[0 := llcp_union c ! 0 AND NOT 1];
                  link = conn_link c; none = (pu_tx u OR pu_rx u = 0); node = \<lparr>rx_type = 0, rx_pdu = []\<rparr>;
                  instant = (if none then 0 else ctr + conn_latency (conn_lll c) + 6);
                  c = c\<lparr>llcp_union := put_bytes 2 (le_bytes 2 instant) u\<rparr>;
                  c = (if none then
                         (let c = c\<lparr>llcp_ack := llcp_req c\<rparr>
                          in if bit (u ! 0) 1
                             then ll_rx_put NODE_RX_TYPE_PHY_UPDATE [0, ucast (lll_phy_tx link), ucast (lll_phy_rx link)]
                                    (c\<lparr>rx_free := rx_free c - 1\<rparr>)
                             else c)
                       else c\<lparr>rx_free := rx_free c - 2, llcp_rx := node # node # llcp_rx c\<rparr>)
              in ctrl_tx_enqueue ([PDU_DATA_LLCTRL_TYPE_PHY_UPD_IND, ucast (pu_tx u), ucast (pu_rx u)] @ le_bytes 2 instant) c)))"

text \<open>The new PHYs are in force; two reserved nodes go to the host, for the PHYs and for the lengths.\<close>

definition phy_upd_apply :: "ll_conn \<Rightarrow> ll_conn cres" where
  "phy_upd_apply c =
     (let u = llcp_union c; link = conn_link c;
          (max_rx_time', max_tx_time') = dle_max_time_get c;
          tx = (if pu_tx u \<noteq> 0 then pu_tx u else lll_phy_tx link);
          rx = (if pu_rx u \<noteq> 0 then pu_rx u else lll_phy_rx link);
          eff_tx = (if pu_tx u \<noteq> 0 then calc_eff_time (ucast (max_tx_octets link)) tx max_tx_time' else max_tx_time link);
          eff_rx = (if pu_rx u \<noteq> 0 then calc_eff_time (ucast (max_rx_octets link)) rx max_rx_time' else max_rx_time link);
          unchanged = (\<not> bit (u ! 0) 1 \<and> tx = lll_phy_tx link \<and> rx = lll_phy_rx link);
          same = (eff_tx \<le> max_tx_time link \<and> max_tx_time link \<le> max_tx_time' \<and>
                  eff_rx \<le> max_rx_time link \<and> max_rx_time link \<le> max_rx_time');
          link = link\<lparr>lll_phy_tx := tx, lll_phy_rx := rx, lll_phy_flags := phy_pref_flags c\<rparr>;
          c = c\<lparr>llcp_ack := llcp_req c, conn_link := link\<rparr>
      in LL_ASSERT (llcp_rx c \<noteq> [])
           (let c = (if unchanged then ll_rx_put NODE_RX_TYPE_DC_PDU_RELEASE [] (c\<lparr>llcp_rx := tl (llcp_rx c)\<rparr>)
                     else ll_rx_put NODE_RX_TYPE_PHY_UPDATE [0, ucast tx, ucast rx] (c\<lparr>llcp_rx := tl (llcp_rx c)\<rparr>))
            in LL_ASSERT (llcp_rx c \<noteq> [])
                 (let c = c\<lparr>llcp_rx := tl (llcp_rx c)\<rparr>
                  in Inr (if unchanged \<or> same then ll_rx_put NODE_RX_TYPE_DC_PDU_RELEASE [] c
                          else
                            ll_rx_put NODE_RX_TYPE_DC_PDU
                              (PDU_DATA_LLCTRL_TYPE_LENGTH_RSP # length_pdu (max_rx_octets link) eff_rx (max_tx_octets link) eff_tx)
                              (c\<lparr>conn_link := link\<lparr>max_tx_time := eff_tx, max_rx_time := eff_rx\<rparr>\<rparr>)))))"

definition event_phy_upd_ind_prep :: "u16 \<Rightarrow> ll_conn \<Rightarrow> ll_conn cres" where
  "event_phy_upd_ind_prep ctr c =
     (if bit (llcp_union c ! 0) 0 then Inr (phy_upd_initiate ctr c)
      else
        c_bind (read_le16 (llcp_union c) 2) (\<lambda>instant.
        if ctr - instant \<le> 0x7FFF then phy_upd_apply c else Inr c))"

subsection \<open>Connection update\<close>

definition event_conn_upd_init :: "u16 \<Rightarrow> ll_conn \<Rightarrow> ll_conn" where
  "event_conn_upd_init ctr c =
     (let cu = llcp_cu c; instant = ctr + conn_latency (conn_lll c) + 6
      in ctrl_tx_enqueue
           ([PDU_DATA_LLCTRL_TYPE_CONN_UPDATE_IND, cu_win_size cu] @ le_bytes 2 (cu_win_offset_us cu div 1250) @
            le_bytes 2 (cu_new_interval cu) @ le_bytes 2 (cu_latency cu) @ le_bytes 2 (cu_timeout cu) @ le_bytes 2 instant)
           (c\<lparr>llcp_cu := cu\<lparr>cu_state := LLCP_CUI_STATE_INPROG\<rparr>, llcp_union := put_bytes 0 (le_bytes 2 instant) (llcp_union c)\<rparr>))"

text \<open>The procedure is complete: the requests are acknowledged, the mutex is free, the host is told of a change.\<close>

definition conn_upd_complete :: "ll_conn \<Rightarrow> ll_conn cres" where
  "conn_upd_complete c =
     (let cu = llcp_cu c; cpr = llcp_conn_param c; lll = conn_lll c;
          c = c\<lparr>llcp_cu := cu\<lparr>cu_ack := cu_req cu\<rparr>, llcp_ack := llcp_req c\<rparr>;
          c = (if cpr_req cpr \<noteq> cpr_ack cpr \<and> cpr_state cpr = LLCP_CPR_STATE_UPD
               then set_procedure_expire 0 (c\<lparr>llcp_conn_param := cpr\<lparr>cpr_ack := cpr_req cpr\<rparr>\<rparr>) else c);
          c = c\<lparr>conn_upd_curr := (if conn_upd_curr c = This_conn then No_conn else conn_upd_curr c)\<rparr>
      in LL_ASSERT (llcp_rx c \<noteq> [])
           (c_bind
              (if cu_new_interval cu \<noteq> interval lll \<or> cu_latency cu \<noteq> conn_latency lll then Inr True
               else c_bind (RADIO_CONN_EVENTS (ucast (cu_timeout cu) * 10000) (ucast (interval lll) * 1250))
                      (\<lambda>n. Inr (n \<noteq> supervision_reload lll)))
              (\<lambda>changed.
               let c = c\<lparr>llcp_rx := tl (llcp_rx c)\<rparr>
               in Inr (if changed
                       then ll_rx_put NODE_RX_TYPE_CONN_UPDATE
                              (0 # le_bytes 2 (cu_new_interval cu) @ le_bytes 2 (cu_latency cu) @ le_bytes 2 (cu_timeout cu)) c
                       else ll_rx_put NODE_RX_TYPE_DC_PDU_RELEASE [] c))))"

text \<open>The receive window of the new interval; \<open>lat\<close> is the number of new intervals since the instant.\<close>

definition conn_upd_window :: "u8 \<Rightarrow> u16 \<Rightarrow> u16 \<Rightarrow> ll_conn \<Rightarrow> ll_conn cres" where
  "conn_upd_window local_sca instant_latency lat c =
     (let lll = conn_lll c; link = conn_link c; cu = llcp_cu c; us = ucast (cu_new_interval cu) * 1250 :: u32
      in c_bind (lll_conn_ppm_get local_sca) (\<lambda>ppm_local.
         c_bind (lll_conn_ppm_get (ucast (slave_sca lll))) (\<lambda>ppm_peer.
         let prepare = window_widening_prepare_us link - window_widening_periodic_us lll * ucast instant_latency;
             periodic = ((ppm_local + ppm_peer) * us + (1000000 - 1)) div 1000000;
             max_us = drop_bit 1 us - EVENT_IFS_US;
             prepare = prepare + periodic * ucast lat
         in Inr (c\<lparr>conn_lll := lll\<lparr>window_widening_periodic_us := periodic, window_widening_max_us := max_us\<rparr>,
                   conn_link := link\<lparr>window_size_prepare_us := ucast (cu_win_size cu) * 1250,
                                     window_widening_prepare_us := (if prepare > max_us then max_us else prepare)\<rparr>,
                   ticks_to_offset := 0\<rparr>))))"

definition conn_upd_timeouts :: "ll_conn \<Rightarrow> ll_conn cres" where
  "conn_upd_timeouts c =
     (let cu = llcp_cu c; us = ucast (cu_new_interval cu) * 1250 :: u32;
          lll = (conn_lll c)\<lparr>interval := cu_new_interval cu, conn_latency := cu_latency cu\<rparr>
      in c_bind (RADIO_CONN_EVENTS (ucast (cu_timeout cu) * 10 * 1000) us) (\<lambda>supervision.
         c_bind (RADIO_CONN_EVENTS (40 * 1000 * 1000) us) (\<lambda>procedure.
         c_bind (RADIO_CONN_EVENTS (30 * 1000 * 1000) us) (\<lambda>apto.
         Inr (c\<lparr>conn_lll := lll\<lparr>supervision_reload := supervision, procedure_reload := procedure, apto_reload := apto,
                  appto_reload := (if uint apto > uint (conn_latency lll) + 6
                                   then word_of_int (uint apto - (uint (conn_latency lll) + 6)) else apto)\<rparr>,
                conn_tm := (if cu_cmd cu then (conn_tm c)\<lparr>supervision_expire := 0\<rparr> else conn_tm c)\<rparr>)))))"

definition conn_upd_apply :: "u8 \<Rightarrow> u16 \<Rightarrow> u16 \<Rightarrow> ll_conn \<Rightarrow> ll_conn cres" where
  "conn_upd_apply local_sca lazy instant_latency c =
     c_bind (conn_upd_complete c) (\<lambda>c.
     let new = cu_new_interval (llcp_cu c); old = instant_latency * interval (conn_lll c)
     in if new = 0 then Inl Div_zero
        else
          (let lat = old div new
           in c_bind (conn_upd_window local_sca instant_latency lat
                        (c\<lparr>latency_prepare_acc := latency_prepare_acc c + lazy - (instant_latency - lat)\<rparr>))
                conn_upd_timeouts))"

text \<open>Whether the update was applied, which cancels the event: it is scheduled anew.\<close>

definition event_conn_upd_prep :: "u8 \<Rightarrow> u16 \<Rightarrow> ll_conn \<Rightarrow> (bool \<times> ll_conn) cres" where
  "event_conn_upd_prep local_sca lazy c =
     (let c = c\<lparr>conn_upd_curr := (if conn_upd_curr c = No_conn then This_conn else conn_upd_curr c)\<rparr>;
          ctr = event_counter c + latency_prepare_acc c + lazy
      in c_bind (read_le16 (llcp_union c) 0) (\<lambda>instant.
         if cu_state (llcp_cu c) \<noteq> LLCP_CUI_STATE_INPROG then
           (if rx_free c = 0 then Inr (False, c)
            else
              (case mem_acquire c of
                 None \<Rightarrow> Inr (False, c)
               | Some c \<Rightarrow> Inr (False, event_conn_upd_init ctr
                   (c\<lparr>rx_free := rx_free c - 1, llcp_rx := \<lparr>rx_type = 0, rx_pdu = []\<rparr> # llcp_rx c\<rparr>))))
         else if ctr - instant \<le> 0x7FFF then c_bind (conn_upd_apply local_sca lazy (ctr - instant) c) (\<lambda>c. Inr (True, c))
         else Inr (False, c)))"

subsection \<open>All procedures\<close>

text \<open>The procedures that may start an event, in their order, if none with an instant is under way.\<close>

definition llcp_requests :: "u16 \<Rightarrow> ll_conn \<Rightarrow> ll_conn cres" where
  "llcp_requests ctr c =
     (if llcp_ack c = llcp_req c \<and> \<not> enc_pause_rx (llcp_enc c) then
        (if cu_ack (llcp_cu c) \<noteq> cu_req (llcp_cu c) then Inr (llcp_start LLCP_CONN_UPD c)
         else if feature_ack c \<noteq> feature_req c then Inr (event_fex_prep c)
         else if ver_ack (llcp_version c) \<noteq> ver_req (llcp_version c) then event_vex_prep c
         else if cpr_ack (llcp_conn_param c) \<noteq> cpr_req (llcp_conn_param c) then Inr (event_conn_param_prep ctr c)
         else if len_ack (llcp_length c) \<noteq> len_req (llcp_length c) then event_len_prep c
         else if phy_ack (llcp_phy c) \<noteq> phy_req (llcp_phy c) then Inr (event_phy_req_prep c)
         else Inr c)
      else Inr c)"

definition llcp_instants ::
  "u8 \<Rightarrow> (u8 list \<Rightarrow> u8 list \<Rightarrow> u8 list) \<Rightarrow> u8 list \<Rightarrow> u16 \<Rightarrow> ll_conn \<Rightarrow> (bool \<times> ll_conn) cres" where
  "llcp_instants local_sca ecb random lazy c =
     (if llcp_active c then
        c_bind
          (if len_ack (llcp_length c) \<noteq> len_req (llcp_length c) \<and>
              (len_state (llcp_length c) = LLCP_LENGTH_STATE_RESIZE \<or> len_state (llcp_length c) = LLCP_LENGTH_STATE_RESIZE_RSP)
           then event_len_prep c else Inr c)
          (\<lambda>c. let ctr = event_counter c + latency_prepare_acc c + lazy in
           case llcp_type c of
             LLCP_CONN_UPD \<Rightarrow> event_conn_upd_prep local_sca lazy c
           | LLCP_CHAN_MAP \<Rightarrow> c_bind (event_ch_map_prep ctr c) (\<lambda>c. Inr (False, c))
           | LLCP_ENCRYPTION \<Rightarrow> Inr (False, event_enc_prep ecb random c)
           | LLCP_PING \<Rightarrow> Inr (False, event_ping_prep c)
           | LLCP_PHY_UPD \<Rightarrow> c_bind (event_phy_upd_ind_prep ctr c) (\<lambda>c. Inr (False, c))
           | _ \<Rightarrow> Inl Assert_failed)
      else Inr (False, c))"

definition llcp_termination :: "ll_conn \<Rightarrow> ll_conn" where
  "llcp_termination c =
     (if term_ack c \<noteq> term_req c then
        (let c = (case mem_acquire c of
                    None \<Rightarrow> c
                  | Some c \<Rightarrow> ctrl_tx_enqueue [PDU_DATA_LLCTRL_TYPE_TERMINATE_IND, reason_own c] (c\<lparr>term_ack := term_req c\<rparr>));
             n = supervision_reload (conn_lll c)
         in if procedure_expire (conn_tm c) = 0 then set_procedure_expire (if n \<le> 1 then n + 1 else n) c else c)
      else c)"

definition ull_conn_llcp ::
  "u8 \<Rightarrow> (u8 list \<Rightarrow> u8 list \<Rightarrow> u8 list) \<Rightarrow> u8 list \<Rightarrow> u16 \<Rightarrow> ll_conn \<Rightarrow> (bool \<times> ll_conn) cres" where
  "ull_conn_llcp local_sca ecb random lazy c =
     c_bind (llcp_requests (event_counter c + latency_prepare_acc c + lazy) c) (\<lambda>c.
     c_bind (llcp_instants local_sca ecb random lazy c) (\<lambda>(cancelled, c).
     Inr (cancelled, if cancelled then c else llcp_termination c)))"

section \<open>Events\<close>

text \<open>The start of \<open>prepare_cb\<close>: the receive window, the event counter and the channel.\<close>

definition prepare_cb :: "u16 \<Rightarrow> ll_conn \<Rightarrow> (u8 \<times> ll_conn) cres" where
  "prepare_cb lazy c =
     (let lll = conn_lll c; link = conn_link c; cap = (\<lambda>w. if w > window_widening_max_us lll then window_widening_max_us lll else w);
          prepare = cap (window_widening_prepare_us link + window_widening_periodic_us lll * (ucast lazy + 1));
          latency = latency_prepare_acc c + lazy; next = event_counter c + latency + 1
      in c_bind (slave_event (next, latency) lll) (\<lambda>(chan, lll).
         Inr (chan, c\<lparr>conn_lll := lll\<lparr>window_size_event_us := window_size_event_us lll + window_size_prepare_us link\<rparr>,
                      conn_link := link\<lparr>window_widening_event_us := cap (window_widening_event_us link + prepare),
                                        window_widening_prepare_us := 0, window_size_prepare_us := 0\<rparr>,
                      conn_tm := (conn_tm c)\<lparr>latency_event := latency\<rparr>,
                      event_counter := next, latency_prepare_acc := 0\<rparr>)))"

text \<open>The ticker callback: the procedures, then the event, unless it was cancelled. The channel, if there was an event.\<close>

definition ull_slave_ticker_cb ::
  "u8 \<Rightarrow> (u8 list \<Rightarrow> u8 list \<Rightarrow> u8 list) \<Rightarrow> u8 list \<Rightarrow> u16 \<Rightarrow> ll_conn \<Rightarrow> (u8 option \<times> ll_conn) cres" where
  "ull_slave_ticker_cb local_sca ecb random lazy c =
     c_bind (ull_conn_llcp local_sca ecb random lazy c) (\<lambda>(cancelled, c).
     if cancelled then Inr (None, c) else c_bind (prepare_cb lazy c) (\<lambda>(chan, c). Inr (Some chan, c)))"

section \<open>Acknowledged packets\<close>

text \<open>A control packet goes to the link layer.\<close>

definition ctrl_tx_pre_ack :: "u8 list \<Rightarrow> ll_conn \<Rightarrow> ll_conn" where
  "ctrl_tx_pre_ack pdu c =
     (let opcode = hd pdu in
      if opcode \<in> {PDU_DATA_LLCTRL_TYPE_PAUSE_ENC_RSP, PDU_DATA_LLCTRL_TYPE_ENC_REQ, PDU_DATA_LLCTRL_TYPE_ENC_RSP,
                   PDU_DATA_LLCTRL_TYPE_PAUSE_ENC_REQ}
      then c\<lparr>llcp_enc := (llcp_enc c)\<lparr>enc_pause_tx := True\<rparr>\<rparr>
      else if opcode \<in> {PDU_DATA_LLCTRL_TYPE_PHY_REQ, PDU_DATA_LLCTRL_TYPE_PHY_RSP}
      then c\<lparr>llcp_phy := (llcp_phy c)\<lparr>phy_pause_tx := True\<rparr>\<rparr>
      else c)"

definition length_rsp_ack :: "ll_conn \<Rightarrow> ll_conn" where
  "length_rsp_ack c =
     (let l = llcp_length c in
      if len_req l \<noteq> len_ack l \<and>
         len_state l \<in> {LLCP_LENGTH_STATE_RSP_ACK_WAIT, LLCP_LENGTH_STATE_RESIZE_RSP, LLCP_LENGTH_STATE_RESIZE_RSP_ACK_WAIT}
      then
        (let c = c\<lparr>conn_link := (conn_link c)\<lparr>max_tx_octets := len_tx_octets l, max_tx_time := len_tx_time l\<rparr>\<rparr>
         in if len_state l = LLCP_LENGTH_STATE_RESIZE_RSP then c\<lparr>llcp_length := l\<lparr>len_state := LLCP_LENGTH_STATE_RESIZE\<rparr>\<rparr>
            else length_next c)
      else c)"

text \<open>The peer acknowledged a control packet; the reason if this ended the connection.\<close>

definition ctrl_tx_ack :: "u8 list \<Rightarrow> ll_conn \<Rightarrow> u8 option \<times> ll_conn" where
  "ctrl_tx_ack pdu c =
     (let opcode = hd pdu; enc = llcp_enc c; phy = llcp_phy c; link = conn_link c in
      if opcode = PDU_DATA_LLCTRL_TYPE_TERMINATE_IND then
        (Some (if pdu ! 1 = BT_HCI_ERR_REMOTE_USER_TERM_CONN then BT_HCI_ERR_LOCALHOST_TERM_CONN else pdu ! 1), c)
      else if opcode = PDU_DATA_LLCTRL_TYPE_ENC_REQ then
        (None, set_procedure_expire (procedure_reload (conn_lll c))
           (c\<lparr>llcp_union := put_bytes 2 (take 8 (drop 11 pdu)) (llcp_union c),
              conn_link := link\<lparr>ccm_rx := (ccm_rx link)\<lparr>ccm_iv := put_bytes 0 (take 4 (drop 19 pdu)) (ccm_iv (ccm_rx link))\<rparr>\<rparr>,
              llcp_enc := enc\<lparr>enc_pause_tx := True\<rparr>\<rparr>))
      else if opcode = PDU_DATA_LLCTRL_TYPE_ENC_RSP \<or> opcode = PDU_DATA_LLCTRL_TYPE_PAUSE_ENC_RSP then
        (None, c\<lparr>llcp_enc := enc\<lparr>enc_pause_tx := True\<rparr>\<rparr>)
      else if opcode = PDU_DATA_LLCTRL_TYPE_PAUSE_ENC_REQ then
        (None, set_procedure_expire (procedure_reload (conn_lll c)) (c\<lparr>llcp_enc := enc\<lparr>enc_pause_tx := True, enc_refresh := True\<rparr>\<rparr>))
      else if opcode = PDU_DATA_LLCTRL_TYPE_REJECT_IND \<or>
              opcode = PDU_DATA_LLCTRL_TYPE_REJECT_EXT_IND \<and> pdu ! 1 = PDU_DATA_LLCTRL_TYPE_ENC_REQ then
        (None, set_procedure_expire 0 (c\<lparr>llcp_enc := enc\<lparr>enc_pause_rx := False, enc_pause_tx := False\<rparr>\<rparr>))
      else if opcode = PDU_DATA_LLCTRL_TYPE_LENGTH_REQ then
        (None, c\<lparr>llcp_length := (llcp_length c)\<lparr>len_state := LLCP_LENGTH_STATE_RSP_WAIT\<rparr>\<rparr>)
      else if opcode = PDU_DATA_LLCTRL_TYPE_LENGTH_RSP then (None, length_rsp_ack c)
      else if opcode = PDU_DATA_LLCTRL_TYPE_PHY_REQ \<or> opcode = PDU_DATA_LLCTRL_TYPE_PHY_RSP then
        (let phy = (if opcode = PDU_DATA_LLCTRL_TYPE_PHY_REQ then phy\<lparr>phy_state := LLCP_PHY_STATE_RSP_WAIT\<rparr> else phy)
         in (None, c\<lparr>conn_link := link\<lparr>lll_phy_tx_time := [1, 1, 2, 1, 4, 4, 4, 4] ! unat (phy_tx phy OR lll_phy_tx link)\<rparr>,
                     llcp_phy := phy\<lparr>phy_pause_tx := False\<rparr>\<rparr>))
      else if opcode = PDU_DATA_LLCTRL_TYPE_PHY_UPD_IND then
        (None, c\<lparr>conn_link := link\<lparr>lll_phy_tx_time := pu_tx (llcp_union c)\<rparr>, llcp_phy := phy\<lparr>phy_pause_tx := False\<rparr>\<rparr>)
      else (None, c))"

text \<open>The acknowledgement of the \<open>i\<close>th queued control packet, whose node becomes free.\<close>

definition ull_conn_tx_ack :: "nat \<Rightarrow> ll_conn \<Rightarrow> u8 option \<times> ll_conn" where
  "ull_conn_tx_ack i c =
     (if i < length (tx_queue c)
      then ctrl_tx_ack (tx_queue c ! i) (c\<lparr>tx_queue := take i (tx_queue c) @ drop (Suc i) (tx_queue c), tx_free := tx_free c + 1\<rparr>)
      else (None, c))"

section \<open>The end of an event\<close>

datatype mic_state = LLL_CONN_MIC_NONE | LLL_CONN_MIC_PASS | LLL_CONN_MIC_FAIL

text \<open>The authenticated payload timeouts restart if the link is encrypted and no authenticated packet came.\<close>

definition done_mic :: "mic_state \<Rightarrow> ll_conn \<Rightarrow> ll_conn" where
  "done_mic mic c =
     (case mic of
        LLL_CONN_MIC_NONE \<Rightarrow>
          if lll_enc_rx (conn_link c) \<or> enc_pause_rx (llcp_enc c) then
            (let lll = conn_lll c; apto = apto_reload lll;
                 new = (if uint apto > uint (conn_latency lll) + 6
                        then word_of_int (uint apto - (uint (conn_latency lll) + 6)) else apto);
                 c = (if appto_reload lll \<noteq> new then c\<lparr>conn_lll := lll\<lparr>appto_reload := new\<rparr>, apto_expire := 0\<rparr> else c)
             in if apto_expire c = 0 then c\<lparr>appto_expire := appto_reload (conn_lll c), apto_expire := apto\<rparr> else c)
          else c
      | LLL_CONN_MIC_PASS \<Rightarrow> c\<lparr>appto_expire := 0, apto_expire := 0\<rparr>
      | LLL_CONN_MIC_FAIL \<Rightarrow> c\<lparr>reason_peer := BT_HCI_ERR_TERM_DUE_TO_MIC_FAIL\<rparr>)"

definition done_apto :: "u16 \<Rightarrow> ll_conn \<Rightarrow> ll_conn" where
  "done_apto elapsed c =
     (let c = (if apto_expire c \<noteq> 0 then
                 (if apto_expire c > elapsed then c\<lparr>apto_expire := apto_expire c - elapsed\<rparr>
                  else (case rx_notify NODE_RX_TYPE_APTO [] c of
                          None \<Rightarrow> c\<lparr>apto_expire := 1\<rparr>
                        | Some c \<Rightarrow> c\<lparr>apto_expire := 0\<rparr>))
               else c)
      in if appto_expire c \<noteq> 0 then
           (if appto_expire c > elapsed then c\<lparr>appto_expire := appto_expire c - elapsed\<rparr>
            else
              (let c = c\<lparr>appto_expire := 0\<rparr>
               in if procedure_expire (conn_tm c) = 0 \<and> llcp_req c = llcp_ack c then llcp_start LLCP_PING c else c))
         else c)"

text \<open>The end of an event, with the latency of the next ones; the reason if the connection ended.\<close>

definition ull_conn_done :: "mic_state \<Rightarrow> conn_done \<Rightarrow> ll_conn \<Rightarrow> u8 + ll_conn" where
  "ull_conn_done mic ev c =
     (let c = done_mic mic c in
      if reason_peer c \<noteq> 0 then Inl (reason_peer c)
      else
        (case conn_done_timeouts (conn_lll c) ev (conn_tm c) of
           Closed reason \<Rightarrow> Inl reason
         | Open force t \<Rightarrow>
             (let c = done_apto (latency_event (conn_tm c) + 1) (c\<lparr>conn_tm := t\<rparr>)
              in Inr (if llcp_active c \<and> (llcp_type c = LLCP_CONN_UPD \<or> llcp_type c = LLCP_CHAN_MAP)
                      then c\<lparr>conn_tm := (conn_tm c)\<lparr>latency_event := 0\<rparr>\<rparr> else c))))"

section \<open>Commands of the host\<close>

text \<open>
  The commands that change a connection: a status, zero for success, and the state. The host asks for new connection
  parameters, or replies (\<open>reply\<close>) to a request of the peer.
\<close>

definition ll_conn_update :: "bool \<Rightarrow> u8 \<Rightarrow> u16 \<Rightarrow> u16 \<Rightarrow> u16 \<Rightarrow> u16 \<Rightarrow> ll_conn \<Rightarrow> u8 \<times> ll_conn" where
  "ll_conn_update reply status interval_min interval_max latency timeout c =
     (let cpr = llcp_conn_param c in
      if \<not> reply then
        (if cpr_disabled cpr \<or> fex_valid c \<and> \<not> bit (features c) 1 then (BT_HCI_ERR_UNSUPP_REMOTE_FEATURE, c)
         else if cpr_req cpr \<noteq> cpr_ack cpr then (BT_HCI_ERR_CMD_DISALLOWED, c)
         else (0, c\<lparr>llcp_conn_param := cpr\<lparr>cpr_status := 0, cpr_interval_min := interval_min, cpr_interval_max := interval_max,
                 cpr_latency := latency, cpr_timeout := timeout, cpr_state := LLCP_CPR_STATE_REQ, cpr_cmd := True,
                 cpr_req := cpr_req cpr + 1\<rparr>\<rparr>))
      else if cpr_req cpr = cpr_ack cpr \<or> cpr_state cpr \<noteq> LLCP_CPR_STATE_APP_WAIT then (BT_HCI_ERR_CMD_DISALLOWED, c)
      else (0, c\<lparr>llcp_conn_param := cpr\<lparr>cpr_status := status, cpr_state := LLCP_CPR_STATE_RSP, cpr_cmd := True\<rparr>\<rparr>))"

definition ll_terminate_ind_send :: "u8 \<Rightarrow> ll_conn \<Rightarrow> u8 \<times> ll_conn" where
  "ll_terminate_ind_send reason c = (0, c\<lparr>reason_own := reason, term_req := term_req c + 1\<rparr>)"

definition ll_feature_req_send :: "ll_conn \<Rightarrow> u8 \<times> ll_conn" where
  "ll_feature_req_send c =
     (if feature_req c \<noteq> feature_ack c then (BT_HCI_ERR_CMD_DISALLOWED, c) else (0, c\<lparr>feature_req := feature_req c + 1\<rparr>))"

definition ll_version_ind_send :: "ll_conn \<Rightarrow> u8 \<times> ll_conn" where
  "ll_version_ind_send c =
     (let v = llcp_version c in
      if ver_req v \<noteq> ver_ack v then (BT_HCI_ERR_CMD_DISALLOWED, c) else (0, c\<lparr>llcp_version := v\<lparr>ver_req := ver_req v + 1\<rparr>\<rparr>))"

definition ll_length_req_send :: "u16 \<Rightarrow> u16 \<Rightarrow> ll_conn \<Rightarrow> u8 \<times> ll_conn" where
  "ll_length_req_send tx_octets tx_time c =
     (let l = llcp_length c in
      if len_req l \<noteq> len_ack l then
        (if len_state l \<in> {LLCP_LENGTH_STATE_RSP_ACK_WAIT, LLCP_LENGTH_STATE_RESIZE_RSP, LLCP_LENGTH_STATE_RESIZE_RSP_ACK_WAIT} \<and>
            len_cache_tx_octets l = 0
         then (0, c\<lparr>llcp_length := l\<lparr>len_cache_tx_octets := tx_octets, len_cache_tx_time := tx_time\<rparr>\<rparr>)
         else (BT_HCI_ERR_CMD_DISALLOWED, c))
      else (0, c\<lparr>llcp_length := l\<lparr>len_state := LLCP_LENGTH_STATE_REQ, len_tx_octets := tx_octets, len_tx_time := tx_time,
              len_req := len_req l + 1\<rparr>\<rparr>))"

definition ll_phy_req_send :: "u8 \<Rightarrow> u8 \<Rightarrow> u8 \<Rightarrow> ll_conn \<Rightarrow> u8 \<times> ll_conn" where
  "ll_phy_req_send tx flags rx c =
     (let phy = llcp_phy c in
      if llcp_req c \<noteq> llcp_ack c \<or> phy_req phy \<noteq> phy_ack phy then (BT_HCI_ERR_CMD_DISALLOWED, c)
      else (0, c\<lparr>llcp_phy := phy\<lparr>phy_state := LLCP_PHY_STATE_REQ, phy_cmd := True, phy_tx := ucast tx, phy_flags := bit flags 0,
              phy_rx := ucast rx, phy_req := phy_req phy + 1\<rparr>\<rparr>))"

definition ll_apto_set :: "u16 \<Rightarrow> ll_conn \<Rightarrow> (u8 \<times> ll_conn) cres" where
  "ll_apto_set apto c =
     c_bind (RADIO_CONN_EVENTS (ucast apto * 10 * 1000) (ucast (interval (conn_lll c)) * 1250)) (\<lambda>n.
     Inr (0, c\<lparr>conn_lll := (conn_lll c)\<lparr>apto_reload := n\<rparr>\<rparr>))"

text \<open>The reply to the request for the long term key: an error, or the key.\<close>

definition ll_start_enc_req_send :: "u8 \<Rightarrow> u8 list \<Rightarrow> ll_conn \<Rightarrow> u8 \<times> ll_conn" where
  "ll_start_enc_req_send error_code ltk c =
     (let idle = (llcp_req c = llcp_ack c \<or> llcp_type c \<noteq> LLCP_ENCRYPTION);
          u = (llcp_union c)[1 := error_code, 0 := llcp_union c ! 0 AND NOT 3]
      in if error_code \<noteq> 0 \<and> enc_refresh (llcp_enc c) then
           (if term_ack c \<noteq> term_req c then (BT_HCI_ERR_CMD_DISALLOWED, c)
            else (0, c\<lparr>reason_own := error_code, term_req := term_req c + 1\<rparr>))
         else if idle then (BT_HCI_ERR_CMD_DISALLOWED, c)
         else if error_code \<noteq> 0 then (0, c\<lparr>llcp_union := u\<rparr>)
         else (0, c\<lparr>llcp_union := u, llcp_enc := (llcp_enc c)\<lparr>enc_ltk := ltk\<rparr>\<rparr>))"

section \<open>New connections\<close>

text \<open>
  The context of a connection as the advertiser prepares it, from one an earlier connection may have used, with the default
  lengths and PHYs; and the set-up by the accepted request.
\<close>

definition adv_conn_init :: "u16 \<Rightarrow> u16 \<Rightarrow> 3 word \<Rightarrow> 3 word \<Rightarrow> ll_conn \<Rightarrow> ll_conn" where
  "adv_conn_init tx_octets tx_time tx_phys rx_phys c =
     (let t = word_of_nat (PKT_US 27 0) in
      c\<lparr>conn_lll := (conn_lll c)\<lparr>lll_role := 1, data_chan_sel := False, data_chan_use := 0\<rparr>,
        conn_link := (conn_link c)\<lparr>max_tx_octets := 27, max_rx_octets := 27, max_tx_time := t, max_rx_time := t,
          lll_phy_tx := 1, lll_phy_flags := False, lll_phy_tx_time := 1, lll_phy_rx := 1, lll_enc_rx := False, lll_enc_tx := False,
          window_widening_prepare_us := 0, window_widening_event_us := 0, window_size_prepare_us := 0\<rparr>,
        conn_tm := (conn_tm c)\<lparr>connect_expire := 6, supervision_expire := 0, procedure_expire := 0, latency_event := 0\<rparr>,
        event_counter := 0, latency_prepare_acc := 0,
        llcp_req := 0, llcp_ack := 0, llcp_type := LLCP_NONE, llcp_rx := [],
        llcp_cu := (llcp_cu c)\<lparr>cu_req := 0, cu_ack := 0\<rparr>,
        feature_req := 0, feature_ack := 0, features := ll_feat c, fex_valid := False,
        llcp_version := (llcp_version c)\<lparr>ver_req := 0, ver_ack := 0, ver_tx := False, ver_rx := False\<rparr>,
        reason_peer := 0,
        llcp_enc := (llcp_enc c)\<lparr>enc_pause_tx := False, enc_pause_rx := False, enc_refresh := False\<rparr>,
        llcp_conn_param := (llcp_conn_param c)\<lparr>cpr_req := 0, cpr_ack := 0, cpr_disabled := False\<rparr>,
        llcp_length := (llcp_length c)\<lparr>len_req := 0, len_ack := 0, len_cache_tx_octets := 0\<rparr>,
        default_tx_octets := tx_octets, default_tx_time := tx_time,
        llcp_phy := (llcp_phy c)\<lparr>phy_req := 0, phy_ack := 0, phy_pause_tx := False\<rparr>,
        phy_pref_tx := tx_phys, phy_pref_rx := rx_phys, phy_pref_flags := False, tx_queue := []\<rparr>)"

definition ull_slave_setup :: "u8 \<Rightarrow> u8 list \<Rightarrow> ll_conn \<Rightarrow> ll_conn cres" where
  "ull_slave_setup local_sca pdu c =
     c_bind (slave_setup local_sca pdu (conn_lll c)) (\<lambda>lll.
     Inr (c\<lparr>conn_lll := lll, conn_tm := (conn_tm c)\<lparr>force_bits := slave_force lll\<rparr>\<rparr>))"

section \<open>Runs of a connection\<close>

text \<open>
  A connection's steps: a received node, an event after \<open>lazy\<close> skipped ones with the random bytes it may use, a control packet
  handed to the link layer or acknowledged, the end of an event, a command of the host.
\<close>

datatype host_cmd =
    Host_update bool u8 u16 u16 u16 u16
  | Host_terminate u8
  | Host_features
  | Host_version
  | Host_length u16 u16
  | Host_phy u8 u8 u8
  | Host_apto u16
  | Host_ltk u8 "u8 list"

fun host_command :: "host_cmd \<Rightarrow> ll_conn \<Rightarrow> (u8 \<times> ll_conn) cres" where
  "host_command (Host_update reply status interval_min interval_max latency timeout) c =
     Inr (ll_conn_update reply status interval_min interval_max latency timeout c)"
| "host_command (Host_terminate reason) c = Inr (ll_terminate_ind_send reason c)"
| "host_command Host_features c = Inr (ll_feature_req_send c)"
| "host_command Host_version c = Inr (ll_version_ind_send c)"
| "host_command (Host_length tx_octets tx_time) c = Inr (ll_length_req_send tx_octets tx_time c)"
| "host_command (Host_phy tx flags rx) c = Inr (ll_phy_req_send tx flags rx c)"
| "host_command (Host_apto apto) c = ll_apto_set apto c"
| "host_command (Host_ltk error_code ltk) c = Inr (ll_start_enc_req_send error_code ltk c)"

datatype conn_step =
    Receive node_rx_pdu
  | Event u16 "u8 list"
  | Sent nat
  | Acked nat
  | Done mic_state conn_done
  | Host host_cmd

text \<open>
  Before a step the other users of the pools and of the mutex have acted: the free nodes, and whether another connection has
  the mutex if this one does not.
\<close>

record conn_env =
  env_rx_free :: nat
  env_tx_free :: nat
  env_other :: bool

definition env_apply :: "conn_env \<Rightarrow> ll_conn \<Rightarrow> ll_conn" where
  "env_apply e c =
     c\<lparr>rx_free := env_rx_free e, tx_free := env_tx_free e,
       conn_upd_curr := (if conn_upd_curr c = This_conn then This_conn else if env_other e then Other_conn else No_conn)\<rparr>"

text \<open>What a step shows: the channel of an event with the map in force, or the end of the connection.\<close>

datatype step_out = Going | Channel u8 "u8 list" | Ended u8

definition ended_or :: "u8 option \<times> ll_conn \<Rightarrow> step_out \<times> ll_conn" where
  "ended_or r = (case fst r of None \<Rightarrow> Going | Some reason \<Rightarrow> Ended reason, snd r)"

fun conn_local_step ::
  "u8 \<Rightarrow> (u8 list \<Rightarrow> u8 list \<Rightarrow> u8 list) \<Rightarrow> conn_step \<Rightarrow> ll_conn \<Rightarrow> (step_out \<times> ll_conn) cres" where
  "conn_local_step local_sca ecb (Event lazy random) c =
     c_bind (ull_slave_ticker_cb local_sca ecb random lazy c) (\<lambda>(chan, c).
     Inr (case chan of None \<Rightarrow> Going | Some ch \<Rightarrow> Channel ch (data_chan_map (conn_lll c)), c))"
| "conn_local_step local_sca ecb (Sent i) c =
     Inr (Going, if i < length (tx_queue c) then ctrl_tx_pre_ack (tx_queue c ! i) c else c)"
| "conn_local_step local_sca ecb (Acked i) c = Inr (ended_or (ull_conn_tx_ack i c))"
| "conn_local_step local_sca ecb (Done mic ev) c =
     Inr (case ull_conn_done mic ev c of Inl reason \<Rightarrow> (Ended reason, c) | Inr c \<Rightarrow> (Going, c))"
| "conn_local_step local_sca ecb (Host cmd) c = c_bind (host_command cmd c) (\<lambda>(_, c). Inr (Going, c))"
| "conn_local_step local_sca ecb (Receive rx) c = Inr (Going, c)"

definition conn_step ::
  "platform \<Rightarrow> u8 \<Rightarrow> (u8 list \<Rightarrow> u8 list \<Rightarrow> u8 list) \<Rightarrow> conn_step \<Rightarrow> ll_conn \<Rightarrow> ll_parser \<Rightarrow>
   (step_out \<times> ll_conn \<times> ll_parser) cres option" where
  "conn_step pl local_sca ecb st c s =
     (case st of
        Receive rx \<Rightarrow> m_bind (rx_demux_rx pl rx c s) (\<lambda>(_, _, c, s). Some (Inr (Going, c, s)))
      | _ \<Rightarrow> m_bind (Some (conn_local_step local_sca ecb st c)) (\<lambda>(r, c). Some (Inr (r, c, s))))"

fun conn_steps ::
  "platform \<Rightarrow> u8 \<Rightarrow> (u8 list \<Rightarrow> u8 list \<Rightarrow> u8 list) \<Rightarrow> (conn_env \<times> conn_step) list \<Rightarrow> ll_conn \<Rightarrow> ll_parser \<Rightarrow>
   (step_out list \<times> ll_conn \<times> ll_parser) cres option" where
  "conn_steps pl local_sca ecb [] c s = Some (Inr ([], c, s))"
| "conn_steps pl local_sca ecb ((e, st) # sts) c s =
     m_bind (conn_step pl local_sca ecb st (env_apply e c) s) (\<lambda>(r, c, s).
     case r of
       Ended reason \<Rightarrow> Some (Inr ([r], c, s))
     | _ \<Rightarrow> m_bind (conn_steps pl local_sca ecb sts c s) (\<lambda>(rs, c, s). Some (Inr (r # rs, c, s))))"

end
