(* ===== verification/Ll_Control_Safe.thy ===== *)
theory Ll_Control_Safe
  imports Ll_Events
begin

text \<open>
  What the firewall's checks buy the controller: over every sequence of packets and events the
  assertions and divisions the policies protect are not reached and the channel map stays usable; and what they do not.
\<close>

section \<open>Invariant\<close>

definition usable_map :: "u8 list \<Rightarrow> bool" where
  "usable_map m \<longleftrightarrow> length m = 5 \<and> channels_used m \<noteq> 0"

definition hop_inv :: "ll_conn \<Rightarrow> bool" where
  "hop_inv c \<longleftrightarrow>
     length (llcp_union c) = 20 \<and> usable_map (data_chan_map (conn_lll c)) \<and>
     data_chan_count (conn_lll c) = word_of_nat (channels_used (data_chan_map (conn_lll c))) \<and>
     (llcp_active c \<and> llcp_type c = LLCP_CHAN_MAP \<longrightarrow> usable_map (take 5 (drop 1 (llcp_union c))))"

text \<open>
  A connection parameter procedure is under way only if \<open>p\<close>, a data length procedure only if \<open>l\<close>, and only as an answer to the peer.
  A version exchange started here waits for the peer's version. No connection or PHY update is under way, and no queued packet is
  one only the central sends.
\<close>

definition ver_ok :: "llcp_version \<Rightarrow> bool" where
  "ver_ok v \<longleftrightarrow>
     (ver_ack v = ver_req v \<or> ver_ack v = ver_req v - 1 \<or> ver_ack v = ver_req v - 2) \<and>
     (ver_tx v \<and> \<not> ver_rx v \<longrightarrow> ver_ack v = ver_req v - 2)"

definition phy_ok :: "llcp_phy \<Rightarrow> bool" where
  "phy_ok phy \<longleftrightarrow> (phy_req phy \<noteq> phy_ack phy \<longrightarrow> phy_state phy \<noteq> LLCP_PHY_STATE_UPD)"

definition len_ok :: "bool \<Rightarrow> llcp_length \<Rightarrow> bool" where
  "len_ok l x \<longleftrightarrow> len_cache_tx_octets x = 0 \<and>
     (len_req x \<noteq> len_ack x \<longrightarrow> l \<and> (len_state x = LLCP_LENGTH_STATE_RSP_ACK_WAIT \<or> len_state x = LLCP_LENGTH_STATE_RSP_WAIT))"

definition timing_ok :: "slave_conn \<Rightarrow> bool" where
  "timing_ok lll \<longleftrightarrow> interval lll \<noteq> 0 \<and> uint (supervision_reload lll) * uint (interval lll) < 2 ^ 31"

definition queue_ok :: "u8 list list \<Rightarrow> bool" where
  "queue_ok q \<longleftrightarrow> (\<forall>pdu \<in> set q. hd pdu \<noteq> PDU_DATA_LLCTRL_TYPE_ENC_REQ)"

definition ctl_inv :: "bool \<Rightarrow> bool \<Rightarrow> ll_conn \<Rightarrow> bool" where
  "ctl_inv p l c \<longleftrightarrow>
     hop_inv c \<and> timing_ok (conn_lll c) \<and> queue_ok (tx_queue c) \<and>
     (llcp_req c = llcp_ack c \<or> llcp_type c = LLCP_CHAN_MAP \<or> llcp_type c = LLCP_ENCRYPTION \<or> llcp_type c = LLCP_PING) \<and>
     cu_req (llcp_cu c) = cu_ack (llcp_cu c) \<and> ver_ok (llcp_version c) \<and> phy_ok (llcp_phy c) \<and> len_ok l (llcp_length c) \<and>
     (cpr_req (llcp_conn_param c) \<noteq> cpr_ack (llcp_conn_param c) \<longrightarrow> p \<and> conn_upd_curr c = This_conn)"

text \<open>A handler returned, with the invariant unless it kept the node.\<close>

definition handled :: "bool \<Rightarrow> bool \<Rightarrow> ctrl_res \<Rightarrow> bool" where
  "handled p l m \<longleftrightarrow> (\<exists>n rxo c. m = Inr (n, rxo, c) \<and> (rxo \<noteq> None \<longrightarrow> ctl_inv p l c))"

lemma handled_Inr [simp]: "handled p l (Inr (n, rxo, c)) \<longleftrightarrow> (rxo \<noteq> None \<longrightarrow> ctl_inv p l c)"
  by (auto simp: handled_def)

lemma handled_if: "(b \<Longrightarrow> handled p l m) \<Longrightarrow> (\<not> b \<Longrightarrow> handled p l m') \<Longrightarrow> handled p l (if b then m else m')"
  by simp

lemma handled_bind: "m = Inr x \<Longrightarrow> handled p l (f x) \<Longrightarrow> handled p l (c_bind m f)"
  by simp

lemma ctl_inv_mono: "ctl_inv p l c \<Longrightarrow> (p \<longrightarrow> p') \<Longrightarrow> (l \<longrightarrow> l') \<Longrightarrow> ctl_inv p' l' c"
  unfolding ctl_inv_def len_ok_def by blast

lemma length_put_bytes [simp]: "i + length bs \<le> length u \<Longrightarrow> length (put_bytes i bs u) = length u"
  by (simp add: put_bytes_def)

text \<open>The invariant and updates of the state.\<close>

lemmas ctl_defs = ctl_inv_def hop_inv_def llcp_active_def

lemma ctl_inv_updates [simp]:
  "ctl_inv p l (c\<lparr>conn_tm := x1\<rparr>) = ctl_inv p l c"
  "ctl_inv p l (c\<lparr>conn_link := x2\<rparr>) = ctl_inv p l c"
  "ctl_inv p l (c\<lparr>rx_free := x3\<rparr>) = ctl_inv p l c"
  "ctl_inv p l (c\<lparr>llcp_enc := x4\<rparr>) = ctl_inv p l c"
  "ctl_inv p l (c\<lparr>rx_queue := x5\<rparr>) = ctl_inv p l c"
  "ctl_inv p l (c\<lparr>features := x6\<rparr>) = ctl_inv p l c"
  "ctl_inv p l (c\<lparr>fex_valid := x7\<rparr>) = ctl_inv p l c"
  "ctl_inv p l (c\<lparr>feature_ack := x8\<rparr>) = ctl_inv p l c"
  "ctl_inv p l (c\<lparr>feature_req := x9\<rparr>) = ctl_inv p l c"
  "ctl_inv p l (c\<lparr>reason_peer := x10\<rparr>) = ctl_inv p l c"
  "ctl_inv p l (c\<lparr>reason_own := x11\<rparr>) = ctl_inv p l c"
  "ctl_inv p l (c\<lparr>term_req := x12\<rparr>) = ctl_inv p l c"
  "ctl_inv p l (c\<lparr>term_ack := x13\<rparr>) = ctl_inv p l c"
  "ctl_inv p l (c\<lparr>ticks_to_offset := x14\<rparr>) = ctl_inv p l c"
  "ctl_inv p l (c\<lparr>tx_free := x15\<rparr>) = ctl_inv p l c"
  "ctl_inv p l (c\<lparr>llcp_rx := x16\<rparr>) = ctl_inv p l c"
  "ctl_inv p l (c\<lparr>event_counter := x17\<rparr>) = ctl_inv p l c"
  "ctl_inv p l (c\<lparr>latency_prepare_acc := x18\<rparr>) = ctl_inv p l c"
  "ctl_inv p l (c\<lparr>chm_updated := x19\<rparr>) = ctl_inv p l c"
  "ctl_inv p l (c\<lparr>apto_expire := x20\<rparr>) = ctl_inv p l c"
  "ctl_inv p l (c\<lparr>appto_expire := x21\<rparr>) = ctl_inv p l c"
  "ctl_inv p l (c\<lparr>phy_pref_tx := x22\<rparr>) = ctl_inv p l c"
  "ctl_inv p l (c\<lparr>phy_pref_rx := x23\<rparr>) = ctl_inv p l c"
  "ctl_inv p l (c\<lparr>phy_pref_flags := x24\<rparr>) = ctl_inv p l c"
  by (simp_all add: ctl_defs)

lemma ctl_inv_phy [simp]: "ctl_inv p l c \<Longrightarrow> phy_ok x \<Longrightarrow> ctl_inv p l (c\<lparr>llcp_phy := x\<rparr>)"
  by (simp add: ctl_defs)

lemma ctl_inv_ver: "ctl_inv p l c \<Longrightarrow> ver_ok x \<Longrightarrow> ctl_inv p l (c\<lparr>llcp_version := x\<rparr>)"
  by (simp add: ctl_defs)

lemma ctl_inv_len: "ctl_inv p l c \<Longrightarrow> len_ok l' x \<Longrightarrow> ctl_inv p l' (c\<lparr>llcp_length := x\<rparr>)"
  by (simp add: ctl_defs)

lemma ctl_inv_enqueue [simp]:
  "hd pdu \<noteq> PDU_DATA_LLCTRL_TYPE_ENC_REQ \<Longrightarrow> ctl_inv p l (ctrl_tx_enqueue pdu c) = ctl_inv p l c"
  by (auto simp: ctrl_tx_enqueue_def ctl_defs queue_ok_def)

lemma ctl_inv_helpers [simp]:
  "ctl_inv p l (set_procedure_expire n c) = ctl_inv p l c"
  "ctl_inv p l (length_resp_send a b d e c) = ctl_inv p l c"
  "ctl_inv p l c \<Longrightarrow> ctl_inv p l (phy_complete c)"
  by (simp_all add: set_procedure_expire_def length_resp_send_def phy_complete_def phy_ok_def pdu_codes)

lemma handled_send:
  assumes "ctl_inv p l c" "\<And>c. ctl_inv p l c \<Longrightarrow> ctl_inv p l (upd c)" "\<And>c. hd (pdu c) \<noteq> PDU_DATA_LLCTRL_TYPE_ENC_REQ"
  shows "handled p l (send_ctrl upd pdu rx c)"
  using assms by (simp add: send_ctrl_def mem_acquire_def Let_def)

section \<open>Handlers keep the invariant\<close>

lemma reads_ok:
  "i + 1 < length bs \<Longrightarrow> \<exists>w. read_le16 bs i = Inr w" "i < length bs \<Longrightarrow> read8 bs i = Inr (bs ! i)"
  "i + n \<le> length bs \<Longrightarrow> read_mem bs i n = Inr (take n (drop i bs))"
  using read_le16_ok [of i bs] by (auto simp: read8_def read_mem_def)

lemma handled_simple:
  assumes "ctl_inv p l c" "36 \<le> length (rx_pdu rx)"
  shows "handled p l (unknown_rsp_send ty rx c)" "handled p l (feature_rsp_send rx c)" "handled p l (ping_resp_send rx c)"
    "handled p l (reject_ext_ind_send a b rx c)" "handled p l (pause_enc_rsp_send r rx c)" "handled p l (terminate_ind_recv rx c)"
    "handled p l (c_bind (feature_rsp_recv rx c) (\<lambda>c. Inr (0, Some rx, c)))" "handled p l (phy_rsp_send rx c)"
  using assms
  by (auto simp: unknown_rsp_send_def feature_rsp_send_def ping_resp_send_def reject_ext_ind_send_def pause_enc_rsp_send_def
      terminate_ind_recv_def feature_rsp_recv_def phy_rsp_send_def phy_ok_def reads_ok Let_def intro!: handled_send)

lemma ver_received:
  "ctl_inv p l c \<Longrightarrow> ver_rx x \<Longrightarrow> ver_req x = ver_req (llcp_version c) \<Longrightarrow>
   ver_ack x = ver_ack (llcp_version c) \<or> ver_ack x = ver_req x \<Longrightarrow> ctl_inv p l (c\<lparr>llcp_version := x\<rparr>)"
  by (rule ctl_inv_ver) (auto simp: ctl_inv_def ver_ok_def)

lemma handled_version:
  assumes "ctl_inv p l c" "36 \<le> length (rx_pdu rx)"
  shows "handled p l (version_ind_send rx c)"
proof -
  obtain w1 w2 where "read_le16 (rx_pdu rx) 5 = Inr w1" "read_le16 (rx_pdu rx) 7 = Inr w2"
    using reads_ok(1) [of 5 "rx_pdu rx"] reads_ok(1) [of 7 "rx_pdu rx"] assms(2) by auto
  then show ?thesis
    using assms by (auto simp: version_ind_send_def reads_ok Let_def set_procedure_expire_def intro!: handled_send ver_received)
qed

lemma handled_enc_req:
  assumes "ctl_inv p l c" "36 \<le> length (rx_pdu rx)"
  shows "handled p l (enc_req_recv rx c)"
  using assms by (simp add: enc_req_recv_def reads_ok Let_def llcp_start_def) (auto simp: ctl_defs)

lemma handled_start_enc:
  assumes "ctl_inv p l c" "llcp_req c = llcp_ack c \<or> llcp_type c = LLCP_ENCRYPTION"
  shows "ctl_inv p l (snd (start_enc_rsp_recv rx c))"
  using assms by (auto simp: start_enc_rsp_recv_def llcp_start_def Let_def) (auto simp: ctl_defs)

lemma enc_reject_inv: "ctl_inv p l c \<Longrightarrow> ctl_inv p l (enc_reject c)"
  by (simp add: enc_reject_def) (auto simp: ctl_defs)

lemma chan_map_kept: "length u = 20 \<Longrightarrow> length m = 5 \<Longrightarrow> length t = 2 \<Longrightarrow>
    take 5 (drop 1 ((put_bytes 6 t (put_bytes 1 m u))[0 := b])) = m"
  by (simp add: put_bytes_def drop_update_cancel)

lemma start_chan_map:
  "ctl_inv p l c \<Longrightarrow> length u = 20 \<Longrightarrow> usable_map (take 5 (drop 1 u)) \<Longrightarrow>
   ctl_inv p l (llcp_start LLCP_CHAN_MAP (c\<lparr>llcp_union := u\<rparr>))"
  by (simp add: ctl_inv_def hop_inv_def llcp_start_def)

lemma handled_chan_map:
  assumes "ctl_inv p l c" "36 \<le> length (rx_pdu rx)" "channels_used (take 5 (drop 4 (rx_pdu rx))) \<noteq> 0"
  shows "handled p l (c_bind (chan_map_upd_recv rx c) (\<lambda>(e, rx, c). with_reason e (\<lambda>c. c) (Some rx) c))"
proof -
  let ?m = "take 5 (drop 4 (rx_pdu rx))"
  obtain w where w: "read_le16 (rx_pdu rx) 9 = Inr w" using reads_ok(1) [of 9 "rx_pdu rx"] assms(2) by auto
  have u: "length (llcp_union c) = 20" using assms(1) by (simp add: ctl_inv_def hop_inv_def)
  have "ctl_inv p l (llcp_start LLCP_CHAN_MAP (c\<lparr>llcp_union := (put_bytes 6 (le_bytes 2 w) (put_bytes 1 ?m (llcp_union c)))[0 := b]\<rparr>))" for b
    using assms u chan_map_kept [OF u, of ?m "le_bytes 2 w" b] by (intro start_chan_map) (simp_all add: usable_map_def)
  then show ?thesis
    using assms(1,2) w by (simp add: chan_map_upd_recv_def with_reason_def cm_chm_def reads_ok Let_def)
qed

lemma handled_conn_upd:
  assumes "ctl_inv p l c" "36 \<le> length (rx_pdu rx)"
  shows "handled p l (c_bind (conn_upd_recv rx c) (\<lambda>(e, rxo, c). with_reason e (set_procedure_expire 0) rxo c))"
proof -
  obtain w1 w2 w3 w4 w5 where "read_le16 (rx_pdu rx) 13 = Inr w1" "read_le16 (rx_pdu rx) 5 = Inr w2"
      "read_le16 (rx_pdu rx) 7 = Inr w3" "read_le16 (rx_pdu rx) 9 = Inr w4" "read_le16 (rx_pdu rx) 11 = Inr w5"
    using reads_ok(1) [of 13 "rx_pdu rx"] reads_ok(1) [of 5 "rx_pdu rx"] reads_ok(1) [of 7 "rx_pdu rx"]
      reads_ok(1) [of 9 "rx_pdu rx"] reads_ok(1) [of 11 "rx_pdu rx"] assms(2) by auto
  then show ?thesis using assms by (simp add: conn_upd_recv_def with_reason_def cu_interval_def reads_ok Let_def)
qed

lemma handled_phy_upd:
  assumes "ctl_inv p l c" "36 \<le> length (rx_pdu rx)" "rx_free c \<noteq> 0"
  shows "handled p l (c_bind (phy_upd_ind_recv rx c) (\<lambda>(e, rxo, c). with_reason e (\<lambda>c. c) rxo c))"
proof -
  obtain w where "read_le16 (rx_pdu rx) 6 = Inr w" using reads_ok(1) [of 6 "rx_pdu rx"] assms(2) by auto
  then show ?thesis
    using assms by (simp add: phy_upd_ind_recv_def with_reason_def reads_ok Let_def LL_ASSERT_def set_procedure_expire_def)
qed

lemma read_offsets_ok: "\<forall>i \<in> set is. i + 1 < length bs \<Longrightarrow> \<exists>ws. read_offsets bs is = Inr ws"
proof (induction "is")
  case (Cons i "is")
  then show ?case using reads_ok(1) [of i bs] by auto
qed simp

lemma interval_us_nonzero:
  fixes iv :: u16
  assumes "iv \<noteq> 0"
  shows "ucast iv * 1250 \<noteq> (0 :: u32)"
proof
  assume "ucast iv * 1250 = (0 :: u32)"
  then have "unat iv * 1250 = 0" using interval_us [of iv] by (metis unat_0)
  then show False using assms by (simp add: unat_eq_zero)
qed

lemma cpr_started:
  "ctl_inv False l c \<Longrightarrow> conn_upd_curr c \<noteq> Other_conn \<Longrightarrow>
   ctl_inv True l (c\<lparr>llcp_conn_param := x, conn_upd_curr := (if conn_upd_curr c = No_conn then This_conn else conn_upd_curr c)\<rparr>)"
  by (cases "conn_upd_curr c") (auto simp: ctl_defs)

lemma handled_cpr:
  assumes "ctl_inv False l c" "36 \<le> length (rx_pdu rx)"
  shows "handled True l (conn_param_req_recv rx c)"
proof -
  let ?bs = "rx_pdu rx"
  have inv: "ctl_inv True l c" using ctl_inv_mono [OF assms(1)] by simp
  have idle: "cpr_req (llcp_conn_param c) = cpr_ack (llcp_conn_param c)" "interval (conn_lll c) \<noteq> 0"
    using assms(1) by (auto simp: ctl_inv_def timing_ok_def)
  have changed: "\<exists>b. cpr_changed cpr c = Inr b" for cpr
    using interval_us_nonzero [OF idle(2)] by (auto simp: cpr_changed_def RADIO_CONN_EVENTS_def)
  obtain w1 w2 w3 w4 w5 where w: "read_le16 ?bs 4 = Inr w1" "read_le16 ?bs 6 = Inr w2" "read_le16 ?bs 8 = Inr w3"
      "read_le16 ?bs 10 = Inr w4" "read_le16 ?bs 13 = Inr w5"
    using reads_ok(1) [of 4 ?bs] reads_ok(1) [of 6 ?bs] reads_ok(1) [of 8 ?bs] reads_ok(1) [of 10 ?bs]
      reads_ok(1) [of 13 ?bs] assms(2) by auto
  obtain ws where ws: "read_offsets ?bs [15, 17, 19, 21, 23, 25] = Inr ws"
    using read_offsets_ok [of "[15, 17, 19, 21, 23, 25]" ?bs] assms(2) by auto
  define cpr where "cpr = (llcp_conn_param c)\<lparr>cpr_interval_min := w1, cpr_interval_max := w2, cpr_latency := w3,
    cpr_timeout := w4, cpr_preferred_periodicity := ?bs ! 12, cpr_reference_conn_event_count := w5, cpr_offsets := ws\<rparr>"
  obtain b where b: "cpr_changed cpr c = Inr b" using changed by blast
  show ?thesis
  proof (cases "conn_upd_curr c = Other_conn \<or> cpr_invalid w1 w2 w3 w4 (?bs ! 12)")
    case True
    then show ?thesis
      using w assms(2) idle(1) handled_simple(4) [OF inv assms(2)]
      by (auto simp: conn_param_req_recv_def LL_ASSERT_def reads_ok Let_def)
  next
    case False
    then show ?thesis
      using w ws assms(2) idle(1) b cpr_started [OF assms(1)]
      by (simp add: conn_param_req_recv_def LL_ASSERT_def reads_ok Let_def cpr_def [symmetric] del: read_offsets.simps)
  qed
qed


lemma length_effective_ok: "36 \<le> length bs \<Longrightarrow> \<exists>a b d e. length_effective bs c = Inr (a, b, d, e)"
proof -
  assume len: "36 \<le> length bs"
  obtain w1 w2 w3 w4 where "read_le16 bs 4 = Inr w1" "read_le16 bs 6 = Inr w2" "read_le16 bs 8 = Inr w3" "read_le16 bs 10 = Inr w4"
    using reads_ok(1) [of 4 bs] reads_ok(1) [of 6 bs] reads_ok(1) [of 8 bs] reads_ok(1) [of 10 bs] len by auto
  then show ?thesis by (cases "dle_max_time_get c") (simp add: length_effective_def Let_def)
qed

lemma length_started:
  "ctl_inv p False c \<Longrightarrow> len_cache_tx_octets x = len_cache_tx_octets (llcp_length c) \<Longrightarrow>
   len_req x = len_ack x \<or> len_state x = LLCP_LENGTH_STATE_RSP_ACK_WAIT \<Longrightarrow> ctl_inv p True (c\<lparr>llcp_length := x\<rparr>)"
  by (rule ctl_inv_len) (auto simp: ctl_inv_def len_ok_def)

lemma length_stopped: "ctl_inv p l c \<Longrightarrow> ctl_inv p l' (c\<lparr>llcp_length := (llcp_length c)\<lparr>len_ack := len_req (llcp_length c)\<rparr>\<rparr>)"
  by (rule ctl_inv_len) (auto simp: ctl_inv_def len_ok_def)

lemma mem_acquire_inv: "mem_acquire c = Some c' \<Longrightarrow> ctl_inv p l c' = ctl_inv p l c"
  by (auto simp: mem_acquire_def split: if_splits)

lemma handled_length_req:
  assumes "ctl_inv p False c" "36 \<le> length (rx_pdu rx)" "rx_pdu rx ! 3 = PDU_DATA_LLCTRL_TYPE_LENGTH_REQ"
  shows "handled p True (length_req_rsp_recv rx c)"
proof (cases "mem_acquire c")
  case None
  then show ?thesis using assms ctl_inv_mono [OF assms(1)] by (simp add: length_req_rsp_recv_def llctrl_opcode_def reads_ok)
next
  case (Some c')
  have inv: "ctl_inv p False c'" using assms(1) mem_acquire_inv [OF Some] by simp
  have idle: "length_expected True (llcp_length c')"
    using inv by (auto simp: ctl_inv_def len_ok_def length_expected_def)
  obtain a b d e where "length_effective (rx_pdu rx) c' = Inr (a, b, d, e)" using length_effective_ok [OF assms(2)] by blast
  then show ?thesis
    using assms(2,3) inv idle Some
    by (simp add: length_started length_req_rsp_recv_def llctrl_opcode_def reads_ok Let_def set_procedure_expire_def)
qed

lemma cpr_stopped:
  "ctl_inv p l c \<Longrightarrow> cpr_ack x = cpr_req x \<Longrightarrow> ctl_inv p l (c\<lparr>conn_upd_curr := o', llcp_conn_param := x\<rparr>)"
  "ctl_inv p l c \<Longrightarrow> cpr_ack x = cpr_req x \<Longrightarrow> ctl_inv p l (c\<lparr>llcp_conn_param := x, conn_upd_curr := o'\<rparr>)"
  by (simp_all add: ctl_defs)

lemma cu_notify_ok: "timing_ok (conn_lll c) \<Longrightarrow> \<exists>rx'. cu_notify e rx c = Inr rx'"
  by (simp add: cu_notify_def timing_ok_def Let_def)

lemma reject_cpr:
  assumes "ctl_inv p l c" "cpr_ack (llcp_conn_param c) \<noteq> cpr_req (llcp_conn_param c)"
  shows "\<exists>b rx' c'. reject_ind_conn_upd_recv e rx c = Inr (b, rx', c') \<and> ctl_inv p l c'"
proof -
  let ?cpr = "llcp_conn_param c"
  have own: "conn_upd_curr c = This_conn" and t: "timing_ok (conn_lll c)" using assms by (auto simp: ctl_inv_def)
  define c1 where "c1 = (if e \<noteq> BT_HCI_ERR_LL_PROC_COLLISION then c\<lparr>ticks_to_offset := cpr_ticks_to_offset_next ?cpr\<rparr> else c)"
  define c2 where "c2 = (if cpr_state ?cpr = LLCP_CPR_STATE_RSP_WAIT
    then set_procedure_expire 0 (c1\<lparr>conn_upd_curr := No_conn, llcp_conn_param := ?cpr\<lparr>cpr_ack := cpr_req ?cpr\<rparr>\<rparr>) else c1)"
  have c1: "ctl_inv p l c1" "llcp_conn_param c1 = ?cpr" "conn_upd_curr c1 = This_conn" "conn_lll c1 = conn_lll c"
    using assms(1) own by (simp_all add: c1_def)
  then have c2: "ctl_inv p l c2" "conn_lll c2 = conn_lll c"
    using cpr_stopped(1) [OF c1(1), of "?cpr\<lparr>cpr_ack := cpr_req ?cpr\<rparr>" No_conn] by (auto simp: c2_def set_procedure_expire_def)
  obtain rx' where "cu_notify e rx c2 = Inr rx'" using cu_notify_ok [of c2] t c2(2) by auto
  moreover have "reject_ind_conn_upd_recv e rx c =
      (if \<not> cpr_cmd (llcp_conn_param c2) then Inr (False, rx, c2) else c_bind (cu_notify e rx c2) (\<lambda>rx. Inr (True, rx, c2)))"
    unfolding reject_ind_conn_upd_recv_def Let_def c1_def [symmetric] by (simp add: LL_ASSERT_def c1 c2_def)
  ultimately show ?thesis using c2(1) by (cases "cpr_cmd (llcp_conn_param c2)") auto
qed

lemma handled_reject:
  assumes "ctl_inv p l c" "36 \<le> length (rx_pdu rx)"
  shows "handled p l (reject_ext_ind_recv rx c)"
proof -
  have phy: "ctl_inv p l (snd (snd (reject_ind_phy_upd_recv e rx c)))" for e
    using assms(1) by (simp add: reject_ind_phy_upd_recv_def Let_def)
  have dle: "ctl_inv p l (snd (reject_ind_dle_recv rx c))"
    using length_stopped [OF assms(1)] by (simp add: reject_ind_dle_recv_def Let_def)
  note cpr = reject_cpr [OF assms(1), of "rx_pdu rx ! 5" rx]
  show ?thesis
    using assms phy [of "rx_pdu rx ! 5"] dle cpr enc_reject_inv
    by (auto simp: reject_ext_ind_recv_def reads_ok split: prod.splits)
qed

lemma handled_unknown:
  assumes "ctl_inv p l c" "36 \<le> length (rx_pdu rx)"
  shows "handled p l (unknown_rsp_recv rx c)"
proof -
  let ?cpr = "llcp_conn_param c"
  let ?c = "c\<lparr>conn_upd_curr := No_conn, llcp_conn_param := ?cpr\<lparr>cpr_disabled := True, cpr_ack := cpr_req ?cpr\<rparr>\<rparr>"
  have inv: "ctl_inv p l ?c" using cpr_stopped(1) [OF assms(1)] by simp
  have own: "cpr_req ?cpr \<noteq> cpr_ack ?cpr \<longrightarrow> conn_upd_curr c = This_conn" using assms(1) by (simp add: ctl_inv_def)
  obtain rx' where "cu_notify BT_HCI_ERR_UNSUPP_REMOTE_FEATURE rx ?c = Inr rx'"
    using cu_notify_ok [of ?c] assms(1) by (auto simp: ctl_inv_def)
  then show ?thesis
    using assms length_stopped [OF assms(1), of l] inv own
    by (auto simp: unknown_rsp_recv_def LL_ASSERT_def Let_def reads_ok)
qed

section \<open>Dispatch keeps the invariant\<close>

lemma handled_with_len:
  assumes "ctl_inv p l c" "36 \<le> length (rx_pdu rx)" "unat ty < 26" "handled p l m"
  shows "handled p l (with_len ty opcode rx c m)"
  using assms handled_simple(1) [OF assms(1,2)]
  by (auto simp: with_len_def pdu_data_len_def reads_ok pdu_len_cmp_def c_array_get_def ctrl_len_lut_def)

text \<open>
  The packets the firewall lets pass: a channel map has a channel, and a request comes only if no procedure of its kind
  is under way. The responses are not in question.
\<close>

definition ctrl_checked :: "bool \<Rightarrow> bool \<Rightarrow> u8 list \<Rightarrow> bool" where
  "ctrl_checked p l bs \<longleftrightarrow>
     (bs ! 3 = PDU_DATA_LLCTRL_TYPE_CHAN_MAP_IND \<longrightarrow> channels_used (take 5 (drop 4 bs)) \<noteq> 0) \<and>
     (bs ! 3 = PDU_DATA_LLCTRL_TYPE_CONN_PARAM_REQ \<longrightarrow> \<not> p) \<and>
     (bs ! 3 = PDU_DATA_LLCTRL_TYPE_LENGTH_REQ \<longrightarrow> \<not> l) \<and>
     bs ! 3 \<noteq> PDU_DATA_LLCTRL_TYPE_LENGTH_RSP"

lemma ctrl_rx_handled:
  assumes "ctl_inv p l c" "36 \<le> length (rx_pdu rx)" "ctrl_checked p l (rx_pdu rx)" "rx_free c \<noteq> 0"
  shows "handled (p \<or> rx_pdu rx ! 3 = PDU_DATA_LLCTRL_TYPE_CONN_PARAM_REQ) (l \<or> rx_pdu rx ! 3 = PDU_DATA_LLCTRL_TYPE_LENGTH_REQ) (ctrl_rx rx c)"
proof -
  let ?op = "rx_pdu rx ! 3"
  define p' l' where "p' \<longleftrightarrow> p \<or> ?op = PDU_DATA_LLCTRL_TYPE_CONN_PARAM_REQ" and "l' \<longleftrightarrow> l \<or> ?op = PDU_DATA_LLCTRL_TYPE_LENGTH_REQ"
  have inv: "ctl_inv p' l' c" using ctl_inv_mono [OF assms(1)] by (simp add: p'_def l'_def)
  have op: "llctrl_opcode (rx_pdu rx) = Inr ?op" using assms(2) by (simp add: llctrl_opcode_def reads_ok)
  have cpr: "?op = PDU_DATA_LLCTRL_TYPE_CONN_PARAM_REQ \<Longrightarrow> handled p' l' (conn_param_req_recv rx c)"
    using handled_cpr [of l c rx] assms by (simp add: ctrl_checked_def p'_def l'_def pdu_codes)
  have len: "?op = PDU_DATA_LLCTRL_TYPE_LENGTH_REQ \<Longrightarrow> handled p' l' (length_req_rsp_recv rx c)"
    using handled_length_req [of p c rx] assms by (simp add: ctrl_checked_def p'_def l'_def pdu_codes)
  have chm: "?op = PDU_DATA_LLCTRL_TYPE_CHAN_MAP_IND \<Longrightarrow> channels_used (take 5 (drop 4 (rx_pdu rx))) \<noteq> 0"
    and rsp: "?op \<noteq> PDU_DATA_LLCTRL_TYPE_LENGTH_RSP"
    using assms(3) by (simp_all add: ctrl_checked_def)
  note hs = handled_simple [OF inv assms(2)] handled_version [OF inv assms(2)] handled_enc_req [OF inv assms(2)]
    handled_chan_map [OF inv assms(2) chm] handled_conn_upd [OF inv assms(2)] handled_phy_upd [OF inv assms(2,4)]
    handled_reject [OF inv assms(2)] handled_unknown [OF inv assms(2)] cpr len
  have enc: "llcp_req c = llcp_ack c \<or> llcp_type c = LLCP_ENCRYPTION \<Longrightarrow>
      handled p' l' (let (rx, c) = start_enc_rsp_recv rx c in Inr (0, Some rx, c))"
    using handled_start_enc [OF inv, of rx] by (cases "start_enc_rsp_recv rx c") simp
  have "handled p' l' (ctrl_rx rx c)"
    unfolding ctrl_rx_def op c_bind_simps
    by (intro handled_if handled_with_len inv assms(2) hs enc) (use inv rsp enc_reject_inv [OF inv] in \<open>auto simp: pdu_codes\<close>)
  then show ?thesis by (simp add: p'_def l'_def)
qed

section \<open>Events keep the invariant\<close>

definition kept :: "bool \<Rightarrow> bool \<Rightarrow> ll_conn cres \<Rightarrow> bool" where
  "kept p l m \<longleftrightarrow> (\<exists>c. m = Inr c \<and> ctl_inv p l c)"

lemma kept_Inr [simp]: "kept p l (Inr c) = ctl_inv p l c"
  by (simp add: kept_def)

lemma ll_rx_put_inv [simp]: "ctl_inv p l (ll_rx_put ty pdu c) = ctl_inv p l c"
  by (simp add: ll_rx_put_def)

lemma rx_notify_inv: "rx_notify ty pdu c = Some c' \<Longrightarrow> ctl_inv p l c' = ctl_inv p l c"
  by (auto simp: rx_notify_def split: if_splits)

lemma rx_notify_fields:
  "rx_notify ty pdu c = Some c' \<Longrightarrow> llcp_union c' = llcp_union c \<and> llcp_type c' = llcp_type c \<and> llcp_version c' = llcp_version c \<and>
     llcp_conn_param c' = llcp_conn_param c \<and> conn_upd_curr c' = conn_upd_curr c"
  by (auto simp: rx_notify_def ll_rx_put_def split: if_splits)

lemma mem_acquire_fields:
  "mem_acquire c = Some c' \<Longrightarrow> llcp_union c' = llcp_union c \<and> llcp_type c' = llcp_type c \<and> llcp_version c' = llcp_version c"
  by (auto simp: mem_acquire_def split: if_splits)

lemma acked_inv: "ctl_inv p l c \<Longrightarrow> ctl_inv p l (c\<lparr>llcp_ack := llcp_req c\<rparr>)"
  by (simp add: ctl_defs)

lemma union_inv: "ctl_inv p l c \<Longrightarrow> llcp_type c \<noteq> LLCP_CHAN_MAP \<Longrightarrow> length u = 20 \<Longrightarrow> ctl_inv p l (c\<lparr>llcp_union := u\<rparr>)"
  by (simp add: ctl_defs)

lemma fex_inv: "ctl_inv p l c \<Longrightarrow> ctl_inv p l (event_fex_prep c)"
  by (auto simp: event_fex_prep_def mem_acquire_inv rx_notify_inv Let_def split: option.splits)

lemma vex_inv:
  assumes "ctl_inv p l c"
  shows "kept p l (event_vex_prep c)"
proof (cases "(ver_ack (llcp_version c) - ver_req (llcp_version c)) AND 1 = 0")
  case True
  then show ?thesis using assms by (simp add: event_vex_prep_def)
next
  case False
  let ?v = "llcp_version c"
  have ok: "ver_ok ?v" using assms by (simp add: ctl_inv_def)
  then have a: "ver_ack ?v = ver_req ?v - 1" "\<not> (ver_tx ?v \<and> \<not> ver_rx ?v)" using False by (auto simp: ver_ok_def)
  then have "ver_ok (?v\<lparr>ver_ack := ver_ack ?v - 1, ver_tx := True\<rparr>)" if "\<not> ver_tx ?v" using that by (simp add: ver_ok_def)
  moreover have "ver_ok (?v\<lparr>ver_ack := ver_req ?v\<rparr>)" if "ver_rx ?v" using that by (simp add: ver_ok_def)
  ultimately show ?thesis
    using assms False a(2)
    by (auto simp: event_vex_prep_def Let_def mem_acquire_inv rx_notify_inv ctl_inv_ver split: option.splits)
qed

lemma cpr_running:
  "ctl_inv p l c \<Longrightarrow> cpr_ack (llcp_conn_param c) \<noteq> cpr_req (llcp_conn_param c) \<Longrightarrow> p \<and> conn_upd_curr c = This_conn"
  by (auto simp: ctl_inv_def)

lemma cpr_state_inv:
  "ctl_inv p l c \<Longrightarrow> p \<Longrightarrow> conn_upd_curr c = This_conn \<Longrightarrow> ctl_inv p l (c\<lparr>llcp_conn_param := x\<rparr>)"
  by (simp add: ctl_defs)

lemma cpr_prep_inv:
  assumes "ctl_inv p l c" "cpr_ack (llcp_conn_param c) \<noteq> cpr_req (llcp_conn_param c)"
  shows "ctl_inv p l (event_conn_param_prep ctr c)"
proof -
  note run = cpr_running [OF assms]
  have "ctl_inv p l (event_conn_param_req ctr c)"
    using assms(1) run by (auto simp: event_conn_param_req_def cpr_pdu_def pdu_codes mem_acquire_inv split: option.splits)
      (auto simp: mem_acquire_def ctl_defs split: if_splits)
  moreover have "ctl_inv p l (event_conn_param_rsp c)"
    using assms(1)
    by (auto simp: event_conn_param_rsp_def cpr_pdu_def pdu_codes Let_def mem_acquire_inv cpr_stopped split: option.splits)
  moreover have "ctl_inv p l (event_conn_param_app_req c)"
    using assms(1) run
    by (auto simp: event_conn_param_app_req_def split: option.splits dest: rx_notify_fields
        intro!: cpr_state_inv simp: rx_notify_inv)
  ultimately show ?thesis
    using assms(1) by (simp add: event_conn_param_prep_def split: cpr_state.split)
qed

lemma ping_inv: "ctl_inv p l c \<Longrightarrow> ctl_inv p l (event_ping_prep c)"
  by (auto simp: event_ping_prep_def mem_acquire_inv acked_inv split: option.splits)

lemma phy_prep_inv:
  assumes "ctl_inv p l c" "phy_ack (llcp_phy c) \<noteq> phy_req (llcp_phy c)"
  shows "ctl_inv p l (event_phy_req_prep c)"
proof -
  have "phy_state (llcp_phy c) \<noteq> LLCP_PHY_STATE_UPD" using assms by (auto simp: ctl_inv_def phy_ok_def)
  then show ?thesis
    using assms(1)
    by (auto simp: event_phy_req_prep_def mem_acquire_inv phy_ok_def Let_def split: option.splits phy_state.splits)
qed

lemma len_prep_inv:
  assumes "ctl_inv p l c" "len_ack (llcp_length c) \<noteq> len_req (llcp_length c)"
  shows "event_len_prep c = Inr c" "len_state (llcp_length c) \<noteq> LLCP_LENGTH_STATE_RESIZE"
    "len_state (llcp_length c) \<noteq> LLCP_LENGTH_STATE_RESIZE_RSP"
  using assms by (auto simp: ctl_inv_def len_ok_def event_len_prep_def)

lemma ch_map_inv:
  assumes "ctl_inv p l c" "llcp_active c" "llcp_type c = LLCP_CHAN_MAP"
  shows "kept p l (event_ch_map_prep ctr c)"
proof -
  let ?u = "llcp_union c"
  have u: "length ?u = 20" "usable_map (take 5 (drop 1 ?u))" using assms by (auto simp: ctl_inv_def hop_inv_def)
  obtain w where w: "read_le16 ?u 6 = Inr w" using reads_ok(1) [of 6 ?u] u by auto
  have m: "read_mem ?u 1 5 = Inr (take 5 (drop 1 ?u))" using u by (simp add: read_mem_def)
  have n: "util_ones_count_get (take 5 (drop 1 ?u)) 5 = Inr (word_of_nat (channels_used (take 5 (drop 1 ?u))))"
    using util_ones_count(1) [of "take 5 (drop 1 ?u)"] u by simp
  have narrow: "(ucast (word_of_nat k :: u8) :: 6 word) = word_of_nat k" for k
    by (simp add: word_unat_eq_iff unsigned_ucast_eq unsigned_of_nat)
  have taken: "ctl_inv p l (c\<lparr>llcp_ack := llcp_req c, chm_updated := True, conn_lll := (conn_lll c)\<lparr>
      data_chan_map := take 5 (drop 1 ?u), data_chan_count := word_of_nat (channels_used (take 5 (drop 1 ?u)))\<rparr>\<rparr>)"
    using assms(1) u(2) by (simp add: ctl_defs timing_ok_def)
  have "take 5 (drop 1 (put_bytes 6 (le_bytes 2 i) (?u[0 := b]))) = take 5 (drop 1 ?u)" for i :: u16 and b
    using u(1) by (simp add: put_bytes_def drop_take drop_update_cancel)
  then have sent: "ctl_inv p l (c'\<lparr>llcp_union := put_bytes 6 (le_bytes 2 i) ((llcp_union c')[0 := b])\<rparr>)" if "mem_acquire c = Some c'" for c' b and i :: u16
    using assms u that by (auto simp: mem_acquire_def ctl_defs split: if_splits)
  show ?thesis
    using assms(1) w m n narrow taken sent
    by (auto simp: event_ch_map_prep_def Let_def pdu_codes dest: mem_acquire_fields split: option.splits)
qed

lemma enc_inv:
  assumes "ctl_inv p l c" "llcp_type c = LLCP_ENCRYPTION"
  shows "ctl_inv p l (event_enc_prep ecb random c)"
proof -
  have u: "length (llcp_union c) = 20" using assms(1) by (simp add: ctl_inv_def hop_inv_def)
  have rsp: "ctl_inv p l c' \<and> llcp_type c' = LLCP_ENCRYPTION \<and> length (llcp_union c') = 20" if "enc_rsp_send random c = Some c'" for c'
    using that assms u
    by (auto simp: enc_rsp_send_def Let_def mem_acquire_def split: option.splits if_splits intro!: union_inv)
      (simp_all add: ctrl_tx_enqueue_def)
  have first: "ctl_inv p l (c''\<lparr>llcp_union := (llcp_union c'')[0 := b]\<rparr>)"
    if "enc_rsp_send random c = Some c'" "rx_notify ty pdu c' = Some c''" for c' c'' ty pdu b
    using rsp [OF that(1)] rx_notify_fields [OF that(2)] rx_notify_inv [OF that(2)] by (intro union_inv) auto
  have second: "ctl_inv p l (if \<not> lll_enc_rx (conn_link c') then
      (if llcp_union c' ! 1 \<noteq> 0 then (let (pdu, c) = event_enc_reject_prep c' in ctrl_tx_enqueue pdu c) else start_encryption ecb c')
      else (let (pdu, c) = start_enc_rsp_send c' in
              ctrl_tx_enqueue pdu (c\<lparr>llcp_enc := (llcp_enc c)\<lparr>enc_pause_rx := False, enc_pause_tx := False\<rparr>\<rparr>)))" if "mem_acquire c = Some c'" for c'
    using assms mem_acquire_inv [OF that] mem_acquire_fields [OF that] u
    by (auto simp: event_enc_reject_prep_def start_encryption_def start_enc_rsp_send_def Let_def intro!: union_inv)
  show ?thesis
    using assms rsp first acked_inv [OF second]
    by (auto simp: event_enc_prep_def Let_def rx_notify_inv split: option.splits)
qed

lemma termination_inv: "ctl_inv p l c \<Longrightarrow> ctl_inv p l (llcp_termination c)"
  by (auto simp: llcp_termination_def Let_def mem_acquire_inv split: option.splits)

lemma requests_inv:
  assumes "ctl_inv p l c"
  shows "kept p l (llcp_requests ctr c)"
  using assms fex_inv [OF assms] vex_inv [OF assms] cpr_prep_inv [OF assms] len_prep_inv [OF assms] phy_prep_inv [OF assms]
  by (auto simp: llcp_requests_def) (simp_all add: ctl_inv_def)

lemma instants_inv:
  assumes "ctl_inv p l c"
  shows "\<exists>c'. llcp_instants local_sca ecb random lazy c = Inr (False, c') \<and> ctl_inv p l c'"
proof (cases "llcp_active c")
  case True
  then have "llcp_req c \<noteq> llcp_ack c" by (auto simp: llcp_active_def)
  then have ty: "llcp_type c = LLCP_CHAN_MAP \<or> llcp_type c = LLCP_ENCRYPTION \<or> llcp_type c = LLCP_PING"
    using assms by (auto simp: ctl_inv_def)
  show ?thesis
    using True ty len_prep_inv [OF assms] ch_map_inv [OF assms True, of "event_counter c + latency_prepare_acc c + lazy"] enc_inv [OF assms] ping_inv [OF assms]
    by (auto simp: llcp_instants_def kept_def)
next
  case False
  then show ?thesis using assms by (simp add: llcp_instants_def)
qed

lemma llcp_inv:
  assumes "ctl_inv p l c"
  shows "\<exists>c'. ull_conn_llcp local_sca ecb random lazy c = Inr (False, c') \<and> ctl_inv p l c'"
proof -
  obtain c1 where c1: "llcp_requests (event_counter c + latency_prepare_acc c + lazy) c = Inr c1" "ctl_inv p l c1"
    using requests_inv [OF assms] by (auto simp: kept_def)
  obtain c2 where "llcp_instants local_sca ecb random lazy c1 = Inr (False, c2)" "ctl_inv p l c2"
    using instants_inv [OF c1(2)] by blast
  then show ?thesis using c1(1) termination_inv by (simp add: ull_conn_llcp_def)
qed

lemma lll_inv:
  "ctl_inv p l c \<Longrightarrow> data_chan_map lll = data_chan_map (conn_lll c) \<Longrightarrow> data_chan_count lll = data_chan_count (conn_lll c) \<Longrightarrow>
   interval lll = interval (conn_lll c) \<Longrightarrow> supervision_reload lll = supervision_reload (conn_lll c) \<Longrightarrow> ctl_inv p l (c\<lparr>conn_lll := lll\<rparr>)"
  by (simp add: ctl_defs timing_ok_def)

lemma prepare_inv:
  assumes "ctl_inv p l c"
  shows "\<exists>ch c'. prepare_cb lazy c = Inr (ch, c') \<and> ctl_inv p l c' \<and> data_chan_map (conn_lll c') = data_chan_map (conn_lll c) \<and>
    unat ch \<in> set (channels_of (data_chan_map (conn_lll c)))"
proof -
  let ?m = "data_chan_map (conn_lll c)"
  have m: "length ?m = 5" "channels_used ?m \<noteq> 0" "data_chan_count (conn_lll c) = word_of_nat (channels_used ?m)"
    using assms by (auto simp: ctl_inv_def hop_inv_def usable_map_def)
  obtain ch u where "slave_event (event_counter c + (latency_prepare_acc c + lazy) + 1, latency_prepare_acc c + lazy) (conn_lll c) =
      Inr (ch, (conn_lll c)\<lparr>data_chan_use := u\<rparr>)" "unat ch \<in> set (channels_of ?m)"
    using slave_event_enabled [of "conn_lll c" "(event_counter c + (latency_prepare_acc c + lazy) + 1, latency_prepare_acc c + lazy)"] m
    by auto
  then show ?thesis using lll_inv [OF assms] by (simp add: prepare_cb_def Let_def)
qed

lemma tick_inv:
  assumes "ctl_inv p l c"
  shows "\<exists>ch c'. ull_slave_ticker_cb local_sca ecb random lazy c = Inr (Some ch, c') \<and> ctl_inv p l c' \<and>
    unat ch \<in> set (channels_of (data_chan_map (conn_lll c')))"
proof -
  obtain c1 where c1: "ull_conn_llcp local_sca ecb random lazy c = Inr (False, c1)" "ctl_inv p l c1"
    using llcp_inv [OF assms] by blast
  show ?thesis using c1(1) prepare_inv [OF c1(2), of lazy] by (auto simp: ull_slave_ticker_cb_def)
qed

section \<open>Other steps keep the invariant\<close>

lemma queue_drop: "ctl_inv p l c \<Longrightarrow> set q \<subseteq> set (tx_queue c) \<Longrightarrow> ctl_inv p l (c\<lparr>tx_queue := q\<rparr>)"
  by (auto simp: ctl_defs queue_ok_def)

lemma pre_ack_inv:
  assumes "ctl_inv p l c"
  shows "ctl_inv p l (ctrl_tx_pre_ack pdu c)"
proof -
  have "phy_ok ((llcp_phy c)\<lparr>phy_pause_tx := True\<rparr>)" using assms by (simp add: ctl_inv_def phy_ok_def)
  then show ?thesis using assms by (simp add: ctrl_tx_pre_ack_def Let_def)
qed

lemma length_rsp_ack_inv: "ctl_inv p l c \<Longrightarrow> ctl_inv p l (length_rsp_ack c)"
  by (auto simp: length_rsp_ack_def length_next_def Let_def intro!: ctl_inv_len) (auto simp: ctl_inv_def len_ok_def)

lemma ack_inv:
  assumes "ctl_inv p l c" "hd pdu \<noteq> PDU_DATA_LLCTRL_TYPE_ENC_REQ"
  shows "ctl_inv p l (snd (ctrl_tx_ack pdu c))"
proof -
  have "len_ok l ((llcp_length c)\<lparr>len_state := LLCP_LENGTH_STATE_RSP_WAIT\<rparr>)" and ok: "phy_ok (llcp_phy c)"
    using assms(1) by (auto simp: ctl_inv_def len_ok_def)
  moreover have "phy_ok ((llcp_phy c)\<lparr>phy_state := LLCP_PHY_STATE_RSP_WAIT, phy_pause_tx := False\<rparr>)"
    "phy_ok ((llcp_phy c)\<lparr>phy_pause_tx := False\<rparr>)"
    using ok by (simp_all add: phy_ok_def)
  ultimately show ?thesis
    using assms length_rsp_ack_inv [OF assms(1)] ctl_inv_len [OF assms(1)] by (simp add: ctrl_tx_ack_def Let_def)
qed

lemma tx_ack_inv:
  assumes "ctl_inv p l c"
  shows "ctl_inv p l (snd (ull_conn_tx_ack i c))"
proof (cases "i < length (tx_queue c)")
  case True
  let ?q = "take i (tx_queue c) @ drop (Suc i) (tx_queue c)"
  have "set ?q \<subseteq> set (tx_queue c)" using set_take_subset set_drop_subset by fastforce
  then have "ctl_inv p l (c\<lparr>tx_queue := ?q\<rparr>)" by (rule queue_drop [OF assms])
  moreover have "hd (tx_queue c ! i) \<noteq> PDU_DATA_LLCTRL_TYPE_ENC_REQ" using assms True by (auto simp: ctl_inv_def queue_ok_def)
  ultimately show ?thesis using True ack_inv [of p l "c\<lparr>tx_queue := ?q, tx_free := tx_free c + 1\<rparr>"] by (simp add: ull_conn_tx_ack_def)
next
  case False
  then show ?thesis using assms by (simp add: ull_conn_tx_ack_def)
qed

lemma start_ping: "ctl_inv p l c \<Longrightarrow> ctl_inv p l (llcp_start LLCP_PING c)"
  by (simp add: llcp_start_def ctl_inv_def hop_inv_def)

lemma mic_inv: "ctl_inv p l c \<Longrightarrow> ctl_inv p l (done_mic mic c)"
  by (cases mic) (auto simp: done_mic_def Let_def intro!: lll_inv)

lemma apto_inv: "ctl_inv p l c \<Longrightarrow> ctl_inv p l (done_apto n c)"
  by (auto simp: done_apto_def Let_def rx_notify_inv start_ping split: option.splits)

lemma done_conn_inv: "ctl_inv p l c \<Longrightarrow> ull_conn_done mic ev c = Inr c' \<Longrightarrow> ctl_inv p l c'"
  using mic_inv [of p l c mic]
  by (auto simp: ull_conn_done_def Let_def apto_inv split: if_splits conn_outcome.splits)

text \<open>The commands of the host that start no connection parameter or data length procedure.\<close>

fun plain_host :: "host_cmd \<Rightarrow> bool" where
  "plain_host (Host_update reply status interval_min interval_max latency timeout) = False"
| "plain_host (Host_length tx_octets tx_time) = False"
| "plain_host cmd = True"

lemma host_inv:
  assumes "ctl_inv p l c" "plain_host cmd"
  shows "\<exists>e c'. host_command cmd c = Inr (e, c') \<and> ctl_inv p l c'"
proof (cases cmd)
  case Host_version
  have "ver_ok (llcp_version c)" using assms(1) by (simp add: ctl_inv_def)
  then have "ver_ok ((llcp_version c)\<lparr>ver_req := ver_req (llcp_version c) + 1\<rparr>)" if "ver_req (llcp_version c) = ver_ack (llcp_version c)"
    using that by (auto simp: ver_ok_def)
  then show ?thesis using assms ctl_inv_ver [OF assms(1)] Host_version by (auto simp: ll_version_ind_send_def Let_def)
next
  case (Host_phy tx flags rx)
  then show ?thesis using assms by (simp add: ll_phy_req_send_def Let_def phy_ok_def)
next
  case (Host_apto apto)
  have "interval (conn_lll c) \<noteq> 0" using assms(1) by (simp add: ctl_inv_def timing_ok_def)
  then show ?thesis
    using assms Host_apto interval_us_nonzero [of "interval (conn_lll c)"] lll_inv [OF assms(1)]
    by (simp add: ll_apto_set_def RADIO_CONN_EVENTS_def)
next
  case (Host_ltk error_code ltk)
  have "length (llcp_union c) = 20" using assms(1) by (simp add: ctl_inv_def hop_inv_def)
  then show ?thesis using assms Host_ltk by (auto simp: ll_start_enc_req_send_def Let_def intro!: union_inv)
qed (use assms in \<open>auto simp: ll_terminate_ind_send_def ll_feature_req_send_def\<close>)

fun plain_step :: "conn_step \<Rightarrow> bool" where
  "plain_step (Receive rx) \<longleftrightarrow>
     wf_node rx \<and> rx_type rx = NODE_RX_TYPE_DC_PDU \<and> ctrl_of (rx_pdu rx) \<notin> {Length_rsp, Conn_param_rsp}"
| "plain_step (Host cmd) \<longleftrightarrow> plain_host cmd"
| "plain_step st \<longleftrightarrow> True"

definition out_ok :: "step_out \<Rightarrow> bool" where
  "out_ok r \<longleftrightarrow> (\<forall>ch m. r = Channel ch m \<longrightarrow> unat ch \<in> set (channels_of m))"

lemma local_step_inv:
  assumes "ctl_inv p l c" "plain_step st"
  shows "\<exists>r c'. conn_local_step local_sca ecb st c = Inr (r, c') \<and> ctl_inv p l c' \<and> out_ok r"
proof (cases st)
  case (Event lazy random)
  obtain ch c' where "ull_slave_ticker_cb local_sca ecb random lazy c = Inr (Some ch, c')" "ctl_inv p l c'"
      "unat ch \<in> set (channels_of (data_chan_map (conn_lll c')))"
    using tick_inv [OF assms(1)] by blast
  then show ?thesis using Event by (simp add: out_ok_def)
next
  case (Acked i)
  then show ?thesis using tx_ack_inv [OF assms(1), of i] by (simp add: ended_or_def out_ok_def split: option.splits)
next
  case (Done mic ev)
  then show ?thesis using assms done_conn_inv [OF assms(1), of mic ev] by (simp add: out_ok_def split: sum.splits)
next
  case (Host cmd)
  then obtain e c' where "host_command cmd c = Inr (e, c')" "ctl_inv p l c'" using host_inv [OF assms(1), of cmd] assms(2) by auto
  then show ?thesis using Host by (simp add: out_ok_def)
qed (use assms pre_ack_inv [OF assms(1)] in \<open>simp_all add: out_ok_def\<close>)

section \<open>Received packets\<close>

text \<open>The handlers that keep the node are those of connection, data length and PHY updates.\<close>

definition gives_node :: "ctrl_res \<Rightarrow> bool" where
  "gives_node m \<longleftrightarrow> (\<forall>n c. m \<noteq> Inr (n, None, c))"

lemma gives_node_simps [simp]:
  "gives_node (Inl e)" "gives_node (Inr (n, Some rx, c))" "gives_node (LL_ASSERT b m) \<longleftrightarrow> (b \<longrightarrow> gives_node m)"
  by (auto simp: gives_node_def LL_ASSERT_def)

lemma gives_node_bind [intro!]: "(\<And>x. m = Inr x \<Longrightarrow> gives_node (f x)) \<Longrightarrow> gives_node (c_bind m f)"
  by (cases m) auto

lemma gives_node_send [simp]: "gives_node (send_ctrl upd pdu rx c)"
  by (simp add: send_ctrl_def Let_def split: option.splits)

lemma gives_node_handlers [simp]:
  "gives_node (unknown_rsp_send ty rx c)" "gives_node (feature_rsp_send rx c)" "gives_node (ping_resp_send rx c)"
  "gives_node (reject_ext_ind_send a b rx c)" "gives_node (pause_enc_rsp_send req rx c)" "gives_node (terminate_ind_recv rx c)"
  "gives_node (phy_rsp_send rx c)" "gives_node (version_ind_send rx c)" "gives_node (enc_req_recv rx c)"
  "gives_node (reject_ext_ind_recv rx c)" "gives_node (unknown_rsp_recv rx c)" "gives_node (conn_param_req_recv rx c)"
  by (auto simp: unknown_rsp_send_def feature_rsp_send_def ping_resp_send_def reject_ext_ind_send_def pause_enc_rsp_send_def
      terminate_ind_recv_def phy_rsp_send_def version_ind_send_def enc_req_recv_def reject_ext_ind_recv_def unknown_rsp_recv_def
      conn_param_req_recv_def Let_def)

lemma gives_node_len: "gives_node m \<Longrightarrow> gives_node (with_len ty opcode rx c m)"
  by (auto simp: with_len_def)

lemma gives_node_if: "(b \<Longrightarrow> gives_node m) \<Longrightarrow> (\<not> b \<Longrightarrow> gives_node m') \<Longrightarrow> gives_node (if b then m else m')"
  by simp

lemma ctrl_rx_gives_node:
  assumes "llctrl_opcode (rx_pdu rx) = Inr op"
    "op \<notin> {PDU_DATA_LLCTRL_TYPE_CONN_UPDATE_IND, PDU_DATA_LLCTRL_TYPE_LENGTH_REQ, PDU_DATA_LLCTRL_TYPE_LENGTH_RSP, PDU_DATA_LLCTRL_TYPE_PHY_UPD_IND}"
  shows "gives_node (ctrl_rx rx c)"
  unfolding ctrl_rx_def assms(1) c_bind_simps
  by (intro gives_node_if gives_node_len gives_node_bind) (use assms(2) in \<open>auto simp: with_reason_def Let_def split: prod.splits\<close>)

definition keeps_node :: "node_rx_pdu \<Rightarrow> bool" where
  "keeps_node rx \<longleftrightarrow> rx_pdu rx ! 0 AND 3 = 3 \<and>
     rx_pdu rx ! 3 \<in> {PDU_DATA_LLCTRL_TYPE_CONN_UPDATE_IND, PDU_DATA_LLCTRL_TYPE_LENGTH_REQ, PDU_DATA_LLCTRL_TYPE_PHY_UPD_IND}"

lemma conn_rx_inv:
  assumes "ctl_inv p l c" "36 \<le> length (rx_pdu rx)" "rx_free c \<noteq> 0" "rx_pdu rx ! 0 AND 3 = 3 \<Longrightarrow> ctrl_checked p l (rx_pdu rx)"
  shows "(\<exists>n rx' c'. ull_conn_rx rx c = Inr (n, rx', c') \<and>
      ctl_inv (p \<or> rx_pdu rx ! 0 AND 3 = 3 \<and> rx_pdu rx ! 3 = PDU_DATA_LLCTRL_TYPE_CONN_PARAM_REQ)
        (l \<or> rx_pdu rx ! 0 AND 3 = 3 \<and> rx_pdu rx ! 3 = PDU_DATA_LLCTRL_TYPE_LENGTH_REQ) c') \<or>
    ull_conn_rx rx c = Inl Null_deref \<and> keeps_node rx"
proof (cases "rx_pdu rx ! 0 AND 3 = 3")
  case True
  have id: "pdu_ll_id (rx_pdu rx) = Inr PDU_DATA_LLID_CTRL" using assms(2) True by (simp add: PDU_DATA_LLID_CTRL_def u8_to_2)
  note chk = assms(4) [OF True]
  obtain n rxo c' where r: "ctrl_rx rx c = Inr (n, rxo, c')"
      "rxo \<noteq> None \<longrightarrow> ctl_inv (p \<or> rx_pdu rx ! 3 = PDU_DATA_LLCTRL_TYPE_CONN_PARAM_REQ)
        (l \<or> rx_pdu rx ! 3 = PDU_DATA_LLCTRL_TYPE_LENGTH_REQ) c'"
    using ctrl_rx_handled [OF assms(1,2) chk assms(3)] by (auto simp: handled_def)
  show ?thesis
  proof (cases rxo)
    case None
    then have "keeps_node rx"
      using ctrl_rx_gives_node [of rx "rx_pdu rx ! 3" c] r(1) True assms(2) chk
      by (auto simp: gives_node_def keeps_node_def ctrl_checked_def)
    then show ?thesis using id r(1) None by (simp add: ull_conn_rx_def)
  next
    case (Some rx')
    then show ?thesis using id r True by (simp add: ull_conn_rx_def)
  qed
next
  case False
  then show ?thesis using assms(1,2) by (simp add: ull_conn_rx_def PDU_DATA_LLID_CTRL_def u8_to_2 Let_def)
qed

section \<open>Runs\<close>

lemma filter_inv:
  assumes "ll_inv pl n s" "n < 2 ^ 31 - 1" "wf_node rx"
  shows "\<exists>b lll' s'. rx_demux_filter pl rx lll s = Some (Inr (if b then release rx else rx, lll', s')) \<and> ll_inv pl (Suc n) s' \<and>
    (b, ll_abs s') = ll_step (event_of rx lll) (ll_abs s)"
proof -
  obtain b lll' s' where s': "ifw_ll_packet_parser_rx pl rx lll s = Some (Inr (b, lll', s'))" "fw_inv pl (fw s')"
      "(b, ll_abs s') = ll_step (event_of rx lll) (ll_abs s)"
    using ll_rx_step [OF assms, of lll] by (auto simp: returns_def)
  have "rx_demux_filter pl rx lll s = Some (Inr (if b then release rx else rx, lll', s'))"
    using s'(1) by (simp add: rx_demux_filter_def release_def)
  then show ?thesis using ll_inv_next [OF assms(1) s'(2,3)] s'(3) by blast
qed

text \<open>The state of the firewall knows of every procedure under way.\<close>

abbreviation joint_inv :: "ll_conn \<Rightarrow> ll_parser \<Rightarrow> bool" where
  "joint_inv c s \<equiv> ctl_inv (cprs (ll_abs s) \<noteq> 0) (len_reqs (ll_abs s) \<noteq> 0) c"

lemma ctrl_of_cases:
  assumes "bs ! 0 AND 3 = 3"
  shows "bs ! 3 = PDU_DATA_LLCTRL_TYPE_CHAN_MAP_IND \<Longrightarrow> ctrl_of bs = Chan_map (channels_used (take 5 (drop 4 bs)))"
    "ctrl_of bs = Length_req \<longleftrightarrow> bs ! 3 = PDU_DATA_LLCTRL_TYPE_LENGTH_REQ"
    "ctrl_of bs = Conn_param_req \<longleftrightarrow> bs ! 3 = PDU_DATA_LLCTRL_TYPE_CONN_PARAM_REQ"
    "bs ! 3 = PDU_DATA_LLCTRL_TYPE_LENGTH_RSP \<Longrightarrow> ctrl_of bs = Length_rsp"
  using assms by (simp_all add: ctrl_of_def pdu_codes)

lemma ctrl_step_counts:
  assumes "ctrl_step k a = (False, a')" "cprs a < 2 ^ 16 - 1" "len_reqs a < 2 ^ 16 - 1" "k \<notin> {Length_rsp, Conn_param_rsp}"
  shows "cprs a' = cprs a + of_bool (k = Conn_param_req)" "len_reqs a' = len_reqs a + of_bool (k = Length_req)"
    "k = Conn_param_req \<longrightarrow> cprs a = 0" "k = Length_req \<longrightarrow> len_reqs a = 0" "\<forall>m. k = Chan_map m \<longrightarrow> m \<noteq> 0"
  using assms by (cases k; auto)+

lemma accepted_packet:
  assumes "ll_step (Data nesn sn (ctrl_of bs)) a = (False, a')" "cprs a < 2 ^ 16 - 1" "len_reqs a < 2 ^ 16 - 1"
    and "ctrl_of bs \<notin> {Length_rsp, Conn_param_rsp}"
  shows "bs ! 0 AND 3 = 3 \<Longrightarrow> ctrl_checked (cprs a \<noteq> 0) (len_reqs a \<noteq> 0) bs"
    "cprs a' = cprs a + of_bool (bs ! 0 AND 3 = 3 \<and> bs ! 3 = PDU_DATA_LLCTRL_TYPE_CONN_PARAM_REQ)"
    "len_reqs a' = len_reqs a + of_bool (bs ! 0 AND 3 = 3 \<and> bs ! 3 = PDU_DATA_LLCTRL_TYPE_LENGTH_REQ)"
proof -
  have step: "ctrl_step (ctrl_of bs) (a\<lparr>anchor := False\<rparr>) = (False, a')" using assms(1) by (simp split: if_splits)
  note cnt = ctrl_step_counts [OF step _ _ assms(4), simplified, OF assms(2,3) [simplified]]
  show "ctrl_checked (cprs a \<noteq> 0) (len_reqs a \<noteq> 0) bs" if "bs ! 0 AND 3 = 3"
    using cnt ctrl_of_cases [OF that] assms(4) by (auto simp: ctrl_checked_def)
  have "ctrl_of bs = Other_ctrl" if "bs ! 0 AND 3 \<noteq> 3" using that by (simp add: ctrl_of_def)
  then show "cprs a' = cprs a + of_bool (bs ! 0 AND 3 = 3 \<and> bs ! 3 = PDU_DATA_LLCTRL_TYPE_CONN_PARAM_REQ)"
    "len_reqs a' = len_reqs a + of_bool (bs ! 0 AND 3 = 3 \<and> bs ! 3 = PDU_DATA_LLCTRL_TYPE_LENGTH_REQ)"
    using cnt(1,2) ctrl_of_cases(2,3) [of bs] by (cases "bs ! 0 AND 3 = 3"; simp)+
qed

lemma rejected_packet:
  assumes "ll_step (Data nesn sn k) a = (True, a')"
  shows "cprs a \<le> cprs a'" "len_reqs a \<le> len_reqs a'"
  using assms by (cases k; auto split: if_splits)+

lemma receive_inv:
  assumes "ll_inv pl n s" "n < 2 ^ 16 - 1" "plain_step (Receive rx)" "joint_inv c s" "rx_free c \<noteq> 0"
  shows "(\<exists>c' s'. conn_step pl local_sca ecb (Receive rx) c s = Some (Inr (Going, c', s')) \<and> ll_inv pl (Suc n) s' \<and> joint_inv c' s') \<or>
    conn_step pl local_sca ecb (Receive rx) c s = Some (Inl Null_deref) \<and> keeps_node rx"
proof -
  let ?lll = "lll_conn.truncate (conn_lll c)" and ?bs = "rx_pdu rx"
  have rx: "wf_node rx" "rx_type rx = NODE_RX_TYPE_DC_PDU" "ctrl_of ?bs \<notin> {Length_rsp, Conn_param_rsp}" using assms(3) by simp_all
  have ev: "event_of rx ?lll = Data (bit (?bs ! 0) 2) (bit (?bs ! 0) 3) (ctrl_of ?bs)"
    using rx(2) by (simp add: event_of_def node_rx_codes Let_def)
  obtain b lll' s' where s': "rx_demux_filter pl rx ?lll s = Some (Inr (if b then release rx else rx, lll', s'))" "ll_inv pl (Suc n) s'"
      "(b, ll_abs s') = ll_step (event_of rx ?lll) (ll_abs s)"
    using filter_inv [OF assms(1) _ rx(1), of ?lll] assms(2) by auto
  note fw = s'(3) [symmetric, unfolded ev]
  have bound: "cprs (ll_abs s) < 2 ^ 16 - 1" "len_reqs (ll_abs s) < 2 ^ 16 - 1"
    using assms(1,2) by (simp_all add: ll_inv_def ll_abs_def)
  show ?thesis
  proof (cases b)
    case True
    then have "b = True" by simp
    have "cprs (ll_abs s) \<le> cprs (ll_abs s')" "len_reqs (ll_abs s) \<le> len_reqs (ll_abs s')"
      using rejected_packet [OF fw [unfolded \<open>b = True\<close>]] .
    then have "joint_inv c s'" using ctl_inv_mono [OF assms(4)] by simp
    then show ?thesis using True s'(1,2) by (simp add: conn_step_def rx_demux_rx_def release_def node_rx_codes)
  next
    case False
    from False have "b = False" by simp
    note acc = accepted_packet [OF fw [unfolded this] bound rx(3)]
    have r: "rx_demux_rx pl rx c s = m_bind (Some (ull_conn_rx rx c)) (\<lambda>(nack, rx, c). Some (Inr (nack, rx, c, s')))"
      using s'(1) False rx(2) by (simp add: rx_demux_rx_def)
    have new: "cprs (ll_abs s') \<noteq> 0 \<longleftrightarrow> cprs (ll_abs s) \<noteq> 0 \<or> ?bs ! 0 AND 3 = 3 \<and> ?bs ! 3 = PDU_DATA_LLCTRL_TYPE_CONN_PARAM_REQ"
      "len_reqs (ll_abs s') \<noteq> 0 \<longleftrightarrow> len_reqs (ll_abs s) \<noteq> 0 \<or> ?bs ! 0 AND 3 = 3 \<and> ?bs ! 3 = PDU_DATA_LLCTRL_TYPE_LENGTH_REQ"
      using acc(2,3) by auto
    have "36 \<le> length ?bs" using rx(1) by (simp add: wf_node_def)
    then consider (ok) n' rx' c' where "ull_conn_rx rx c = Inr (n', rx', c')" "joint_inv c' s'"
      | (null) "ull_conn_rx rx c = Inl Null_deref" "keeps_node rx"
      using conn_rx_inv [OF assms(4) _ assms(5) acc(1)] unfolding new by blast
    then show ?thesis using s'(2) r by cases (simp_all add: conn_step_def)
  qed
qed

lemma env_inv: "ctl_inv p l c \<Longrightarrow> ctl_inv p l (env_apply e c)"
  by (auto simp: env_apply_def ctl_defs)

lemma step_inv:
  assumes "ll_inv pl n s" "n < 2 ^ 16 - 1" "plain_step st" "joint_inv c s" "rx_free c \<noteq> 0"
  shows "(\<exists>r c' s'. conn_step pl local_sca ecb st c s = Some (Inr (r, c', s')) \<and> ll_inv pl (Suc n) s' \<and> joint_inv c' s' \<and> out_ok r) \<or>
    conn_step pl local_sca ecb st c s = Some (Inl Null_deref) \<and> (\<exists>rx. st = Receive rx \<and> keeps_node rx)"
proof (cases "\<exists>rx. st = Receive rx")
  case True
  then obtain rx where rx: "st = Receive rx" ..
  then show ?thesis using receive_inv [OF assms(1,2) _ assms(4,5), of rx local_sca ecb] assms(3) by (fastforce simp: out_ok_def)
next
  case False
  obtain r c' where "conn_local_step local_sca ecb st c = Inr (r, c')" "joint_inv c' s" "out_ok r"
    using local_step_inv [OF assms(4,3)] by blast
  moreover have "ll_inv pl (Suc n) s" using assms(1) by (simp add: ll_inv_def)
  ultimately show ?thesis using False by (auto simp: conn_step_def split: conn_step.split)
qed

lemma steps_inv:
  assumes "ll_inv pl n s" "n + length sts < 2 ^ 16" "\<forall>(e, st) \<in> set sts. env_rx_free e \<noteq> 0 \<and> plain_step st" "joint_inv c s"
  shows "(\<exists>rs c' s'. conn_steps pl local_sca ecb sts c s = Some (Inr (rs, c', s')) \<and> (\<forall>r \<in> set rs. out_ok r)) \<or>
    conn_steps pl local_sca ecb sts c s = Some (Inl Null_deref) \<and> (\<exists>e rx. (e, Receive rx) \<in> set sts \<and> keeps_node rx)"
  using assms
proof (induction sts arbitrary: n c s)
  case (Cons x sts)
  obtain e st where x: "x = (e, st)" by (cases x)
  have n: "n < 2 ^ 16 - 1" and st: "plain_step st" and rx: "rx_free (env_apply e c) \<noteq> 0"
    using Cons.prems(2,3) x by (auto simp: env_apply_def)
  note inv = env_inv [OF Cons.prems(4), of e]
  from step_inv [OF Cons.prems(1) n st inv rx, of local_sca ecb] show ?case
  proof (elim disjE exE conjE)
    fix r c' s'
    assume r: "conn_step pl local_sca ecb st (env_apply e c) s = Some (Inr (r, c', s'))" "ll_inv pl (Suc n) s'" "joint_inv c' s'" "out_ok r"
    then show ?case using Cons.IH [OF r(2) _ _ r(3)] Cons.prems(2,3) x by (cases r) auto
  next
    fix rx'
    assume "conn_step pl local_sca ecb st (env_apply e c) s = Some (Inl Null_deref)" "st = Receive rx'" "keeps_node rx'"
    then show ?case using x by auto
  qed
qed simp

section \<open>New connections\<close>

lemma supervision_product:
  assumes "t < 65536" "i < 65536" "i \<noteq> 0"
  shows "unat (word_of_nat (supervision_events t i) :: u16) * i < 2 ^ 31"
proof -
  have "unat (word_of_nat (supervision_events t i) :: u16) \<le> supervision_events t i"
    by (simp add: unsigned_of_nat take_bit_eq_mod)
  then have "unat (word_of_nat (supervision_events t i) :: u16) * i \<le> supervision_events t i * i" by simp
  also have "\<dots> \<le> 8 * t + i" by (simp add: supervision_events_def algebra_simps) (metis div_times_less_eq_dividend le_trans diff_le_self add.commute mult.commute)
  finally have "unat (word_of_nat (supervision_events t i) :: u16) * i \<le> 8 * t + i" .
  then show ?thesis using assms by simp
qed

lemma setup_inv:
  assumes "36 \<le> length bs" "channels_used (take 5 (drop 30 bs)) \<noteq> 0" "le16_at bs 24 \<noteq> 0" "unat local_sca < 8" "length (llcp_union c) = 20"
  shows "\<exists>c'. ull_slave_setup local_sca bs (adv_conn_init a b d e c) = Inr c' \<and> ctl_inv False False c'"
proof -
  let ?c = "adv_conn_init a b d e c" and ?m = "take 5 (drop 30 bs)"
  obtain lll iv where lll: "slave_setup local_sca bs (conn_lll ?c) = Inr lll" "data_chan_map lll = ?m"
      "data_chan_count lll = word_of_nat (channels_used ?m)" "unat iv = le16_at bs 24" "interval lll = iv"
      "supervision_reload lll = word_of_nat (supervision_events (le16_at bs 28) (le16_at bs 24))"
    using setup_ok [OF assms(1,4,3), of "conn_lll ?c"] by blast
  obtain t :: u16 where t: "unat t = le16_at bs 28" using reads_defined [OF assms(1)] by blast
  have "unat (supervision_reload lll) * unat iv < 2 ^ 31"
    using supervision_product [of "unat t" "unat iv"] unsigned_less [of t, where 'a = nat] unsigned_less [of iv, where 'a = nat] lll(4,6) assms(3) t by simp
  then have "uint (supervision_reload lll) * uint iv < 2 ^ 31"
    by (simp only: uint_nat of_nat_mult [symmetric] of_nat_less_numeral_power_cancel_iff)
  then have "timing_ok lll" using lll(4,5) assms(3) by (auto simp: timing_ok_def)
  moreover have "usable_map ?m" using assms(1,2) by (simp add: usable_map_def)
  ultimately have "ctl_inv False False (?c\<lparr>conn_lll := lll, conn_tm := t'\<rparr>)" for t'
    using lll(2,3) assms(5)
    by (simp add: adv_conn_init_def ctl_inv_def hop_inv_def llcp_active_def queue_ok_def ver_ok_def phy_ok_def len_ok_def Let_def)
  then show ?thesis using lll(1) by (simp add: ull_slave_setup_def)
qed

end
