(* ===== verification/Ll_Connections.thy ===== *)
theory Ll_Connections
  imports Ll_Control_Safe
begin

text \<open>
  What the firewall and the controller together guarantee for a connection, and what they do not: runs of
  accepted connections, the updates of channel map and connection parameters, and the packets that
  stop the controller.
\<close>

section \<open>Instances\<close>

definition ll_conn_example :: ll_conn where
  "ll_conn_example =
     \<lparr>conn_lll = conn_example\<lparr>data_chan_map := [0xFF, 0, 0, 0, 0], data_chan_count := 8, data_chan_hop := 7, interval := 24\<rparr>,
      conn_tm = \<lparr>connect_expire = 0, supervision_expire = 0, procedure_expire = 0, latency_event = 0, force_bits = 0\<rparr>,
      conn_link = \<lparr>max_tx_octets = 27, max_rx_octets = 27, max_tx_time = 328, max_rx_time = 328, lll_phy_tx = 1, lll_phy_rx = 1,
        lll_phy_tx_time = 1, lll_phy_flags = False, lll_enc_rx = False, lll_enc_tx = False,
        ccm_rx = \<lparr>ccm_key = replicate 16 0, ccm_counter = 0, ccm_direction = False, ccm_iv = replicate 8 0\<rparr>,
        ccm_tx = \<lparr>ccm_key = replicate 16 0, ccm_counter = 0, ccm_direction = False, ccm_iv = replicate 8 0\<rparr>,
        window_widening_prepare_us = 0, window_widening_event_us = 0, window_size_prepare_us = 0\<rparr>,
      event_counter = 0, latency_prepare_acc = 0, llcp_req = 0, llcp_ack = 0, llcp_type = LLCP_NONE, llcp_union = replicate 20 0,
      llcp_rx = [],
      llcp_cu = \<lparr>cu_req = 0, cu_ack = 0, cu_state = LLCP_CUI_STATE_INPROG, cu_cmd = False, cu_new_interval = 0, cu_latency = 0,
        cu_timeout = 0, cu_win_offset_us = 0, cu_win_size = 0\<rparr>,
      llcp_conn_param = \<lparr>cpr_req = 0, cpr_ack = 0, cpr_state = LLCP_CPR_STATE_REQ, cpr_cmd = False, cpr_disabled = False,
        cpr_status = 0, cpr_interval_min = 0, cpr_interval_max = 0, cpr_latency = 0, cpr_timeout = 0,
        cpr_preferred_periodicity = 0, cpr_reference_conn_event_count = 0, cpr_offsets = [], cpr_ticks_to_offset_next = 0\<rparr>,
      llcp_length = \<lparr>len_req = 0, len_ack = 0, len_state = LLCP_LENGTH_STATE_REQ, len_rx_octets = 0, len_tx_octets = 0,
        len_rx_time = 0, len_tx_time = 0, len_cache_tx_octets = 0, len_cache_tx_time = 0\<rparr>,
      llcp_phy = \<lparr>phy_req = 0, phy_ack = 0, phy_state = LLCP_PHY_STATE_REQ, phy_tx = 0, phy_rx = 0, phy_pause_tx = False,
        phy_flags = False, phy_cmd = False\<rparr>,
      llcp_enc = \<lparr>enc_pause_rx = False, enc_pause_tx = False, enc_refresh = False, enc_ediv = [0, 0], enc_rand = replicate 8 0,
        enc_ltk = replicate 16 0\<rparr>,
      llcp_version = \<lparr>ver_req = 0, ver_ack = 0, ver_tx = False, ver_rx = False, ver_version_number = 0, ver_company_id = 0,
        ver_sub_version_number = 0\<rparr>,
      feature_req = 0, feature_ack = 0, features = 0, fex_valid = False, term_req = 0, term_ack = 0, reason_own = 0, reason_peer = 0,
      apto_expire = 0, appto_expire = 0, ticks_to_offset = 0, chm_updated = False, default_tx_octets = 27, default_tx_time = 328,
      phy_pref_tx = 7, phy_pref_rx = 7, phy_pref_flags = False, conn_upd_curr = No_conn, tx_free = 2, tx_queue = [], rx_free = 2,
      rx_queue = [], octets_rx_max = 251, version_local = [9, 0, 0, 0, 0], ll_feat = 0\<rparr>"

lemma example_inv: "ctl_inv False False ll_conn_example"
proof -
  have "channels_used [0xFF, 0, 0, 0, 0] = 8" by code_simp
  then show ?thesis
    by (simp add: ll_conn_example_def conn_example_def ctl_defs usable_map_def timing_ok_def queue_ok_def ver_ok_def phy_ok_def len_ok_def)
qed

definition env_example :: conn_env where
  "env_example = \<lparr>env_rx_free = 2, env_tx_free = 2, env_other = False\<rparr>"

text \<open>A control packet of the given length, opcode and parameters.\<close>

definition ctrl_example :: "u8 \<Rightarrow> u8 \<Rightarrow> u8 list \<Rightarrow> node_rx_pdu" where
  "ctrl_example len opcode params = \<lparr>rx_type = NODE_RX_TYPE_DC_PDU, rx_pdu = [3, len, 0, opcode] @ params @ replicate (32 - length params) 0\<rparr>"

section \<open>Runs\<close>

text \<open>
  C3: runs of an accepted connection. If the receive hook lets a connection request to the
  peripheral pass, then the set-up returns; and for every sequence of fewer than 65536 steps after it - received packets that
  are no connection parameter or data length responses, events with any number of skipped ones, packets sent and acknowledged
  in any order, ends of events, and commands of the host that start no such procedure - with at least one free receive node and
  any number of free transmit nodes at each step, the controller's handlers return without
  undefined behaviour and with no failed assertion, and every event uses a channel that the channel map in force at the event
  enables. The only exception is a null pointer that is dereferenced after a connection update, a data length request or a PHY update.
\<close>

theorem accepted_connection_runs:
  assumes "ll_inv pl n s" "n < 2 ^ 31 - 1" "wf_node rx"
    and "rx_type rx = NODE_RX_TYPE_CONNECTION" "lll_role lll = 1"
    and "ifw_ll_packet_parser_rx pl rx lll s = Some (Inr (False, lll', s'))" "unat local_sca < 8" "length (llcp_union c) = 20"
    and "length sts < 2 ^ 16" "\<forall>(e, st) \<in> set sts. env_rx_free e \<noteq> 0 \<and> plain_step st"
  shows "\<exists>c'. ull_slave_setup local_sca (rx_pdu rx) (adv_conn_init tx_octets tx_time tx_phys rx_phys c) = Inr c' \<and>
    ((\<exists>rs c'' s''. conn_steps pl local_sca ecb sts c' s' = Some (Inr (rs, c'', s'')) \<and>
        (\<forall>ch m. Channel ch m \<in> set rs \<longrightarrow> unat ch < 8 * length m \<and> bit (m ! (unat ch div 8)) (unat ch mod 8))) \<or>
     conn_steps pl local_sca ecb sts c' s' = Some (Inl Null_deref) \<and> (\<exists>e rx. (e, Receive rx) \<in> set sts \<and> keeps_node rx))"
proof -
  note acc = accepted_fields [OF assms(1-6)]
  obtain c' where c': "ull_slave_setup local_sca (rx_pdu rx) (adv_conn_init tx_octets tx_time tx_phys rx_phys c) = Inr c'"
      "ctl_inv False False c'"
    using setup_inv [OF acc assms(7,8)] by blast
  have "fw_inv pl (fw s')" "ll_abs s' = \<lparr>anchor = True, len_reqs = 0, cprs = 0\<rparr>"
    using ll_rx_step [OF assms(1-3), of lll] assms(4-6) by (auto simp: returns_def event_of_def Let_def)
  then have "ll_inv pl 0 s'" "joint_inv c' s'" using c'(2) by (simp_all add: ll_inv_def ll_abs_def)
  then show ?thesis
    using steps_inv [of pl 0 s' sts c' local_sca ecb] assms(9,10) c'(1) by (auto simp: out_ok_def set_channels_of)
qed

theorem accepted_connection_runs_witness:
  "\<exists>s lll' s' c' rs c'' s''. firewall_boot platform_example = Inr s \<and>
     ifw_ll_packet_parser_rx platform_example (timeout_example 100) lll_example s = Some (Inr (False, lll', s')) \<and>
     ull_slave_setup 0 (rx_pdu (timeout_example 100)) (adv_conn_init 27 328 1 1 ll_conn_example) = Inr c' \<and>
     conn_steps platform_example 0 (\<lambda>k d. d)
       [(env_example, Event 0 []), (env_example, Receive (ctrl_example 6 0x0C [9])), (env_example, Done LLL_CONN_MIC_NONE silent_example),
        (env_example, Event 3 []), (env_example, Host (Host_ltk 0 []))] c' s' = Some (Inr (rs, c'', s''))"
proof -
  let ?sts = "[(env_example, Event 0 []), (env_example, Receive (ctrl_example 6 0x0C [9])),
    (env_example, Done LLL_CONN_MIC_NONE silent_example), (env_example, Event 3 []), (env_example, Host (Host_ltk 0 []))]"
  obtain s lll' s' where s: "firewall_boot platform_example = Inr s" "ll_inv platform_example 0 s"
      "ifw_ll_packet_parser_rx platform_example (timeout_example 100) lll_example s = Some (Inr (False, lll', s'))"
      "rx_type (timeout_example 100) = NODE_RX_TYPE_CONNECTION" "lll_role lll_example = 1" "wf_node (timeout_example 100)"
    using accepted_example by blast
  have ok: "length (llcp_union ll_conn_example) = 20" "\<forall>(e, st) \<in> set ?sts. env_rx_free e \<noteq> 0 \<and> plain_step st"
      "\<not> keeps_node (ctrl_example 6 0x0C [9])"
    by (simp_all add: ll_conn_example_def env_example_def ctrl_example_def wf_node_def ctrl_of_def keeps_node_def pdu_codes)
  then show ?thesis
    using accepted_connection_runs [OF s(2) _ s(6,4,5,3), of 0 ll_conn_example ?sts 27 328 1 1 "\<lambda>k d. d"] s(1,3) by fastforce
qed

section \<open>Packets that stop the controller\<close>

lemma passed_packet:
  assumes "ll_inv pl n s" "n < 2 ^ 31 - 1" "wf_node rx" "rx_type rx = NODE_RX_TYPE_DC_PDU"
    and "\<not> (anchor (ll_abs s) \<and> bit (rx_pdu rx ! 0) 2 \<and> bit (rx_pdu rx ! 0) 3)"
    and "ctrl_step (ctrl_of (rx_pdu rx)) ((ll_abs s)\<lparr>anchor := False\<rparr>) = (False, a)"
  shows "\<exists>s'. ll_inv pl (Suc n) s' \<and> ll_abs s' = a \<and>
    rx_demux_rx pl rx c s = m_bind (Some (ull_conn_rx rx c)) (\<lambda>(nack, rx, c). Some (Inr (nack, rx, c, s')))"
proof -
  let ?lll = "lll_conn.truncate (conn_lll c)"
  have "ll_step (event_of rx ?lll) (ll_abs s) = (False, a)"
    using assms(4-6) by (auto simp: event_of_def node_rx_codes Let_def)
  then obtain lll' s' where "rx_demux_filter pl rx ?lll s = Some (Inr (rx, lll', s'))" "ll_inv pl (Suc n) s'" "ll_abs s' = a"
    using filter_inv [OF assms(1-3), of ?lll] by auto
  then show ?thesis using assms(4) by (auto simp: rx_demux_rx_def)
qed

text \<open>
  C24: a connection update stops the controller. Any well-formed connection update that the firewall lets pass, with a new interval
  that is not zero and an instant that is not in the past, received while no other procedure with an instant and no encryption
  procedure is under way, makes \<open>ull_conn_rx\<close> dereference a null pointer: the handler has kept the node and cleared the
  caller's pointer, through which the added line after \<open>ctrl_rx\<close> marks the node for release.
\<close>

theorem connection_update_stops_controller:
  assumes "ll_inv pl n s" "n < 2 ^ 31 - 1" "wf_node rx" "rx_type rx = NODE_RX_TYPE_DC_PDU"
    and "\<not> (anchor (ll_abs s) \<and> bit (rx_pdu rx ! 0) 2 \<and> bit (rx_pdu rx ! 0) 3)"
    and "rx_pdu rx ! 0 AND 3 = 3" "rx_pdu rx ! 1 = 12" "rx_pdu rx ! 3 = PDU_DATA_LLCTRL_TYPE_CONN_UPDATE_IND"
    and "le16_at (rx_pdu rx) 7 \<noteq> 0" "word_of_nat (le16_at (rx_pdu rx) 13) - event_counter c \<le> 0x7FFF"
    and "\<not> llcp_active c" "\<not> enc_pause_rx (llcp_enc c)"
  shows "rx_demux_rx pl rx c s = Some (Inl Null_deref)"
proof -
  let ?bs = "rx_pdu rx"
  have len: "36 \<le> length ?bs" using assms(3) by (simp add: wf_node_def)
  have "ctrl_of ?bs = Conn_update (le16_at ?bs 7)" using assms(6,8) by (simp add: ctrl_of_def)
  then obtain s' where s': "rx_demux_rx pl rx c s = m_bind (Some (ull_conn_rx rx c)) (\<lambda>(nack, rx, c). Some (Inr (nack, rx, c, s')))"
    using passed_packet [OF assms(1-5), of "(ll_abs s)\<lparr>anchor := False\<rparr>" c] assms(9) by auto
  obtain i where i: "read_le16 ?bs 13 = Inr i" "unat i = le16_at ?bs 13" using read_le16_ok [of 13 ?bs] len by auto
  have "word_of_nat (unat i) = i" by simp
  then have i': "i - event_counter c \<le> 0x7FFF" using assms(10) unfolding i(2) [symmetric] by simp
  obtain w2 w3 w4 w5 where w: "read_le16 ?bs 5 = Inr w2" "read_le16 ?bs 7 = Inr w3" "read_le16 ?bs 9 = Inr w4" "read_le16 ?bs 11 = Inr w5"
    using reads_ok(1) [of 5 ?bs] reads_ok(1) [of 7 ?bs] reads_ok(1) [of 9 ?bs] reads_ok(1) [of 11 ?bs] len by auto
  have "\<exists>n c'. ctrl_rx rx c = Inr (n, None, c')"
    using assms(7,8,11,12) len i(1) i' w
    by (simp add: ctrl_rx_def with_len_def with_reason_def pdu_data_len_def pdu_len_cmp_def ctrl_len_lut_def c_array_get_def
        conn_upd_recv_def cu_interval_def reads_ok pdu_codes not_less Let_def)
  moreover have "pdu_ll_id ?bs = Inr PDU_DATA_LLID_CTRL" using len assms(6) by (simp add: PDU_DATA_LLID_CTRL_def u8_to_2)
  ultimately show ?thesis using s' by (auto simp: ull_conn_rx_def)
qed

theorem connection_update_stops_controller_witness:
  "\<exists>s. firewall_boot platform_example = Inr s \<and>
     rx_demux_rx platform_example (ctrl_example 12 0 [1, 0, 0, 24, 0, 0, 0, 100, 0, 6, 0]) ll_conn_example s = Some (Inl Null_deref)"
proof -
  let ?rx = "ctrl_example 12 0 [1, 0, 0, 24, 0, 0, 0, 100, 0, 6, 0]"
  obtain s where s: "firewall_boot platform_example = Inr s" "ll_inv platform_example 0 s" "\<not> anchor (ll_abs s)" using boot_example by blast
  have "wf_node ?rx" "rx_type ?rx = NODE_RX_TYPE_DC_PDU" "rx_pdu ?rx ! 0 AND 3 = 3" "rx_pdu ?rx ! 1 = 12"
      "rx_pdu ?rx ! 3 = PDU_DATA_LLCTRL_TYPE_CONN_UPDATE_IND" "le16_at (rx_pdu ?rx) 7 \<noteq> 0"
      "word_of_nat (le16_at (rx_pdu ?rx) 13) - event_counter ll_conn_example \<le> 0x7FFF"
      "\<not> llcp_active ll_conn_example" "\<not> enc_pause_rx (llcp_enc ll_conn_example)"
    by (simp_all add: ctrl_example_def wf_node_def le16_at_def ll_conn_example_def llcp_active_def pdu_codes)
  then show ?thesis using connection_update_stops_controller [OF s(2), of ?rx ll_conn_example] s(1,3) by auto
qed

text \<open>A well-formed request for new connection parameters, and a connection that waits for the host's answer to one.\<close>

definition cpr_node :: "node_rx_pdu \<Rightarrow> bool" where
  "cpr_node rx \<longleftrightarrow>
     wf_node rx \<and> rx_type rx = NODE_RX_TYPE_DC_PDU \<and> rx_pdu rx ! 0 AND 3 = 3 \<and> rx_pdu rx ! 1 = 24 \<and>
     rx_pdu rx ! 3 = PDU_DATA_LLCTRL_TYPE_CONN_PARAM_REQ"

definition cpr_waiting :: "ll_conn \<Rightarrow> bool" where
  "cpr_waiting c \<longleftrightarrow>
     conn_upd_curr c \<noteq> Other_conn \<and> \<not> enc_pause_rx (llcp_enc c) \<and> cpr_req (llcp_conn_param c) \<noteq> cpr_ack (llcp_conn_param c) \<and>
     cpr_state (llcp_conn_param c) = LLCP_CPR_STATE_APP_WAIT"

lemma cpr_node_rx:
  assumes "cpr_node rx" "\<not> enc_pause_rx (llcp_enc c)"
  shows "ull_conn_rx rx c = c_bind (conn_param_req_recv rx c) (\<lambda>(nack, rxo, c).
    case rxo of None \<Rightarrow> Inl Null_deref | Some rx \<Rightarrow> Inr (nack, release rx, c))" "36 \<le> length (rx_pdu rx)"
    "ctrl_of (rx_pdu rx) = Conn_param_req"
proof -
  show len: "36 \<le> length (rx_pdu rx)" using assms(1) by (simp add: cpr_node_def wf_node_def)
  moreover have "pdu_ll_id (rx_pdu rx) = Inr PDU_DATA_LLID_CTRL"
    using len assms(1) by (simp add: cpr_node_def PDU_DATA_LLID_CTRL_def u8_to_2)
  ultimately show "ull_conn_rx rx c = c_bind (conn_param_req_recv rx c) (\<lambda>(nack, rxo, c).
      case rxo of None \<Rightarrow> Inl Null_deref | Some rx \<Rightarrow> Inr (nack, release rx, c))"
    using assms
    by (simp add: ull_conn_rx_def ctrl_rx_def with_len_def pdu_data_len_def pdu_len_cmp_def ctrl_len_lut_def c_array_get_def
        cpr_node_def reads_ok pdu_codes Let_def)
  show "ctrl_of (rx_pdu rx) = Conn_param_req" using assms(1) by (simp add: cpr_node_def ctrl_of_def pdu_codes)
qed

lemma cpr_accepted:
  assumes "cpr_node rx" "\<not> enc_pause_rx (llcp_enc c)" "conn_upd_curr c \<noteq> Other_conn"
    and "cpr_req (llcp_conn_param c) = cpr_ack (llcp_conn_param c)"
    and "read_le16 (rx_pdu rx) 4 = Inr imin" "read_le16 (rx_pdu rx) 6 = Inr imax" "read_le16 (rx_pdu rx) 8 = Inr lat"
    and "read_le16 (rx_pdu rx) 10 = Inr tmo" "\<not> cpr_invalid imin imax lat tmo (rx_pdu rx ! 12)" "imax \<noteq> interval (conn_lll c)"
  shows "\<exists>rx' c'. ull_conn_rx rx c = Inr (0, rx', c') \<and> cpr_waiting c'"
proof -
  note r = cpr_node_rx [OF assms(1,2)]
  obtain w where w: "read_le16 (rx_pdu rx) 13 = Inr w" using reads_ok(1) [of 13 "rx_pdu rx"] r(2) by auto
  obtain ws where ws: "read_offsets (rx_pdu rx) [15, 17, 19, 21, 23, 25] = Inr ws"
    using read_offsets_ok [of "[15, 17, 19, 21, 23, 25]" "rx_pdu rx"] r(2) by auto
  show ?thesis
    using assms r(1,2) w ws
    by (simp add: conn_param_req_recv_def LL_ASSERT_def cpr_changed_def cpr_waiting_def reads_ok Let_def del: read_offsets.simps)
qed

lemma cpr_refused: "cpr_node rx \<Longrightarrow> cpr_waiting c \<Longrightarrow> ull_conn_rx rx c = Inl Assert_failed"
  using cpr_node_rx(1) [of rx c] by (auto simp: cpr_waiting_def conn_param_req_recv_def LL_ASSERT_def Let_def)

text \<open>
  C7: a response that was not asked for defeats the check of requests. After one valid request for
  changed connection parameters that the firewall lets pass, it rejects a second one, and with reason: in the controller the
  second one fails an assertion. But if the peer sends a connection parameter response in between, which nobody asked for,
  the firewall counts one request less and lets the second request pass, and the assertion fails.
\<close>

theorem response_defeats_request_check:
  assumes "ll_inv pl n s" "n < 2 ^ 16" "\<not> anchor (ll_abs s)" "cprs (ll_abs s) = 0" "cpr_node rx"
    and "\<not> enc_pause_rx (llcp_enc c)" "conn_upd_curr c \<noteq> Other_conn" "cpr_req (llcp_conn_param c) = cpr_ack (llcp_conn_param c)"
    and "read_le16 (rx_pdu rx) 4 = Inr imin" "read_le16 (rx_pdu rx) 6 = Inr imax" "read_le16 (rx_pdu rx) 8 = Inr lat"
    and "read_le16 (rx_pdu rx) 10 = Inr tmo" "\<not> cpr_invalid imin imax lat tmo (rx_pdu rx ! 12)" "imax \<noteq> interval (conn_lll c)"
    and "wf_node rsp" "rx_type rsp = NODE_RX_TYPE_DC_PDU" "rx_pdu rsp ! 0 AND 3 = 3" "rx_pdu rsp ! 3 = PDU_DATA_LLCTRL_TYPE_CONN_PARAM_RSP"
  shows "\<exists>rx1 c1 s1 n2 rx2 c2 s2. rx_demux_rx pl rx c s = Some (Inr (0, rx1, c1, s1)) \<and>
    (\<exists>s'. rx_demux_rx pl rx c1 s1 = Some (Inr (0, release rx, c1, s'))) \<and>
    rx_demux_rx pl rsp c1 s1 = Some (Inr (n2, rx2, c2, s2)) \<and> rx_demux_rx pl rx c2 s2 = Some (Inl Assert_failed)"
proof -
  note k = cpr_node_rx(3) [OF assms(5,6)]
  have node: "wf_node rx" "rx_type rx = NODE_RX_TYPE_DC_PDU" using assms(5) by (simp_all add: cpr_node_def)
  have rsp: "ctrl_of (rx_pdu rsp) = Conn_param_rsp" "36 \<le> length (rx_pdu rsp)"
    using assms(15,17,18) by (simp_all add: ctrl_of_def pdu_codes wf_node_def)
  obtain rx1 c1 where c1: "ull_conn_rx rx c = Inr (0, rx1, c1)" "cpr_waiting c1"
    using cpr_accepted [OF assms(5-8) assms(9-14)] by blast
  obtain s1 where s1: "ll_inv pl (Suc n) s1" "ll_abs s1 = (ll_abs s)\<lparr>anchor := False, cprs := 1\<rparr>"
      "rx_demux_rx pl rx c s = Some (Inr (0, rx1, c1, s1))"
    using passed_packet [OF assms(1) _ node, of "(ll_abs s)\<lparr>anchor := False, cprs := 1\<rparr>" c] assms(2-4) c1(1) k by auto
  have again: "\<exists>s'. rx_demux_rx pl rx c1 s1 = Some (Inr (0, release rx, c1, s'))"
  proof -
    let ?lll = "lll_conn.truncate (conn_lll c1)"
    have "fst (ll_step (event_of rx ?lll) (ll_abs s1))" using s1(2) node(2) k by (simp add: event_of_def node_rx_codes Let_def)
    then obtain lll' s' where "rx_demux_filter pl rx ?lll s1 = Some (Inr (release rx, lll', s'))"
      using filter_inv [OF s1(1) _ node(1), of ?lll] assms(2) by (auto simp: prod_eq_iff)
    then show ?thesis by (simp add: rx_demux_rx_def release_def node_rx_codes)
  qed
  have "pdu_ll_id (rx_pdu rsp) = Inr PDU_DATA_LLID_CTRL" using rsp(2) assms(17) by (simp add: PDU_DATA_LLID_CTRL_def u8_to_2)
  then have "\<exists>n2 rx2 c2. ull_conn_rx rsp c1 = Inr (n2, rx2, c2) \<and> cpr_waiting c2"
    using rsp(2) assms(18) c1(2)
    by (cases "tx_free c1 = 0") (simp_all add: ull_conn_rx_def ctrl_rx_def unknown_rsp_send_def send_ctrl_def mem_acquire_def
        ctrl_tx_enqueue_def cpr_waiting_def pdu_codes Let_def)
  then obtain n2 rx2 c2 where c2: "ull_conn_rx rsp c1 = Inr (n2, rx2, c2)" "cpr_waiting c2" by blast
  obtain s2 where s2: "ll_inv pl (Suc (Suc n)) s2" "ll_abs s2 = (ll_abs s)\<lparr>anchor := False, cprs := 0\<rparr>"
      "rx_demux_rx pl rsp c1 s1 = Some (Inr (n2, rx2, c2, s2))"
    using passed_packet [OF s1(1) _ assms(15,16), of "(ll_abs s)\<lparr>anchor := False, cprs := 0\<rparr>" c1] assms(2) s1(2) c2(1) rsp(1) by auto
  have "rx_demux_rx pl rx c2 s2 = Some (Inl Assert_failed)"
    using passed_packet [OF s2(1) _ node, of "(ll_abs s)\<lparr>anchor := False, cprs := 1\<rparr>" c2] assms(2) s2(2) k
      cpr_refused [OF assms(5) c2(2)] by auto
  then show ?thesis using s1(3) again s2(3) by blast
qed

theorem response_defeats_request_check_witness:
  "\<exists>s rx1 c1 s1 n2 rx2 c2 s2. firewall_boot platform_example = Inr s \<and>
     rx_demux_rx platform_example (ctrl_example 24 0x0F [6, 0, 12, 0, 0, 0, 100]) ll_conn_example s = Some (Inr (0, rx1, c1, s1)) \<and>
     rx_demux_rx platform_example (ctrl_example 24 0x10 []) c1 s1 = Some (Inr (n2, rx2, c2, s2)) \<and>
     rx_demux_rx platform_example (ctrl_example 24 0x0F [6, 0, 12, 0, 0, 0, 100]) c2 s2 = Some (Inl Assert_failed)"
proof -
  let ?rx = "ctrl_example 24 0x0F [6, 0, 12, 0, 0, 0, 100]" and ?rsp = "ctrl_example 24 0x10 []"
  obtain s where s: "firewall_boot platform_example = Inr s" "ll_inv platform_example 0 s" "\<not> anchor (ll_abs s)" using boot_example by blast
  then have "cprs (ll_abs s) = 0" by (simp add: ll_inv_def ll_abs_def)
  moreover have "cpr_node ?rx" "wf_node ?rsp" "rx_type ?rsp = NODE_RX_TYPE_DC_PDU" "rx_pdu ?rsp ! 0 AND 3 = 3"
      "rx_pdu ?rsp ! 3 = PDU_DATA_LLCTRL_TYPE_CONN_PARAM_RSP"
    by (simp_all add: cpr_node_def ctrl_example_def wf_node_def pdu_codes)
  moreover have "read_le16 (rx_pdu ?rx) 4 = Inr 6" "read_le16 (rx_pdu ?rx) 6 = Inr 12" "read_le16 (rx_pdu ?rx) 8 = Inr 0"
      "read_le16 (rx_pdu ?rx) 10 = Inr 100" "\<not> cpr_invalid 6 12 0 100 (rx_pdu ?rx ! 12)"
    by (simp_all add: ctrl_example_def read_le16_def read_mem_def cpr_invalid_def)
  moreover have "\<not> enc_pause_rx (llcp_enc ll_conn_example)" "conn_upd_curr ll_conn_example \<noteq> Other_conn"
      "cpr_req (llcp_conn_param ll_conn_example) = cpr_ack (llcp_conn_param ll_conn_example)" "12 \<noteq> interval (conn_lll ll_conn_example)"
    by (simp_all add: ll_conn_example_def)
  ultimately show ?thesis
    using response_defeats_request_check [OF s(2) _ s(3), of ?rx ll_conn_example 6 12 0 100 ?rsp] s(1) by simp blast
qed

section \<open>Requests that are never forgotten\<close>













section \<open>Data length negotiation\<close>






section \<open>Connection updates\<close>

lemma upd_complete_ok:
  assumes "llcp_rx c \<noteq> []" "interval (conn_lll c) \<noteq> 0"
  shows "\<exists>c'. conn_upd_complete c = Inr c' \<and> conn_lll c' = conn_lll c \<and> conn_link c' = conn_link c \<and>
    latency_prepare_acc c' = latency_prepare_acc c \<and> cu_req (llcp_cu c') = cu_ack (llcp_cu c') \<and>
    cu_new_interval (llcp_cu c') = cu_new_interval (llcp_cu c) \<and> cu_latency (llcp_cu c') = cu_latency (llcp_cu c) \<and>
    cu_timeout (llcp_cu c') = cu_timeout (llcp_cu c) \<and> llcp_req c' = llcp_ack c' \<and> conn_upd_curr c' \<noteq> This_conn \<and>
    length (rx_queue c') = Suc (length (rx_queue c))"
  using assms interval_us_nonzero [OF assms(2)]
  by (auto simp: conn_upd_complete_def LL_ASSERT_def RADIO_CONN_EVENTS_def ll_rx_put_def set_procedure_expire_def Let_def)

lemma upd_window_ok:
  assumes "unat local_sca < 8"
  shows "\<exists>c'. conn_upd_window local_sca il lat c = Inr c' \<and> llcp_cu c' = llcp_cu c \<and> llcp_req c' = llcp_req c \<and> llcp_ack c' = llcp_ack c \<and>
    conn_upd_curr c' = conn_upd_curr c \<and> rx_queue c' = rx_queue c \<and> data_chan_map (conn_lll c') = data_chan_map (conn_lll c) \<and>
    window_widening_max_us (conn_lll c') = drop_bit 1 (ucast (cu_new_interval (llcp_cu c)) * 1250) - EVENT_IFS_US"
proof -
  obtain pl pp where "lll_conn_ppm_get local_sca = Inr pl" "lll_conn_ppm_get (ucast (slave_sca (conn_lll c))) = Inr pp"
    using ppm_defined [OF assms] ppm_defined [OF peer_sca] by blast
  then show ?thesis by (simp add: conn_upd_window_def Let_def)
qed

lemma upd_timeouts_ok:
  assumes "cu_new_interval (llcp_cu c) \<noteq> 0"
  shows "\<exists>c'. conn_upd_timeouts c = Inr c' \<and> llcp_cu c' = llcp_cu c \<and> llcp_req c' = llcp_req c \<and> llcp_ack c' = llcp_ack c \<and>
    conn_upd_curr c' = conn_upd_curr c \<and> rx_queue c' = rx_queue c \<and> data_chan_map (conn_lll c') = data_chan_map (conn_lll c) \<and>
    window_widening_max_us (conn_lll c') = window_widening_max_us (conn_lll c) \<and> interval (conn_lll c') = cu_new_interval (llcp_cu c) \<and>
    conn_latency (conn_lll c') = cu_latency (llcp_cu c) \<and>
    supervision_reload (conn_lll c') = word_of_nat (supervision_events (unat (cu_timeout (llcp_cu c))) (unat (cu_new_interval (llcp_cu c))))"
proof -
  let ?t = "cu_timeout (llcp_cu c)"
  have "unat ?t < 65536" using unsigned_less [of ?t] by simp
  then have x: "unat (ucast ?t * 10 * 1000 :: u32) = 1250 * (8 * unat ?t)" "unat (ucast ?t * 10 * 1000 :: u32) \<le> 10 ^ 9"
    by (simp_all add: unat_word_ariths unsigned_ucast_eq take_bit_eq_mod)
  then show ?thesis
    using conn_events [OF assms x] interval_us_nonzero [OF assms]
    by (simp add: conn_upd_timeouts_def supervision_events_def RADIO_CONN_EVENTS_def Let_def)
qed

text \<open>
  C23: what a connection update does at its instant. In the first event at or after the instant, with the old interval not
  zero and a node kept for the host, an interval of zero is a division by zero. Any other interval is taken
  over with the new latency and the supervision timeout in events of the new interval, the procedure is complete, the mutex is free, the
  host is notified with one node, and the channel map stays.
\<close>

theorem connection_update_applied:
  assumes "cu_state (llcp_cu c) = LLCP_CUI_STATE_INPROG" "read_le16 (llcp_union c) 0 = Inr instant"
    and "event_counter c + latency_prepare_acc c + lazy - instant \<le> 0x7FFF"
    and "llcp_rx c \<noteq> []" "interval (conn_lll c) \<noteq> 0" "unat local_sca < 8"
  shows "(cu_new_interval (llcp_cu c) = 0 \<longrightarrow> event_conn_upd_prep local_sca lazy c = Inl Div_zero) \<and>
    (cu_new_interval (llcp_cu c) \<noteq> 0 \<longrightarrow>
      (\<exists>c'. event_conn_upd_prep local_sca lazy c = Inr (True, c') \<and>
        interval (conn_lll c') = cu_new_interval (llcp_cu c) \<and> conn_latency (conn_lll c') = cu_latency (llcp_cu c) \<and>
        supervision_reload (conn_lll c') =
          word_of_nat (supervision_events (unat (cu_timeout (llcp_cu c))) (unat (cu_new_interval (llcp_cu c)))) \<and>
        window_widening_max_us (conn_lll c') = drop_bit 1 (ucast (cu_new_interval (llcp_cu c)) * 1250) - EVENT_IFS_US \<and>
        data_chan_map (conn_lll c') = data_chan_map (conn_lll c) \<and> cu_req (llcp_cu c') = cu_ack (llcp_cu c') \<and>
        llcp_req c' = llcp_ack c' \<and> conn_upd_curr c' \<noteq> This_conn \<and> length (rx_queue c') = Suc (length (rx_queue c))))"
proof -
  let ?c = "c\<lparr>conn_upd_curr := (if conn_upd_curr c = No_conn then This_conn else conn_upd_curr c)\<rparr>" and ?il = "event_counter c + latency_prepare_acc c + lazy - instant"
  have step: "event_conn_upd_prep local_sca lazy c = c_bind (conn_upd_apply local_sca lazy ?il ?c) (\<lambda>c. Inr (True, c))"
    using assms(1-3) by (simp add: event_conn_upd_prep_def Let_def)
  obtain c1 where c1: "conn_upd_complete ?c = Inr c1" "conn_lll c1 = conn_lll c" "cu_req (llcp_cu c1) = cu_ack (llcp_cu c1)"
      "cu_new_interval (llcp_cu c1) = cu_new_interval (llcp_cu c)" "cu_latency (llcp_cu c1) = cu_latency (llcp_cu c)"
      "cu_timeout (llcp_cu c1) = cu_timeout (llcp_cu c)" "llcp_req c1 = llcp_ack c1" "conn_upd_curr c1 \<noteq> This_conn"
      "length (rx_queue c1) = Suc (length (rx_queue c))"
    using upd_complete_ok [of ?c] assms(4,5) by auto
  let ?lat = "?il * interval (conn_lll c1) div cu_new_interval (llcp_cu c)"
  let ?c1 = "c1\<lparr>latency_prepare_acc := latency_prepare_acc c1 + lazy - (?il - ?lat)\<rparr>"
  obtain c2 where c2: "conn_upd_window local_sca ?il ?lat ?c1 = Inr c2" "llcp_cu c2 = llcp_cu c1" "llcp_req c2 = llcp_req c1"
      "llcp_ack c2 = llcp_ack c1" "conn_upd_curr c2 = conn_upd_curr c1" "rx_queue c2 = rx_queue c1"
      "data_chan_map (conn_lll c2) = data_chan_map (conn_lll c1)"
      "window_widening_max_us (conn_lll c2) = drop_bit 1 (ucast (cu_new_interval (llcp_cu c)) * 1250) - EVENT_IFS_US"
    using upd_window_ok [OF assms(6), of ?il ?lat ?c1] c1(4) by auto
  have zero: "event_conn_upd_prep local_sca lazy c = Inl Div_zero" if "cu_new_interval (llcp_cu c) = 0"
    using step c1(1,4) that by (simp add: conn_upd_apply_def)
  have upd: "conn_upd_apply local_sca lazy ?il ?c = conn_upd_timeouts c2" if "cu_new_interval (llcp_cu c) \<noteq> 0"
    using c1(1,4) c2(1) that by (simp add: conn_upd_apply_def Let_def)
  show ?thesis
  proof (cases "cu_new_interval (llcp_cu c) = 0")
    case False
    then obtain c3 where "conn_upd_timeouts c2 = Inr c3" "llcp_cu c3 = llcp_cu c2" "llcp_req c3 = llcp_req c2" "llcp_ack c3 = llcp_ack c2"
        "conn_upd_curr c3 = conn_upd_curr c2" "rx_queue c3 = rx_queue c2" "data_chan_map (conn_lll c3) = data_chan_map (conn_lll c2)"
        "window_widening_max_us (conn_lll c3) = window_widening_max_us (conn_lll c2)"
        "interval (conn_lll c3) = cu_new_interval (llcp_cu c2)" "conn_latency (conn_lll c3) = cu_latency (llcp_cu c2)"
        "supervision_reload (conn_lll c3) = word_of_nat (supervision_events (unat (cu_timeout (llcp_cu c2))) (unat (cu_new_interval (llcp_cu c2))))"
      using upd_timeouts_ok [of c2] c1(4) c2(2) by auto
    then show ?thesis using step upd [OF False] False c1 c2 by simp
  qed (use zero in simp)
qed

definition update_example :: "u16 \<Rightarrow> ll_conn" where
  "update_example iv = ll_conn_example\<lparr>llcp_cu := (llcp_cu ll_conn_example)\<lparr>cu_new_interval := iv, cu_timeout := 100\<rparr>,
     llcp_rx := [\<lparr>rx_type = 0, rx_pdu = []\<rparr>]\<rparr>"

theorem connection_update_applied_witness:
  "event_conn_upd_prep 0 0 (update_example 0) = Inl Div_zero \<and>
   (\<exists>c'. event_conn_upd_prep 0 0 (update_example 12) = Inr (True, c') \<and> interval (conn_lll c') = 12 \<and>
     supervision_reload (conn_lll c') = 67)"
proof -
  have zero: "le_join (replicate 2 0) = 0" by (simp add: numeral_2_eq_2)
  have ex: "cu_state (llcp_cu (update_example iv)) = LLCP_CUI_STATE_INPROG" "read_le16 (llcp_union (update_example iv)) 0 = Inr 0"
      "event_counter (update_example iv) + latency_prepare_acc (update_example iv) + 0 - 0 \<le> 0x7FFF"
      "llcp_rx (update_example iv) \<noteq> []" "interval (conn_lll (update_example iv)) \<noteq> 0" "unat (0 :: u8) < 8"
      "cu_new_interval (llcp_cu (update_example iv)) = iv" "cu_timeout (llcp_cu (update_example iv)) = 100" for iv
    by (simp_all add: update_example_def ll_conn_example_def conn_example_def read_le16_def zero)
  have "supervision_events 100 12 = 67" by (simp add: supervision_events_def)
  then show ?thesis
    using connection_update_applied [OF ex(1-6), of 0] connection_update_applied [OF ex(1-6), of 12] ex(7,8) by auto
qed

section \<open>Channel map updates\<close>

definition pending_map :: "ll_conn \<Rightarrow> u8 list \<Rightarrow> u16 \<Rightarrow> bool" where
  "pending_map c m i \<longleftrightarrow>
     llcp_active c \<and> llcp_type c = LLCP_CHAN_MAP \<and> length (llcp_union c) = 20 \<and> llcp_union c ! 0 AND 1 = 0 \<and>
     read_le16 (llcp_union c) 6 = Inr i \<and> take 5 (drop 1 (llcp_union c)) = m"

lemma prepare_fields:
  assumes "prepare_cb lazy c = Inr (ch, c')"
  shows "data_chan_map (conn_lll c') = data_chan_map (conn_lll c)" "event_counter c' = event_counter c + latency_prepare_acc c + lazy + 1"
    "latency_prepare_acc c' = 0" "llcp_req c' = llcp_req c" "llcp_ack c' = llcp_ack c" "llcp_type c' = llcp_type c"
    "llcp_union c' = llcp_union c"
  using assms by (auto simp: prepare_cb_def slave_event_def c_bind_Inr_iff Let_def add.assoc split: prod.splits)

lemma termination_fields [simp]:
  "conn_lll (llcp_termination c) = conn_lll c" "event_counter (llcp_termination c) = event_counter c"
  "latency_prepare_acc (llcp_termination c) = latency_prepare_acc c" "llcp_req (llcp_termination c) = llcp_req c"
  "llcp_ack (llcp_termination c) = llcp_ack c" "llcp_type (llcp_termination c) = llcp_type c" "llcp_union (llcp_termination c) = llcp_union c"
  by (simp_all add: llcp_termination_def mem_acquire_def ctrl_tx_enqueue_def set_procedure_expire_def Let_def)

lemma pending_event:
  assumes "ctl_inv p l c" "pending_map c m i" "latency_prepare_acc c = 0"
  shows "\<exists>ch c'. ull_slave_ticker_cb local_sca ecb random lazy c = Inr (Some ch, c') \<and> ctl_inv p l c' \<and>
    event_counter c' = event_counter c + lazy + 1 \<and> latency_prepare_acc c' = 0 \<and>
    data_chan_map (conn_lll c') = (if event_counter c + lazy - i \<le> 0x7FFF then m else data_chan_map (conn_lll c)) \<and>
    (\<not> event_counter c + lazy - i \<le> 0x7FFF \<longrightarrow> pending_map c' m i)"
proof -
  let ?ctr = "event_counter c + lazy" and ?u = "llcp_union c"
  have act: "llcp_active c" "llcp_type c = LLCP_CHAN_MAP" and u: "length ?u = 20" "?u ! 0 AND 1 = 0" "read_le16 ?u 6 = Inr i" "take 5 (drop 1 ?u) = m"
    using assms(2) by (simp_all add: pending_map_def)
  have req: "llcp_requests ctr c = Inr c" for ctr using act(1) by (auto simp: llcp_requests_def llcp_active_def)
  obtain c1 where c1: "event_ch_map_prep ?ctr c = Inr c1" "ctl_inv p l c1" using ch_map_inv [OF assms(1) act] by (auto simp: kept_def)
  have inst: "llcp_instants local_sca ecb random lazy c = Inr (False, c1)"
    using act c1(1) assms(3) len_prep_inv [OF assms(1)] by (auto simp: llcp_instants_def)
  let ?c2 = "llcp_termination c1"
  have llcp: "ull_conn_llcp local_sca ecb random lazy c = Inr (False, ?c2)" using req inst assms(3) by (simp add: ull_conn_llcp_def)
  obtain ch c' where p: "prepare_cb lazy ?c2 = Inr (ch, c')" "ctl_inv p l c'" using prepare_inv [OF termination_inv [OF c1(2)], of lazy] by auto
  have c1': "event_counter c1 = event_counter c" "latency_prepare_acc c1 = 0" "\<not> ?ctr - i \<le> 0x7FFF \<Longrightarrow> c1 = c"
      "data_chan_map (conn_lll c1) = (if ?ctr - i \<le> 0x7FFF then m else data_chan_map (conn_lll c))"
    using c1(1) u assms(3) by (auto simp: event_ch_map_prep_def read_mem_def c_bind_Inr_iff split: if_splits)
  note f = prepare_fields [OF p(1)]
  have tick: "ull_slave_ticker_cb local_sca ecb random lazy c = Inr (Some ch, c')" using llcp p(1) by (simp add: ull_slave_ticker_cb_def)
  have "pending_map c' m i" if "\<not> ?ctr - i \<le> 0x7FFF"
    using f(4-7) c1'(3) [OF that] assms(2) by (simp add: pending_map_def llcp_active_def)
  then show ?thesis using tick p(2) f(1-3) c1'(1,2,4) by simp
qed

lemma before_instant:
  fixes z d :: u16
  assumes "unat d \<le> 0x7FFF"
  shows "z - d \<le> 0x7FFF \<longleftrightarrow> unat d \<le> unat z \<and> unat z - unat d \<le> 0x7FFF"
proof (cases "d \<le> z")
  case True
  then have "unat (z - d) = unat z - unat d" by (rule unat_sub)
  then show ?thesis using True by (simp add: word_le_nat_alt)
next
  case False
  then have "unat (z - d) = 65536 + unat z - unat d" using unat_sub_if_size [of z d] by (simp add: word_size word_le_nat_alt)
  then show ?thesis using False assms by (simp add: word_le_nat_alt)
qed

text \<open>A well-formed channel map update with a map and an instant.\<close>

definition chan_map_node :: "node_rx_pdu \<Rightarrow> u8 list \<Rightarrow> u16 \<Rightarrow> bool" where
  "chan_map_node rx m i \<longleftrightarrow>
     wf_node rx \<and> rx_type rx = NODE_RX_TYPE_DC_PDU \<and> rx_pdu rx ! 0 AND 3 = 3 \<and> rx_pdu rx ! 1 = 8 \<and>
     rx_pdu rx ! 3 = PDU_DATA_LLCTRL_TYPE_CHAN_MAP_IND \<and> take 5 (drop 4 (rx_pdu rx)) = m \<and> read_le16 (rx_pdu rx) 9 = Inr i"

lemma clear_initiate: "(x AND NOT 1) AND 1 = (0 :: u8)"
  by (simp add: and.assoc)

lemma read_instant:
  assumes "length u = 20" "length m = 5"
  shows "read_le16 ((put_bytes 6 (le_bytes 2 i) (put_bytes 1 m u))[0 := b]) 6 = Inr (i :: u16)"
proof -
  have "take 2 (drop 6 ((put_bytes 6 (le_bytes 2 i) (put_bytes 1 m u))[0 := b])) = le_bytes 2 i"
    using assms by (simp add: put_bytes_def drop_update_cancel)
  moreover have "le_join (le_bytes 2 i) = ucast i" by (rule le_join_le_bytes) simp_all
  ultimately show ?thesis using assms by (simp add: read_le16_def read_mem_def put_bytes_def)
qed

lemma chan_map_received:
  assumes "chan_map_node rx m i" "ctl_inv p l c" "llcp_req c = llcp_ack c" "\<not> enc_pause_rx (llcp_enc c)" "i - event_counter c \<le> 0x7FFF"
    and "channels_used m \<noteq> 0"
  shows "\<exists>rx' c'. ull_conn_rx rx c = Inr (0, rx', c') \<and> ctl_inv p l c' \<and> pending_map c' m i \<and> conn_lll c' = conn_lll c \<and>
    event_counter c' = event_counter c \<and> latency_prepare_acc c' = latency_prepare_acc c"
proof -
  let ?bs = "rx_pdu rx" and ?t = "put_bytes 6 (le_bytes 2 i) (put_bytes 1 m (llcp_union c))"
  let ?c = "llcp_start LLCP_CHAN_MAP (c\<lparr>llcp_union := ?t[0 := ?t ! 0 AND NOT 1]\<rparr>)"
  have n: "36 \<le> length ?bs" "take 5 (drop 4 ?bs) = m" "read_le16 ?bs 9 = Inr i" using assms(1) by (simp_all add: chan_map_node_def wf_node_def)
  then have m: "length m = 5" "cm_chm ?bs = Inr m" by (auto simp: cm_chm_def read_mem_def)
  have u: "length (llcp_union c) = 20" using assms(2) by (simp add: ctl_inv_def hop_inv_def)
  then have t: "length (?t[0 := b]) = 20" "take 5 (drop 1 (?t[0 := b])) = m" "(?t[0 := b]) ! 0 = b" for b
    using m(1) chan_map_kept [of "llcp_union c" m "le_bytes 2 i" b] by (simp_all add: put_bytes_def)
  have "ctl_inv p l ?c" using assms(6) m(1) by (intro start_chan_map [OF assms(2)]) (simp_all only: t usable_map_def not_False_eq_True simp_thms)
  moreover have "pending_map ?c m i"
    using t read_instant [OF u m(1)] clear_initiate assms(3) by (simp add: pending_map_def llcp_active_def llcp_start_def del: list_update.simps)
  moreover have "pdu_ll_id ?bs = Inr PDU_DATA_LLID_CTRL" using n(1) assms(1) by (simp add: chan_map_node_def PDU_DATA_LLID_CTRL_def u8_to_2)
  then have "ull_conn_rx rx c = Inr (0, release (release rx), ?c)"
    using assms(1,3-5) n m
    by (simp add: chan_map_node_def ull_conn_rx_def ctrl_rx_def with_len_def with_reason_def pdu_data_len_def pdu_len_cmp_def ctrl_len_lut_def
        c_array_get_def chan_map_upd_recv_def reads_ok llcp_active_def pdu_codes not_less Let_def)
  ultimately show ?thesis by (auto simp: llcp_start_def)
qed

text \<open>The events counted from one event to the next with the given numbers of skipped events.\<close>

definition elapsed :: "u16 list \<Rightarrow> nat" where
  "elapsed zs = sum_list (map (\<lambda>z. unat z + 1) zs)"

lemma elapsed_simps [simp]: "elapsed [] = 0" "elapsed (z # zs) = unat z + 1 + elapsed zs"
  by (simp_all add: elapsed_def)

lemma event_step:
  assumes "ull_slave_ticker_cb local_sca ecb random lazy (env_apply e c) = Inr (Some ch, c')"
  shows "conn_step pl local_sca ecb (Event lazy random) (env_apply e c) s = Some (Inr (Channel ch (data_chan_map (conn_lll c')), c', s))"
  using assms by (simp add: conn_step_def)

lemma env_pending: "pending_map (env_apply e c) m i = pending_map c m i" "latency_prepare_acc (env_apply e c) = latency_prepare_acc c"
    "event_counter (env_apply e c) = event_counter c" "conn_lll (env_apply e c) = conn_lll c" "llcp_enc (env_apply e c) = llcp_enc c"
    "llcp_req (env_apply e c) = llcp_req c" "llcp_ack (env_apply e c) = llcp_ack c"
  by (simp_all add: pending_map_def llcp_active_def env_apply_def)

lemma until_instant:
  assumes "ctl_inv p l c" "pending_map c m i" "latency_prepare_acc c = 0" "unat (i - event_counter c) \<le> 0x7FFF"
    and "elapsed (map (fst \<circ> snd) evs) \<le> unat (i - event_counter c)"
    and "unat (i - event_counter c) \<le> elapsed (map (fst \<circ> snd) evs) + unat lazy"
    and "elapsed (map (fst \<circ> snd) evs) + unat lazy - unat (i - event_counter c) \<le> 0x7FFF"
  shows "\<exists>chs ch c'. conn_steps pl local_sca ecb (map (\<lambda>(e, z, r). (e, Event z r)) evs @ [(e, Event lazy random)]) c s =
      Some (Inr (map (\<lambda>ch. Channel ch (data_chan_map (conn_lll c))) chs @ [Channel ch m], c', s)) \<and> length chs = length evs"
  using assms
proof (induction evs arbitrary: c)
  case Nil
  have "event_counter c + lazy - i \<le> 0x7FFF"
    using before_instant [of "i - event_counter c" lazy] Nil.prems(4-7) by (simp add: algebra_simps)
  then obtain ch c' where "ull_slave_ticker_cb local_sca ecb random lazy (env_apply e c) = Inr (Some ch, c')" "data_chan_map (conn_lll c') = m"
    using pending_event [of p l "env_apply e c" m i local_sca ecb random lazy] env_inv [OF Nil.prems(1), of e] Nil.prems(2,3) by (auto simp: env_pending)
  then show ?case using event_step [of local_sca ecb random lazy e c ch c'] by (auto intro: exI [of _ "[]"])
next
  case (Cons ev evs)
  obtain e1 z r where ev: "ev = (e1, z, r)" by (cases ev)
  let ?d = "i - event_counter c"
  have z: "unat z + 1 \<le> unat ?d" using Cons.prems(5) by (simp add: ev)
  have "\<not> event_counter c + z - i \<le> 0x7FFF" using before_instant [of ?d z] Cons.prems(4) z by (simp add: algebra_simps)
  then obtain ch c' where c': "ull_slave_ticker_cb local_sca ecb r z (env_apply e1 c) = Inr (Some ch, c')" "ctl_inv p l c'"
      "event_counter c' = event_counter c + z + 1" "latency_prepare_acc c' = 0" "data_chan_map (conn_lll c') = data_chan_map (conn_lll c)"
      "pending_map c' m i"
    using pending_event [of p l "env_apply e1 c" m i local_sca ecb r z] env_inv [OF Cons.prems(1), of e1] Cons.prems(2,3) by (auto simp: env_pending)
  have "unat (z + 1) = unat z + 1" using z Cons.prems(4) by (simp add: unat_word_ariths)
  then have "unat (?d - (z + 1)) = unat ?d - (unat z + 1)" using z unat_sub [of "z + 1" ?d] by (simp add: word_le_nat_alt)
  then have d: "unat (i - event_counter c') = unat ?d - (unat z + 1)" using c'(3) by (simp add: algebra_simps)
  let ?zs = "map (fst \<circ> snd) evs"
  have near: "unat (i - event_counter c') \<le> 0x7FFF" "elapsed ?zs \<le> unat (i - event_counter c')"
      "unat (i - event_counter c') \<le> elapsed ?zs + unat lazy" "elapsed ?zs + unat lazy - unat (i - event_counter c') \<le> 0x7FFF"
    using Cons.prems(4-7) z unfolding d by (simp_all add: ev comp_def)
  obtain chs ch' c'' where "conn_steps pl local_sca ecb (map (\<lambda>(e, z, r). (e, Event z r)) evs @ [(e, Event lazy random)]) c' s =
      Some (Inr (map (\<lambda>ch. Channel ch (data_chan_map (conn_lll c'))) chs @ [Channel ch' m], c'', s))" "length chs = length evs"
    using Cons.IH [OF c'(2,6,4)] near by blast
  then show ?case using event_step [OF c'(1)] c'(5) by (auto simp: ev intro: exI [of _ "ch # chs"])
qed

text \<open>
  C8: a channel map update takes effect at its instant. After a channel map update with at least two channels that arrives no later than
  its instant, while no other procedure with an instant and no encryption is under way, every event before
  the instant uses the old map, whatever number of events the sleep of the peripheral skips, and the first event at or after the instant uses the
  map of the packet.
\<close>

theorem channel_map_at_instant:
  assumes "ll_inv pl n s" "n < 2 ^ 31 - 1" "chan_map_node rx m i" "2 \<le> channels_used m"
    and "\<not> (anchor (ll_abs s) \<and> bit (rx_pdu rx ! 0) 2 \<and> bit (rx_pdu rx ! 0) 3)"
    and "ctl_inv p l c" "llcp_req c = llcp_ack c" "\<not> enc_pause_rx (llcp_enc c)" "latency_prepare_acc c = 0"
    and "unat (i - event_counter c) \<le> 0x7FFF" "elapsed (map (fst \<circ> snd) evs) \<le> unat (i - event_counter c)"
    and "unat (i - event_counter c) \<le> elapsed (map (fst \<circ> snd) evs) + unat lazy"
    and "elapsed (map (fst \<circ> snd) evs) + unat lazy - unat (i - event_counter c) \<le> 0x7FFF"
  shows "\<exists>chs ch c' s'.
    conn_steps pl local_sca ecb ((e1, Receive rx) # map (\<lambda>(e, z, r). (e, Event z r)) evs @ [(e, Event lazy random)]) c s =
      Some (Inr (Going # map (\<lambda>ch. Channel ch (data_chan_map (conn_lll c))) chs @ [Channel ch m], c', s')) \<and> length chs = length evs"
proof -
  let ?c = "env_apply e1 c"
  have node: "wf_node rx" "rx_type rx = NODE_RX_TYPE_DC_PDU" "ctrl_of (rx_pdu rx) = Chan_map (channels_used m)"
    using assms(3) by (auto simp: chan_map_node_def ctrl_of_def pdu_codes)
  obtain rx' c' where c': "ull_conn_rx rx ?c = Inr (0, rx', c')" "ctl_inv p l c'" "pending_map c' m i" "conn_lll c' = conn_lll c"
      "event_counter c' = event_counter c" "latency_prepare_acc c' = 0"
    using chan_map_received [OF assms(3) env_inv [OF assms(6), of e1]] assms(4,7-10) by (auto simp: env_pending word_le_nat_alt)
  obtain s' where "rx_demux_rx pl rx ?c s = Some (Inr (0, rx', c', s'))"
    using passed_packet [OF assms(1,2) node(1,2) assms(5), of "(ll_abs s)\<lparr>anchor := False\<rparr>" ?c] assms(4) node(3) c'(1) by auto
  then show ?thesis
    using until_instant [OF c'(2,3,6), of evs lazy pl local_sca ecb e random s'] assms(10-13) c'(4,5) by (auto simp: conn_step_def)
qed

theorem channel_map_at_instant_witness:
  "\<exists>s ch1 ch2 ch3 c' s'. firewall_boot platform_example = Inr s \<and>
     conn_steps platform_example 0 (\<lambda>k d. d)
       [(env_example, Receive (ctrl_example 8 1 [3, 0, 0, 0, 0, 6, 0])), (env_example, Event 0 []), (env_example, Event 3 []),
        (env_example, Event 5 [])] ll_conn_example s =
     Some (Inr ([Going, Channel ch1 [0xFF, 0, 0, 0, 0], Channel ch2 [0xFF, 0, 0, 0, 0], Channel ch3 [3, 0, 0, 0, 0]], c', s'))"
proof -
  let ?rx = "ctrl_example 8 1 [3, 0, 0, 0, 0, 6, 0]" and ?evs = "[(env_example, 0, []), (env_example, 3, [])]"
  obtain s where s: "firewall_boot platform_example = Inr s" "ll_inv platform_example 0 s" "\<not> anchor (ll_abs s)" using boot_example by blast
  have node: "chan_map_node ?rx [3, 0, 0, 0, 0] 6"
    by (simp add: chan_map_node_def ctrl_example_def wf_node_def pdu_codes read_le16_def read_mem_def)
  have two: "2 \<le> channels_used [3, 0, 0, 0, 0]" by code_simp
  have inv: "llcp_req ll_conn_example = llcp_ack ll_conn_example" "\<not> enc_pause_rx (llcp_enc ll_conn_example)"
      "latency_prepare_acc ll_conn_example = 0" "event_counter ll_conn_example = 0" "data_chan_map (conn_lll ll_conn_example) = [0xFF, 0, 0, 0, 0]"
    by (simp_all add: ll_conn_example_def)
  show ?thesis
    using channel_map_at_instant [OF s(2) _ node two _ example_inv inv(1-3), of ?evs 5 0 "\<lambda>k d. d" env_example env_example "[]"] s(1,3) inv(4,5)
    by (fastforce simp: length_Suc_conv)
qed

end
