(* ===== verification/Ll_Encryption.thy ===== *)
theory Ll_Encryption
  imports Ll_Connections
begin

text \<open>
  The encryption procedure in the peripheral, from the central's request to the encrypted link: the events, the host's key and the
  response in between.
\<close>

section \<open>The session\<close>

text \<open>The part of a connection that the procedure reads and writes.\<close>

definition session :: "ll_conn \<Rightarrow> (u8 \<times> u8 \<times> llcp \<times> u8 list) \<times> llcp_enc \<times> (ccm \<times> ccm \<times> bool \<times> bool) \<times> u8 list list \<times> (u8 \<times> u8 list) list \<times> bool" where
  "session c =
     ((llcp_req c, llcp_ack c, llcp_type c, llcp_union c), llcp_enc c,
      (ccm_rx (conn_link c), ccm_tx (conn_link c), lll_enc_rx (conn_link c), lll_enc_tx (conn_link c)),
      tx_queue c, rx_queue c, term_req c = term_ack c)"

lemma session_prepare: "prepare_cb lazy c = Inr (ch, c') \<Longrightarrow> session c' = session c"
  by (auto simp: prepare_cb_def c_bind_Inr_iff Let_def session_def split: prod.splits)

lemma session_env: "session (env_apply e c) = session c" "tx_free (env_apply e c) = env_tx_free e" "rx_free (env_apply e c) = env_rx_free e"
  by (simp_all add: session_def env_apply_def)

lemma term_enc [simp]: "term_req (event_enc_prep ecb random c) = term_req c" "term_ack (event_enc_prep ecb random c) = term_ack c"
  by (auto simp: event_enc_prep_def enc_rsp_send_def rx_notify_def ll_rx_put_def mem_acquire_def ctrl_tx_enqueue_def event_enc_reject_prep_def
      start_encryption_def start_enc_rsp_send_def Let_def)

text \<open>An event with the procedure under way is the step of the procedure.\<close>

lemma enc_event:
  assumes "ctl_inv p l c" "llcp_active c" "llcp_type c = LLCP_ENCRYPTION" "term_req c = term_ack c"
  shows "\<exists>ch c'. ull_slave_ticker_cb local_sca ecb random lazy c = Inr (Some ch, c') \<and> ctl_inv p l c' \<and>
    session c' = session (event_enc_prep ecb random c)"
proof -
  have req: "llcp_requests ctr c = Inr c" for ctr using assms(2) by (auto simp: llcp_requests_def llcp_active_def)
  let ?c1 = "event_enc_prep ecb random c"
  have "llcp_instants local_sca ecb random lazy c = Inr (False, ?c1)"
    using assms(2,3) len_prep_inv [OF assms(1)] by (auto simp: llcp_instants_def)
  then have "ull_conn_llcp local_sca ecb random lazy c = Inr (False, ?c1)"
    using req assms(4) by (simp add: ull_conn_llcp_def llcp_termination_def)
  then show ?thesis
    using prepare_inv [OF enc_inv [OF assms(1,3), of ecb random], of lazy] session_prepare [of lazy ?c1] by (auto simp: ull_slave_ticker_cb_def)
qed

section \<open>The steps\<close>

text \<open>The states between the steps: asked by the central, waiting for the host's key, keyed, encrypting the receive direction.\<close>

definition enc_state :: "u8 \<Rightarrow> ll_conn \<Rightarrow> bool" where
  "enc_state k c \<longleftrightarrow>
     llcp_active c \<and> llcp_type c = LLCP_ENCRYPTION \<and> llcp_union c ! 0 AND 3 = k \<and> length (llcp_union c) = 20 \<and> term_req c = term_ack c \<and>
     enc_pause_rx (llcp_enc c) \<and> \<not> enc_refresh (llcp_enc c)"

lemma initiate_bits: "((x AND - 4) OR 1) AND 3 = (1 :: u8)" "((x AND - 4) OR 2) AND 3 = (2 :: u8)" "(x AND - 4) AND 3 = (0 :: u8)"
  by (simp_all add: and.assoc bit.conj_disj_distrib2)

lemma enc_state_session:
  assumes "session c' = session c"
  shows "enc_state k c' = enc_state k c"
  using assms by (auto simp: session_def enc_state_def llcp_active_def)

definition enc_req_node :: "node_rx_pdu \<Rightarrow> u8 list \<Rightarrow> u8 list \<Rightarrow> u8 list \<Rightarrow> u8 list \<Rightarrow> bool" where
  "enc_req_node rx rand ediv skdm ivm \<longleftrightarrow>
     wf_node rx \<and> rx_type rx = NODE_RX_TYPE_DC_PDU \<and> rx_pdu rx ! 0 AND 3 = 3 \<and> rx_pdu rx ! 1 = 23 \<and>
     rx_pdu rx ! 3 = PDU_DATA_LLCTRL_TYPE_ENC_REQ \<and> take 8 (drop 4 (rx_pdu rx)) = rand \<and> take 2 (drop 12 (rx_pdu rx)) = ediv \<and>
     take 8 (drop 14 (rx_pdu rx)) = skdm \<and> take 4 (drop 22 (rx_pdu rx)) = ivm"

lemma enc_requested:
  assumes "enc_req_node rx rand ediv skdm ivm" "ctl_inv p l c" "llcp_req c = llcp_ack c" "\<not> enc_pause_rx (llcp_enc c)"
    and "\<not> enc_refresh (llcp_enc c)" "term_req c = term_ack c" "length (ccm_iv (ccm_rx (conn_link c))) = 8"
  shows "\<exists>rx' c' u. ull_conn_rx rx c = Inr (0, rx', c') \<and> ctl_inv p l c' \<and> enc_state 1 c' \<and>
    session c' = ((llcp_req c, llcp_ack c', LLCP_ENCRYPTION, u),
      (llcp_enc c)\<lparr>enc_rand := rand, enc_ediv := ediv, enc_pause_rx := True\<rparr>,
      ((ccm_rx (conn_link c))\<lparr>ccm_iv := ivm @ drop 4 (ccm_iv (ccm_rx (conn_link c)))\<rparr>, ccm_tx (conn_link c), lll_enc_rx (conn_link c), lll_enc_tx (conn_link c)),
      tx_queue c, rx_queue c, True) \<and> take 8 (drop 2 u) = skdm"
proof -
  let ?bs = "rx_pdu rx" and ?b = "(llcp_union c ! 0 AND NOT 3) OR 1"
  have n: "36 \<le> length ?bs" "?bs ! 0 AND 3 = 3" "?bs ! 1 = 23" "?bs ! 3 = PDU_DATA_LLCTRL_TYPE_ENC_REQ"
    "take 8 (drop 4 ?bs) = rand" "take 2 (drop 12 ?bs) = ediv" "take 8 (drop 14 ?bs) = skdm" "take 4 (drop 22 ?bs) = ivm"
    using assms(1) by (simp_all add: enc_req_node_def wf_node_def)
  have l: "length skdm = 8" "length ivm = 4" using n(1) by (auto simp flip: n(7,8))
  have reads: "read_mem ?bs 4 8 = Inr rand" "read_mem ?bs 12 2 = Inr ediv" "read_mem ?bs 14 8 = Inr skdm" "read_mem ?bs 22 4 = Inr ivm"
    using n by (simp_all add: read_mem_def)
  have u: "length (llcp_union c) = 20" using assms(2) by (simp add: ctl_inv_def hop_inv_def)
  then have t: "take 8 (drop 2 (put_bytes 2 skdm ((llcp_union c)[0 := ?b]))) = skdm" "put_bytes 2 skdm ((llcp_union c)[0 := ?b]) ! 0 = ?b"
    using l by (simp_all add: put_bytes_def nth_append)
  have id: "pdu_ll_id ?bs = Inr PDU_DATA_LLID_CTRL" using n(1,2) by (simp add: PDU_DATA_LLID_CTRL_def u8_to_2)
  have rx: "ctrl_rx rx c = enc_req_recv rx c"
    using n(1,3,4) assms(4) by (simp add: ctrl_rx_def with_len_def pdu_data_len_def pdu_len_cmp_def ctrl_len_lut_def c_array_get_def reads_ok pdu_codes Let_def)
  obtain r' c' where c': "enc_req_recv rx c = Inr (0, Some r', c')" using reads by (simp add: enc_req_recv_def Let_def)
  then have "ctl_inv p l c'" using handled_enc_req [OF assms(2) n(1)] by (simp add: handled_def)
  moreover have "ull_conn_rx rx c = Inr (0, release r', c')" using id rx c' by (simp add: ull_conn_rx_def)
  moreover have "c' = set_procedure_expire (procedure_reload (conn_lll c)) (llcp_start LLCP_ENCRYPTION
      (c\<lparr>llcp_enc := (llcp_enc c)\<lparr>enc_rand := rand, enc_ediv := ediv, enc_pause_rx := True\<rparr>,
         llcp_union := put_bytes 2 skdm ((llcp_union c)[0 := ?b]),
         conn_link := (conn_link c)\<lparr>ccm_rx := (ccm_rx (conn_link c))\<lparr>ccm_iv := put_bytes 0 ivm (ccm_iv (ccm_rx (conn_link c)))\<rparr>\<rparr>\<rparr>))"
    using c' reads by (simp add: enc_req_recv_def Let_def)
  ultimately show ?thesis
    using t u l assms(3,5-7) initiate_bits(1)
    by (simp add: session_def enc_state_def llcp_active_def llcp_start_def set_procedure_expire_def) (simp add: put_bytes_def)
qed

lemma enc_responded:
  assumes "ctl_inv p l c" "enc_state 1 c" "tx_free c \<noteq> 0" "rx_free c \<noteq> 0" "length random = 12" "length (ccm_iv (ccm_rx (conn_link c))) = 8"
  shows "\<exists>ch c' u. ull_slave_ticker_cb local_sca ecb random lazy c = Inr (Some ch, c') \<and> ctl_inv p l c' \<and> enc_state 2 c' \<and>
    session c' = ((llcp_req c, llcp_ack c, LLCP_ENCRYPTION, u), llcp_enc c,
      ((ccm_rx (conn_link c))\<lparr>ccm_iv := take 4 (ccm_iv (ccm_rx (conn_link c))) @ drop 8 random\<rparr>, ccm_tx (conn_link c),
        lll_enc_rx (conn_link c), lll_enc_tx (conn_link c)),
      tx_queue c @ [PDU_DATA_LLCTRL_TYPE_ENC_RSP # random],
      rx_queue c @ [(NODE_RX_TYPE_DC_PDU, PDU_DATA_LLCTRL_TYPE_ENC_REQ # enc_rand (llcp_enc c) @ enc_ediv (llcp_enc c))], True) \<and>
    take 16 (drop 2 u) = take 8 (drop 2 (llcp_union c)) @ take 8 random"
proof -
  let ?u = "put_bytes 10 (take 8 random) (llcp_union c)" and ?c1 = "event_enc_prep ecb random c"
  have st: "llcp_active c" "llcp_type c = LLCP_ENCRYPTION" "llcp_union c ! 0 AND 3 = 1" "length (llcp_union c) = 20" "term_req c = term_ack c"
      "enc_pause_rx (llcp_enc c)" "\<not> enc_refresh (llcp_enc c)"
    using assms(2) by (simp_all add: enc_state_def)
  have r: "take 4 (drop 8 random) = drop 8 random" "take 8 random @ drop 8 random = random" using assms(5) by simp_all
  have u: "take 16 (drop 2 (?u[0 := b])) = take 8 (drop 2 (llcp_union c)) @ take 8 random" "(?u[0 := b]) ! 0 = b" "length (?u[0 := b]) = 20" for b
    using st(4) assms(5) by (simp_all add: put_bytes_def drop_update_cancel take_drop)
  obtain ch c' where c': "ull_slave_ticker_cb local_sca ecb random lazy c = Inr (Some ch, c')" "ctl_inv p l c'" "session c' = session ?c1"
    using enc_event [OF assms(1) st(1,2,5)] by blast
  have s1: "session ?c1 = ((llcp_req c, llcp_ack c, LLCP_ENCRYPTION, ?u[0 := (?u ! 0 AND - 4) OR 2]), llcp_enc c,
      ((ccm_rx (conn_link c))\<lparr>ccm_iv := take 4 (ccm_iv (ccm_rx (conn_link c))) @ drop 8 random\<rparr>, ccm_tx (conn_link c),
        lll_enc_rx (conn_link c), lll_enc_tx (conn_link c)),
      tx_queue c @ [PDU_DATA_LLCTRL_TYPE_ENC_RSP # random],
      rx_queue c @ [(NODE_RX_TYPE_DC_PDU, PDU_DATA_LLCTRL_TYPE_ENC_REQ # enc_rand (llcp_enc c) @ enc_ediv (llcp_enc c))], True)"
    using st assms(3-6) r
    by (simp add: event_enc_prep_def enc_rsp_send_def mem_acquire_def rx_notify_def ll_rx_put_def ctrl_tx_enqueue_def session_def Let_def)
      (simp add: put_bytes_def)
  then have "enc_state 2 ?c1" using st(1,6,7) u initiate_bits(2) by (auto simp: session_def enc_state_def llcp_active_def)
  then have "enc_state 2 c'" using enc_state_session [OF c'(3)] by simp
  then show ?thesis using c' s1 u(1) by auto
qed

lemma enc_keyed:
  assumes "ctl_inv p l c" "enc_state k c"
  shows "\<exists>c' u. host_command (Host_ltk 0 ltk) c = Inr (0, c') \<and> ctl_inv p l c' \<and> enc_state 0 c' \<and>
    session c' = ((llcp_req c, llcp_ack c, LLCP_ENCRYPTION, u), (llcp_enc c)\<lparr>enc_ltk := ltk\<rparr>,
      (ccm_rx (conn_link c), ccm_tx (conn_link c), lll_enc_rx (conn_link c), lll_enc_tx (conn_link c)), tx_queue c, rx_queue c, True) \<and>
    u ! 1 = 0 \<and> take 16 (drop 2 u) = take 16 (drop 2 (llcp_union c))"
proof -
  have st: "llcp_active c" "llcp_type c = LLCP_ENCRYPTION" "length (llcp_union c) = 20" "term_req c = term_ack c"
      "enc_pause_rx (llcp_enc c)" "\<not> enc_refresh (llcp_enc c)"
    using assms(2) by (simp_all add: enc_state_def)
  then have "llcp_req c \<noteq> llcp_ack c" by (auto simp: llcp_active_def)
  then have "host_command (Host_ltk 0 ltk) c = Inr (0, c\<lparr>llcp_union := (llcp_union c)[1 := 0, 0 := llcp_union c ! 0 AND NOT 3],
      llcp_enc := (llcp_enc c)\<lparr>enc_ltk := ltk\<rparr>\<rparr>)"
    using st by (simp add: ll_start_enc_req_send_def)
  moreover obtain c' where "host_command (Host_ltk 0 ltk) c = Inr (0, c')" "ctl_inv p l c'"
    using calculation host_inv [OF assms(1), of "Host_ltk 0 ltk"] by auto
  ultimately show ?thesis
    using st initiate_bits(3) by (auto simp: session_def enc_state_def llcp_active_def drop_update_cancel)
qed

lemma enc_started:
  assumes "ctl_inv p l c" "enc_state 0 c" "tx_free c \<noteq> 0" "\<not> lll_enc_rx (conn_link c)" "llcp_union c ! 1 = 0"
  shows "\<exists>ch c'. ull_slave_ticker_cb local_sca ecb random lazy c = Inr (Some ch, c') \<and> ctl_inv p l c' \<and>
    session c' = ((llcp_req c, llcp_req c, LLCP_ENCRYPTION, llcp_union c), llcp_enc c,
      ((ccm_rx (conn_link c))\<lparr>ccm_key := ecb (enc_ltk (llcp_enc c)) (take 16 (drop 2 (llcp_union c))), ccm_counter := 0, ccm_direction := True\<rparr>,
       (ccm_tx (conn_link c))\<lparr>ccm_key := ecb (enc_ltk (llcp_enc c)) (take 16 (drop 2 (llcp_union c))), ccm_iv := ccm_iv (ccm_rx (conn_link c)),
          ccm_counter := 0, ccm_direction := False\<rparr>, True, lll_enc_tx (conn_link c)),
      tx_queue c @ [[PDU_DATA_LLCTRL_TYPE_START_ENC_REQ]], rx_queue c, True)"
proof -
  have st: "llcp_active c" "llcp_type c = LLCP_ENCRYPTION" "llcp_union c ! 0 AND 3 = 0" "term_req c = term_ack c"
    using assms(2) by (simp_all add: enc_state_def)
  then show ?thesis
    using enc_event [OF assms(1) st(1,2,4), of local_sca ecb random lazy] assms(3-5)
    by (simp add: event_enc_prep_def mem_acquire_def start_encryption_def ctrl_tx_enqueue_def session_def Let_def)
qed

lemma enc_done:
  assumes "ctl_inv p l c" "enc_state 0 c" "tx_free c \<noteq> 0" "lll_enc_rx (conn_link c)"
  shows "\<exists>ch c'. ull_slave_ticker_cb local_sca ecb random lazy c = Inr (Some ch, c') \<and> ctl_inv p l c' \<and>
    session c' = ((llcp_req c, llcp_req c, LLCP_ENCRYPTION, llcp_union c), (llcp_enc c)\<lparr>enc_pause_rx := False, enc_pause_tx := False\<rparr>,
      (ccm_rx (conn_link c), ccm_tx (conn_link c), True, True), tx_queue c @ [[PDU_DATA_LLCTRL_TYPE_START_ENC_RSP]], rx_queue c, True)"
proof -
  have st: "llcp_active c" "llcp_type c = LLCP_ENCRYPTION" "llcp_union c ! 0 AND 3 = 0" "term_req c = term_ack c"
    using assms(2) by (simp_all add: enc_state_def)
  then show ?thesis
    using enc_event [OF assms(1) st(1,2,4), of local_sca ecb random lazy] assms(3,4)
    by (simp add: event_enc_prep_def mem_acquire_def start_enc_rsp_send_def ctrl_tx_enqueue_def session_def Let_def)
qed

definition start_enc_rsp_node :: "node_rx_pdu \<Rightarrow> bool" where
  "start_enc_rsp_node rx \<longleftrightarrow>
     wf_node rx \<and> rx_type rx = NODE_RX_TYPE_DC_PDU \<and> rx_pdu rx ! 0 AND 3 = 3 \<and> rx_pdu rx ! 1 = 1 \<and>
     rx_pdu rx ! 3 = PDU_DATA_LLCTRL_TYPE_START_ENC_RSP"

lemma enc_answered:
  assumes "start_enc_rsp_node rx" "ctl_inv p l c" "llcp_req c = llcp_ack c" "enc_pause_rx (llcp_enc c)" "\<not> enc_refresh (llcp_enc c)"
    and "term_req c = term_ack c"
  shows "\<exists>rx' c' u. ull_conn_rx rx c = Inr (0, rx', c') \<and> ctl_inv p l c' \<and> enc_state 0 c' \<and>
    session c' = ((llcp_req c, llcp_ack c', LLCP_ENCRYPTION, u), llcp_enc c,
      (ccm_rx (conn_link c), ccm_tx (conn_link c), lll_enc_rx (conn_link c), lll_enc_tx (conn_link c)), tx_queue c, rx_queue c, True)"
proof -
  let ?bs = "rx_pdu rx"
  have n: "36 \<le> length ?bs" "?bs ! 0 AND 3 = 3" "?bs ! 1 = 1" "?bs ! 3 = PDU_DATA_LLCTRL_TYPE_START_ENC_RSP"
    using assms(1) by (simp_all add: start_enc_rsp_node_def wf_node_def)
  have u: "length (llcp_union c) = 20" using assms(2) by (simp add: ctl_inv_def hop_inv_def)
  have id: "pdu_ll_id ?bs = Inr PDU_DATA_LLID_CTRL" using n(1,2) by (simp add: PDU_DATA_LLID_CTRL_def u8_to_2)
  obtain r' c' where c': "start_enc_rsp_recv rx c = (r', c')" by (cases "start_enc_rsp_recv rx c")
  then have inv: "ctl_inv p l c'" using handled_start_enc [OF assms(2), of rx] assms(3) by simp
  have "ctrl_rx rx c = Inr (0, Some r', c')"
    using n(1,3,4) assms(3,5) c' by (simp add: ctrl_rx_def ctrl_is_unexpected_def with_len_def pdu_data_len_def pdu_len_cmp_def ctrl_len_lut_def
        c_array_get_def reads_ok pdu_codes Let_def)
  then have rx: "ull_conn_rx rx c = Inr (0, release r', c')" using id by (simp add: ull_conn_rx_def)
  have "c' = set_procedure_expire 0 (llcp_start LLCP_ENCRYPTION (c\<lparr>llcp_union := (llcp_union c)[0 := llcp_union c ! 0 AND NOT 3]\<rparr>))"
    using c' assms(3,5) by (auto simp: start_enc_rsp_recv_def llcp_start_def set_procedure_expire_def Let_def)
  then show ?thesis
    using inv rx u assms(3-6) initiate_bits(3) by (simp add: session_def enc_state_def llcp_active_def llcp_start_def set_procedure_expire_def)
qed

section \<open>The procedure\<close>

lemma env_fields:
  "llcp_req (env_apply e c) = llcp_req c" "llcp_ack (env_apply e c) = llcp_ack c" "llcp_type (env_apply e c) = llcp_type c"
  "llcp_union (env_apply e c) = llcp_union c" "llcp_enc (env_apply e c) = llcp_enc c" "conn_link (env_apply e c) = conn_link c"
  "tx_queue (env_apply e c) = tx_queue c" "rx_queue (env_apply e c) = rx_queue c" "term_req (env_apply e c) = term_req c"
  "term_ack (env_apply e c) = term_ack c" "tx_free (env_apply e c) = env_tx_free e" "rx_free (env_apply e c) = env_rx_free e"
  by (simp_all add: env_apply_def)

lemma enc_state_env: "enc_state k (env_apply e c) = enc_state k c"
  by (rule enc_state_session) (rule session_env)

lemma receive_passed:
  assumes "ll_inv pl n s" "n < 2 ^ 31 - 1" "wf_node rx" "rx_type rx = NODE_RX_TYPE_DC_PDU"
    and "\<not> (anchor (ll_abs s) \<and> bit (rx_pdu rx ! 0) 2 \<and> bit (rx_pdu rx ! 0) 3)" "ctrl_of (rx_pdu rx) = Other_ctrl"
    and "ull_conn_rx rx c = Inr (nack, rx', c')"
  shows "\<exists>s'. conn_step pl local_sca ecb (Receive rx) c s = Some (Inr (Going, c', s')) \<and> ll_inv pl (Suc n) s' \<and> \<not> anchor (ll_abs s')"
  using passed_packet [OF assms(1-5), of "(ll_abs s)\<lparr>anchor := False\<rparr>" c] assms(6,7) by (auto simp: conn_step_def)

text \<open>
  The first half, from the central's request to the host's key: the packet with the random parts is sent, and the host is asked.
\<close>

lemma enc_first_half:
  assumes "enc_req_node rx rand ediv skdm ivm" "ctl_inv p l c" "llcp_req c = llcp_ack c" "\<not> enc_pause_rx (llcp_enc c)"
    and "\<not> enc_refresh (llcp_enc c)" "term_req c = term_ack c" "length (ccm_iv (ccm_rx (conn_link c))) = 8"
    and "length random = 12" "env_tx_free e2 \<noteq> 0" "env_rx_free e2 \<noteq> 0"
  shows "\<exists>rx' c1 ch c2 c3 u a. ull_conn_rx rx (env_apply e1 c) = Inr (0, rx', c1) \<and>
    ull_slave_ticker_cb local_sca ecb random z (env_apply e2 c1) = Inr (Some ch, c2) \<and>
    host_command (Host_ltk 0 ltk) (env_apply e3 c2) = Inr (0, c3) \<and> ctl_inv p l c3 \<and> enc_state 0 c3 \<and>
    session c3 = ((llcp_req c, a, LLCP_ENCRYPTION, u),
      (llcp_enc c)\<lparr>enc_rand := rand, enc_ediv := ediv, enc_pause_rx := True, enc_ltk := ltk\<rparr>,
      ((ccm_rx (conn_link c))\<lparr>ccm_iv := ivm @ drop 8 random\<rparr>, ccm_tx (conn_link c), lll_enc_rx (conn_link c), lll_enc_tx (conn_link c)),
      tx_queue c @ [PDU_DATA_LLCTRL_TYPE_ENC_RSP # random],
      rx_queue c @ [(NODE_RX_TYPE_DC_PDU, PDU_DATA_LLCTRL_TYPE_ENC_REQ # rand @ ediv)], True) \<and>
    u ! 1 = 0 \<and> take 16 (drop 2 u) = skdm @ take 8 random"
proof -
  have ivm: "length ivm = 4" using assms(1) by (auto simp: enc_req_node_def wf_node_def)
  obtain rx' c1 u1 where 1: "ull_conn_rx rx (env_apply e1 c) = Inr (0, rx', c1)" "ctl_inv p l c1" "enc_state 1 c1"
      "session c1 = ((llcp_req c, llcp_ack c1, LLCP_ENCRYPTION, u1), (llcp_enc c)\<lparr>enc_rand := rand, enc_ediv := ediv, enc_pause_rx := True\<rparr>,
        ((ccm_rx (conn_link c))\<lparr>ccm_iv := ivm @ drop 4 (ccm_iv (ccm_rx (conn_link c)))\<rparr>, ccm_tx (conn_link c), lll_enc_rx (conn_link c),
          lll_enc_tx (conn_link c)), tx_queue c, rx_queue c, True)" "take 8 (drop 2 u1) = skdm"
    using enc_requested [OF assms(1) env_inv [OF assms(2), of e1]] assms(3-7) by (auto simp: env_fields)
  have f1: "llcp_req c1 = llcp_req c" "llcp_union c1 = u1" "llcp_enc c1 = (llcp_enc c)\<lparr>enc_rand := rand, enc_ediv := ediv, enc_pause_rx := True\<rparr>"
      "ccm_rx (conn_link c1) = (ccm_rx (conn_link c))\<lparr>ccm_iv := ivm @ drop 4 (ccm_iv (ccm_rx (conn_link c)))\<rparr>"
      "ccm_tx (conn_link c1) = ccm_tx (conn_link c)" "lll_enc_rx (conn_link c1) = lll_enc_rx (conn_link c)"
      "lll_enc_tx (conn_link c1) = lll_enc_tx (conn_link c)" "tx_queue c1 = tx_queue c" "rx_queue c1 = rx_queue c"
    using 1(4) by (simp_all add: session_def)
  obtain ch c2 u2 where 2: "ull_slave_ticker_cb local_sca ecb random z (env_apply e2 c1) = Inr (Some ch, c2)" "ctl_inv p l c2" "enc_state 2 c2"
      "session c2 = ((llcp_req c, llcp_ack c1, LLCP_ENCRYPTION, u2), llcp_enc c1,
        ((ccm_rx (conn_link c))\<lparr>ccm_iv := ivm @ drop 8 random\<rparr>, ccm_tx (conn_link c), lll_enc_rx (conn_link c), lll_enc_tx (conn_link c)),
        tx_queue c @ [PDU_DATA_LLCTRL_TYPE_ENC_RSP # random],
        rx_queue c @ [(NODE_RX_TYPE_DC_PDU, PDU_DATA_LLCTRL_TYPE_ENC_REQ # rand @ ediv)], True)" "take 16 (drop 2 u2) = skdm @ take 8 random"
    using enc_responded [of p l "env_apply e2 c1" random local_sca ecb z] env_inv [OF 1(2), of e2] 1(3,5) assms(7-10) ivm
    by (auto simp: env_fields enc_state_env f1)
  then show ?thesis
    using enc_keyed [OF env_inv [OF 2(2), of e3], of 2 ltk] 1(1) f1(3) by (fastforce simp: enc_state_env env_fields session_def)
qed

text \<open>The second half, with the key: both directions are set up, the receive direction first.\<close>

lemma enc_second_half:
  assumes "start_enc_rsp_node rx" "ctl_inv p l c" "enc_state 0 c" "\<not> lll_enc_rx (conn_link c)" "llcp_union c ! 1 = 0"
    and "env_tx_free e4 \<noteq> 0" "env_tx_free e6 \<noteq> 0"
  shows "\<exists>ch4 c4 rx' c5 ch6 c6. ull_slave_ticker_cb local_sca ecb r4 z4 (env_apply e4 c) = Inr (Some ch4, c4) \<and>
    ull_conn_rx rx (env_apply e5 c4) = Inr (0, rx', c5) \<and>
    ull_slave_ticker_cb local_sca ecb r6 z6 (env_apply e6 c5) = Inr (Some ch6, c6) \<and>
    llcp_req c6 = llcp_ack c6 \<and> llcp_enc c6 = (llcp_enc c)\<lparr>enc_pause_rx := False, enc_pause_tx := False\<rparr> \<and>
    lll_enc_rx (conn_link c6) \<and> lll_enc_tx (conn_link c6) \<and>
    ccm_rx (conn_link c6) = (ccm_rx (conn_link c))\<lparr>ccm_key := ecb (enc_ltk (llcp_enc c)) (take 16 (drop 2 (llcp_union c))),
      ccm_counter := 0, ccm_direction := True\<rparr> \<and>
    ccm_tx (conn_link c6) = (ccm_rx (conn_link c6))\<lparr>ccm_direction := False\<rparr> \<and>
    tx_queue c6 = tx_queue c @ [[PDU_DATA_LLCTRL_TYPE_START_ENC_REQ], [PDU_DATA_LLCTRL_TYPE_START_ENC_RSP]] \<and> rx_queue c6 = rx_queue c"
proof -
  have st: "enc_pause_rx (llcp_enc c)" "\<not> enc_refresh (llcp_enc c)" using assms(3) by (simp_all add: enc_state_def)
  obtain ch4 c4 where 4: "ull_slave_ticker_cb local_sca ecb r4 z4 (env_apply e4 c) = Inr (Some ch4, c4)" "ctl_inv p l c4"
      "session c4 = ((llcp_req c, llcp_req c, LLCP_ENCRYPTION, llcp_union c), llcp_enc c,
      ((ccm_rx (conn_link c))\<lparr>ccm_key := ecb (enc_ltk (llcp_enc c)) (take 16 (drop 2 (llcp_union c))), ccm_counter := 0, ccm_direction := True\<rparr>,
       (ccm_tx (conn_link c))\<lparr>ccm_key := ecb (enc_ltk (llcp_enc c)) (take 16 (drop 2 (llcp_union c))), ccm_iv := ccm_iv (ccm_rx (conn_link c)),
          ccm_counter := 0, ccm_direction := False\<rparr>, True, lll_enc_tx (conn_link c)),
      tx_queue c @ [[PDU_DATA_LLCTRL_TYPE_START_ENC_REQ]], rx_queue c, True)"
    using enc_started [of p l "env_apply e4 c" local_sca ecb r4 z4] env_inv [OF assms(2), of e4] assms(3-6)
    by (auto simp: enc_state_env env_fields)
  have f4: "llcp_req c4 = llcp_ack c4" "llcp_enc c4 = llcp_enc c" "term_req c4 = term_ack c4" using 4(3) by (simp_all add: session_def)
  obtain rx' c5 u where 5: "ull_conn_rx rx (env_apply e5 c4) = Inr (0, rx', c5)" "ctl_inv p l c5" "enc_state 0 c5"
      "session c5 = ((llcp_req c4, llcp_ack c5, LLCP_ENCRYPTION, u), llcp_enc c,
        (ccm_rx (conn_link c4), ccm_tx (conn_link c4), lll_enc_rx (conn_link c4), lll_enc_tx (conn_link c4)), tx_queue c4, rx_queue c4, True)"
    using enc_answered [OF assms(1) env_inv [OF 4(2), of e5]] f4 st by (auto simp: env_fields)
  have f5: "lll_enc_rx (conn_link c5)" using 4(3) 5(4) by (simp add: session_def)
  obtain ch6 c6 where 6: "ull_slave_ticker_cb local_sca ecb r6 z6 (env_apply e6 c5) = Inr (Some ch6, c6)"
      "session c6 = ((llcp_req c5, llcp_req c5, LLCP_ENCRYPTION, llcp_union c5), (llcp_enc c5)\<lparr>enc_pause_rx := False, enc_pause_tx := False\<rparr>,
        (ccm_rx (conn_link c5), ccm_tx (conn_link c5), True, True), tx_queue c5 @ [[PDU_DATA_LLCTRL_TYPE_START_ENC_RSP]], rx_queue c5, True)"
    using enc_done [of p l "env_apply e6 c5" local_sca ecb r6 z6] env_inv [OF 5(2), of e6] 5(3) f5 assms(7) by (auto simp: enc_state_env env_fields)
  then show ?thesis using 4(1,3) 5(1,4) by (simp add: session_def)
qed

text \<open>
  C6: the encryption procedure sets up the same session keys as the central. On an idle connection that is not encrypted, after the central's request,
  an event, the host's key, an event, the central's response and an event, with free nodes at the events, both directions are
  encrypted with the block cipher of the long term key and the two halves of the key diversifier, and with the two halves of the
  initialization vector: the central's from the request, the peripheral's from its random bytes, which it sent before in its response. The packet
  counters are zero, the directions differ, and packets are no longer paused. Exactly the three packets of the
  procedure were sent, and the host was asked for the key once, with the request's number and diversifier.
\<close>

theorem encryption_session:
  assumes "ll_inv pl n s" "n < 2 ^ 31 - 2" "enc_req_node req rand ediv skdm ivm" "start_enc_rsp_node rsp"
    and "\<not> (anchor (ll_abs s) \<and> bit (rx_pdu req ! 0) 2 \<and> bit (rx_pdu req ! 0) 3)"
    and "ctl_inv p l c" "llcp_req c = llcp_ack c" "term_req c = term_ack c" "\<not> enc_pause_rx (llcp_enc c)" "\<not> enc_refresh (llcp_enc c)"
    and "\<not> lll_enc_rx (conn_link c)" "length (ccm_iv (ccm_rx (conn_link c))) = 8" "length random = 12"
    and "env_tx_free e2 \<noteq> 0" "env_rx_free e2 \<noteq> 0" "env_tx_free e4 \<noteq> 0" "env_tx_free e6 \<noteq> 0"
  shows "\<exists>rs c' s'. conn_steps pl local_sca ecb
      [(e1, Receive req), (e2, Event z2 random), (e3, Host (Host_ltk 0 ltk)), (e4, Event z4 r4), (e5, Receive rsp), (e6, Event z6 r6)] c s =
        Some (Inr (rs, c', s')) \<and>
    lll_enc_rx (conn_link c') \<and> lll_enc_tx (conn_link c') \<and>
    ccm_rx (conn_link c') = \<lparr>ccm_key = ecb ltk (skdm @ take 8 random), ccm_counter = 0, ccm_direction = True, ccm_iv = ivm @ drop 8 random\<rparr> \<and>
    ccm_tx (conn_link c') = \<lparr>ccm_key = ecb ltk (skdm @ take 8 random), ccm_counter = 0, ccm_direction = False, ccm_iv = ivm @ drop 8 random\<rparr> \<and>
    \<not> enc_pause_rx (llcp_enc c') \<and> \<not> enc_pause_tx (llcp_enc c') \<and> llcp_req c' = llcp_ack c' \<and>
    tx_queue c' = tx_queue c @
      [PDU_DATA_LLCTRL_TYPE_ENC_RSP # random, [PDU_DATA_LLCTRL_TYPE_START_ENC_REQ], [PDU_DATA_LLCTRL_TYPE_START_ENC_RSP]] \<and>
    rx_queue c' = rx_queue c @ [(NODE_RX_TYPE_DC_PDU, PDU_DATA_LLCTRL_TYPE_ENC_REQ # rand @ ediv)]"
proof -
  have req: "wf_node req" "rx_type req = NODE_RX_TYPE_DC_PDU" "ctrl_of (rx_pdu req) = Other_ctrl"
    and rsp: "wf_node rsp" "rx_type rsp = NODE_RX_TYPE_DC_PDU" "ctrl_of (rx_pdu rsp) = Other_ctrl"
    using assms(3,4) by (simp_all add: enc_req_node_def start_enc_rsp_node_def ctrl_of_def pdu_codes)
  obtain rx1 c1 ch2 c2 c3 u a where 1: "ull_conn_rx req (env_apply e1 c) = Inr (0, rx1, c1)"
      "ull_slave_ticker_cb local_sca ecb random z2 (env_apply e2 c1) = Inr (Some ch2, c2)"
      "host_command (Host_ltk 0 ltk) (env_apply e3 c2) = Inr (0, c3)" "ctl_inv p l c3" "enc_state 0 c3"
    and s3: "session c3 = ((llcp_req c, a, LLCP_ENCRYPTION, u),
      (llcp_enc c)\<lparr>enc_rand := rand, enc_ediv := ediv, enc_pause_rx := True, enc_ltk := ltk\<rparr>,
      ((ccm_rx (conn_link c))\<lparr>ccm_iv := ivm @ drop 8 random\<rparr>, ccm_tx (conn_link c), lll_enc_rx (conn_link c), lll_enc_tx (conn_link c)),
      tx_queue c @ [PDU_DATA_LLCTRL_TYPE_ENC_RSP # random],
      rx_queue c @ [(NODE_RX_TYPE_DC_PDU, PDU_DATA_LLCTRL_TYPE_ENC_REQ # rand @ ediv)], True)" "u ! 1 = 0" "take 16 (drop 2 u) = skdm @ take 8 random"
    using enc_first_half [OF assms(3,6,7,9,10,8,12,13-15)] by blast
  have c3: "\<not> lll_enc_rx (conn_link c3)" "llcp_union c3 ! 1 = 0" using s3 assms(11) by (simp_all add: session_def)
  obtain ch4 c4 rx5 c5 ch6 c6 where 4: "ull_slave_ticker_cb local_sca ecb r4 z4 (env_apply e4 c3) = Inr (Some ch4, c4)"
      "ull_conn_rx rsp (env_apply e5 c4) = Inr (0, rx5, c5)" "ull_slave_ticker_cb local_sca ecb r6 z6 (env_apply e6 c5) = Inr (Some ch6, c6)"
    and c6: "llcp_req c6 = llcp_ack c6" "llcp_enc c6 = (llcp_enc c3)\<lparr>enc_pause_rx := False, enc_pause_tx := False\<rparr>"
      "lll_enc_rx (conn_link c6)" "lll_enc_tx (conn_link c6)"
      "ccm_rx (conn_link c6) = (ccm_rx (conn_link c3))\<lparr>ccm_key := ecb (enc_ltk (llcp_enc c3)) (take 16 (drop 2 (llcp_union c3))),
        ccm_counter := 0, ccm_direction := True\<rparr>" "ccm_tx (conn_link c6) = (ccm_rx (conn_link c6))\<lparr>ccm_direction := False\<rparr>"
      "tx_queue c6 = tx_queue c3 @ [[PDU_DATA_LLCTRL_TYPE_START_ENC_REQ], [PDU_DATA_LLCTRL_TYPE_START_ENC_RSP]]" "rx_queue c6 = rx_queue c3"
    using enc_second_half [OF assms(4) 1(4,5) c3 assms(16,17)] by blast
  obtain s1 where s1: "conn_step pl local_sca ecb (Receive req) (env_apply e1 c) s = Some (Inr (Going, c1, s1))" "ll_inv pl (Suc n) s1"
      "\<not> anchor (ll_abs s1)"
    using receive_passed [OF assms(1) _ req(1,2) assms(5) req(3) 1(1)] assms(2) by auto
  obtain s5 where s5: "conn_step pl local_sca ecb (Receive rsp) (env_apply e5 c4) s1 = Some (Inr (Going, c5, s5))"
    using receive_passed [OF s1(2) _ rsp(1,2) _ rsp(3) 4(2)] s1(3) assms(2) by auto
  have host: "conn_step pl local_sca ecb (Host (Host_ltk 0 ltk)) (env_apply e3 c2) s1 = Some (Inr (Going, c3, s1))"
    using 1(3) by (simp add: conn_step_def)
  note run = s1(1) event_step [OF 1(2)] host event_step [OF 4(1)] s5 event_step [OF 4(3)]
  show ?thesis using run c6 s3 by (simp add: session_def)
qed

theorem encryption_session_witness:
  "\<exists>s rs c' s'. firewall_boot platform_example = Inr s \<and>
     conn_steps platform_example 0 (\<lambda>key d. map2 (XOR) key d)
       [(env_example, Receive (ctrl_example 23 3 (replicate 10 7 @ [1, 2, 3, 4, 5, 6, 7, 8, 9, 10, 11, 12]))),
        (env_example, Event 0 [21, 22, 23, 24, 25, 26, 27, 28, 29, 30, 31, 32]), (env_example, Host (Host_ltk 0 (replicate 16 64))),
        (env_example, Event 2 []), (env_example, Receive (ctrl_example 1 6 [])), (env_example, Event 0 [])] ll_conn_example s = Some (Inr (rs, c', s')) \<and>
     ccm_key (ccm_rx (conn_link c')) = [65, 66, 67, 68, 69, 70, 71, 72, 85, 86, 87, 88, 89, 90, 91, 92] \<and>
     ccm_iv (ccm_tx (conn_link c')) = [9, 10, 11, 12, 29, 30, 31, 32] \<and> lll_enc_tx (conn_link c')"
proof -
  let ?req = "ctrl_example 23 3 (replicate 10 7 @ [1, 2, 3, 4, 5, 6, 7, 8, 9, 10, 11, 12])" and ?rsp = "ctrl_example 1 6 []"
    and ?r = "[21, 22, 23, 24, 25, 26, 27, 28, 29, 30, 31, 32] :: u8 list" and ?ecb = "\<lambda>key d. map2 (XOR) key (d :: u8 list)"
  obtain s where s: "firewall_boot platform_example = Inr s" "ll_inv platform_example 0 s" "\<not> anchor (ll_abs s)" using boot_example by blast
  have node: "enc_req_node ?req (replicate 8 7) (replicate 2 7) [1, 2, 3, 4, 5, 6, 7, 8] [9, 10, 11, 12]" "start_enc_rsp_node ?rsp"
    by (simp_all add: enc_req_node_def start_enc_rsp_node_def ctrl_example_def wf_node_def pdu_codes numeral_eq_Suc)
  have inv: "llcp_req ll_conn_example = llcp_ack ll_conn_example" "term_req ll_conn_example = term_ack ll_conn_example"
      "\<not> enc_pause_rx (llcp_enc ll_conn_example)" "\<not> enc_refresh (llcp_enc ll_conn_example)" "\<not> lll_enc_rx (conn_link ll_conn_example)"
      "length (ccm_iv (ccm_rx (conn_link ll_conn_example))) = 8"
    by (simp_all add: ll_conn_example_def)
  have env: "env_tx_free env_example \<noteq> 0" "env_rx_free env_example \<noteq> 0" by (simp_all add: env_example_def)
  have key: "?ecb (replicate 16 64) ([1, 2, 3, 4, 5, 6, 7, 8] @ take 8 ?r) = [65, 66, 67, 68, 69, 70, 71, 72, 85, 86, 87, 88, 89, 90, 91, 92]"
    by code_simp
  show ?thesis
    using encryption_session [OF s(2) _ node _ example_inv inv, where random = ?r and ecb = ?ecb and ltk = "replicate 16 64" and
        local_sca = 0 and ?z2.0 = 0 and ?z4.0 = 2 and ?z6.0 = 0 and ?r4.0 = "[]" and ?r6.0 = "[]" and ?e1.0 = env_example and ?e2.0 = env_example and
        ?e3.0 = env_example and ?e4.0 = env_example and ?e5.0 = env_example and ?e6.0 = env_example] env s(1,3) key
    by (auto simp del: conn_steps.simps)
qed

end
