(* ===== verification/Nimble_Policy.thy ===== *)
theory Nimble_Policy
  imports Policy_Cache
begin

text \<open>
  The NimBLE port of the policy engine,
  \<^verbatim>\<open>Mynewt/repos/apache-mynewt-nimble/firewall/policy\<close>: its protocol state and policies, and
  \<^verbatim>\<open>policy/src/fsm_policy_cache.c\<close>. The interpreter, the verifier, the default machines, the classes and
  the core, SPI and HCI indices have the text of the Zephyr port, and the definitions for them are
  used here too. (The register file of this port has 12 instead of 16 registers; the policies here
  use the first three.)
\<close>

section \<open>Protocol state\<close>

datatype nim_shared_state = N_BD_ADDR | N_BONDING | N_SC | N_IFW_SHARED_STATE_NUM

fun nim_shared_type :: "nim_shared_state \<Rightarrow> u16" where
  "nim_shared_type N_BD_ADDR = 0"
| "nim_shared_type N_BONDING = 6"
| "nim_shared_type N_SC = 7"
| "nim_shared_type N_IFW_SHARED_STATE_NUM = 8"

datatype nim_conn_param =
    N_CHANNEL_MAP | N_CHANNEL_HOP | N_SCAN_RSP_LEN | N_LLL_INTERVAL | N_TX_OPCODE | N_TX_IS_CTRL
  | N_IFW_CONN_PARAM_NUM

fun nim_conn_type :: "nim_conn_param \<Rightarrow> u16" where
  "nim_conn_type N_CHANNEL_MAP = 0"
| "nim_conn_type N_CHANNEL_HOP = 1"
| "nim_conn_type N_SCAN_RSP_LEN = 2"
| "nim_conn_type N_LLL_INTERVAL = 3"
| "nim_conn_type N_TX_OPCODE = 4"
| "nim_conn_type N_TX_IS_CTRL = 5"
| "nim_conn_type N_IFW_CONN_PARAM_NUM = 6"

datatype nim_dc_param =
    N_SN | N_NESN | N_SMP_MAX_ENC_SIZE | N_SMP_MAX_ENC_SIZE_PREV | N_IFW_DC_PARAM_NUM

fun nim_dc_type :: "nim_dc_param \<Rightarrow> u16" where
  "nim_dc_type N_SN = 0"
| "nim_dc_type N_NESN = 1"
| "nim_dc_type N_SMP_MAX_ENC_SIZE = 2"
| "nim_dc_type N_SMP_MAX_ENC_SIZE_PREV = 3"
| "nim_dc_type N_IFW_DC_PARAM_NUM = 4"

text \<open>
  The members of \<open>struct FsmState\<close> are those of the Zephyr port, with other lengths. The policies are
  compiled against a second declaration, \<^verbatim>\<open>policy/include/fsm_for_ebpf.h\<close>, with fewer connection
  parameters, an SPI array as long as there are classes (five there), and no HCI array.
\<close>

definition nim_wf_fsm :: "FsmState \<Rightarrow> bool" where
  "nim_wf_fsm st \<longleftrightarrow>
     length (core_state st) = unat (core_type IFW_CORE_STATE_NUM) \<and>
     length (shared_state st) = unat (nim_shared_type N_IFW_SHARED_STATE_NUM) \<and>
     length (conn_param st) = unat (nim_conn_type N_IFW_CONN_PARAM_NUM) \<and>
     length (dc_param st) = unat (nim_dc_type N_IFW_DC_PARAM_NUM) \<and>
     length (spi_param st) = unat (spi_type IFW_SPI_PARAM_NUM) \<and>
     length (hci_param st) = unat (hci_type IFW_HCI_PARAM_NUM)"

definition nim_wf_ebpf_fsm :: "FsmState \<Rightarrow> bool" where
  "nim_wf_ebpf_fsm st \<longleftrightarrow>
     length (core_state st) = 5 \<and> length (shared_state st) = 8 \<and> length (conn_param st) = 4 \<and>
     length (dc_param st) = 4 \<and> length (spi_param st) = 5 \<and> hci_param st = []"

definition nim_sizeof_FsmState :: nat where
  "nim_sizeof_FsmState = 104"

definition nim_fsm_zero :: FsmState where
  "nim_fsm_zero =
     \<lparr>core_state = replicate 5 0, shared_state = replicate 8 0, conn_param = replicate 6 0,
      dc_param = replicate 4 0, spi_param = replicate 2 0, hci_param = replicate 1 0\<rparr>"

section \<open>Policies\<close>

definition nim_conn_chan_map :: "u8 list" where
  "nim_conn_chan_map =
    [0x61, 0x11, 0x20, 0x00, 0x00, 0x00, 0x00, 0x00,
     0x67, 0x01, 0x00, 0x00, 0x20, 0x00, 0x00, 0x00,
     0xc7, 0x01, 0x00, 0x00, 0x20, 0x00, 0x00, 0x00,
     0xb7, 0x00, 0x00, 0x00, 0x01, 0x00, 0x00, 0x00,
     0xb7, 0x02, 0x00, 0x00, 0x02, 0x00, 0x00, 0x00,
     0x6d, 0x12, 0x01, 0x00, 0x00, 0x00, 0x00, 0x00,
     0xb7, 0x00, 0x00, 0x00, 0x00, 0x00, 0x00, 0x00,
     0x95, 0x00, 0x00, 0x00, 0x00, 0x00, 0x00, 0x00,
     0x00]"

definition nim_keysize_confusion :: "u8 list" where
  "nim_keysize_confusion =
    [0xb7, 0x00, 0x00, 0x00, 0x00, 0x00, 0x00, 0x00,
     0x61, 0x12, 0x50, 0x00, 0x00, 0x00, 0x00, 0x00,
     0x15, 0x02, 0x04, 0x00, 0x00, 0x00, 0x00, 0x00,
     0x61, 0x11, 0x4c, 0x00, 0x00, 0x00, 0x00, 0x00,
     0xb7, 0x00, 0x00, 0x00, 0x01, 0x00, 0x00, 0x00,
     0x5d, 0x12, 0x01, 0x00, 0x00, 0x00, 0x00, 0x00,
     0xb7, 0x00, 0x00, 0x00, 0x00, 0x00, 0x00, 0x00,
     0x95, 0x00, 0x00, 0x00, 0x00, 0x00, 0x00, 0x00,
     0x00]"

definition nim_key_entropy_downgrade :: "u8 list" where
  "nim_key_entropy_downgrade =
    [0xb7, 0x00, 0x00, 0x00, 0x00, 0x00, 0x00, 0x00,
     0x61, 0x12, 0x50, 0x00, 0x00, 0x00, 0x00, 0x00,
     0x15, 0x02, 0x04, 0x00, 0x00, 0x00, 0x00, 0x00,
     0x61, 0x11, 0x4c, 0x00, 0x00, 0x00, 0x00, 0x00,
     0xb7, 0x00, 0x00, 0x00, 0x01, 0x00, 0x00, 0x00,
     0x5d, 0x12, 0x01, 0x00, 0x00, 0x00, 0x00, 0x00,
     0xb7, 0x00, 0x00, 0x00, 0x00, 0x00, 0x00, 0x00,
     0x95, 0x00, 0x00, 0x00, 0x00, 0x00, 0x00, 0x00,
     0x00]"

text \<open>The C sources.\<close>

definition nim_conn_chan_map_filter :: "FsmState \<Rightarrow> u64" where
  "nim_conn_chan_map_filter fsm =
     (if sint (conn_param fsm ! unat (nim_conn_type N_CHANNEL_MAP)) < 2
      then IFW_OPERATION_REJECT else IFW_OPERATION_PASS)"

definition nim_keysize_confusion_filter :: "FsmState \<Rightarrow> u64" where
  "nim_keysize_confusion_filter fsm =
     (if dc_param fsm ! unat (nim_dc_type N_SMP_MAX_ENC_SIZE_PREV) = 0 then IFW_OPERATION_PASS
      else if sint (dc_param fsm ! unat (nim_dc_type N_SMP_MAX_ENC_SIZE_PREV)) >
              sint (dc_param fsm ! unat (nim_dc_type N_SMP_MAX_ENC_SIZE))
      then IFW_OPERATION_REJECT else IFW_OPERATION_PASS)"

definition nim_key_entropy_downgrade_filter :: "FsmState \<Rightarrow> u64" where
  "nim_key_entropy_downgrade_filter fsm =
     (if dc_param fsm ! unat (nim_dc_type N_SMP_MAX_ENC_SIZE_PREV) = 0 then IFW_OPERATION_PASS
      else if dc_param fsm ! unat (nim_dc_type N_SMP_MAX_ENC_SIZE_PREV) \<noteq>
              dc_param fsm ! unat (nim_dc_type N_SMP_MAX_ENC_SIZE)
      then IFW_OPERATION_REJECT else IFW_OPERATION_PASS)"

section \<open>Slots and registration\<close>

datatype nim_policy_tag =
    N_PID_conn_chan_map | N_PID_keysize_confusion | N_PID_key_entropy_downgrade | N_PID_NUM

fun nim_pid_code :: "nim_policy_tag \<Rightarrow> int" where
  "nim_pid_code N_PID_conn_chan_map = 0"
| "nim_pid_code N_PID_keysize_confusion = 1"
| "nim_pid_code N_PID_key_entropy_downgrade = 2"
| "nim_pid_code N_PID_NUM = 3"

definition nim_policy_state_init :: policy_state where
  "nim_policy_state_init = policy_state_init\<lparr>policy_arr := replicate 3 policy_cache_zero\<rparr>"

text \<open>The bounds of \<open>policy[IFW_STATE_CLASS_NUM][IFW_DC_PARAM_NUM]\<close>: here the second one is four.\<close>

definition nim_slot_in_range :: "int \<Rightarrow> int \<Rightarrow> bool" where
  "nim_slot_in_range cls ty \<longleftrightarrow>
     0 \<le> cls \<and> cls < uint (class_code IFW_STATE_CLASS_NUM) \<and>
     0 \<le> ty \<and> ty < uint (nim_dc_type N_IFW_DC_PARAM_NUM)"

definition nim_get_policy_slot :: "int \<Rightarrow> policy_state \<Rightarrow> policy_cache option" where
  "nim_get_policy_slot pid st =
     (if pid < 0 then None
      else if pid < nim_pid_code N_PID_NUM then Some (policy_arr st ! nat pid)
      else if pid - nim_pid_code N_PID_NUM \<ge> IFW_MAX_RUNTIME_POLICIES then None
      else Some (runtime_policy_arr st ! nat (pid - nim_pid_code N_PID_NUM)))"

definition nim_set_policy_mask :: "int \<Rightarrow> int \<Rightarrow> policy_state \<Rightarrow> policy_state cres" where
  "nim_set_policy_mask cls ty st =
     (let b = push_bit (nat ty) 1 in
      if cls < 0 \<or> cls \<ge> uint (class_code IFW_STATE_CLASS_NUM) then Inr st
      else if ty < 0 \<or> ty \<ge> 32 then Inl Shift_range
      else if cls = uint (class_code CORE) then Inr (st\<lparr>core_policy_mask := core_policy_mask st OR b\<rparr>)
      else if cls = uint (class_code SHARED) then Inr (st\<lparr>shared_policy_mask := shared_policy_mask st OR b\<rparr>)
      else if cls = uint (class_code CONN) then Inr (st\<lparr>conn_policy_mask := conn_policy_mask st OR b\<rparr>)
      else if cls = uint (class_code DC) then Inr (st\<lparr>dc_policy_mask := dc_policy_mask st OR b\<rparr>)
      else if cls = uint (class_code SPI) then Inr (st\<lparr>spi_policy_mask := spi_policy_mask st OR b\<rparr>)
      else Inr (st\<lparr>hci_policy_mask := hci_policy_mask st OR b\<rparr>))"

text \<open>Unlike in the Zephyr port, a failed allocation of the list node is noticed, and ignored.\<close>

definition nim_register_policy :: "platform \<Rightarrow> int \<Rightarrow> int \<Rightarrow> int \<Rightarrow> policy_state \<Rightarrow> policy_state cres" where
  "nim_register_policy pl cls ty pid st =
     (let st = (if \<not> policy_mgr_init st then init_policy_manager st else st) in
      c_bind (nim_set_policy_mask cls ty st) (\<lambda>st.
        if \<not> nim_slot_in_range cls ty then Inl Oob_read
        else if \<not> alloc_ok pl 8 then Inr st
        else Inr (st\<lparr>policy_manager :=
               (policy_manager st)((cls, ty) := policy_manager st (cls, ty) @ [pid])\<rparr>)))"

text \<open>\<open>unlink_after\<close> is the loop of \<open>remove_policy\<close>: it looks at the successor of the current node.\<close>

fun unlink_after :: "int \<Rightarrow> int list \<Rightarrow> int list" where
  "unlink_after pid (p # q # ps) = (if q = pid then p # ps else p # unlink_after pid (q # ps))"
| "unlink_after pid ps = ps"

definition remove_policy :: "int \<Rightarrow> int \<Rightarrow> int \<Rightarrow> policy_state \<Rightarrow> policy_state cres" where
  "remove_policy cls ty pid st =
     (if \<not> nim_slot_in_range cls ty then Inl Oob_read
      else case policy_manager st (cls, ty) of
             [] \<Rightarrow> Inr st
           | p # ps \<Rightarrow>
               if p = pid then Inr (st\<lparr>policy_manager := (policy_manager st)((cls, ty) := ps)\<rparr>)
               else Inr (st\<lparr>policy_manager := (policy_manager st)((cls, ty) := unlink_after pid (p # ps))\<rparr>))"

definition nim_ADD_POLICY ::
  "platform \<Rightarrow> nim_policy_tag \<Rightarrow> u8 list \<Rightarrow> ifw_state_class \<Rightarrow> u16 \<Rightarrow> policy_state \<Rightarrow> policy_state cres" where
  "nim_ADD_POLICY pl tag code cls ty st =
     nim_register_policy pl (uint (class_code cls)) (uint ty) (nim_pid_code tag)
       (st\<lparr>policy_arr := (policy_arr st)[nat (nim_pid_code tag) :=
             \<lparr>pc_size = int (length code), pc_code = Some code, pc_jit = False\<rparr>]\<rparr>)"

definition nim_load_all_policies :: "platform \<Rightarrow> policy_state \<Rightarrow> policy_state cres" where
  "nim_load_all_policies pl st =
     c_bind (nim_ADD_POLICY pl N_PID_conn_chan_map nim_conn_chan_map CONN (nim_conn_type N_CHANNEL_MAP) st) (\<lambda>st.
     c_bind (nim_ADD_POLICY pl N_PID_keysize_confusion nim_keysize_confusion DC (nim_dc_type N_SMP_MAX_ENC_SIZE) st) (\<lambda>st.
     nim_ADD_POLICY pl N_PID_key_entropy_downgrade nim_key_entropy_downgrade DC (nim_dc_type N_SMP_MAX_ENC_SIZE) st))"

definition nim_set_policy_jit_on :: "int \<Rightarrow> policy_state \<Rightarrow> policy_state" where
  "nim_set_policy_jit_on pid st =
     (if pid \<ge> 0 \<and> pid < nim_pid_code N_PID_NUM
      then st\<lparr>policy_arr := (policy_arr st)[nat pid := (policy_arr st ! nat pid)\<lparr>pc_jit := True\<rparr>]\<rparr>
      else st)"

definition nim_set_all_policy_jit_on :: "policy_state \<Rightarrow> policy_state" where
  "nim_set_all_policy_jit_on st =
     foldl (\<lambda>st pid. st\<lparr>policy_arr := (policy_arr st)[pid := (policy_arr st ! pid)\<lparr>pc_jit := True\<rparr>]\<rparr>)
       st [0..<nat (nim_pid_code N_PID_NUM)]"

definition nim_ifw_fsm_enable :: "platform \<Rightarrow> bool \<Rightarrow> policy_state \<Rightarrow> policy_state cres" where
  "nim_ifw_fsm_enable pl jit st =
     c_bind (nim_load_all_policies pl st) (\<lambda>st. Inr (if jit then nim_set_all_policy_jit_on st else st))"

section \<open>Execution and installation\<close>

definition nim_load_ebpf_code ::
  "platform \<Rightarrow> int \<Rightarrow> bool \<Rightarrow> policy_state \<Rightarrow> (ebpf_vm option \<times> policy_state) cres" where
  "nim_load_ebpf_code pl ebpf_idx jit st =
     (case nim_get_policy_slot ebpf_idx st of
        None \<Rightarrow> Inr (None, st)
      | Some slot \<Rightarrow>
          if pc_size slot = 0 then Inr (None, st)
          else c_bind (get_default_vm pl jit st) (\<lambda>(vm, st).
            case vm of
              None \<Rightarrow> Inl Null_deref
            | Some vm \<Rightarrow>
                let vm = ebpf_vm_set_inst vm (pc_code slot) (word_of_int (pc_size slot)) in
                if jit
                then c_bind (gen_jit_code (list_all (alloc_ok pl)
                                 [12, 10 * unat (num_insts vm) + 16, 4 * unat (num_insts vm) + 16])
                               (map_option (helper_words pl) (helper_func vm)) vm) (\<lambda>vm.
                       Inr (Some vm, st\<lparr>g_jit_vm := Some vm\<rparr>))
                else Inr (Some vm, st\<lparr>g_vm := Some vm\<rparr>)))"

definition nim_get_vm_from_cache ::
  "platform \<Rightarrow> int \<Rightarrow> policy_state \<Rightarrow> (ebpf_vm option \<times> policy_state) cres" where
  "nim_get_vm_from_cache pl ebpf_idx st =
     (case nim_get_policy_slot ebpf_idx st of
        None \<Rightarrow> Inr (None, st)
      | Some slot \<Rightarrow>
          if pc_size slot = 0 then Inr (None, st) else nim_load_ebpf_code pl ebpf_idx (pc_jit slot) st)"

definition nim_run_fsm_ebpf_policy ::
  "platform \<Rightarrow> int \<Rightarrow> u8 list \<Rightarrow> nat \<Rightarrow> policy_state \<Rightarrow> (u64 \<times> u8 list \<times> policy_state) cres option" where
  "nim_run_fsm_ebpf_policy pl ebpf_policy_idx newState dsize st =
     (case nim_get_vm_from_cache pl ebpf_policy_idx st of
        Inl e \<Rightarrow> Some (Inl e)
      | Inr (None, st) \<Rightarrow> Some (Inr (0, newState, st))
      | Inr (Some vm, st) \<Rightarrow>
          map_option (map_sum id (\<lambda>(v, bs). (v, bs, st)))
            (if use_jit vm
             then (case jit_func vm of
                     None \<Rightarrow> Some (Inl Null_deref)
                   | Some code \<Rightarrow> run_native pl code newState (word_of_nat dsize))
             else ebpf_vm_exec vm None (state_addr pl) newState dsize (stack_addr pl)))"

fun nim_run_policy_list ::
  "platform \<Rightarrow> int list \<Rightarrow> u8 list \<Rightarrow> policy_state \<Rightarrow> (u64 \<times> u8 list \<times> policy_state) cres option" where
  "nim_run_policy_list pl [] newState st = Some (Inr (IFW_OPERATION_PASS, newState, st))"
| "nim_run_policy_list pl (pid # pids) newState st =
     (case nim_run_fsm_ebpf_policy pl pid newState 64 st of
        None \<Rightarrow> None
      | Some (Inl e) \<Rightarrow> Some (Inl e)
      | Some (Inr (result, newState, st)) \<Rightarrow>
          if result = IFW_OPERATION_REJECT then Some (Inr (IFW_OPERATION_REJECT, newState, st))
          else nim_run_policy_list pl pids newState st)"

definition nim_run_fsm_check_policy ::
  "platform \<Rightarrow> int \<Rightarrow> int \<Rightarrow> u8 list \<Rightarrow> policy_state \<Rightarrow> (u64 \<times> u8 list \<times> policy_state) cres option" where
  "nim_run_fsm_check_policy pl ty cls newState st =
     (if \<not> nim_slot_in_range cls ty then Some (Inl Oob_read)
      else nim_run_policy_list pl (policy_manager st (cls, ty)) newState st)"

definition nim_ifw_install_policy ::
  "platform \<Rightarrow> int \<Rightarrow> int \<Rightarrow> u8 list option \<Rightarrow> policy_state \<Rightarrow> (int \<times> policy_state) cres" where
  "nim_ifw_install_policy pl cls ty code st =
     (case code of
        None \<Rightarrow> Inr (- 1, st)
      | Some bs \<Rightarrow>
          if length bs = 0 \<or> length bs mod 8 \<noteq> 0 then Inr (- 1, st)
          else if \<not> nim_slot_in_range cls ty then Inr (- 2, st)
          else if runtime_policy_count st \<ge> IFW_MAX_RUNTIME_POLICIES then Inr (- 3, st)
          else let verr = ifw_verify_policy code nim_sizeof_FsmState in
               if verr \<noteq> 0 then Inr (verr, st)
               else if \<not> alloc_ok pl (length bs) then Inr (- 4, st)
               else let rt_idx = runtime_policy_count st;
                        st = st\<lparr>runtime_policy_arr := (runtime_policy_arr st)[nat rt_idx :=
                                  \<lparr>pc_size = int (length bs), pc_code = Some bs, pc_jit = False\<rparr>],
                                runtime_policy_count := rt_idx + 1\<rparr>
                    in c_bind (nim_register_policy pl cls ty (nim_pid_code N_PID_NUM + rt_idx) st)
                         (\<lambda>st. Inr (0, st)))"

text \<open>\<open>fsm_update_handle.c\<close>: the fields of the argument are all 16 bits wide.\<close>

definition ifw_add_policy ::
  "platform \<Rightarrow> u16 \<Rightarrow> u16 \<Rightarrow> u8 list option \<Rightarrow> policy_state \<Rightarrow> (int \<times> policy_state) cres" where
  "ifw_add_policy pl cls ty code st = nim_ifw_install_policy pl (uint cls) (uint ty) code st"

section \<open>What the bytecode reads\<close>

text \<open>The loads of the three programs, under the layout of the firewall and under that of the policies.\<close>

lemma nim_fsm_loads:
  assumes "nim_wf_fsm st"
  shows "length (fsm_bytes st) = 104"
    "take 4 (drop 32 (fsm_bytes st)) = le_bytes 4 (shared_state st ! 3)"
    "take 4 (drop 76 (fsm_bytes st)) = le_bytes 4 (dc_param st ! 0)"
    "take 4 (drop 80 (fsm_bytes st)) = le_bytes 4 (dc_param st ! 1)"
proof -
  have len: "length (fsm_words st) = 26" using assms by (simp add: fsm_words_def nim_wf_fsm_def)
  then show "length (fsm_bytes st) = 104" by (simp add: fsm_bytes_def length_concat_le_bytes)
  have w: "take 4 (drop (4 * i) (fsm_bytes st)) = le_bytes 4 (fsm_words st ! i)" if "i < 26" for i
    unfolding fsm_bytes_def using that len by (intro take_drop_concat_le_bytes) simp
  have at: "fsm_words st ! 8 = shared_state st ! 3" "fsm_words st ! 19 = dc_param st ! 0"
    "fsm_words st ! 20 = dc_param st ! 1"
    using assms by (simp_all add: fsm_words_def nim_wf_fsm_def nth_append)
  show "take 4 (drop 32 (fsm_bytes st)) = le_bytes 4 (shared_state st ! 3)"
    "take 4 (drop 76 (fsm_bytes st)) = le_bytes 4 (dc_param st ! 0)"
    "take 4 (drop 80 (fsm_bytes st)) = le_bytes 4 (dc_param st ! 1)"
    using w [of 8] w [of 19] w [of 20] at by simp_all
qed

lemma nim_ebpf_fsm_loads:
  assumes "nim_wf_ebpf_fsm st"
  shows "length (fsm_bytes st) = 104"
    "take 4 (drop 76 (fsm_bytes st)) = le_bytes 4 (dc_param st ! 2)"
    "take 4 (drop 80 (fsm_bytes st)) = le_bytes 4 (dc_param st ! 3)"
proof -
  have len: "length (fsm_words st) = 26" using assms by (simp add: fsm_words_def nim_wf_ebpf_fsm_def)
  then show "length (fsm_bytes st) = 104" by (simp add: fsm_bytes_def length_concat_le_bytes)
  have w: "take 4 (drop (4 * i) (fsm_bytes st)) = le_bytes 4 (fsm_words st ! i)" if "i < 26" for i
    unfolding fsm_bytes_def using that len by (intro take_drop_concat_le_bytes) simp
  have at: "fsm_words st ! 19 = dc_param st ! 2" "fsm_words st ! 20 = dc_param st ! 3"
    using assms by (simp_all add: fsm_words_def nim_wf_ebpf_fsm_def nth_append)
  show "take 4 (drop 76 (fsm_bytes st)) = le_bytes 4 (dc_param st ! 2)"
    "take 4 (drop 80 (fsm_bytes st)) = le_bytes 4 (dc_param st ! 3)"
    using w [of 19] w [of 20] at by simp_all
qed

text \<open>What the programs compute on the structure of the firewall.\<close>

definition addr_byte_verdict :: "FsmState \<Rightarrow> u64" where
  "addr_byte_verdict fsm =
     (if sint (shared_state fsm ! (unat (nim_shared_type N_BD_ADDR) + 3)) < 2
      then IFW_OPERATION_REJECT else IFW_OPERATION_PASS)"

definition seq_bits_verdict :: "FsmState \<Rightarrow> u64" where
  "seq_bits_verdict fsm =
     (if dc_param fsm ! unat (nim_dc_type N_NESN) \<noteq> 0 \<and>
         dc_param fsm ! unat (nim_dc_type N_NESN) \<noteq> dc_param fsm ! unat (nim_dc_type N_SN)
      then IFW_OPERATION_REJECT else IFW_OPERATION_PASS)"

lemma ucast_u32_eq: "(ucast v :: u64) = ucast w \<longleftrightarrow> v = w" for v w :: u32
  by transfer (simp add: take_bit_eq_mod)

lemma nim_keysize_confusion_eq: "nim_keysize_confusion = nim_key_entropy_downgrade"
  by (simp add: nim_keysize_confusion_def nim_key_entropy_downgrade_def)

lemma nim_conn_chan_map_exec:
  assumes "nim_wf_fsm st" "aligned mp 4" "\<not> bounds_check_enabled vm"
  shows "ebpf_vm_loop vm h ml (insts_of_code nim_conn_chan_map) (vm_init mp (fsm_bytes st) sp) =
     Some (Inr (addr_byte_verdict st, fsm_bytes st))"
  using assms by (simp add: nim_conn_chan_map_def vm_exec_simps nim_fsm_loads addr_byte_verdict_def ifw_codes)

lemma nim_key_entropy_exec:
  assumes "nim_wf_fsm st" "aligned mp 4" "\<not> bounds_check_enabled vm"
  shows "ebpf_vm_loop vm h ml (insts_of_code nim_key_entropy_downgrade) (vm_init mp (fsm_bytes st) sp) =
     Some (Inr (seq_bits_verdict st, fsm_bytes st))"
  using assms
  by (simp add: nim_key_entropy_downgrade_def vm_exec_simps nim_fsm_loads seq_bits_verdict_def ifw_codes
      ucast_eq_numeral_u32 ucast_u32_eq)

lemma nim_key_entropy_ebpf_exec:
  assumes "nim_wf_ebpf_fsm st" "aligned mp 4" "\<not> bounds_check_enabled vm"
  shows "ebpf_vm_loop vm h ml (insts_of_code nim_key_entropy_downgrade) (vm_init mp (fsm_bytes st) sp) =
     Some (Inr (nim_key_entropy_downgrade_filter st, fsm_bytes st))"
  using assms
  by (simp add: nim_key_entropy_downgrade_def vm_exec_simps nim_ebpf_fsm_loads nim_key_entropy_downgrade_filter_def
      ifw_codes ucast_eq_numeral_u32 ucast_u32_eq)

text \<open>
  C36: the shipped NimBLE bytecode does not check what its sources check. On the structure of the
  firewall, the channel map program rejects exactly if the fourth byte of the stored peer address,
  as a signed number, is below two, and both key size programs reject exactly if the NESN parameter
  is neither zero nor the SN parameter; none reads the field its source names. On the structure
  declared for the policies, both key size programs compute the key entropy source, although
  \<open>keysize_confusion\<close> has a source of its own. The structure is at any address of its alignment.
\<close>

theorem nim_bytecode_meaning:
  assumes "aligned mem 4"
  shows "(nim_wf_fsm st \<longrightarrow>
      ebpf_vm_exec (ebpf_vm_set_inst ebpf_vm_zero (Some nim_conn_chan_map) n) h mem (fsm_bytes st) ml stack =
        Some (Inr (addr_byte_verdict st, fsm_bytes st)) \<and>
      ebpf_vm_exec (ebpf_vm_set_inst ebpf_vm_zero (Some nim_keysize_confusion) n) h mem (fsm_bytes st) ml stack =
        Some (Inr (seq_bits_verdict st, fsm_bytes st)) \<and>
      ebpf_vm_exec (ebpf_vm_set_inst ebpf_vm_zero (Some nim_key_entropy_downgrade) n) h mem (fsm_bytes st) ml stack =
        Some (Inr (seq_bits_verdict st, fsm_bytes st))) \<and>
   (nim_wf_ebpf_fsm st \<longrightarrow>
      ebpf_vm_exec (ebpf_vm_set_inst ebpf_vm_zero (Some nim_keysize_confusion) n) h mem (fsm_bytes st) ml stack =
        Some (Inr (nim_key_entropy_downgrade_filter st, fsm_bytes st)) \<and>
      ebpf_vm_exec (ebpf_vm_set_inst ebpf_vm_zero (Some nim_key_entropy_downgrade) n) h mem (fsm_bytes st) ml stack =
        Some (Inr (nim_key_entropy_downgrade_filter st, fsm_bytes st)))"
  using assms
  by (auto simp: ebpf_vm_exec_def ebpf_vm_set_inst_def ebpf_vm_zero_def nim_keysize_confusion_eq
      nim_conn_chan_map_exec nim_key_entropy_exec nim_key_entropy_ebpf_exec)

text \<open>The example: a key size that grows from 7 to 16 under the layout of the policies.\<close>

definition key_growth :: FsmState where
  "key_growth =
     \<lparr>core_state = replicate 5 0, shared_state = replicate 8 0, conn_param = replicate 4 0,
      dc_param = [0, 0, 16, 7], spi_param = replicate 5 0, hci_param = []\<rparr>"

theorem nim_bytecode_meaning_witness:
  "ebpf_vm_exec (ebpf_vm_set_inst ebpf_vm_zero (Some nim_conn_chan_map) 65) None 0x20000000 (fsm_bytes nim_fsm_zero) 64
     0x20001000 = Some (Inr (1, fsm_bytes nim_fsm_zero)) \<and>
   ebpf_vm_exec (ebpf_vm_set_inst ebpf_vm_zero (Some nim_keysize_confusion) 65) None 0x20000000 (fsm_bytes nim_fsm_zero) 64
     0x20001000 = Some (Inr (0, fsm_bytes nim_fsm_zero)) \<and>
   ebpf_vm_exec (ebpf_vm_set_inst ebpf_vm_zero (Some nim_keysize_confusion) 65) None 0x20000000 (fsm_bytes key_growth) 64
     0x20001000 = Some (Inr (1, fsm_bytes key_growth)) \<and> nim_keysize_confusion_filter key_growth = 0"
proof -
  have wf: "nim_wf_fsm nim_fsm_zero" "nim_wf_ebpf_fsm key_growth"
    by (simp_all add: nim_wf_fsm_def nim_wf_ebpf_fsm_def nim_fsm_zero_def key_growth_def)
  have v: "addr_byte_verdict nim_fsm_zero = 1" "seq_bits_verdict nim_fsm_zero = 0"
    "nim_key_entropy_downgrade_filter key_growth = 1" "nim_keysize_confusion_filter key_growth = 0"
    by (simp_all add: addr_byte_verdict_def seq_bits_verdict_def nim_key_entropy_downgrade_filter_def
        nim_keysize_confusion_filter_def nim_fsm_zero_def key_growth_def ifw_codes)
  show ?thesis
    using nim_bytecode_meaning [of "0x20000000" nim_fsm_zero] nim_bytecode_meaning [of "0x20000000" key_growth] wf v
    by (simp add: aligned_def)
qed

section \<open>Dispatch\<close>

text \<open>
  The slots are those of the Zephyr engine under another numbering, so its dispatch lemmas apply.
\<close>

definition zpid :: "int \<Rightarrow> int" where
  "zpid pid = (if pid < 3 then pid else pid + 5)"

lemma nim_slot_zpid: "nim_get_policy_slot pid st = get_policy_slot (zpid pid) st"
  by (simp add: nim_get_policy_slot_def get_policy_slot_def zpid_def)

lemma nim_run_zpid: "nim_run_fsm_ebpf_policy pl pid bs n st = run_fsm_ebpf_policy pl (zpid pid) bs n st"
proof -
  have "nim_load_ebpf_code pl pid jit st = load_ebpf_code pl (zpid pid) jit st" for jit
    by (simp only: nim_load_ebpf_code_def load_ebpf_code_def nim_slot_zpid)
  then have "nim_get_vm_from_cache pl pid st = get_vm_from_cache pl (zpid pid) st"
    by (simp only: nim_get_vm_from_cache_def get_vm_from_cache_def nim_slot_zpid)
  then show ?thesis by (simp only: nim_run_fsm_ebpf_policy_def run_fsm_ebpf_policy_def)
qed

interpretation nim_dispatch: policy_engine "\<lambda>s. vm_ready pl s \<and> same_policies st s"
  "\<lambda>pid. slot_usable pl st (zpid pid)" "\<lambda>pid. slot_verdict pl st (zpid pid)"
  "\<lambda>pid bs. nim_run_fsm_ebpf_policy pl pid bs 64" "nim_run_policy_list pl"
  for pl st
  by unfold_locales (auto simp: nim_run_zpid dest: run_one_usable)

lemma nim_check_dispatch:
  assumes "nim_slot_in_range cls ty" "vm_ready pl st"
    and "\<And>pid. pid \<in> set (policy_manager st (cls, ty)) \<Longrightarrow> slot_usable pl st (zpid pid) bs"
  shows "\<exists>st'. vm_ready pl st' \<and> same_policies st st' \<and>
    nim_run_fsm_check_policy pl ty cls bs st =
      Some (Inr (if list_ex (\<lambda>pid. slot_verdict pl st (zpid pid) bs = IFW_OPERATION_REJECT)
                      (policy_manager st (cls, ty))
                 then IFW_OPERATION_REJECT else IFW_OPERATION_PASS, bs, st'))"
  using nim_dispatch.list_verdict [of pl st st "policy_manager st (cls, ty)" bs] assms
  by (auto simp: nim_run_fsm_check_policy_def nim_dispatch.rejects_def)

text \<open>What loading establishes.\<close>

definition nim_policies_loaded :: "policy_state \<Rightarrow> bool" where
  "nim_policies_loaded st \<longleftrightarrow>
     policy_arr st = map (\<lambda>code. \<lparr>pc_size = int (length code), pc_code = Some code, pc_jit = False\<rparr>)
       [nim_conn_chan_map, nim_keysize_confusion, nim_key_entropy_downgrade] \<and>
     policy_manager st = (\<lambda>_. [])((2, 0) := [0], (3, 2) := [1, 2])"

lemma replicate3: "replicate 3 x = [x, x, x]"
  by (simp add: numeral_3_eq_3)

lemma nim_load_all_policies_ok:
  assumes "alloc_ok pl 8" "alloc_ok pl sizeof_vm"
  shows "\<exists>st. nim_load_all_policies pl nim_policy_state_init = Inr st \<and> nim_policies_loaded st \<and> vm_ready pl st"
  using assms
  by (simp add: nim_load_all_policies_def nim_ADD_POLICY_def nim_register_policy_def nim_set_policy_mask_def
      nim_slot_in_range_def init_policy_manager_def nim_policy_state_init_def policy_state_init_def
      nim_policies_loaded_def vm_ready_def replicate3 Let_def cong: c_bind_weak)

lemma nim_slot_run:
  assumes "nim_wf_fsm fsm"
  shows "pc_code slot = Some nim_conn_chan_map \<Longrightarrow>
      slot_run pl slot (fsm_bytes fsm) = Some (Inr (addr_byte_verdict fsm, fsm_bytes fsm))"
    "pc_code slot = Some nim_key_entropy_downgrade \<Longrightarrow>
      slot_run pl slot (fsm_bytes fsm) = Some (Inr (seq_bits_verdict fsm, fsm_bytes fsm))"
  using assms
  by (simp_all add: slot_run_def ebpf_vm_exec_def ebpf_vm_set_inst_def ebpf_vm_zero_def
      nim_conn_chan_map_exec nim_key_entropy_exec)

text \<open>The verdict of each slot after loading.\<close>

definition nim_verdict :: "int \<Rightarrow> int \<Rightarrow> FsmState \<Rightarrow> u64" where
  "nim_verdict cls ty =
     (if (cls, ty) = (2, 0) then addr_byte_verdict
      else if (cls, ty) = (3, 2) then seq_bits_verdict else (\<lambda>_. IFW_OPERATION_PASS))"

lemma nim_loaded_slot:
  assumes "nim_policies_loaded st" "nim_wf_fsm fsm"
  shows "slot_usable pl st 0 (fsm_bytes fsm)" "slot_verdict pl st 0 (fsm_bytes fsm) = addr_byte_verdict fsm"
    "pid \<in> {1, 2} \<Longrightarrow> slot_usable pl st pid (fsm_bytes fsm)"
    "pid \<in> {1, 2} \<Longrightarrow> slot_verdict pl st pid (fsm_bytes fsm) = seq_bits_verdict fsm"
proof -
  have code: "length nim_conn_chan_map \<noteq> 0" "length nim_key_entropy_downgrade \<noteq> 0"
    by (simp_all add: nim_conn_chan_map_def nim_key_entropy_downgrade_def)
  note run = nim_slot_run [OF assms(2)]
  show "slot_usable pl st 0 (fsm_bytes fsm)" "slot_verdict pl st 0 (fsm_bytes fsm) = addr_byte_verdict fsm"
    using assms(1) code
    by (simp_all add: slot_usable_def slot_verdict_def get_policy_slot_def nim_policies_loaded_def run)
  show "pid \<in> {1, 2} \<Longrightarrow> slot_usable pl st pid (fsm_bytes fsm)"
    "pid \<in> {1, 2} \<Longrightarrow> slot_verdict pl st pid (fsm_bytes fsm) = seq_bits_verdict fsm"
    using assms(1) code
    by (auto simp: slot_usable_def slot_verdict_def get_policy_slot_def nim_policies_loaded_def run
        nim_keysize_confusion_eq)
qed

lemma nim_loaded_check:
  assumes "nim_policies_loaded st" "vm_ready pl st" "nim_slot_in_range cls ty" "nim_wf_fsm fsm"
  shows "\<exists>st'. nim_policies_loaded st' \<and> vm_ready pl st' \<and>
    nim_run_fsm_check_policy pl ty cls (fsm_bytes fsm) st =
      Some (Inr (nim_verdict cls ty fsm, fsm_bytes fsm, st'))"
proof -
  note slot = nim_loaded_slot [OF assms(1,4)]
  have lists: "policy_manager st (cls, ty) =
      (if (cls, ty) = (2, 0) then [0] else if (cls, ty) = (3, 2) then [1, 2] else [])"
    using assms(1) by (auto simp: nim_policies_loaded_def)
  have usable: "slot_usable pl st (zpid pid) (fsm_bytes fsm)" if "pid \<in> set (policy_manager st (cls, ty))" for pid
    using that slot by (auto simp: lists zpid_def split: if_splits)
  have verdict: "(if list_ex (\<lambda>pid. slot_verdict pl st (zpid pid) (fsm_bytes fsm) = IFW_OPERATION_REJECT)
       (policy_manager st (cls, ty)) then IFW_OPERATION_REJECT else IFW_OPERATION_PASS) = nim_verdict cls ty fsm"
    using slot by (simp add: lists zpid_def nim_verdict_def) (simp add: addr_byte_verdict_def seq_bits_verdict_def ifw_codes)
  show ?thesis
    using nim_check_dispatch [OF assms(3,2) usable] same_policies_simps assms(1)
    unfolding verdict by (fastforce simp: nim_policies_loaded_def)
qed

section \<open>Installation and removal\<close>

text \<open>The loop after the head test removes the first node with the index.\<close>

lemma unlink_after_remove1: "unlink_after pid (p # ps) = p # remove1 pid ps"
  by (induction pid "p # ps" arbitrary: p ps rule: unlink_after.induct) auto

lemma remove_policy_remove1:
  "nim_slot_in_range cls ty \<Longrightarrow> remove_policy cls ty pid st =
     Inr (st\<lparr>policy_manager := (policy_manager st)((cls, ty) := remove1 pid (policy_manager st (cls, ty)))\<rparr>)"
  by (cases "policy_manager st (cls, ty)") (simp_all add: remove_policy_def unlink_after_remove1 fun_upd_idem)

text \<open>
  Registration and removal are inverse. Registering an index that is not listed for the slot and
  removing it again leaves every list as it was, and the checks of that slot and of all others with
  it; removing an index that is not listed changes nothing.
\<close>

theorem nim_register_remove:
  assumes "policy_mgr_init st" "nim_slot_in_range cls ty" "pid \<notin> set (policy_manager st (cls, ty))"
  shows "\<exists>st'. nim_register_policy pl cls ty pid st = Inr st' \<and>
      (\<exists>st''. remove_policy cls ty pid st' = Inr st'' \<and> policy_manager st'' = policy_manager st \<and>
         policy_arr st'' = policy_arr st \<and> runtime_policy_arr st'' = runtime_policy_arr st) \<and>
    remove_policy cls ty pid st = Inr st"
proof -
  have mask: "\<exists>s. nim_set_policy_mask cls ty st = Inr s \<and> policy_manager s = policy_manager st \<and>
      policy_arr s = policy_arr st \<and> runtime_policy_arr s = runtime_policy_arr st"
    using assms(2) by (auto simp: nim_set_policy_mask_def nim_slot_in_range_def Let_def)
  have "remove1 pid (policy_manager st (cls, ty)) = policy_manager st (cls, ty)"
    "remove1 pid (policy_manager st (cls, ty) @ [pid]) = policy_manager st (cls, ty)"
    using assms(3) by (simp_all add: remove1_idem remove1_append)
  then show ?thesis
    using mask assms(1,2) by (cases "alloc_ok pl 8") (auto simp: nim_register_policy_def remove_policy_remove1)
qed

text \<open>
  The installation can report success without effect. When the code is copied but no list node
  can be allocated, \<open>ifw_install_policy\<close> returns 0 and uses up a run-time slot, and the lists of all
  slots stay as they were: no check runs the new policy.
\<close>

theorem nim_install_unregistered:
  assumes "nim_slot_in_range cls ty" "runtime_policy_count st < IFW_MAX_RUNTIME_POLICIES" "policy_mgr_init st"
    and "ifw_verify_policy (Some code) nim_sizeof_FsmState = 0"
    and "alloc_ok pl (length code)" "\<not> alloc_ok pl 8"
  shows "\<exists>st'. nim_ifw_install_policy pl cls ty (Some code) st = Inr (0, st') \<and>
    policy_manager st' = policy_manager st \<and> runtime_policy_count st' = runtime_policy_count st + 1"
proof -
  have len: "length code \<noteq> 0" "length code mod 8 = 0"
    using assms(4) by (auto simp: ifw_verify_policy_def split: if_splits)
  show ?thesis
    using assms len
    by (auto simp: nim_ifw_install_policy_def nim_register_policy_def nim_set_policy_mask_def nim_slot_in_range_def Let_def)
qed

section \<open>Examples\<close>

definition started :: policy_state where
  "started = init_policy_manager nim_policy_state_init"

definition pass_program :: "u8 list" where
  "pass_program = [0xb7, 0, 0, 0, 0, 0, 0, 0, 0x95, 0, 0, 0, 0, 0, 0, 0]"

lemma pass_program_verified: "ifw_verify_policy (Some pass_program) nim_sizeof_FsmState = 0"
  unfolding nim_sizeof_FsmState_def pass_program_def by code_simp

theorem nim_register_remove_witness:
  "\<exists>st' st''. nim_register_policy platform_example 3 2 1 started = Inr st' \<and>
     remove_policy 3 2 1 st' = Inr st'' \<and> policy_manager st'' = policy_manager started"
  using nim_register_remove [of started 3 2 1 platform_example]
  by (auto simp: started_def init_policy_manager_def nim_slot_in_range_def)

theorem nim_install_unregistered_witness:
  "\<exists>st'. nim_ifw_install_policy (platform_example\<lparr>alloc_ok := (\<lambda>n. n \<noteq> 8)\<rparr>) 3 2 (Some pass_program) started =
     Inr (0, st') \<and> policy_manager st' (3, 2) = []"
  using nim_install_unregistered [of 3 2 started pass_program "platform_example\<lparr>alloc_ok := (\<lambda>n. n \<noteq> 8)\<rparr>"]
    pass_program_verified
  by (auto simp: started_def init_policy_manager_def nim_slot_in_range_def nim_policy_state_init_def
      policy_state_init_def IFW_MAX_RUNTIME_POLICIES_def pass_program_def)

end
