(* ===== verification/Mbuf.thy ===== *)
theory Mbuf
  imports Prelude
begin

text \<open>
  Packet buffers of the NimBLE stack as the firewall reads them: \<open>os_mbuf_copydata\<close> of
  \<^verbatim>\<open>porting/nimble/src/os_mbuf.c\<close> and \<open>ble_hs_mbuf_to_flat\<close> of \<^verbatim>\<open>nimble/host/src/ble_hs_mbuf.c\<close>. A chain
  is the list of the data of its buffers; the packet length of its header is the length of all of
  them. Offsets and lengths are natural numbers, since the callers pass no negative ones.
\<close>

type_synonym mbuf = "u8 list list"

definition OS_MBUF_PKTLEN :: "mbuf \<Rightarrow> nat" where
  "OS_MBUF_PKTLEN om = length (concat om)"

text \<open>The two loops of \<open>os_mbuf_copydata\<close>: finding the buffer of the offset, and copying.\<close>

fun mbuf_seek :: "nat \<Rightarrow> mbuf \<Rightarrow> (nat \<times> mbuf) option" where
  "mbuf_seek off [] = (if off > 0 then None else Some (off, []))"
| "mbuf_seek off (b # m) =
     (if off = 0 then Some (off, b # m)
      else if off < length b then Some (off, b # m)
      else mbuf_seek (off - length b) m)"

fun mbuf_gather :: "nat \<Rightarrow> nat \<Rightarrow> mbuf \<Rightarrow> u8 list \<times> nat" where
  "mbuf_gather off len [] = ([], len)"
| "mbuf_gather off len (b # m) =
     (if len = 0 then ([], len)
      else let count = min (length b - off) len;
               (bs, rest) = mbuf_gather 0 (len - count) m
           in (take count (drop off b) @ bs, rest))"

definition os_mbuf_copydata :: "mbuf \<Rightarrow> nat \<Rightarrow> nat \<Rightarrow> int \<times> u8 list" where
  "os_mbuf_copydata m off len =
     (if len = 0 then (0, [])
      else case mbuf_seek off m of
             None \<Rightarrow> (- 1, [])
           | Some (off, m) \<Rightarrow>
               let (bs, rest) = mbuf_gather off len m in (if rest > 0 then - 1 else 0, bs))"

abbreviation (input) BLE_HS_EMSGSIZE :: int where "BLE_HS_EMSGSIZE \<equiv> 4"
abbreviation (input) BLE_HS_EUNKNOWN :: int where "BLE_HS_EUNKNOWN \<equiv> 17"

text \<open>The status, the bytes written to the flat buffer, and the copied length when it is stored.\<close>

definition ble_hs_mbuf_to_flat :: "mbuf \<Rightarrow> nat \<Rightarrow> int \<times> u8 list \<times> nat option" where
  "ble_hs_mbuf_to_flat om max_len =
     (let copy_len = (if OS_MBUF_PKTLEN om \<le> max_len then OS_MBUF_PKTLEN om else max_len);
          (rc, bs) = os_mbuf_copydata om 0 copy_len
      in if rc \<noteq> 0 then (BLE_HS_EUNKNOWN, bs, None)
         else (if copy_len > max_len then BLE_HS_EMSGSIZE else 0, bs, Some copy_len))"

lemma mbuf_gather_concat:
  "mbuf_gather 0 len m = (take len (concat m), len - length (concat m))"
proof (induction m arbitrary: len)
  case Nil
  then show ?case by simp
next
  case (Cons b m)
  then show ?case by (cases "length b \<le> len") (auto simp: min_def Let_def)
qed

lemma mbuf_gather_offset:
  assumes "off \<le> length b" "0 < len"
  shows "mbuf_gather off len (b # m) = (take len (drop off (concat (b # m))), len - (length (concat (b # m)) - off))"
  using assms by (cases "length b - off \<le> len") (simp_all add: mbuf_gather_concat min_def Let_def)

lemma mbuf_seek_gather:
  "0 < len \<Longrightarrow>
   (case mbuf_seek off m of
      None \<Rightarrow> (- 1, [])
    | Some (off, m) \<Rightarrow> let (bs, rest) = mbuf_gather off len m in (if rest > 0 then - 1 else 0, bs)) =
   (if off + len \<le> length (concat m) then 0 else - 1 :: int, take len (drop off (concat m)))"
proof (induction off m rule: mbuf_seek.induct)
  case (2 off b m)
  show ?case
  proof (cases "off < length b \<or> off = 0")
    case True
    then show ?thesis
      using 2 by (auto simp: mbuf_gather_offset simp del: mbuf_gather.simps)
  next
    case False
    then have "off - length b + len \<le> length (concat m) \<longleftrightarrow> off + len \<le> length (concat (b # m))" by auto
    then show ?thesis using 2 False by (simp add: Let_def)
  qed
qed simp

text \<open>Copying from a chain is copying from the concatenation of its buffers.\<close>

lemma os_mbuf_copydata_concat:
  "os_mbuf_copydata m off len =
     (if len = 0 \<or> off + len \<le> length (concat m) then 0 else - 1, take len (drop off (concat m)))"
  using mbuf_seek_gather [of len off m] by (simp add: os_mbuf_copydata_def)

text \<open>The size error is never returned: a longer packet is cut to the size of the flat buffer.\<close>

lemma ble_hs_mbuf_to_flat_take:
  "ble_hs_mbuf_to_flat om n = (0, take n (concat om), Some (min n (length (concat om))))"
  by (auto simp: ble_hs_mbuf_to_flat_def os_mbuf_copydata_concat OS_MBUF_PKTLEN_def Let_def min_def)

end
