(* ===== verification/Nimble_Core.thy ===== *)
theory Nimble_Core
  imports Nimble_Policy Fsm_Core Mbuf
begin

text \<open>
  The state machine core and the hooks of the NimBLE port,
  \<^verbatim>\<open>Mynewt/repos/apache-mynewt-nimble/firewall/src\<close>: \<^verbatim>\<open>fsm_core.c\<close> and the parsers the controller and the
  host call for every packet. A hook that returns true has the packet dropped.
\<close>

section \<open>State\<close>

record nim_state =
  n_cur :: FsmState
  n_new :: FsmState
  n_policies :: policy_state

definition nim_state_init :: nim_state where
  "nim_state_init = \<lparr>n_cur = nim_fsm_zero, n_new = nim_fsm_zero, n_policies = nim_policy_state_init\<rparr>"

definition nim_fsm_of_words :: "s32 list \<Rightarrow> FsmState" where
  "nim_fsm_of_words ws =
     \<lparr>core_state = take 5 ws, shared_state = take 8 (drop 5 ws), conn_param = take 6 (drop 13 ws),
      dc_param = take 4 (drop 19 ws), spi_param = take 2 (drop 23 ws), hci_param = take 1 (drop 25 ws)\<rparr>"

definition nim_fsm_of_bytes :: "u8 list \<Rightarrow> FsmState" where
  "nim_fsm_of_bytes bs = nim_fsm_of_words (map (\<lambda>i. ucast (le_join (take 4 (drop (4 * i) bs)))) [0..<26])"

section \<open>Core\<close>

text \<open>The log store is a stub that returns 0, so that initialisation never stops early.\<close>

definition ifw_fcb_init :: int where "ifw_fcb_init = 0"

definition nim_ifw_fsm_init :: "nim_state \<Rightarrow> nim_state" where
  "nim_ifw_fsm_init fw =
     (let fw = fw\<lparr>n_cur := nim_fsm_zero\<lparr>core_state := ifw_core_state_num\<rparr>, n_new := nim_fsm_zero\<rparr>
      in if ifw_fcb_init \<noteq> 0 then fw else fw)"

definition ifw_stage_refresh :: "nim_state \<Rightarrow> nim_state" where
  "ifw_stage_refresh fw = fw\<lparr>n_new := n_cur fw\<rparr>"

text \<open>
  The \<open>switch\<close> that both updates share: the class selects the array and the bound the type is
  compared with; \<open>None\<close> stands for a type or class that is out of range.
\<close>

definition nim_array_store :: "u16 \<Rightarrow> u16 \<Rightarrow> u16 \<Rightarrow> s32 list \<Rightarrow> s32 list option cres" where
  "nim_array_store num ty v xs =
     (if ty < num then c_bind (array_store ty v xs) (\<lambda>xs. Inr (Some xs)) else Inr None)"

definition nim_fsm_store :: "u16 \<Rightarrow> u16 \<Rightarrow> u16 \<Rightarrow> FsmState \<Rightarrow> FsmState option cres" where
  "nim_fsm_store v ty cls st =
     (if cls = class_code SHARED then
        c_bind (nim_array_store (nim_shared_type N_IFW_SHARED_STATE_NUM) ty v (shared_state st))
          (\<lambda>xs. Inr (map_option (\<lambda>xs. st\<lparr>shared_state := xs\<rparr>) xs))
      else if cls = class_code CORE then
        c_bind (nim_array_store (core_type IFW_CORE_STATE_NUM) ty v (core_state st))
          (\<lambda>xs. Inr (map_option (\<lambda>xs. st\<lparr>core_state := xs\<rparr>) xs))
      else if cls = class_code CONN then
        c_bind (nim_array_store (nim_conn_type N_IFW_CONN_PARAM_NUM) ty v (conn_param st))
          (\<lambda>xs. Inr (map_option (\<lambda>xs. st\<lparr>conn_param := xs\<rparr>) xs))
      else if cls = class_code DC then
        c_bind (nim_array_store (nim_dc_type N_IFW_DC_PARAM_NUM) ty v (dc_param st))
          (\<lambda>xs. Inr (map_option (\<lambda>xs. st\<lparr>dc_param := xs\<rparr>) xs))
      else if cls = class_code SPI then
        c_bind (nim_array_store (spi_type IFW_SPI_PARAM_NUM) ty v (spi_param st))
          (\<lambda>xs. Inr (map_option (\<lambda>xs. st\<lparr>spi_param := xs\<rparr>) xs))
      else if cls = class_code HCI then
        c_bind (nim_array_store (hci_type IFW_HCI_PARAM_NUM) ty v (hci_param st))
          (\<lambda>xs. Inr (map_option (\<lambda>xs. st\<lparr>hci_param := xs\<rparr>) xs))
      else Inr None)"

definition nim_ifw_fsm_state_update :: "u16 \<Rightarrow> u16 \<Rightarrow> u16 \<Rightarrow> nim_state \<Rightarrow> nim_state cres" where
  "nim_ifw_fsm_state_update v ty cls fw =
     c_bind (nim_fsm_store v ty cls (n_cur fw)) (\<lambda>r.
       case r of None \<Rightarrow> Inr fw | Some st \<Rightarrow> Inr (fw\<lparr>n_cur := st\<rparr>))"

text \<open>A core state is compared with the number of its values before it is stored.\<close>

definition core_value_refused :: "u16 \<Rightarrow> u16 \<Rightarrow> u16 \<Rightarrow> bool" where
  "core_value_refused v ty cls \<longleftrightarrow>
     cls = class_code CORE \<and> ty < core_type IFW_CORE_STATE_NUM \<and> uint v \<ge> sint (ifw_core_state_num ! unat ty)"

definition nim_ifw_fsm_check_update ::
  "platform \<Rightarrow> u16 \<Rightarrow> u16 \<Rightarrow> u16 \<Rightarrow> nim_state \<Rightarrow> (u64 \<times> nim_state) cres option" where
  "nim_ifw_fsm_check_update pl v ty cls fw =
     (let fw = ifw_stage_refresh fw in
      if core_value_refused v ty cls then Some (Inr (IFW_OPERATION_REJECT, fw))
      else m_bind (Some (nim_fsm_store v ty cls (n_new fw))) (\<lambda>r.
        case r of
          None \<Rightarrow> Some (Inr (IFW_OPERATION_REJECT, fw))
        | Some st \<Rightarrow>
            m_bind (nim_run_fsm_check_policy pl (uint ty) (uint cls) (fsm_bytes st) (n_policies fw)) (\<lambda>(r, bs, ps).
              let fw = fw\<lparr>n_new := nim_fsm_of_bytes bs, n_policies := ps\<rparr> in
              if r = IFW_OPERATION_REJECT then Some (Inr (IFW_OPERATION_REJECT, fw))
              else Some (c_bind (nim_ifw_fsm_state_update v ty cls fw) (\<lambda>fw. Inr (IFW_OPERATION_PASS, fw))))))"

definition nim_ifw_run_verifier :: "platform \<Rightarrow> u16 \<Rightarrow> u16 \<Rightarrow> nim_state \<Rightarrow> (u64 \<times> nim_state) cres option" where
  "nim_ifw_run_verifier pl ty cls fw =
     m_bind (nim_run_fsm_check_policy pl (uint ty) (uint cls) (fsm_bytes (n_new fw)) (n_policies fw)) (\<lambda>(r, bs, ps).
       let fw = fw\<lparr>n_new := nim_fsm_of_bytes bs, n_policies := ps\<rparr> in
       Some (Inr (if r = IFW_OPERATION_REJECT then IFW_OPERATION_REJECT else IFW_OPERATION_PASS, fw)))"

definition NIM_IFW_FSM_CHECK_UPDATE ::
  "platform \<Rightarrow> u16 \<Rightarrow> u16 \<Rightarrow> u16 \<Rightarrow> nim_state \<Rightarrow> (bool \<times> nim_state) cres option" where
  "NIM_IFW_FSM_CHECK_UPDATE pl v ty cls fw =
     map_option (map_sum id (\<lambda>(r, fw). (r = IFW_OPERATION_REJECT, fw))) (nim_ifw_fsm_check_update pl v ty cls fw)"

section \<open>Hooks\<close>

abbreviation (input) IFW_BLE_LL_PDU_HDR_LEN :: nat where "IFW_BLE_LL_PDU_HDR_LEN \<equiv> 2"
abbreviation (input) IFW_BLE_DEV_ADDR_LEN :: nat where "IFW_BLE_DEV_ADDR_LEN \<equiv> 6"
abbreviation (input) IFW_BLE_LL_CONN_REQ_ADVA_OFF :: nat where
  "IFW_BLE_LL_CONN_REQ_ADVA_OFF \<equiv> IFW_BLE_LL_PDU_HDR_LEN + IFW_BLE_DEV_ADDR_LEN"
abbreviation (input) BLE_LL_CHAN_MAP_LEN :: nat where "BLE_LL_CHAN_MAP_LEN \<equiv> 5"
abbreviation (input) BLE_ADV_PDU_TYPE_CONNECT_IND :: u8 where "BLE_ADV_PDU_TYPE_CONNECT_IND \<equiv> 5"
abbreviation (input) BLE_LL_DATA_HDR_LLID_MASK :: u8 where "BLE_LL_DATA_HDR_LLID_MASK \<equiv> 0x03"
abbreviation (input) BLE_LL_LLID_CTRL :: u8 where "BLE_LL_LLID_CTRL \<equiv> 3"

text \<open>\<open>memcpy\<close> from an offset of the receive buffer.\<close>

definition copy_from :: "u8 list \<Rightarrow> nat \<Rightarrow> nat \<Rightarrow> u8 list cres" where
  "copy_from buf off n = (if off + n \<le> length buf then Inr (take n (drop off buf)) else Inl Oob_read)"

text \<open>The loop over the bytes of the peer address.\<close>

fun store_addr :: "u8 list \<Rightarrow> u16 \<Rightarrow> nim_state \<Rightarrow> nim_state cres" where
  "store_addr [] i fw = Inr fw"
| "store_addr (b # bs) i fw =
     c_bind (nim_ifw_fsm_state_update (ucast b) (nim_shared_type N_BD_ADDR + i) (class_code SHARED) fw)
       (store_addr bs (i + 1))"

definition ifw_ble_ll_conn_periph_start :: "u8 list \<Rightarrow> nim_state \<Rightarrow> (bool \<times> nim_state) cres" where
  "ifw_ble_ll_conn_periph_start rxbuf fw =
     c_bind (copy_from rxbuf IFW_BLE_LL_PDU_HDR_LEN IFW_BLE_DEV_ADDR_LEN) (\<lambda>peer_addr.
     c_bind (store_addr peer_addr 0 fw) (\<lambda>fw. Inr (False, fw)))"

definition ifw_adv_ll_parser :: "platform \<Rightarrow> u8 \<Rightarrow> u8 list \<Rightarrow> nim_state \<Rightarrow> (bool \<times> nim_state) cres option" where
  "ifw_adv_ll_parser pl ptype rxbuf fw =
     (let dptr = IFW_BLE_LL_CONN_REQ_ADVA_OFF + IFW_BLE_DEV_ADDR_LEN in
      if ptype = BLE_ADV_PDU_TYPE_CONNECT_IND then
        m_bind (Some (copy_from rxbuf (dptr + 16) BLE_LL_CHAN_MAP_LEN)) (\<lambda>chan_map.
          let chan_map_check = push_bit 8 (ucast (chan_map ! 1)) OR ucast (chan_map ! 0) in
          m_bind (NIM_IFW_FSM_CHECK_UPDATE pl chan_map_check (nim_conn_type N_CHANNEL_MAP) (class_code CONN) fw)
            (\<lambda>(rej, fw).
              if rej then Some (Inr (True, fw))
              else m_bind (Some (ifw_ble_ll_conn_periph_start rxbuf fw)) (\<lambda>(rej, fw).
                     Some (Inr (rej, fw)))))
      else Some (Inr (False, fw)))"

definition ifw_dc_ll_ctrl_parser :: "mbuf \<Rightarrow> nim_state \<Rightarrow> (bool \<times> nim_state) cres option" where
  "ifw_dc_ll_ctrl_parser rxpdu fw = Some (Inr (False, fw))"

definition nim_ifw_dc_l2cap_parser :: "mbuf \<Rightarrow> nim_state \<Rightarrow> (bool \<times> nim_state) cres option" where
  "nim_ifw_dc_l2cap_parser rxpdu fw = Some (Inr (False, fw))"

text \<open>
  The pairing request is read from the first buffer of the chain whatever its length; past its
  bytes the contents of the buffer are left over from earlier packets.
\<close>

definition ifw_smp_parser :: "platform \<Rightarrow> mbuf option \<Rightarrow> nim_state \<Rightarrow> (bool \<times> nim_state) cres option" where
  "ifw_smp_parser pl rx_buf fw =
     (case rx_buf of
        None \<Rightarrow> Some (Inr (False, fw))
      | Some om \<Rightarrow>
          let (rc, bs) = os_mbuf_copydata om 0 1 in
          if rc \<noteq> 0 then Some (Inr (False, fw))
          else if bs ! 0 = 0x01 then
            (if length (om ! 0) < 5 then Some (Inl Uninit_read)
             else let max_enc_key_size = ucast (om ! 0 ! 4) in
               m_bind (NIM_IFW_FSM_CHECK_UPDATE pl max_enc_key_size (nim_dc_type N_SMP_MAX_ENC_SIZE) (class_code DC) fw)
                 (\<lambda>(rej, fw).
                   if rej then Some (Inr (True, fw))
                   else m_bind (Some (nim_ifw_fsm_state_update max_enc_key_size
                                        (nim_dc_type N_SMP_MAX_ENC_SIZE_PREV) (class_code DC) fw)) (\<lambda>fw.
                          Some (Inr (False, fw)))))
          else Some (Inr (False, fw)))"

text \<open>The lengths the transmit hook computes after its two updates are not used.\<close>

definition ifw_ll_tx_parser :: "u8 \<Rightarrow> u8 list \<Rightarrow> nim_state \<Rightarrow> nim_state cres" where
  "ifw_ll_tx_parser hdr_byte om_data fw =
     (let llid = hdr_byte AND BLE_LL_DATA_HDR_LLID_MASK in
      c_bind (if llid = BLE_LL_LLID_CTRL
              then (if om_data = [] then Inl Oob_read else Inr (1, ucast (om_data ! 0)))
              else Inr (0, 0)) (\<lambda>(is_ctrl, opcode).
      c_bind (nim_ifw_fsm_state_update is_ctrl (nim_conn_type N_TX_IS_CTRL) (class_code CONN) fw) (\<lambda>fw.
      nim_ifw_fsm_state_update opcode (nim_conn_type N_TX_OPCODE) (class_code CONN) fw)))"

section \<open>Sequences of packets\<close>

text \<open>
  The places the hooks are called from: packets received while advertising, control and data PDUs of
  a connection, packets of the security manager, and transmissions.
\<close>

datatype nim_event =
    Adv_rx u8 "u8 list" | Ctrl_rx mbuf | Data_rx mbuf | Sm_rx "mbuf option" | Ll_tx u8 "u8 list"

fun nim_hook :: "platform \<Rightarrow> nim_event \<Rightarrow> nim_state \<Rightarrow> (bool \<times> nim_state) cres option" where
  "nim_hook pl (Adv_rx ptype rxbuf) fw = ifw_adv_ll_parser pl ptype rxbuf fw"
| "nim_hook pl (Ctrl_rx rxpdu) fw = ifw_dc_ll_ctrl_parser rxpdu fw"
| "nim_hook pl (Data_rx rxpdu) fw = nim_ifw_dc_l2cap_parser rxpdu fw"
| "nim_hook pl (Sm_rx rx_buf) fw = ifw_smp_parser pl rx_buf fw"
| "nim_hook pl (Ll_tx hdr_byte om_data) fw =
     m_bind (Some (ifw_ll_tx_parser hdr_byte om_data fw)) (\<lambda>fw. Some (Inr (False, fw)))"

fun nim_trace :: "platform \<Rightarrow> nim_event list \<Rightarrow> nim_state \<Rightarrow> (bool list \<times> nim_state) cres option" where
  "nim_trace pl [] fw = Some (Inr ([], fw))"
| "nim_trace pl (e # es) fw =
     m_bind (nim_hook pl e fw) (\<lambda>(rej, fw).
     m_bind (nim_trace pl es fw) (\<lambda>(rejs, fw). Some (Inr (rej # rejs, fw))))"

text \<open>\<open>ble_ll_init\<close> initialises the core, the application enables the policies.\<close>

definition nim_boot :: "platform \<Rightarrow> bool \<Rightarrow> nim_state cres" where
  "nim_boot pl jit =
     (let fw = nim_ifw_fsm_init nim_state_init in
      c_bind (nim_ifw_fsm_enable pl jit (n_policies fw)) (\<lambda>ps. Inr (fw\<lparr>n_policies := ps\<rparr>)))"

section \<open>Stores\<close>

lemma nim_fsm_of_words_inverse: "nim_wf_fsm st \<Longrightarrow> nim_fsm_of_words (fsm_words st) = st"
  by (cases st) (simp add: nim_fsm_of_words_def fsm_words_def nim_wf_fsm_def)

lemma nim_fsm_of_bytes_inverse [simp]:
  assumes "nim_wf_fsm st"
  shows "nim_fsm_of_bytes (fsm_bytes st) = st"
proof -
  have len: "length (fsm_words st) = 26" using assms by (simp add: fsm_words_def nim_wf_fsm_def)
  have "take 4 (drop (4 * i) (fsm_bytes st)) = le_bytes 4 (fsm_words st ! i)" if "i < 26" for i
    unfolding fsm_bytes_def using that len by (intro take_drop_concat_le_bytes) simp
  then have "map (\<lambda>i. ucast (le_join (take 4 (drop (4 * i) (fsm_bytes st)))) :: s32) [0..<26] = fsm_words st"
    using len by (intro nth_equalityI) simp_all
  then show ?thesis using nim_fsm_of_words_inverse [OF assms] by (simp add: nim_fsm_of_bytes_def)
qed

text \<open>The lengths of the arrays by class, and a store into the array of a class.\<close>

definition nim_class_len :: "u16 \<Rightarrow> nat" where
  "nim_class_len cls =
     (if cls = class_code SHARED then 8 else if cls = class_code CORE then 5 else if cls = class_code CONN then 6
      else if cls = class_code DC then 4 else if cls = class_code SPI then 2 else if cls = class_code HCI then 1
      else 0)"

definition nim_put :: "u16 \<Rightarrow> u16 \<Rightarrow> u16 \<Rightarrow> FsmState \<Rightarrow> FsmState" where
  "nim_put v ty cls st =
     (if cls = class_code SHARED then st\<lparr>shared_state := (shared_state st)[unat ty := ucast v]\<rparr>
      else if cls = class_code CORE then put_core (unat ty) v st
      else if cls = class_code CONN then put_conn (unat ty) v st
      else if cls = class_code DC then put_dc (unat ty) v st
      else if cls = class_code SPI then st\<lparr>spi_param := (spi_param st)[unat ty := ucast v]\<rparr>
      else st\<lparr>hci_param := (hci_param st)[unat ty := ucast v]\<rparr>)"

lemma nim_put_sel [simp]:
  "nim_wf_fsm (put_dc i v st) = nim_wf_fsm st" "nim_wf_fsm (put_conn i v st) = nim_wf_fsm st"
  "shared_state (put_dc i v st) = shared_state st" "shared_state (put_conn i v st) = shared_state st"
  by (simp_all add: nim_wf_fsm_def put_conn_def put_dc_def)

lemma nim_put_wf [simp]: "nim_wf_fsm (nim_put v ty cls st) = nim_wf_fsm st"
  by (simp add: nim_put_def nim_wf_fsm_def put_core_def put_conn_def put_dc_def)

lemma nim_fsm_store_put:
  "nim_wf_fsm st \<Longrightarrow> nim_fsm_store v ty cls st =
     Inr (if unat ty < nim_class_len cls then Some (nim_put v ty cls st) else None)"
  by (simp add: nim_fsm_store_def nim_array_store_def array_store_def nim_wf_fsm_def nim_class_len_def nim_put_def
      put_core_def put_conn_def put_dc_def word_less_nat_alt)

lemma nim_state_update_put:
  "nim_wf_fsm (n_cur fw) \<Longrightarrow> nim_ifw_fsm_state_update v ty cls fw =
     Inr (if unat ty < nim_class_len cls then fw\<lparr>n_cur := nim_put v ty cls (n_cur fw)\<rparr> else fw)"
  by (simp add: nim_ifw_fsm_state_update_def nim_fsm_store_put)

section \<open>One check\<close>

text \<open>What holds between packets.\<close>

definition nim_inv :: "platform \<Rightarrow> nim_state \<Rightarrow> bool" where
  "nim_inv pl fw \<longleftrightarrow>
     nim_wf_fsm (n_cur fw) \<and> nim_wf_fsm (n_new fw) \<and> nim_policies_loaded (n_policies fw) \<and>
     vm_ready pl (n_policies fw)"

lemma nim_class_range:
  fixes ty :: u16
  shows "unat ty < nim_class_len cls \<Longrightarrow> nim_slot_in_range (uint cls) (uint ty) \<longleftrightarrow> unat ty < 4"
proof -
  assume len: "unat ty < nim_class_len cls"
  have "unat ty < 4 \<longleftrightarrow> uint ty < 4"
    using word_less_nat_alt [of ty 4] word_less_def [of ty 4] by simp
  moreover have "uint cls < 6" using len by (auto simp: nim_class_len_def split: if_splits)
  ultimately show ?thesis by (simp add: nim_slot_in_range_def)
qed

lemma nim_check_update_cases:
  assumes inv: "nim_inv pl fw"
  shows "unat ty \<ge> nim_class_len cls \<or> core_value_refused v ty cls \<Longrightarrow>
      nim_ifw_fsm_check_update pl v ty cls fw = Some (Inr (IFW_OPERATION_REJECT, fw\<lparr>n_new := n_cur fw\<rparr>))"
    "unat ty < nim_class_len cls \<Longrightarrow> \<not> core_value_refused v ty cls \<Longrightarrow> unat ty \<ge> 4 \<Longrightarrow>
      nim_ifw_fsm_check_update pl v ty cls fw = Some (Inl Oob_read)"
    "unat ty < nim_class_len cls \<Longrightarrow> \<not> core_value_refused v ty cls \<Longrightarrow> unat ty < 4 \<Longrightarrow>
      \<exists>ps. nim_policies_loaded ps \<and> vm_ready pl ps \<and> nim_ifw_fsm_check_update pl v ty cls fw =
        (let st = nim_put v ty cls (n_cur fw) in
         if nim_verdict (uint cls) (uint ty) st = IFW_OPERATION_REJECT
         then Some (Inr (IFW_OPERATION_REJECT, fw\<lparr>n_new := st, n_policies := ps\<rparr>))
         else Some (Inr (IFW_OPERATION_PASS, fw\<lparr>n_cur := st, n_new := st, n_policies := ps\<rparr>)))"
proof -
  have wf: "nim_wf_fsm (n_cur fw)" "nim_wf_fsm (nim_put v ty cls (n_cur fw))" using inv by (simp_all add: nim_inv_def)
  note store = nim_fsm_store_put [OF wf(1)]
  show "unat ty \<ge> nim_class_len cls \<or> core_value_refused v ty cls \<Longrightarrow>
      nim_ifw_fsm_check_update pl v ty cls fw = Some (Inr (IFW_OPERATION_REJECT, fw\<lparr>n_new := n_cur fw\<rparr>))"
    by (auto simp: nim_ifw_fsm_check_update_def ifw_stage_refresh_def store Let_def)
  show "unat ty < nim_class_len cls \<Longrightarrow> \<not> core_value_refused v ty cls \<Longrightarrow> unat ty \<ge> 4 \<Longrightarrow>
      nim_ifw_fsm_check_update pl v ty cls fw = Some (Inl Oob_read)"
    by (simp add: nim_ifw_fsm_check_update_def ifw_stage_refresh_def store Let_def nim_run_fsm_check_policy_def nim_class_range)
  assume ty: "unat ty < nim_class_len cls" "\<not> core_value_refused v ty cls" "unat ty < 4"
  then obtain ps where ps: "nim_policies_loaded ps" "vm_ready pl ps"
      "nim_run_fsm_check_policy pl (uint ty) (uint cls) (fsm_bytes (nim_put v ty cls (n_cur fw))) (n_policies fw) =
        Some (Inr (nim_verdict (uint cls) (uint ty) (nim_put v ty cls (n_cur fw)),
          fsm_bytes (nim_put v ty cls (n_cur fw)), ps))"
    using nim_loaded_check [of "n_policies fw" pl "uint cls" "uint ty", OF _ _ _ wf(2)] inv nim_class_range [OF ty(1)]
    by (auto simp: nim_inv_def)
  then show "\<exists>ps. nim_policies_loaded ps \<and> vm_ready pl ps \<and> nim_ifw_fsm_check_update pl v ty cls fw =
        (let st = nim_put v ty cls (n_cur fw) in
         if nim_verdict (uint cls) (uint ty) st = IFW_OPERATION_REJECT
         then Some (Inr (IFW_OPERATION_REJECT, fw\<lparr>n_new := st, n_policies := ps\<rparr>))
         else Some (Inr (IFW_OPERATION_PASS, fw\<lparr>n_cur := st, n_new := st, n_policies := ps\<rparr>)))"
    using ty wf
    by (intro exI [of _ ps])
      (auto simp: nim_ifw_fsm_check_update_def ifw_stage_refresh_def store nim_state_update_put Let_def)
qed

text \<open>
  C20: a check on the NimBLE port, in every state in which the policies are loaded. A class, index or
  core value out of range is rejected and nothing is committed. An index of four or more that is in
  range for its class is undefined behaviour: the table of policies has four columns. Otherwise the
  check rejects exactly if the slot's program rejects the new state, and the new state is committed
  exactly if it does not.
\<close>

theorem nim_check_update_spec:
  assumes "nim_inv pl fw"
  shows "if unat ty \<ge> nim_class_len cls \<or> core_value_refused v ty cls then
      nim_ifw_fsm_check_update pl v ty cls fw = Some (Inr (IFW_OPERATION_REJECT, fw\<lparr>n_new := n_cur fw\<rparr>))
    else if unat ty \<ge> 4 then nim_ifw_fsm_check_update pl v ty cls fw = Some (Inl Oob_read)
    else \<exists>fw'. nim_inv pl fw' \<and> nim_ifw_fsm_check_update pl v ty cls fw =
           Some (Inr (nim_verdict (uint cls) (uint ty) (nim_put v ty cls (n_cur fw)), fw')) \<and>
         n_new fw' = nim_put v ty cls (n_cur fw) \<and>
         n_cur fw' = (if nim_verdict (uint cls) (uint ty) (nim_put v ty cls (n_cur fw)) = IFW_OPERATION_REJECT
                      then n_cur fw else nim_put v ty cls (n_cur fw))"
proof -
  have pass: "nim_verdict c t st \<noteq> IFW_OPERATION_REJECT \<longleftrightarrow> nim_verdict c t st = IFW_OPERATION_PASS" for c t st
    by (simp add: nim_verdict_def addr_byte_verdict_def seq_bits_verdict_def ifw_codes)
  note cases = nim_check_update_cases [OF assms, where ty = ty and cls = cls and v = v]
  show ?thesis
  proof (cases "unat ty \<ge> nim_class_len cls \<or> core_value_refused v ty cls")
    case True
    then show ?thesis using cases(1) by (simp only: if_True)
  next
    case in_range: False
    then have range: "unat ty < nim_class_len cls" "\<not> core_value_refused v ty cls" by auto
    show ?thesis
    proof (cases "unat ty \<ge> 4")
      case True
      then show ?thesis using cases(2) [OF range True] by (simp only: in_range if_False if_True)
    next
      case False
      then obtain ps where "nim_policies_loaded ps" "vm_ready pl ps"
        "nim_ifw_fsm_check_update pl v ty cls fw =
          (let st = nim_put v ty cls (n_cur fw) in
           if nim_verdict (uint cls) (uint ty) st = IFW_OPERATION_REJECT
           then Some (Inr (IFW_OPERATION_REJECT, fw\<lparr>n_new := st, n_policies := ps\<rparr>))
           else Some (Inr (IFW_OPERATION_PASS, fw\<lparr>n_cur := st, n_new := st, n_policies := ps\<rparr>)))"
        using cases(3) [OF range] by auto
      then show ?thesis
        using in_range False assms pass [of "uint cls" "uint ty" "nim_put v ty cls (n_cur fw)"]
        by (auto simp: nim_inv_def Let_def)
    qed
  qed
qed

section \<open>Every connection is refused, no pairing is\<close>

text \<open>The fields the programs really read; they are zero after start-up, and no hook sets them.\<close>

definition nim_quiet :: "nim_state \<Rightarrow> bool" where
  "nim_quiet fw \<longleftrightarrow>
     shared_state (n_cur fw) ! 3 = 0 \<and> dc_param (n_cur fw) ! 0 = 0 \<and> dc_param (n_cur fw) ! 1 = 0"

fun event_ok :: "nim_event \<Rightarrow> bool" where
  "event_ok (Adv_rx ptype rxbuf) = (ptype = BLE_ADV_PDU_TYPE_CONNECT_IND \<longrightarrow> 35 \<le> length rxbuf)"
| "event_ok (Sm_rx (Some om)) = (concat om \<noteq> [] \<longrightarrow> concat om ! 0 = 1 \<longrightarrow> 5 \<le> length (om ! 0))"
| "event_ok (Ll_tx hdr_byte om_data) =
     (hdr_byte AND BLE_LL_DATA_HDR_LLID_MASK = BLE_LL_LLID_CTRL \<longrightarrow> om_data \<noteq> [])"
| "event_ok _ = True"

fun is_connect_ind :: "nim_event \<Rightarrow> bool" where
  "is_connect_ind (Adv_rx ptype rxbuf) = (ptype = BLE_ADV_PDU_TYPE_CONNECT_IND)"
| "is_connect_ind _ = False"

lemma quiet_conn_check:
  assumes "nim_inv pl fw" "nim_quiet fw"
  shows "\<exists>fw'. NIM_IFW_FSM_CHECK_UPDATE pl v (nim_conn_type N_CHANNEL_MAP) (class_code CONN) fw = Some (Inr (True, fw')) \<and>
    nim_inv pl fw' \<and> nim_quiet fw'"
proof -
  have "nim_verdict 2 0 (nim_put v 0 (class_code CONN) (n_cur fw)) = IFW_OPERATION_REJECT"
    using assms by (simp add: nim_verdict_def nim_put_def put_conn_def addr_byte_verdict_def nim_quiet_def)
  then show ?thesis
    using nim_check_update_cases(3) [OF assms(1), where ty = 0 and cls = "class_code CONN" and v = v] assms
    by (auto simp: nim_class_len_def core_value_refused_def NIM_IFW_FSM_CHECK_UPDATE_def nim_inv_def nim_quiet_def Let_def)
qed

lemma quiet_dc_check:
  assumes "nim_inv pl fw" "nim_quiet fw"
  shows "\<exists>fw'. NIM_IFW_FSM_CHECK_UPDATE pl v (nim_dc_type N_SMP_MAX_ENC_SIZE) (class_code DC) fw = Some (Inr (False, fw')) \<and>
    nim_inv pl fw' \<and> nim_quiet fw'"
proof -
  have "nim_verdict 3 2 (nim_put v 2 (class_code DC) (n_cur fw)) = IFW_OPERATION_PASS"
    using assms by (simp add: nim_verdict_def nim_put_def seq_bits_verdict_def nim_quiet_def)
  then show ?thesis
    using nim_check_update_cases(3) [OF assms(1), where ty = 2 and cls = "class_code DC" and v = v] assms
    by (auto simp: nim_class_len_def core_value_refused_def NIM_IFW_FSM_CHECK_UPDATE_def nim_inv_def nim_quiet_def
        nim_put_def Let_def ifw_codes)
qed

lemma quiet_update:
  assumes "nim_inv pl fw" "nim_quiet fw" "cls = class_code CONN \<or> cls = class_code DC \<and> unat ty \<ge> 2"
  shows "\<exists>fw'. nim_ifw_fsm_state_update v ty cls fw = Inr fw' \<and> nim_inv pl fw' \<and> nim_quiet fw'"
  using assms nim_state_update_put [of fw v ty cls]
  by (auto simp: nim_inv_def nim_quiet_def nim_put_def nim_class_len_def)

lemma quiet_hook:
  assumes "nim_inv pl fw" "nim_quiet fw" "event_ok e"
  shows "\<exists>fw'. nim_hook pl e fw = Some (Inr (is_connect_ind e, fw')) \<and> nim_inv pl fw' \<and> nim_quiet fw'"
proof (cases e)
  case (Adv_rx ptype rxbuf)
  then show ?thesis
    using assms
      quiet_conn_check [OF assms(1,2), of "push_bit 8 (ucast (rxbuf ! 31)) OR ucast (rxbuf ! 30)"]
    by (auto simp: ifw_adv_ll_parser_def copy_from_def Let_def)
next
  case (Sm_rx rx_buf)
  show ?thesis
  proof (cases rx_buf)
    case None
    then show ?thesis using assms Sm_rx by (simp add: ifw_smp_parser_def)
  next
    case (Some om)
    let ?k = "ucast (om ! 0 ! 4) :: u16"
    obtain fw1 where 1: "NIM_IFW_FSM_CHECK_UPDATE pl ?k (nim_dc_type N_SMP_MAX_ENC_SIZE) (class_code DC) fw = Some (Inr (False, fw1))"
        "nim_inv pl fw1" "nim_quiet fw1"
      using quiet_dc_check [OF assms(1,2)] by blast
    obtain fw2 where 2: "nim_ifw_fsm_state_update ?k (nim_dc_type N_SMP_MAX_ENC_SIZE_PREV) (class_code DC) fw1 = Inr fw2"
        "nim_inv pl fw2" "nim_quiet fw2"
      using quiet_update [OF 1(2,3), of "class_code DC" "nim_dc_type N_SMP_MAX_ENC_SIZE_PREV" ?k] by auto
    show ?thesis
      using assms Sm_rx Some 1 2
      by (cases "concat om") (auto simp: ifw_smp_parser_def os_mbuf_copydata_concat Let_def simp del: concat_eq_Nil_conv)
  qed
next
  case (Ll_tx hdr_byte om_data)
  have tx: "\<exists>fw'. c_bind (nim_ifw_fsm_state_update c (nim_conn_type N_TX_IS_CTRL) (class_code CONN) fw) (\<lambda>fw.
      nim_ifw_fsm_state_update opc (nim_conn_type N_TX_OPCODE) (class_code CONN) fw) = Inr fw' \<and>
      nim_inv pl fw' \<and> nim_quiet fw'" for c opc
    using quiet_update [OF assms(1,2), of "class_code CONN" "nim_conn_type N_TX_IS_CTRL" c]
      quiet_update [of pl _ "class_code CONN" "nim_conn_type N_TX_OPCODE" opc] by fastforce
  show ?thesis
    using assms Ll_tx tx [of 0 0] tx [of 1 "ucast (om_data ! 0)"] by (auto simp: ifw_ll_tx_parser_def Let_def)
qed (use assms in \<open>simp_all add: ifw_dc_ll_ctrl_parser_def nim_ifw_dc_l2cap_parser_def\<close>)

lemma quiet_trace:
  assumes "nim_inv pl fw" "nim_quiet fw" "list_all event_ok es"
  shows "\<exists>fw'. nim_trace pl es fw = Some (Inr (map is_connect_ind es, fw'))"
  using assms
proof (induction es arbitrary: fw)
  case (Cons e es)
  obtain fw1 where 1: "nim_hook pl e fw = Some (Inr (is_connect_ind e, fw1))" "nim_inv pl fw1" "nim_quiet fw1"
    using quiet_hook Cons.prems by force
  obtain fw2 where "nim_trace pl es fw1 = Some (Inr (map is_connect_ind es, fw2))"
    using Cons.IH [OF 1(2,3)] Cons.prems by auto
  then show ?case using 1(1) by simp
qed simp

lemma nim_boot_ok:
  assumes "alloc_ok pl 8" "alloc_ok pl sizeof_vm"
  shows "\<exists>fw. nim_boot pl False = Inr fw \<and> nim_inv pl fw \<and> nim_quiet fw"
  using nim_load_all_policies_ok [OF assms]
  by (auto simp: nim_boot_def nim_ifw_fsm_enable_def nim_ifw_fsm_init_def nim_state_init_def nim_inv_def nim_quiet_def
      nim_wf_fsm_def nim_fsm_zero_def ifw_core_state_num_def Let_def)

text \<open>
  C11: what the NimBLE firewall does to traffic, with interpreted policies. From start-up, for every
  sequence of packets of sufficient length - advertising packets that hold a connection request have 35
  bytes, pairing requests have five in their first buffer and control packets sent have an opcode - the
  hooks return without undefined behaviour and reject exactly the connection requests, all of them, whatever their channel map; no pairing request is
  rejected, whatever key size it asks for after earlier ones.
\<close>

theorem nim_trace_verdicts:
  assumes "alloc_ok pl 8" "alloc_ok pl sizeof_vm" "list_all event_ok es"
  shows "\<exists>fw fw'. nim_boot pl False = Inr fw \<and> nim_trace pl es fw = Some (Inr (map is_connect_ind es, fw'))"
  using nim_boot_ok [OF assms(1,2)] quiet_trace [OF _ _ assms(3)] by blast

section \<open>Examples\<close>

text \<open>
  A connection request with all channels enabled, and pairing requests that ask for 16 and then for
  7 bytes of key, in one buffer and in two.
\<close>

definition nim_traffic :: "nim_event list" where
  "nim_traffic =
     [Adv_rx 5 (replicate 30 0 @ [0xff, 0xff, 0xff, 0xff, 0x1f] @ [5]), Adv_rx 3 [],
      Sm_rx (Some [[1, 3, 0, 1, 16, 7, 7]]), Sm_rx (Some [[1, 3, 0, 1, 7], [7, 7]]), Ll_tx 3 [0x14]]"

theorem nim_trace_verdicts_witness:
  "\<exists>fw fw'. nim_boot platform_example False = Inr fw \<and>
     nim_trace platform_example nim_traffic fw = Some (Inr ([True, False, False, False, False], fw'))"
  using nim_trace_verdicts [of platform_example nim_traffic] by (simp add: nim_traffic_def)

theorem nim_check_update_spec_witness:
  "\<exists>fw. nim_boot platform_example False = Inr fw \<and>
     nim_ifw_fsm_check_update platform_example 1 4 1 fw = Some (Inl Oob_read) \<and>
     nim_ifw_fsm_check_update platform_example 9 4 1 fw = Some (Inr (IFW_OPERATION_REJECT, fw\<lparr>n_new := n_cur fw\<rparr>)) \<and>
     (\<exists>fw'. nim_ifw_fsm_check_update platform_example 16 2 3 fw = Some (Inr (IFW_OPERATION_PASS, fw')))"
proof -
  obtain fw where fw: "nim_boot platform_example False = Inr fw" "nim_inv platform_example fw" "nim_quiet fw"
    using nim_boot_ok [of platform_example] by auto
  have "nim_verdict 3 2 (nim_put 16 2 3 (n_cur fw)) = IFW_OPERATION_PASS"
    using fw(3) by (simp add: nim_verdict_def nim_put_def seq_bits_verdict_def nim_quiet_def)
  then show ?thesis
    using fw nim_check_update_spec [OF fw(2), where ty = 4 and cls = 1 and v = 1] nim_check_update_spec [OF fw(2), where ty = 4 and cls = 1 and v = 9]
      nim_check_update_spec [OF fw(2), where ty = 2 and cls = 3 and v = 16]
    by (auto simp: nim_class_len_def core_value_refused_def ifw_core_state_num_def)
qed

end
