(* ===== verification/Nimble_Patch.thy ===== *)
theory Nimble_Patch
  imports Patch_Service Nimble_Core
begin

text \<open>
  The patch service of the NimBLE port,
  \<^verbatim>\<open>nimble/host/services/firewall/src/ble_svc_firewall_patch.c\<close>. Its variables are those of the Zephyr
  service. One callback serves all characteristics and returns 0 or an attribute error.
\<close>

section \<open>Characteristics\<close>

definition firewall_patch_hdr_uuid :: "u8 list" where
  "firewall_patch_hdr_uuid =
     [0xed, 0xf1, 0x00, 0x8d, 0xcf, 0xe6, 0xbd, 0xa0, 0xa1, 0x49, 0x57, 0x7e, 0x02, 0x00, 0x00, 0xbd]"

definition firewall_patch_body_uuid :: "u8 list" where
  "firewall_patch_body_uuid =
     [0xed, 0xf1, 0x00, 0x8d, 0xcf, 0xe6, 0xbd, 0xa0, 0xa1, 0x49, 0x57, 0x7e, 0x03, 0x00, 0x00, 0xbd]"

definition firewall_patch_commit_uuid :: "u8 list" where
  "firewall_patch_commit_uuid =
     [0xed, 0xf1, 0x00, 0x8d, 0xcf, 0xe6, 0xbd, 0xa0, 0xa1, 0x49, 0x57, 0x7e, 0x04, 0x00, 0x00, 0xbd]"

definition firewall_patch_status_uuid :: "u8 list" where
  "firewall_patch_status_uuid =
     [0xed, 0xf1, 0x00, 0x8d, 0xcf, 0xe6, 0xbd, 0xa0, 0xa1, 0x49, 0x57, 0x7e, 0x05, 0x00, 0x00, 0xbd]"

lemmas patch_uuids = firewall_patch_hdr_uuid_def firewall_patch_body_uuid_def firewall_patch_commit_uuid_def
  firewall_patch_status_uuid_def

abbreviation (input) BLE_ATT_ERR_INVALID_ATTR_VALUE_LEN :: int where "BLE_ATT_ERR_INVALID_ATTR_VALUE_LEN \<equiv> 0x0d"
abbreviation (input) BLE_ATT_ERR_UNLIKELY :: int where "BLE_ATT_ERR_UNLIKELY \<equiv> 0x0e"
abbreviation (input) BLE_ATT_ERR_INSUFFICIENT_RES :: int where "BLE_ATT_ERR_INSUFFICIENT_RES \<equiv> 0x11"

abbreviation (input) BLE_GATT_ACCESS_OP_READ_CHR :: u8 where "BLE_GATT_ACCESS_OP_READ_CHR \<equiv> 0"
abbreviation (input) BLE_GATT_ACCESS_OP_WRITE_CHR :: u8 where "BLE_GATT_ACCESS_OP_WRITE_CHR \<equiv> 1"

section \<open>Handlers\<close>

definition firewall_patch_handle_header :: "mbuf \<Rightarrow> patch_state \<Rightarrow> int \<times> patch_state" where
  "firewall_patch_handle_header om s =
     (let (rc, hdr, len) = ble_hs_mbuf_to_flat om 2 in
      if rc \<noteq> 0 then (BLE_ATT_ERR_UNLIKELY, s)
      else if len \<noteq> Some 2 then (BLE_ATT_ERR_INVALID_ATTR_VALUE_LEN, s)
      else (0, s\<lparr>target_class := hdr ! 0, target_type := hdr ! 1, staging_len := 0\<rparr>))"

text \<open>The bytes reach the staging buffer before the status of the copy is looked at.\<close>

definition firewall_patch_handle_body :: "mbuf \<Rightarrow> patch_state \<Rightarrow> (int \<times> patch_state) cres" where
  "firewall_patch_handle_body om s =
     (let chunk_len = OS_MBUF_PKTLEN om in
      if unat (staging_len s) + chunk_len > BSWAT_STAGING_MAX then Inr (BLE_ATT_ERR_INVALID_ATTR_VALUE_LEN, s)
      else let (rc, bs, copied) = ble_hs_mbuf_to_flat om chunk_len in
        if unat (staging_len s) + length bs > length (staging_buf s) then Inl Oob_write
        else let s = s\<lparr>staging_buf := splice (staging_buf s) (unat (staging_len s)) bs\<rparr> in
          if rc \<noteq> 0 then Inr (BLE_ATT_ERR_UNLIKELY, s)
          else Inr (0, s\<lparr>staging_len :=
                 staging_len s + word_of_nat (case copied of None \<Rightarrow> 0 | Some n \<Rightarrow> n)\<rparr>))"

definition firewall_patch_handle_commit :: "platform \<Rightarrow> mbuf \<Rightarrow> patch_state \<Rightarrow> (int \<times> patch_state) cres" where
  "firewall_patch_handle_commit pl om s =
     (if OS_MBUF_PKTLEN om < 1 then Inr (BLE_ATT_ERR_INVALID_ATTR_VALUE_LEN, s)
      else if unat (staging_len s) > length (staging_buf s) then Inl Oob_read
      else c_bind (nim_ifw_install_policy pl (uint (target_class s)) (uint (target_type s))
                     (Some (take (unat (staging_len s)) (staging_buf s))) (patch_policies s)) (\<lambda>(rc, ps).
             Inr (0, s\<lparr>last_install_rc := word_of_int rc, staging_len := 0, patch_policies := ps\<rparr>)))"

text \<open>Appending to the response may run out of buffers; the result is the response with it.\<close>

definition firewall_patch_handle_status_read :: "bool \<Rightarrow> mbuf \<Rightarrow> patch_state \<Rightarrow> int \<times> mbuf" where
  "firewall_patch_handle_status_read room om s =
     (if room then (0, om @ [le_bytes 4 (last_install_rc s)]) else (BLE_ATT_ERR_INSUFFICIENT_RES, om))"

definition firewall_patch_access ::
  "platform \<Rightarrow> bool \<Rightarrow> u8 list \<Rightarrow> u8 \<Rightarrow> mbuf \<Rightarrow> patch_state \<Rightarrow> (int \<times> mbuf \<times> patch_state) cres" where
  "firewall_patch_access pl room uuid op om s =
     (if op = BLE_GATT_ACCESS_OP_WRITE_CHR then
        (if uuid = firewall_patch_hdr_uuid
         then (let (rc, s) = firewall_patch_handle_header om s in Inr (rc, om, s))
         else if uuid = firewall_patch_body_uuid
         then c_bind (firewall_patch_handle_body om s) (\<lambda>(rc, s). Inr (rc, om, s))
         else if uuid = firewall_patch_commit_uuid
         then c_bind (firewall_patch_handle_commit pl om s) (\<lambda>(rc, s). Inr (rc, om, s))
         else Inr (BLE_ATT_ERR_UNLIKELY, om, s))
      else if op = BLE_GATT_ACCESS_OP_READ_CHR then
        (if uuid = firewall_patch_status_uuid
         then (let (rc, om) = firewall_patch_handle_status_read room om s in Inr (rc, om, s))
         else Inr (BLE_ATT_ERR_UNLIKELY, om, s))
      else Inr (BLE_ATT_ERR_UNLIKELY, om, s))"

section \<open>Sessions\<close>

text \<open>An access: characteristic, operation, and the packet buffer of the request or response.\<close>

type_synonym patch_access = "u8 list \<times> u8 \<times> mbuf"

definition access_state :: "platform \<Rightarrow> patch_access \<Rightarrow> patch_state \<Rightarrow> patch_state cres" where
  "access_state pl a s =
     (case a of (uuid, op, om) \<Rightarrow> c_bind (firewall_patch_access pl True uuid op om s) (\<lambda>(_, _, s). Inr s))"

abbreviation write_to :: "u8 list \<Rightarrow> mbuf \<Rightarrow> patch_access" where
  "write_to uuid om \<equiv> (uuid, BLE_GATT_ACCESS_OP_WRITE_CHR, om)"

text \<open>A header is cut to two bytes; a body that fits is staged, wherever its buffers are cut.\<close>

lemma nim_header:
  "firewall_patch_handle_header om s =
     (if length (concat om) < 2 then (BLE_ATT_ERR_INVALID_ATTR_VALUE_LEN, s)
      else (0, s\<lparr>target_class := concat om ! 0, target_type := concat om ! 1, staging_len := 0\<rparr>))"
  by (auto simp: firewall_patch_handle_header_def ble_hs_mbuf_to_flat_take)

lemma nim_body:
  assumes "patch_wf s"
  shows "firewall_patch_handle_body om s =
     (if length (staged s) + length (concat om) > BSWAT_STAGING_MAX then Inr (BLE_ATT_ERR_INVALID_ATTR_VALUE_LEN, s)
      else c_bind (write_body (concat om) 0 s) (\<lambda>(_, s). Inr (0, s)))"
  using assms
  by (simp add: firewall_patch_handle_body_def ble_hs_mbuf_to_flat_take OS_MBUF_PKTLEN_def length_staged write_body_def
      patch_wf_def Let_def)

lemma nim_install_defined: "\<exists>r st'. nim_ifw_install_policy pl cls ty code st = Inr (r, st')"
  by (auto simp: nim_ifw_install_policy_def nim_register_policy_def nim_set_policy_mask_def nim_slot_in_range_def Let_def
      split: option.split)

interpretation nimble_patch: patch_protocol patch_wf staged "\<lambda>s. (target_class s, target_type s)" patch_policies
  last_install_rc "\<lambda>c t. access_state pl (write_to firewall_patch_hdr_uuid [[c, t]])"
  "\<lambda>b. access_state pl (write_to firewall_patch_body_uuid [b])"
  "access_state pl (write_to firewall_patch_commit_uuid [[x]])" "nim_ifw_install_policy pl"
  for pl x
proof
  fix s :: patch_state and c t :: u8 and b rc ps
  assume wf: "patch_wf s"
  show "\<exists>s'. access_state pl (write_to firewall_patch_hdr_uuid [[c, t]]) s = Inr s' \<and> patch_wf s' \<and> staged s' = [] \<and>
      (target_class s', target_type s') = (c, t) \<and> patch_policies s' = patch_policies s"
    using wf by (simp add: access_state_def firewall_patch_access_def nim_header patch_wf_def staged_def)
  show "\<exists>s'. access_state pl (write_to firewall_patch_body_uuid [b]) s = Inr s' \<and> patch_wf s' \<and> staged s' = staged s @ b \<and>
      (target_class s', target_type s') = (target_class s, target_type s) \<and> patch_policies s' = patch_policies s"
    if "length (staged s) + length b \<le> BSWAT_STAGING_MAX"
    using wf
    by (cases rule: write_body_refines [of s b 0])
      (use that wf in \<open>auto simp: access_state_def firewall_patch_access_def nim_body patch_uuids\<close>)
  show "\<exists>s'. access_state pl (write_to firewall_patch_commit_uuid [[x]]) s = Inr s' \<and> patch_wf s' \<and> staged s' = [] \<and>
      patch_policies s' = ps \<and> last_install_rc s' = word_of_int rc"
    if "nim_ifw_install_policy pl (uint (fst (target_class s, target_type s)))
      (uint (snd (target_class s, target_type s))) (Some (staged s)) (patch_policies s) = Inr (rc, ps)"
    using wf that
    by (simp add: access_state_def firewall_patch_access_def firewall_patch_handle_commit_def OS_MBUF_PKTLEN_def
        patch_wf_def staged_def patch_uuids)
qed

text \<open>Every access keeps the staging buffer in bounds.\<close>

lemma access_state_wf:
  assumes wf: "patch_wf s"
  shows "\<exists>s'. access_state pl a s = Inr s' \<and> patch_wf s'"
proof -
  obtain uuid op om where a: "a = (uuid, op, om)" by (cases a)
  have hdr: "patch_wf (snd (firewall_patch_handle_header om s))"
    using wf by (simp add: nim_header patch_wf_def)
  have body: "\<exists>r s'. firewall_patch_handle_body om s = Inr (r, s') \<and> patch_wf s'"
    using wf by (cases rule: write_body_refines [of s "concat om" 0]) (use wf in \<open>auto simp: nim_body\<close>)
  obtain r ps where "nim_ifw_install_policy pl (uint (target_class s)) (uint (target_type s))
      (Some (take (unat (staging_len s)) (staging_buf s))) (patch_policies s) = Inr (r, ps)"
    using nim_install_defined by blast
  then have commit: "\<exists>r s'. firewall_patch_handle_commit pl om s = Inr (r, s') \<and> patch_wf s'"
    using wf by (auto simp: firewall_patch_handle_commit_def patch_wf_def)
  show ?thesis
    using hdr body commit wf
    by (auto simp: a access_state_def firewall_patch_access_def firewall_patch_handle_status_read_def split: prod.splits)
qed

lemma access_sequence_wf:
  "patch_wf s \<Longrightarrow> \<exists>s'. c_fold (access_state pl) accesses s = Inr s' \<and> patch_wf s'"
proof (induction accesses arbitrary: s)
  case (Cons a as)
  then show ?case using access_state_wf [of s pl a] by auto
qed simp

text \<open>
  C19: the NimBLE patch service. A header write, body writes that fit the staging buffer and a commit
  have the effect of one call of \<open>ifw_install_policy\<close> with the concatenated bytes, and leave its
  return code in the status. No sequence of accesses, to whatever characteristic and with whatever
  contents, has undefined behaviour or overruns the staging buffer, even when allocations fail.
\<close>

theorem nim_patch_service:
  assumes "patch_wf s"
  shows "(length (concat bss) \<le> BSWAT_STAGING_MAX \<longrightarrow>
      (\<exists>rc ps s'. nim_ifw_install_policy pl (uint c) (uint t) (Some (concat bss)) (patch_policies s) = Inr (rc, ps) \<and>
        c_fold (access_state pl) (write_to firewall_patch_hdr_uuid [[c, t]] #
          map (\<lambda>b. write_to firewall_patch_body_uuid [b]) bss @ [write_to firewall_patch_commit_uuid [[x]]]) s = Inr s' \<and>
        patch_policies s' = ps \<and> last_install_rc s' = word_of_int rc)) \<and>
    (\<exists>s'. c_fold (access_state pl) accesses s = Inr s' \<and> patch_wf s')"
proof
  obtain rc ps where inst: "nim_ifw_install_policy pl (uint c) (uint t) (Some (concat bss)) (patch_policies s) = Inr (rc, ps)"
    using nim_install_defined by blast
  then show "length (concat bss) \<le> BSWAT_STAGING_MAX \<longrightarrow>
      (\<exists>rc ps s'. nim_ifw_install_policy pl (uint c) (uint t) (Some (concat bss)) (patch_policies s) = Inr (rc, ps) \<and>
        c_fold (access_state pl) (write_to firewall_patch_hdr_uuid [[c, t]] #
          map (\<lambda>b. write_to firewall_patch_body_uuid [b]) bss @ [write_to firewall_patch_commit_uuid [[x]]]) s = Inr s' \<and>
        patch_policies s' = ps \<and> last_install_rc s' = word_of_int rc)"
    using nimble_patch.push_installs [OF assms _ inst, of x]
    by (auto simp: c_fold_append c_fold_map cong: c_bind_cong)
qed (rule access_sequence_wf [OF assms])

theorem nim_patch_service_witness:
  "\<exists>rc ps s'. nim_ifw_install_policy platform_example 3 2 (Some pass_program) nim_policy_state_init = Inr (rc, ps) \<and>
     c_fold (access_state platform_example) [write_to firewall_patch_hdr_uuid [[3, 2]],
       write_to firewall_patch_body_uuid [take 5 pass_program], write_to firewall_patch_body_uuid [drop 5 pass_program],
       write_to firewall_patch_commit_uuid [[0]]] (patch_state_init nim_policy_state_init) = Inr s' \<and>
     patch_policies s' = ps \<and> last_install_rc s' = word_of_int rc"
proof -
  let ?bss = "[take 5 pass_program, drop 5 pass_program]"
  have "patch_policies (patch_state_init nim_policy_state_init) = nim_policy_state_init" "length (concat ?bss) \<le> BSWAT_STAGING_MAX"
    by (simp_all add: patch_state_init_def BSWAT_STAGING_MAX_def pass_program_def)
  then show ?thesis
    using nim_patch_service [OF patch_init_wf [of nim_policy_state_init], of ?bss platform_example 3 2 0 "[]"] by simp
qed

end
