(* ===== verification/Spec2Isabelle.thy ===== *)
theory Spec2Isabelle
  imports L2cap_Parser Patch_Service Array_Map Hash_Map Ebpf_Env Ll_Encryption Nimble_Patch
begin

text \<open>
  \<^bold>\<open>A verification of BlueSWAT.\<close> BlueSWAT is a firewall for Bluetooth Low Energy stacks on
  microcontrollers, in C, in two ports: \<^verbatim>\<open>ZephyrOS/zephyr/firewall\<close> for the Zephyr stack and
  \<^verbatim>\<open>Mynewt/repos/apache-mynewt-nimble/firewall\<close> for NimBLE. Hooks in the stack copy fields of a packet
  into a protocol state; small eBPF programs, the policies, look at that state and accept or reject
  it; a hook that reports a rejection has the packet dropped. Policies are compiled in, or pushed
  over the air to a patch service, verified, and installed at run time. They run in an interpreter
  or are compiled to Thumb-2 code.

  \<^bold>\<open>How C is modelled.\<close> The target is a 32-bit little-endian Cortex-M4. Integers are words of their C
  width, with the promotions written out. An operation with undefined behaviour has a value \<open>Inl e\<close>,
  where \<open>e\<close> names the kind (\<open>Oob_read\<close>, \<open>Div_zero\<close>, \<open>Null_deref\<close>, ...), and \<open>Inr\<close> otherwise; code that may
  not terminate has \<open>None\<close> for a run that does not return. Structures are records, buffers lists of
  bytes, globals fields of a state that is passed on. The allocator, the places of the protocol
  state and of the stack, and the processor that runs generated code are fields of \<open>platform\<close>, an
  argument; theorems that need an allocation to succeed say so. Whether an allocation succeeds is a function of
  its size, the same throughout a call; theorems over time take a platform per call or a bound. The protocol
  state is aligned as an \<open>int\<close> and the stack as a \<open>u64\<close>, as their types require, and an access of the
  interpreter that is not aligned for its size is undefined (\<open>Misaligned\<close>). An array of code is taken to be
  aligned for the instructions that are read from it.

  \<^bold>\<open>The theories, in the order of the code.\<close>

  \<^item> \<open>Prelude\<close>: words, undefined behaviour and its monads (\<open>c_bind\<close>, \<open>m_bind\<close>, the rules \<open>returns_rules\<close>),
    little-endian layout, bounded reads of buffers.

  \<^item> \<open>Ebpf_Inst\<close>, \<open>Ebpf_Vm\<close>: \<^verbatim>\<open>libebpf/ebpf-src/ebpf_inst.h\<close>, \<^verbatim>\<open>ebpf_vm.c\<close>. Instructions and the interpreter,
    whose loop \<open>ebpf_vm_loop\<close> is a partial function: no bound on its iterations is chosen, and the
    theorems that a run returns are proved as such.

  \<^item> \<open>Fsm_State\<close>, \<open>Policy_Code\<close>: \<^verbatim>\<open>include/fsm_core.h\<close>, \<^verbatim>\<open>policy/ebpf_bytecode\<close>, \<^verbatim>\<open>policy/ebpf_C_code\<close>. The
    protocol state with its byte layout and the ten shipped policies, as bytecode and as the C
    functions they were compiled from; the two agree on every state.

  \<^item> \<open>Policy_Verifier\<close>: \<open>ifw_verify_policy\<close> of \<^verbatim>\<open>policy/src/fsm_policy_cache.c\<close>, a declarative reading of it,
    what it guarantees (accepted programs stop and do not write), the conditions under which they
    also have no undefined behaviour (\<open>policy_safe\<close>), and the programs it should refuse: endless loops, loads
    from any address and divisions by zero.

  \<^item> \<open>Thumb2\<close>, \<open>Jit_Emit\<close>, \<open>Jit\<close>: \<^verbatim>\<open>jit_thumb2.h\<close>, \<^verbatim>\<open>jit_thumb2.c\<close>, \<^verbatim>\<open>jit.c\<close>. Encoders, emitters and the two passes
    of the compiler. The passes lay the code out alike; the buffer is too small for two of the
    shipped policies.

  \<^item> \<open>Policy_Cache\<close>: the rest of \<^verbatim>\<open>fsm_policy_cache.c\<close>: registration, loading, dispatch, installation. The
    locale \<open>policy_engine\<close> states what dispatch needs of running one policy and gives the verdict of
    a list; it is interpreted on the engines of both ports.

  \<^item> \<open>Fsm_Core\<close>: \<^verbatim>\<open>core/fsm_core.c\<close>. The committed and the candidate state. The locale \<open>fsm_checker\<close> is what the
    hooks rely on; its interpretation \<open>core\<close> carries their proofs.

  \<^item> \<open>Ll_Parser\<close>, \<open>L2cap_Parser\<close>: \<^verbatim>\<open>core/fsm_ll_pkt_parser.c\<close>, \<^verbatim>\<open>core/fsm_l2cap_pkt_parser.c\<close> and the functions of
    the host they call. The link layer hooks refine the machine \<open>ll_step\<close>, for every sequence of
    packets; of the L2CAP hook it is shown what it decides and why it never decides it.

  \<^item> \<open>Channel_Sel\<close>, \<open>Slave_Setup\<close>: \<^verbatim>\<open>controller/ll_sw/lll_chan.c\<close> and, of \<^verbatim>\<open>ull_slave.c\<close>, \<^verbatim>\<open>lll_slave.c\<close> and \<^verbatim>\<open>ull_conn.c\<close>, the
    code that works with the fields the connection checks look at. Every connection the hook accepts is
    set up without undefined behaviour and hops over enabled channels, its receive window is exact
    for the intervals the specification allows, and silence ends it unless its timeout is zero,
    which the firewall does not check.

  \<^item> \<open>Ll_Control\<close>, \<open>Ll_Events\<close>: the control procedures of a peripheral in \<^verbatim>\<open>ull_conn.c\<close>: \<open>ctrl_rx\<close> with the handler of
    every control packet, \<open>ull_conn_rx\<close> and the demultiplexer after the hook; \<open>ull_conn_llcp\<close> with the procedures at an event,
    \<open>prepare_cb\<close>, \<open>ctrl_tx_ack\<close>, \<open>ull_conn_done\<close> and the commands of the host. The context of a connection is the record \<open>ll_conn\<close>, with
    the union of the procedures as bytes, since procedures overwrite each other there; a failed \<open>LL_ASSERT\<close> is \<open>Inl Assert_failed\<close>. A run is
    a list of \<open>conn_step\<close>s, each with the free nodes it finds; its result lists the channels used.

  \<^item> \<open>Ll_Control_Safe\<close>: the invariant \<open>ctl_inv\<close>, which ties the state of the procedures to the counters of the firewall, and that every
    handler, event, acknowledgement and plain command keeps it without undefined behaviour.

  \<^item> \<open>Ll_Connections\<close>, \<open>Ll_Encryption\<close>: what follows for runs. An accepted connection runs safely and hops over the map in force; a channel map
    takes effect at its instant; a connection update is applied as requested; the encryption procedure gives both sides the same
    session, and two controllers agree on the data length. Against that, every connection update stops the controller by a line
    that was added with the hook, a response nobody asked for defeats the check of repeated requests, and a length request
    that was answered keeps later ones from being accepted.

  \<^item> \<open>Patch_Service\<close>: \<^verbatim>\<open>peripheral/src/firewall_patch.c\<close>. The locale \<open>patch_protocol\<close> is the wire protocol; pushing
    a policy in pieces is shown once in it, for the services of both ports. Sequences of writes are
    undefined exactly where a list node that could not be allocated is written to.

  \<^item> \<open>Allocator\<close>, \<open>Array_Map\<close>, \<open>Hash_Map\<close>, \<open>Ebpf_Env\<close>: the containers of \<^verbatim>\<open>libebpf\<close> (\<^verbatim>\<open>ebpf_allocator.c\<close>, \<^verbatim>\<open>map.c\<close>,
    \<^verbatim>\<open>ebpf_map.c\<close>, \<^verbatim>\<open>ebpf_env.c\<close>). The locale \<open>guarded_map\<close> says that a structure behaves like a map on
    sequences of operations that meet a condition; its interpretation shows which condition the array map
    needs. The hash map keeps pointers to its keys: its operations take the strings in memory, and
    a sequence of them refines a map on strings while stored keys are not overwritten. It frees nodes to a heap they are
    not from in the build of the firewall, so there it cannot delete.

  \<^item> \<open>Mbuf\<close>, \<open>Nimble_Policy\<close>, \<open>Nimble_Core\<close>, \<open>Nimble_Patch\<close>: the NimBLE port. Its definitions have the prefix \<open>nim_\<close>
    where a function of the same name exists in the Zephyr port; files with the text of the Zephyr
    port have no definitions of their own. Its bytecode was compiled against another layout, with
    the effect that all connections and no pairings are rejected.

  \<^item> this theory: a policy pushed over the air to the Zephyr port takes effect in the hooks.

  \<^bold>\<open>Bounds.\<close> Sequences of packets at the link layer hook are shorter than 2^31, since the counters of
  pending requests are C integers; runs of a connection have fewer than 2^16 steps, since the policies look at the
  low 16 bits of these counters. There are no other bounds on the length of a run. The theorem on the
  compiler's passes asks for at most 2048 bytes of code, the reach of a branch. The theorems on the
  verdicts of loaded policies are about interpreted policies.

  \<^bold>\<open>Not modelled.\<close> The execution of generated code, for want of a model of the processor in the sources;
  it is the field \<open>run_native\<close>. The static memory variant of the compiler, its dump and its tests. The
  stacks around the hooks: radio scheduling with its ticker times and window offsets, the order of control and data packets in the transmit queues, the
  central role, attribute servers, pairing. The block cipher and the random numbers of the encryption procedure are arguments. The
  timing utilities, which access hardware counters, and the experiments, tests, examples and scripts. Constants that the
  sources define by a macro are often abbreviations with the name of the macro. \<open>struct os_mbuf\<close> is its
  contents, and packet buffers are only copied from.
\<close>

section \<open>From the radio to the verdict\<close>

lemma run_verifier_of_check:
  assumes "run_fsm_check_policy pl (uint ty) (uint cls) (fsm_bytes (newFSMState f)) (policies f) = Some (Inr (r, bs, ps))"
  shows "\<exists>f'. IFW_RUN_VERIFIER pl ty cls f = Some (Inr (r = IFW_OPERATION_REJECT, f'))"
  using assms by (auto simp: IFW_RUN_VERIFIER_def ifw_run_verifier_def Let_def ifw_codes)

lemma boot_policies:
  assumes "firewall_boot pl = Inr s" "\<forall>n. alloc_ok pl n"
  shows "policies_loaded (policies (fw s))" "policy_mgr_init (policies (fw s))" "vm_ready pl (policies (fw s))"
    "runtime_policy_count (policies (fw s)) = 0" "wf_policies (policies (fw s))"
proof -
  obtain st where st: "load_all_policies pl policy_state_init = Inr st" "policies_loaded st"
      "policy_mgr_init st" "g_vm st = None" "runtime_policy_count st = 0"
    using load_all_policies_ok [of pl] assms(2) by auto
  have "policies (fw s) = st"
    using assms(1) st(1)
    by (auto simp: firewall_boot_def ifw_fsm_enable_def ifw_fsm_init_def fw_state_init_def Let_def)
  then show "policies_loaded (policies (fw s))" "policy_mgr_init (policies (fw s))" "vm_ready pl (policies (fw s))"
    "runtime_policy_count (policies (fw s)) = 0" "wf_policies (policies (fw s))"
    using st assms(2) policy_reach_wf policy_reach.load [OF policy_reach.init st(1)] by (auto simp: vm_ready_def)
qed

text \<open>
  C1: a policy pushed over the air takes effect in the hooks. If all allocations succeed, then after start-up a
  header write, body writes and a commit with the bytes of a safe policy that fit the staging buffer, however
  they are cut, report success; from then on every check on every protocol state returns, and rejects exactly
  if the C source of the policy shipped for the slot rejects, or the slot is the one patched and
  the pushed program returns a rejection on that state.
\<close>

theorem pushed_policy_takes_effect:
  assumes "firewall_boot pl = Inr s" "\<forall>n. alloc_ok pl n"
    and "policy_safe sizeof_FsmState (concat bss)" "length (concat bss) \<le> BSWAT_STAGING_MAX"
    and "slot_in_range (uint c) (uint t)" "wf_fsm fsm" "slot_in_range (uint cls) (uint ty)"
  shows "\<exists>p v f. patch_session pl (Header [c, t] 0 # map (\<lambda>b. Body b 0) bss @ [Commit [x] 0])
      (patch_state_init (policies (fw s))) = Inr p \<and>
    read_status 4 0 p = (4, [0, 0, 0, 0]) \<and>
    ebpf_vm_exec (ebpf_vm_set_inst ebpf_vm_zero (Some (concat bss)) (word_of_nat (length (concat bss)))) None
      (state_addr pl) (fsm_bytes fsm) 64 (stack_addr pl) = Some (Inr (v, fsm_bytes fsm)) \<and>
    IFW_RUN_VERIFIER pl ty cls ((fw s)\<lparr>newFSMState := fsm, policies := patch_policies p\<rparr>) =
      Some (Inr (source_verdict (uint cls) (uint ty) fsm = IFW_OPERATION_REJECT \<or>
                 uint cls = uint c \<and> uint ty = uint t \<and> v = IFW_OPERATION_REJECT, f))"
proof -
  let ?st = "policies (fw s)" and ?code = "concat bss" and ?bs = "fsm_bytes fsm"
  note boot = boot_policies [OF assms(1,2)]
  obtain ps where inst: "ifw_install_policy pl (uint c) (uint t) (Some ?code) ?st = Inr (0, ps)"
    using install_policy_succeeds [OF assms(2,5)] assms(3) boot(4)
    by (force simp: policy_safe_def IFW_MAX_RUNTIME_POLICIES_def)
  have "patch_wf (patch_state_init ?st)" "patch_policies (patch_state_init ?st) = ?st"
    by (simp_all add: patch_wf_def patch_state_init_def)
  then obtain p where p: "patch_session pl (Header [c, t] 0 # map (\<lambda>b. Body b 0) bss @ [Commit [x] 0])
        (patch_state_init ?st) = Inr p" "patch_policies p = ps" "last_install_rc p = 0"
    using patch_push [OF _ assms(4), of "patch_state_init ?st" pl c t 0 ps x] inst by auto
  have usable: "\<forall>k. \<forall>pid \<in> set (policy_manager ?st k). slot_usable pl ?st pid ?bs"
    using loaded_verdict(1) [OF boot(1) assms(6)] by auto
  obtain v where v: "slot_run pl \<lparr>pc_size = int (length ?code), pc_code = Some ?code, pc_jit = False\<rparr> ?bs = Some (Inr (v, ?bs))"
      "\<And>c' t'. slot_in_range c' t' \<Longrightarrow> \<exists>r st1 st2.
        run_fsm_check_policy pl t' c' ?bs ?st = Some (Inr (r, ?bs, st1)) \<and>
        run_fsm_check_policy pl t' c' ?bs ps =
          Some (Inr (if (c', t') = (uint c, uint t) \<and> v = IFW_OPERATION_REJECT then IFW_OPERATION_REJECT else r, ?bs, st2))"
    using install_extends [OF inst boot(5,2,3) assms(3) _ usable] by (auto simp: length_fsm_bytes [OF assms(6)])
  obtain st1 where "run_fsm_check_policy pl (uint ty) (uint cls) ?bs ?st =
      Some (Inr (if source_verdict (uint cls) (uint ty) fsm = IFW_OPERATION_REJECT
                 then IFW_OPERATION_REJECT else IFW_OPERATION_PASS, ?bs, st1))"
    using loaded_check [OF boot(1,3) assms(7,6)] by blast
  with v(2) [OF assms(7)] obtain r st2 where "run_fsm_check_policy pl (uint ty) (uint cls) ?bs ps = Some (Inr (r, ?bs, st2))"
      "r = IFW_OPERATION_REJECT \<longleftrightarrow> source_verdict (uint cls) (uint ty) fsm = IFW_OPERATION_REJECT \<or>
         uint cls = uint c \<and> uint ty = uint t \<and> v = IFW_OPERATION_REJECT"
    by (auto simp: ifw_codes split: if_splits)
  then obtain f where "IFW_RUN_VERIFIER pl ty cls ((fw s)\<lparr>newFSMState := fsm, policies := ps\<rparr>) =
      Some (Inr (source_verdict (uint cls) (uint ty) fsm = IFW_OPERATION_REJECT \<or>
                 uint cls = uint c \<and> uint ty = uint t \<and> v = IFW_OPERATION_REJECT, f))"
    using run_verifier_of_check [of pl ty cls "(fw s)\<lparr>newFSMState := fsm, policies := ps\<rparr>"] by auto
  moreover have "read_status 4 0 p = (4, [0, 0, 0, 0])"
    using p(3) by (simp add: read_status_def bt_gatt_attr_read_def le_bytes_def upt_rec)
  ultimately show ?thesis using p(1,2) v(1) by (auto simp: slot_run_def)
qed

theorem pushed_policy_takes_effect_witness:
  "\<exists>s p f. firewall_boot platform_example = Inr s \<and>
     patch_session platform_example [Header [4, 1] 0, Body (butlast spi_acl_len) 0, Commit [1] 0]
       (patch_state_init (policies (fw s))) = Inr p \<and> read_status 4 0 p = (4, [0, 0, 0, 0]) \<and>
     IFW_RUN_VERIFIER platform_example 1 2 ((fw s)\<lparr>newFSMState := fsm_zero, policies := patch_policies p\<rparr>) =
       Some (Inr (True, f))"
proof -
  obtain s where s: "firewall_boot platform_example = Inr s" using boot_example by blast
  have "source_verdict 2 1 fsm_zero = IFW_OPERATION_REJECT"
    by (simp add: source_verdict_def loaded_table_def slot_key_def policy_filter_defs fsm_zero_def ifw_codes)
  moreover have "policy_safe sizeof_FsmState (butlast spi_acl_len)" "length (butlast spi_acl_len) \<le> BSWAT_STAGING_MAX"
    using shipped_safe(9) by (simp_all add: sizeof_FsmState_def spi_acl_len_def BSWAT_STAGING_MAX_def)
  ultimately show ?thesis
    using pushed_policy_takes_effect [OF s, of "[butlast spi_acl_len]" 4 1 fsm_zero 2 1 1] s
    by (auto simp: slot_in_range_def)
qed

end
